(* ===== verification/Prelude.thy ===== *)
theory Prelude
  imports Complex_Main "HOL-Library.Char_ord" "HOL-Library.List_Lexorder"
begin

text \<open>
  Shared vocabulary of the development.

  \<^item> Python values: exceptions and results (\<open>exc\<close>, \<open>'a res\<close>), the text operations the
    sources use (\<open>str.strip\<close>, \<open>str.rstrip\<close>, \<open>str.casefold\<close>, \<open>str.split\<close>,
    \<open>in\<close>, \<open>dict.fromkeys\<close>), each on \<open>string\<close>: one \<open>char\<close> is one code point
    below 256, so every text of the model is a Latin-1 text.
  \<^item> SQLite statements on a table held as a list of rows: \<open>update_where\<close>,
    \<open>delete_where\<close>, \<open>rowcount\<close>, \<open>first_row\<close>.
  \<^item> The proof collections \<open>sql_simps\<close> (how the statements act on a table) and
    \<open>res_simps\<close> (how results compose), and the lemmas on lists the components share.
\<close>

section \<open>Results and exceptions\<close>

text \<open>One constructor per exception class the modelled code raises; the string is the message.\<close>

datatype exc =
    ValueError string
  | TypeError string
  | RuntimeError string
  | PermissionError string
  | UnknownMemoryClient string
  | IdempotencyConflict string
  | ClientIdentityConflict string
  | SessionContextConflict string
  | StateSlotInvariantError string
  | IntegrityError string
  | ErasureError string
  | StoredEmbeddingError string
  | PermanentExtractionError string string
  | IndexError string
  | KeyError string
  | ServiceRequestError string string
  | ProtocolValidationError string
  | FrameTooLargeError string
  | ProtocolVersionMismatch string
  | OperationalError string
  | OverflowError string
  | AttributeError string
  | ExtractorError "string option"
  | GuardRailError string

type_synonym 'a res = "exc + 'a"

text \<open>Sequencing: the first exception is the result of the whole block.\<close>

definition rbind :: "'a res \<Rightarrow> ('a \<Rightarrow> 'b res) \<Rightarrow> 'b res" where
  "rbind m k = (case m of Inl e \<Rightarrow> Inl e | Inr a \<Rightarrow> k a)"

definition guard_res :: "bool \<Rightarrow> exc \<Rightarrow> unit res" where
  "guard_res ok e = (if ok then Inr () else Inl e)"

text \<open>A list comprehension whose element expression may raise.\<close>

fun map_res :: "('a \<Rightarrow> 'b res) \<Rightarrow> 'a list \<Rightarrow> 'b list res" where
  "map_res f [] = Inr []"
| "map_res f (x # xs) = rbind (f x) (\<lambda>y. rbind (map_res f xs) (\<lambda>ys. Inr (y # ys)))"

section \<open>Python text\<close>

text \<open>The code points below 256 for which \<open>str.isspace\<close> holds (also the class \<open>\s\<close>).\<close>

definition py_whitespace :: "char list" where
  "py_whitespace =
     [CHR 0x09, CHR 0x0A, CHR 0x0B, CHR 0x0C, CHR 0x0D, CHR 0x1C, CHR 0x1D, CHR 0x1E, CHR 0x1F,
      CHR 0x20, CHR 0x85, CHR 0xA0]"

definition py_isspace :: "char \<Rightarrow> bool" where
  "py_isspace c \<longleftrightarrow> c \<in> set py_whitespace"

definition py_lstrip :: "string \<Rightarrow> string" where
  "py_lstrip s = dropWhile py_isspace s"

definition py_rstrip :: "string \<Rightarrow> string" where
  "py_rstrip s = rev (dropWhile py_isspace (rev s))"

definition py_strip :: "string \<Rightarrow> string" where
  "py_strip s = py_rstrip (py_lstrip s)"

text \<open>
  \<open>str.lower\<close> on code points below 256: the ASCII letters and the letters from 0xC0 to
  0xDE but the multiplication sign. \<open>str.casefold\<close> differs from it below 256 at 0xDF,
  which becomes two letters, and at 0xB5, which leaves the range and is kept here.
\<close>

definition char_lower :: "char \<Rightarrow> char" where
  "char_lower c =
     (let n = (of_char c :: nat)
      in if (65 \<le> n \<and> n \<le> 90) \<or> (192 \<le> n \<and> n \<le> 222 \<and> n \<noteq> 215) then char_of (n + 32) else c)"

definition py_lower :: "string \<Rightarrow> string" where
  "py_lower s = map char_lower s"

definition py_casefold :: "string \<Rightarrow> string" where
  "py_casefold s = concat (map (\<lambda>c. if c = CHR 0xDF then ''ss'' else [char_lower c]) s)"

definition is_lower_az :: "char \<Rightarrow> bool" where
  "is_lower_az c \<longleftrightarrow> (let n = (of_char c :: nat) in 97 \<le> n \<and> n \<le> 122)"

definition is_upper_az :: "char \<Rightarrow> bool" where
  "is_upper_az c \<longleftrightarrow> (let n = (of_char c :: nat) in 65 \<le> n \<and> n \<le> 90)"

definition is_digit09 :: "char \<Rightarrow> bool" where
  "is_digit09 c \<longleftrightarrow> (let n = (of_char c :: nat) in 48 \<le> n \<and> n \<le> 57)"

text \<open>Code equations on the bits of a character, for evaluation.\<close>

lemma is_lower_az_code [code]:
  "is_lower_az (Char b0 b1 b2 b3 b4 b5 b6 b7) \<longleftrightarrow>
     \<not> b7 \<and> b6 \<and> b5 \<and> (b0 \<or> b1 \<or> b2 \<or> b3 \<or> b4) \<and> \<not> (b4 \<and> b3 \<and> (b2 \<or> (b1 \<and> b0)))"
  by (cases b0; cases b1; cases b2; cases b3; cases b4; cases b5; cases b6; cases b7)
    (simp_all add: is_lower_az_def)

lemma is_upper_az_code [code]:
  "is_upper_az (Char b0 b1 b2 b3 b4 b5 b6 b7) \<longleftrightarrow>
     \<not> b7 \<and> b6 \<and> \<not> b5 \<and> (b0 \<or> b1 \<or> b2 \<or> b3 \<or> b4) \<and> \<not> (b4 \<and> b3 \<and> (b2 \<or> (b1 \<and> b0)))"
  by (cases b0; cases b1; cases b2; cases b3; cases b4; cases b5; cases b6; cases b7)
    (simp_all add: is_upper_az_def)

lemma is_digit09_code [code]:
  "is_digit09 (Char b0 b1 b2 b3 b4 b5 b6 b7) \<longleftrightarrow> \<not> b7 \<and> \<not> b6 \<and> b5 \<and> b4 \<and> \<not> (b3 \<and> (b2 \<or> b1))"
  by (cases b0; cases b1; cases b2; cases b3; cases b4; cases b5; cases b6; cases b7)
    (simp_all add: is_digit09_def)

lemma char_lower_code [code]:
  "char_lower (Char b0 b1 b2 b3 b4 b5 b6 b7) =
     (if b6 \<and> \<not> b5 \<and> (if b7 then \<not> (b4 \<and> b2 \<and> b1 \<and> b0)
                       else (b0 \<or> b1 \<or> b2 \<or> b3 \<or> b4) \<and> \<not> (b4 \<and> b3 \<and> (b2 \<or> (b1 \<and> b0))))
      then Char b0 b1 b2 b3 b4 True b6 b7 else Char b0 b1 b2 b3 b4 b5 b6 b7)"
  by (cases b0; cases b1; cases b2; cases b3; cases b4; cases b5; cases b6; cases b7)
    (simp_all add: char_lower_def char_of_def bit_0)

lemma ascii_char: "\<not> digit7 c \<Longrightarrow> of_char c < (128::nat)"
  by (cases c) simp

text \<open>\<open>needle in hay\<close> for texts, \<open>s.startswith(p)\<close> and \<open>s.endswith(p)\<close>.\<close>

fun starts_with :: "string \<Rightarrow> string \<Rightarrow> bool" where
  "starts_with [] s = True"
| "starts_with (c # p) [] = False"
| "starts_with (c # p) (d # s) = (c = d \<and> starts_with p s)"

definition ends_with :: "string \<Rightarrow> string \<Rightarrow> bool" where
  "ends_with p s = starts_with (rev p) (rev s)"

fun str_contains :: "string \<Rightarrow> string \<Rightarrow> bool" where
  "str_contains p [] = (p = [])"
| "str_contains p (c # s) = (starts_with p (c # s) \<or> str_contains p s)"

text \<open>\<open>s.split(sep)\<close> for a one-character separator.\<close>

fun py_split :: "char \<Rightarrow> string \<Rightarrow> string list" where
  "py_split sep [] = [[]]"
| "py_split sep (c # s) =
     (if c = sep then [] # py_split sep s
      else (case py_split sep s of [] \<Rightarrow> [[c]] | w # ws \<Rightarrow> (c # w) # ws))"

fun py_join :: "string \<Rightarrow> string list \<Rightarrow> string" where
  "py_join sep [] = []"
| "py_join sep [w] = w"
| "py_join sep (w # v # ws) = w @ sep @ py_join sep (v # ws)"

text \<open>\<open>dict.fromkeys(xs)\<close>: the first occurrence of each element, in order.\<close>

fun dict_fromkeys :: "'a list \<Rightarrow> 'a list" where
  "dict_fromkeys [] = []"
| "dict_fromkeys (x # xs) = x # filter (\<lambda>y. y \<noteq> x) (dict_fromkeys xs)"

text \<open>
  The helper \<open>_required\<close> of \<open>state_slots.py\<close> and \<open>provenance.py\<close>, and
  \<open>_required_text\<close> of \<open>core_store.py\<close>, which has the same body.
\<close>

definition py_required :: "string \<Rightarrow> string \<Rightarrow> string res" where
  "py_required value name =
     (let v = py_strip value
      in if v = [] then Inl (ValueError (name @ '' must not be empty'')) else Inr v)"

section \<open>Statements on tables\<close>

text \<open>\<open>UPDATE t SET u WHERE P\<close>, \<open>DELETE FROM t WHERE P\<close>, and the cursor's \<open>rowcount\<close>.\<close>

definition update_where :: "('r \<Rightarrow> bool) \<Rightarrow> ('r \<Rightarrow> 'r) \<Rightarrow> 'r list \<Rightarrow> 'r list" where
  "update_where P u rs = map (\<lambda>r. if P r then u r else r) rs"

definition delete_where :: "('r \<Rightarrow> bool) \<Rightarrow> 'r list \<Rightarrow> 'r list" where
  "delete_where P rs = filter (\<lambda>r. \<not> P r) rs"

definition rowcount :: "('r \<Rightarrow> bool) \<Rightarrow> 'r list \<Rightarrow> nat" where
  "rowcount P rs = length (filter P rs)"

text \<open>\<open>SELECT ... WHERE P\<close> with \<open>fetchone\<close>.\<close>

definition first_row :: "('r \<Rightarrow> bool) \<Rightarrow> 'r list \<Rightarrow> 'r option" where
  "first_row P rs = (case filter P rs of [] \<Rightarrow> None | r # _ \<Rightarrow> Some r)"

text \<open>The next \<open>INTEGER PRIMARY KEY\<close> of a table without \<open>AUTOINCREMENT\<close>.\<close>

definition next_rowid :: "int list \<Rightarrow> int" where
  "next_rowid ids = (if ids = [] then 1 else Max (set ids) + 1)"

definition is_some :: "'a option \<Rightarrow> bool" where
  "is_some x \<longleftrightarrow> x \<noteq> None"

text \<open>Python's truth value of an optional text: \<open>None\<close> and the empty text are false.\<close>

definition truthy :: "string option \<Rightarrow> bool" where
  "truthy x = (case x of None \<Rightarrow> False | Some s \<Rightarrow> s \<noteq> [])"

section \<open>Proof collections and shared lemmas\<close>

named_theorems sql_simps "how the modelled statements act on a table"
named_theorems res_simps "how results compose"

lemma rbind_Inl [simp, res_simps]: "rbind (Inl e) k = Inl e"
  by (simp add: rbind_def)

lemma rbind_Inr [simp, res_simps]: "rbind (Inr a) k = k a"
  by (simp add: rbind_def)

lemma rbind_eq_Inr [res_simps]: "rbind m k = Inr b \<longleftrightarrow> (\<exists>a. m = Inr a \<and> k a = Inr b)"
  by (cases m) auto

lemma rbind_eq_Inl [res_simps]:
  "rbind m k = Inl e \<longleftrightarrow> m = Inl e \<or> (\<exists>a. m = Inr a \<and> k a = Inl e)"
  by (cases m) auto

lemma guard_res_Inr [simp, res_simps]: "guard_res ok e = Inr u \<longleftrightarrow> ok"
  by (simp add: guard_res_def)

lemma guard_res_Inl [simp, res_simps]: "guard_res ok e = Inl e' \<longleftrightarrow> \<not> ok \<and> e' = e"
  by (auto simp add: guard_res_def)

lemma map_res_Inr_iff:
  "map_res f xs = Inr ys \<longleftrightarrow> list_all2 (\<lambda>x y. f x = Inr y) xs ys"
proof (induction xs arbitrary: ys)
  case Nil
  then show ?case by auto
next
  case (Cons x xs)
  show ?case
    by (cases ys) (auto simp: rbind_eq_Inr Cons.IH)
qed

lemma set_update_where [sql_simps]:
  "set (update_where P u rs) = {r \<in> set rs. \<not> P r} \<union> u ` {r \<in> set rs. P r}"
  by (auto simp: update_where_def image_iff)

lemma length_update_where [simp, sql_simps]: "length (update_where P u rs) = length rs"
  by (simp add: update_where_def)

lemma update_where_Nil [simp]: "update_where P u [] = []"
  by (simp add: update_where_def)

lemma update_where_Cons [simp]:
  "update_where P u (r # rs) = (if P r then u r else r) # update_where P u rs"
  by (simp add: update_where_def)

lemma update_where_append [simp]:
  "update_where P u (xs @ ys) = update_where P u xs @ update_where P u ys"
  by (simp add: update_where_def)

lemma map_update_where:
  "(\<And>r. P r \<Longrightarrow> k (u r) = k r) \<Longrightarrow> map k (update_where P u rs) = map k rs"
  by (auto simp: update_where_def)

lemma update_where_none: "(\<And>r. r \<in> set rs \<Longrightarrow> \<not> P r) \<Longrightarrow> update_where P u rs = rs"
  by (induction rs) auto

lemma rowcount_Nil [simp]: "rowcount P [] = 0"
  by (simp add: rowcount_def)

lemma rowcount_Cons [simp]: "rowcount P (r # rs) = (if P r then 1 else 0) + rowcount P rs"
  by (simp add: rowcount_def)

lemma rowcount_0_iff: "rowcount P rs = 0 \<longleftrightarrow> (\<forall>r \<in> set rs. \<not> P r)"
  by (auto simp: rowcount_def filter_empty_conv)

lemma rowcount_pos_ex: "rowcount P rs = Suc n \<Longrightarrow> \<exists>r \<in> set rs. P r"
  by (induction rs arbitrary: n) (auto split: if_splits)

lemma distinct_key_inj:
  "distinct (map k rs) \<Longrightarrow> r \<in> set rs \<Longrightarrow> s \<in> set rs \<Longrightarrow> k s = k r \<Longrightarrow> s = r"
  by (metis distinct_map inj_onD)

lemma filter_distinct_one:
  assumes d: "distinct (map k rs)" and r: "r \<in> set rs" "P r"
    and only: "\<And>s. s \<in> set rs \<Longrightarrow> P s \<Longrightarrow> k s = k r"
  shows "filter P rs = [r]"
proof -
  have "s = r" if "s \<in> set rs" "P s" for s
    using distinct_key_inj [OF d r(1) that(1)] only [OF that] by blast
  then have "{s \<in> set rs. P s} = {r}" using r by blast
  then have "set (filter P rs) = {r}" by simp
  moreover have "distinct (filter P rs)"
    using d by (simp add: distinct_map)
  ultimately show ?thesis
    by (metis distinct.simps(2) empty_iff insert_iff list.exhaust list.set(1) list.set_intros(1,2))
qed

lemma rowcount_distinct_one:
  assumes "distinct (map k rs)" and "r \<in> set rs" and "P r"
    and "\<And>s. s \<in> set rs \<Longrightarrow> P s \<Longrightarrow> k s = k r"
  shows "rowcount P rs = 1"
  using filter_distinct_one [where k = k and P = P, OF assms] by (simp add: rowcount_def)

lemma first_row_Some:
  "first_row P rs = Some r \<Longrightarrow> r \<in> set rs \<and> P r"
  unfolding first_row_def
  by (cases "filter P rs") (auto dest!: arg_cong [where f = set])

lemma first_row_None_iff: "first_row P rs = None \<longleftrightarrow> (\<forall>r \<in> set rs. \<not> P r)"
  by (induction rs) (auto simp: first_row_def)

lemma first_row_Nil [simp]: "first_row P [] = None"
  by (simp add: first_row_def)

lemma first_row_Cons [simp]: "first_row P (r # rs) = (if P r then Some r else first_row P rs)"
  by (simp add: first_row_def)

lemma first_row_append:
  "first_row P (xs @ ys) = (case first_row P xs of None \<Rightarrow> first_row P ys | Some r \<Rightarrow> Some r)"
  by (induction xs) auto

lemma first_row_distinct:
  assumes "distinct (map k rs)" and "r \<in> set rs" and "P r"
    and "\<And>s. s \<in> set rs \<Longrightarrow> P s \<Longrightarrow> k s = k r"
  shows "first_row P rs = Some r"
  using filter_distinct_one [where k = k and P = P, OF assms] by (simp add: first_row_def)

lemma set_dict_fromkeys [simp]: "set (dict_fromkeys xs) = set xs"
  by (induction xs) auto

lemma distinct_dict_fromkeys [simp]: "distinct (dict_fromkeys xs)"
  by (induction xs) auto

lemma dict_fromkeys_Nil_iff [simp]: "dict_fromkeys xs = [] \<longleftrightarrow> xs = []"
  by (cases xs) auto

lemma next_rowid_fresh: "next_rowid ids \<notin> set ids"
  by (auto simp: next_rowid_def)
    (meson List.finite_set Max_ge not_less zless_add1_eq)

lemma py_required_Inr: "py_required v n = Inr w \<Longrightarrow> w = py_strip v \<and> w \<noteq> []"
  by (auto simp: py_required_def Let_def split: if_splits)

lemma py_lstrip_Cons:
  "py_lstrip (c # s) = (if py_isspace c then py_lstrip s else c # s)"
  by (simp add: py_lstrip_def)

lemma py_rstrip_snoc:
  "py_rstrip (s @ [c]) = (if py_isspace c then py_rstrip s else s @ [c])"
  by (simp add: py_rstrip_def)

lemma py_rstrip_prefix: "\<exists>t. s = py_rstrip s @ t \<and> (\<forall>c \<in> set t. py_isspace c)"
proof -
  have "s = rev (takeWhile py_isspace (rev s) @ dropWhile py_isspace (rev s))" by simp
  then have "s = py_rstrip s @ rev (takeWhile py_isspace (rev s))"
    by (simp only: rev_append py_rstrip_def)
  moreover have "\<forall>c \<in> set (rev (takeWhile py_isspace (rev s))). py_isspace c"
    by (auto dest: set_takeWhileD)
  ultimately show ?thesis by blast
qed

lemma length_py_rstrip_le: "length (py_rstrip s) \<le> length s"
  unfolding py_rstrip_def by (metis length_dropWhile_le length_rev)

lemma py_rstrip_idem [simp]: "py_rstrip (py_rstrip s) = py_rstrip s"
  by (simp add: py_rstrip_def)

lemma py_strip_lstrip_hd:
  "py_strip s \<noteq> [] \<Longrightarrow> \<not> py_isspace (hd (py_strip s))"
proof -
  assume ne: "py_strip s \<noteq> []"
  obtain t where t: "py_lstrip s = py_strip s @ t"
    using py_rstrip_prefix [of "py_lstrip s"] by (auto simp: py_strip_def)
  with ne have "hd (py_lstrip s) = hd (py_strip s)" and "py_lstrip s \<noteq> []"
    by (auto simp: t)
  then show ?thesis by (metis hd_dropWhile py_lstrip_def)
qed

text \<open>Stripping twice changes nothing: every cleaned field is a fixed point.\<close>

lemma py_strip_idem [simp]: "py_strip (py_strip s) = py_strip s"
proof (cases "py_strip s")
  case Nil
  then show ?thesis by (simp only: Nil) (simp add: py_strip_def py_lstrip_def py_rstrip_def)
next
  case (Cons c t)
  then have "\<not> py_isspace c" using py_strip_lstrip_hd [of s] by simp
  with Cons have "py_lstrip (py_strip s) = py_strip s" by (simp add: py_lstrip_Cons)
  then show ?thesis by (simp add: py_strip_def)
qed

lemma py_required_again: "py_required v n = Inr w \<Longrightarrow> py_required w m = Inr w"
  by (auto simp: py_required_def Let_def split: if_splits)

lemma starts_with_iff: "starts_with p s \<longleftrightarrow> (\<exists>t. s = p @ t)"
  by (induction p s rule: starts_with.induct) auto

lemma str_contains_iff: "str_contains p s \<longleftrightarrow> (\<exists>a b. s = a @ p @ b)"
proof (induction s)
  case Nil
  then show ?case by auto
next
  case (Cons c s)
  show ?case
  proof
    assume "str_contains p (c # s)"
    then show "\<exists>a b. c # s = a @ p @ b"
      using Cons.IH by (auto simp: starts_with_iff) (metis append_Cons append_Nil)+
  next
    assume "\<exists>a b. c # s = a @ p @ b"
    then obtain a b where ab: "c # s = a @ p @ b" by blast
    show "str_contains p (c # s)"
    proof (cases a)
      case Nil
      with ab have "starts_with p (c # s)" by (auto simp: starts_with_iff)
      then show ?thesis by simp
    next
      case (Cons d a')
      with ab have "s = a' @ p @ b" by simp
      then show ?thesis using Cons.IH by auto
    qed
  qed
qed

lemma sort_key_filter_min:
  assumes "filter P (sort_key k rs) = r # ts" and "s \<in> set rs" and "P s"
  shows "k r \<le> k s"
proof -
  have "sorted (map k (filter P (sort_key k rs)))"
    by (simp add: sorted_filter)
  moreover have "s \<in> set (filter P (sort_key k rs))" using assms(2,3) by simp
  ultimately show ?thesis using assms(1) by auto
qed

end
