(* ===== verification/Lease.thy ===== *)
theory Lease
  imports Prelude
begin

text \<open>
  The contract of a leased work queue, shared by the embedding outbox and the extraction queue.
  A worker claims a job under a fresh token, works outside any transaction, and later finishes
  the job by presenting the token. Workers, producers and other writers interleave freely.

  The locale \<open>leased_queue\<close> states what each operation promises about leases; what follows from
  it for every interleaving (a stale worker is fenced off, a job is finished once per claim) is
  proved here once. The queues interpret it on their own definitions.
\<close>

section \<open>Interleavings\<close>

text \<open>
  One committed action on the queue: a claim under a token, an attempt to finish a job under a
  token, or any other statement that touches the queue.
\<close>

datatype ('a, 'b, 'o, 'j, 't) lease_event =
    EvClaim 'a 't
  | EvFinish 'b 'j 't
  | EvOther 'o

fun lease_step ::
  "('a \<Rightarrow> 't \<Rightarrow> 's \<Rightarrow> 'j option \<times> 's) \<Rightarrow> ('b \<Rightarrow> 'j \<Rightarrow> 't \<Rightarrow> 's \<Rightarrow> bool \<times> 's) \<Rightarrow> ('o \<Rightarrow> 's \<Rightarrow> 's)
    \<Rightarrow> ('a, 'b, 'o, 'j, 't) lease_event \<Rightarrow> 's \<Rightarrow> 's" where
  "lease_step claim finish other (EvClaim a t) s = snd (claim a t s)"
| "lease_step claim finish other (EvFinish b j t) s = snd (finish b j t s)"
| "lease_step claim finish other (EvOther x) s = other x s"

fun lease_run ::
  "('a \<Rightarrow> 't \<Rightarrow> 's \<Rightarrow> 'j option \<times> 's) \<Rightarrow> ('b \<Rightarrow> 'j \<Rightarrow> 't \<Rightarrow> 's \<Rightarrow> bool \<times> 's) \<Rightarrow> ('o \<Rightarrow> 's \<Rightarrow> 's)
    \<Rightarrow> ('a, 'b, 'o, 'j, 't) lease_event list \<Rightarrow> 's \<Rightarrow> 's" where
  "lease_run claim finish other [] s = s"
| "lease_run claim finish other (e # es) s =
     lease_run claim finish other es (lease_step claim finish other e s)"

text \<open>Tokens are fresh UUIDs: no later claim uses the token again.\<close>

fun claims_with :: "'t \<Rightarrow> ('a, 'b, 'o, 'j, 't) lease_event \<Rightarrow> bool" where
  "claims_with t (EvClaim a u) = (u = t)"
| "claims_with t e = False"

section \<open>The contract\<close>

locale leased_queue =
  fixes inv :: "'s \<Rightarrow> bool"
    and holds :: "'s \<Rightarrow> 'j \<Rightarrow> 't \<Rightarrow> bool"
    and claim :: "'a \<Rightarrow> 't \<Rightarrow> 's \<Rightarrow> 'j option \<times> 's"
    and finish :: "'b \<Rightarrow> 'j \<Rightarrow> 't \<Rightarrow> 's \<Rightarrow> bool \<times> 's"
    and other :: "'o \<Rightarrow> 's \<Rightarrow> 's"
  assumes claim_inv: "inv s \<Longrightarrow> inv (snd (claim a t s))"
    and finish_inv: "inv s \<Longrightarrow> inv (snd (finish b j t s))"
    and other_inv: "inv s \<Longrightarrow> inv (other x s)"
    and claim_holds: "inv s \<Longrightarrow> claim a t s = (Some j, s') \<Longrightarrow> holds s' j t"
    and claim_sole: "inv s \<Longrightarrow> claim a t s = (Some j, s') \<Longrightarrow> holds s' j u \<Longrightarrow> u = t"
    and claim_frame: "inv s \<Longrightarrow> claim a t s = (r, s') \<Longrightarrow> holds s' i u \<Longrightarrow> u \<noteq> t \<Longrightarrow> holds s i u"
    and finish_needs: "inv s \<Longrightarrow> finish b j t s = (True, s') \<Longrightarrow> holds s j t"
    and finish_ends: "inv s \<Longrightarrow> finish b j t s = (True, s') \<Longrightarrow> \<not> holds s' j t"
    and finish_fails: "finish b j t s = (False, s') \<Longrightarrow> s' = s"
    and finish_frame: "inv s \<Longrightarrow> holds (snd (finish b j t s)) i u \<Longrightarrow> holds s i u"
    and other_frame: "inv s \<Longrightarrow> holds (other x s) i u \<Longrightarrow> holds s i u"
begin

lemma step_inv: "inv s \<Longrightarrow> inv (lease_step claim finish other e s)"
  by (cases e) (auto intro: claim_inv finish_inv other_inv)

lemma run_inv: "inv s \<Longrightarrow> inv (lease_run claim finish other es s)"
  by (induction es arbitrary: s) (auto intro: step_inv)

lemma step_no_new_lease:
  "inv s \<Longrightarrow> \<not> claims_with t e \<Longrightarrow> holds (lease_step claim finish other e s) j t \<Longrightarrow> holds s j t"
proof (cases e)
  case (EvClaim a u)
  assume "inv s" "\<not> claims_with t e" "holds (lease_step claim finish other e s) j t"
  with EvClaim show ?thesis using claim_frame [of s a u _ _ j t] by (cases "claim a u s") auto
qed (auto intro: finish_frame other_frame)

text \<open>Nothing but a claim creates a lease.\<close>

lemma no_new_lease:
  "inv s \<Longrightarrow> \<forall>e \<in> set es. \<not> claims_with t e \<Longrightarrow> holds (lease_run claim finish other es s) j t
   \<Longrightarrow> holds s j t"
proof (induction es arbitrary: s)
  case (Cons e es)
  then have "holds (lease_step claim finish other e s) j t" by (auto intro: step_inv)
  then show ?case using Cons.prems step_no_new_lease by auto
qed simp

text \<open>A lease that is gone stays gone, so presenting its token fails and changes nothing.\<close>

lemma lost_lease:
  assumes "inv s" and "\<not> holds s j t" and "\<forall>e \<in> set es. \<not> claims_with t e"
  shows "finish b j t (lease_run claim finish other es s) = (False, lease_run claim finish other es s)"
proof (cases "finish b j t (lease_run claim finish other es s)")
  case (Pair ok s')
  have "inv (lease_run claim finish other es s)" using assms(1) by (rule run_inv)
  then have "\<not> ok"
    using Pair assms finish_needs no_new_lease by (metis (full_types))
  with Pair show ?thesis using finish_fails by auto
qed

text \<open>Fencing: once another token has claimed the job, the old token is refused for ever.\<close>

lemma fenced:
  assumes "inv s" and "claim a u s = (Some j, s1)" and "t \<noteq> u"
    and "\<forall>e \<in> set es. \<not> claims_with t e"
  shows "finish b j t (lease_run claim finish other es s1) = (False, lease_run claim finish other es s1)"
proof (rule lost_lease [OF _ _ assms(4)])
  show "inv s1" using claim_inv [OF assms(1), of a u] assms(2) by simp
  show "\<not> holds s1 j t" using claim_sole [OF assms(1,2)] assms(3) by blast
qed

text \<open>A claim is finished at most once.\<close>

lemma finished_once:
  assumes "inv s" and "finish b j t s = (True, s1)" and "\<forall>e \<in> set es. \<not> claims_with t e"
  shows "finish b' j t (lease_run claim finish other es s1) = (False, lease_run claim finish other es s1)"
proof (rule lost_lease [OF _ _ assms(3)])
  show "inv s1" using finish_inv [OF assms(1), of b j t] assms(2) by simp
  show "\<not> holds s1 j t" using finish_ends [OF assms(1,2)] .
qed

end

end
