(* ===== verification/Json.thy ===== *)
theory Json
  imports Prelude "HOL-Library.Multiset"
begin

text \<open>
  JSON values and \<open>json.dumps\<close> as the sources call it: key sorting, compact or default
  separators, and \<open>ensure_ascii\<close>. A decoded object is an association list in insertion
  order. The text of a float is a parameter (\<open>float_repr\<close>): the sources only compare or
  hash the result.
\<close>

datatype json =
    JNull
  | JBool bool
  | JInt int
  | JNum rat
  | JStr string
  | JArr "json list"
  | JObj "(string \<times> json) list"

text \<open>Decimal text of an integer, as \<open>str\<close> and f-strings print it.\<close>

fun nat_str :: "nat \<Rightarrow> string" where
  "nat_str n =
     (if n < 10 then [char_of (48 + n)] else nat_str (n div 10) @ [char_of (48 + n mod 10)])"

declare nat_str.simps [simp del]

definition int_str :: "int \<Rightarrow> string" where
  "int_str i = (if i < 0 then ''-'' @ nat_str (nat (- i)) else nat_str (nat i))"

definition hex_digit :: "nat \<Rightarrow> char" where
  "hex_digit d = (if d < 10 then char_of (48 + d) else char_of (87 + d))"

definition json_escape_char :: "bool \<Rightarrow> char \<Rightarrow> string" where
  "json_escape_char ensure_ascii c =
     (let n = (of_char c :: nat)
      in if c = CHR 0x22 then [CHR 0x5C, CHR 0x22]
         else if c = CHR 0x5C then [CHR 0x5C, CHR 0x5C]
         else if c = CHR 0x0A then [CHR 0x5C, CHR 0x6E]
         else if c = CHR 0x0D then [CHR 0x5C, CHR 0x72]
         else if c = CHR 0x09 then [CHR 0x5C, CHR 0x74]
         else if c = CHR 0x0C then [CHR 0x5C, CHR 0x66]
         else if c = CHR 0x08 then [CHR 0x5C, CHR 0x62]
         else if n < 32 \<or> (ensure_ascii \<and> 127 \<le> n)
           then [CHR 0x5C, CHR 0x75, CHR 0x30, CHR 0x30, hex_digit (n div 16), hex_digit (n mod 16)]
         else [c])"

definition plain_ascii :: "char \<Rightarrow> bool" where
  "plain_ascii c \<longleftrightarrow> \<not> digit7 c \<and> (digit5 c \<or> digit6 c) \<and> c \<noteq> CHR 0x22 \<and> c \<noteq> CHR 0x5C \<and> c \<noteq> CHR 0x7F"

lemma json_escape_code [code]:
  "json_escape_char a c = (if plain_ascii c then [c] else
     (let n = (of_char c :: nat)
      in if c = CHR 0x22 then [CHR 0x5C, CHR 0x22]
         else if c = CHR 0x5C then [CHR 0x5C, CHR 0x5C]
         else if c = CHR 0x0A then [CHR 0x5C, CHR 0x6E]
         else if c = CHR 0x0D then [CHR 0x5C, CHR 0x72]
         else if c = CHR 0x09 then [CHR 0x5C, CHR 0x74]
         else if c = CHR 0x0C then [CHR 0x5C, CHR 0x66]
         else if c = CHR 0x08 then [CHR 0x5C, CHR 0x62]
         else if n < 32 \<or> (a \<and> 127 \<le> n)
           then [CHR 0x5C, CHR 0x75, CHR 0x30, CHR 0x30, hex_digit (n div 16), hex_digit (n mod 16)]
         else [c]))"
proof (cases "plain_ascii c")
  case True
  obtain b0 b1 b2 b3 b4 b5 b6 b7 where c: "c = Char b0 b1 b2 b3 b4 b5 b6 b7" by (cases c)
  have "\<not> (of_char c < (32::nat) \<or> 127 \<le> (of_char c::nat)) \<and> c \<noteq> CHR 0x22 \<and> c \<noteq> CHR 0x5C
     \<and> c \<noteq> CHR 0x0A \<and> c \<noteq> CHR 0x0D \<and> c \<noteq> CHR 0x09 \<and> c \<noteq> CHR 0x0C \<and> c \<noteq> CHR 0x08"
    using True unfolding plain_ascii_def c
    by (cases b0; cases b1; cases b2; cases b3; cases b4; cases b5; cases b6; cases b7) simp_all
  with True show ?thesis by (simp add: json_escape_char_def Let_def)
next
  case False
  then show ?thesis by (simp add: json_escape_char_def Let_def)
qed
definition json_str :: "bool \<Rightarrow> string \<Rightarrow> string" where
  "json_str ensure_ascii s =
     [CHR 0x22] @ concat (map (json_escape_char ensure_ascii) s) @ [CHR 0x22]"

record dump_opts =
  do_sort_keys :: bool
  do_item_sep :: string
  do_key_sep :: string
  do_ensure_ascii :: bool

text \<open>The argument combinations the sources use.\<close>

definition canonical_ascii :: dump_opts where
  "canonical_ascii = \<lparr>do_sort_keys = True, do_item_sep = '','', do_key_sep = '':'', do_ensure_ascii = True\<rparr>"

definition canonical_unicode :: dump_opts where
  "canonical_unicode = \<lparr>do_sort_keys = True, do_item_sep = '','', do_key_sep = '':'', do_ensure_ascii = False\<rparr>"

definition compact_ascii :: dump_opts where
  "compact_ascii = \<lparr>do_sort_keys = False, do_item_sep = '','', do_key_sep = '':'', do_ensure_ascii = True\<rparr>"

definition dump_object :: "dump_opts \<Rightarrow> (string \<times> string) list \<Rightarrow> string" where
  "dump_object opts kvs =
     (let ordered = (if do_sort_keys opts then sort_key fst kvs else kvs)
      in ''{'' @ py_join (do_item_sep opts)
           (map (\<lambda>(k, v). json_str (do_ensure_ascii opts) k @ do_key_sep opts @ v) ordered) @ ''}'')"

primrec json_dumps :: "(rat \<Rightarrow> string) \<Rightarrow> dump_opts \<Rightarrow> json \<Rightarrow> string" where
  "json_dumps fr opts JNull = ''null''"
| "json_dumps fr opts (JBool b) = (if b then ''true'' else ''false'')"
| "json_dumps fr opts (JInt i) = int_str i"
| "json_dumps fr opts (JNum q) = fr q"
| "json_dumps fr opts (JStr s) = json_str (do_ensure_ascii opts) s"
| "json_dumps fr opts (JArr vs) =
     ''['' @ py_join (do_item_sep opts) (map (json_dumps fr opts) vs) @ '']''"
| "json_dumps fr opts (JObj kvs) = dump_object opts (map (map_prod id (json_dumps fr opts)) kvs)"

text \<open>An optional text as a JSON value.\<close>

definition jopt :: "string option \<Rightarrow> json" where
  "jopt x = (case x of None \<Rightarrow> JNull | Some s \<Rightarrow> JStr s)"

text \<open>
  \<open>d[k] = v\<close> on a decoded object: the key keeps its position when it is present.
\<close>

fun dict_set :: "string \<Rightarrow> 'v \<Rightarrow> (string \<times> 'v) list \<Rightarrow> (string \<times> 'v) list" where
  "dict_set k v [] = [(k, v)]"
| "dict_set k v ((k', v') # d) = (if k' = k then (k, v) # d else (k', v') # dict_set k v d)"

text \<open>A row or a decoded object.\<close>

type_synonym row = "(string \<times> json) list"

text \<open>\<open>d.get(k)\<close>, with \<open>JNull\<close> for Python's \<open>None\<close>.\<close>

definition dict_get :: "row \<Rightarrow> string \<Rightarrow> json" where
  "dict_get d k = (case map_of d k of None \<Rightarrow> JNull | Some v \<Rightarrow> v)"

text \<open>\<open>d.pop(k, None)\<close>\<close>

definition dict_pop :: "string \<Rightarrow> row \<Rightarrow> row" where
  "dict_pop k d = filter (\<lambda>kv. fst kv \<noteq> k) d"

text \<open>
  \<open>_json_object\<close> (\<open>state_slots.py\<close>) and \<open>_canonical_json_object\<close> (\<open>provenance.py\<close>).
  The argument is what \<open>json.loads\<close> makes of the text, \<open>None\<close> where it refuses it.
\<close>

definition canonical_json_object ::
  "(rat \<Rightarrow> string) \<Rightarrow> json option \<Rightarrow> string \<Rightarrow> string res" where
  "canonical_json_object fr decoded name =
     (case decoded of
        Some (JObj kvs) \<Rightarrow> Inr (json_dumps fr canonical_ascii (JObj kvs))
      | _ \<Rightarrow> Inl (ValueError (name @ '' must be a JSON object'')))"

lemma map_of_dict_set: "map_of (dict_set k v d) = (map_of d)(k \<mapsto> v)"
  by (induction k v d rule: dict_set.induct) auto

lemma dict_set_keys: "set (map fst (dict_set k v d)) = insert k (set (map fst d))"
  by (induction k v d rule: dict_set.induct) auto

lemma dict_set_distinct: "distinct (map fst d) \<Longrightarrow> distinct (map fst (dict_set k v d))"
proof (induction k v d rule: dict_set.induct)
  case (2 k v k' v' d)
  then show ?case using dict_set_keys [of k v d] by auto
qed simp

text \<open>Canonical text does not depend on the order in which the keys were inserted.\<close>

lemma dump_object_sorted_perm:
  assumes "do_sort_keys opts" and "distinct (map fst kvs)" and "mset kvs = mset kvs'"
  shows "dump_object opts kvs = dump_object opts kvs'"
proof -
  have "inj_on fst (set kvs)" using assms(2) by (simp add: distinct_map)
  then have "sort_key fst kvs = sort_key fst kvs'"
    using assms(3) by (intro sort_key_inj_key_eq) simp_all
  with assms(1) show ?thesis by (simp add: dump_object_def)
qed

lemma dict_get_set: "dict_get (dict_set k v d) k' = (if k' = k then v else dict_get d k')"
  by (simp add: dict_get_def map_of_dict_set)

lemma dict_get_pop: "k' \<noteq> k \<Longrightarrow> dict_get (dict_pop k d) k' = dict_get d k'"
  by (induction d) (auto simp: dict_get_def dict_pop_def split: option.splits)

lemma dict_get_popped: "dict_get (dict_pop k d) k = JNull"
  by (induction d) (auto simp: dict_get_def dict_pop_def)

end
