(* ===== verification/Store.thy ===== *)
theory Store
  imports Json
begin

text \<open>
  The SQLite store of schema v1: one record per table row, one record for the database, and
  the \<open>INSERT\<close>/\<open>UPDATE\<close> statements with the constraints that SQLite enforces for
  them (primary keys, \<open>UNIQUE\<close>, the partial unique index on current state slots, foreign
  keys). A violated constraint is the exception \<open>IntegrityError\<close>.

  A \<open>TIMESTAMP\<close> or \<open>TEXT\<close> time column is the text it holds, except in the two job
  queues: \<open>embedding_jobs\<close> holds instants in microseconds (its stamps are fixed-width UTC
  texts, compared by the database as texts) and \<open>extract_queue\<close> holds epoch seconds, as the
  code does.
\<close>

section \<open>Rows\<close>

record fact =
  f_id :: int
  f_content :: string
  f_category :: string
  f_tags :: string
  f_trust_score :: rat
  f_retrieval_count :: int
  f_helpful_count :: int
  f_created_at :: string
  f_updated_at :: string
  f_hrr_vector :: "string option"
  f_valid_from :: "string option"
  f_invalid_at :: "string option"
  f_superseded_by :: "int option"
  f_memory_kind :: "string option"
  f_subject_key :: "string option"
  f_predicate_key :: "string option"
  f_object_value :: "string option"
  f_object_entity_id :: "int option"
  f_confidence :: "rat option"
  f_source_authority :: "rat option"
  f_scope :: string
  f_sensitivity :: string
  f_correction_status :: "string option"
  f_schema_version :: "int option"
  f_conflict_group :: "string option"

record conflict_row =
  k_id :: string
  k_scope :: string
  k_subject_key :: string
  k_predicate_key :: string
  k_detected_at :: string
  k_resolved_at :: "string option"
  k_resolution_fact_id :: "int option"
  k_resolved_by :: "string option"
  k_resolution_reason :: "string option"
  k_detail_json :: string

record resolution_row =
  r_conflict_id :: string
  r_resolution_fact_id :: int
  r_client_id :: string
  r_session_id :: string
  r_agent_id :: string
  r_reason :: string
  r_resolved_at :: string

record client_row =
  c_id :: string
  c_surface :: string
  c_display_name :: "string option"
  c_created_at :: string
  c_disabled_at :: "string option"

record session_row =
  s_id :: string
  s_client_id :: string
  s_agent_id :: string
  s_parent_agent_id :: "string option"
  s_project_root :: "string option"
  s_repository :: "string option"
  s_branch :: "string option"
  s_commit_sha :: "string option"
  s_capabilities_json :: string
  s_access_scopes_json :: string
  s_started_at :: "string option"
  s_ended_at :: "string option"

record observation_row =
  o_id :: int
  o_client_id :: string
  o_session_id :: string
  o_source_type :: string
  o_source_uri :: "string option"
  o_project_root :: "string option"
  o_repository :: "string option"
  o_branch :: "string option"
  o_commit_sha :: "string option"
  o_content :: "string option"
  o_content_sha256 :: string
  o_asserted_by :: "string option"
  o_performed_by :: "string option"
  o_observed_at :: "string option"
  o_recorded_at :: string
  o_scope :: string
  o_sensitivity :: string
  o_redacted_at :: "string option"
  o_metadata_json :: string

record provenance_row =
  p_fact_id :: int
  p_observation_id :: int
  p_relation :: string
  p_evidence_excerpt :: "string option"
  p_created_at :: string

record write_log_row =
  l_write_id :: string
  l_idempotency_key :: string
  l_client_id :: string
  l_session_id :: "string option"
  l_operation :: string
  l_outcome :: string
  l_fact_id :: "int option"
  l_existing_fact_id :: "int option"
  l_observation_id :: "int option"
  l_recorded_at :: string
  l_request_sha256 :: string
  l_detail_json :: string

record erasure_log_row =
  x_erasure_id :: string
  x_fact_id :: int
  x_requested_by :: string
  x_reason :: string
  x_erased_at :: string
  x_affected_observations :: nat
  x_affected_embeddings :: nat
  x_affected_queue_rows :: nat

text \<open>The \<open>CHECK\<close> of \<open>embedding_jobs.status\<close> as a type.\<close>

datatype job_status = JobPending | JobProcessing | JobCompleted | JobDeadLetter

record job_row =
  j_id :: int
  j_fact_id :: int
  j_document_identity :: string
  j_embedding_version :: string
  j_dimensions :: int
  j_content_sha256 :: string
  j_status :: job_status
  j_attempts :: int
  j_available_at :: int
  j_lease_token :: "string option"
  j_lease_owner :: "string option"
  j_lease_expires_at :: "int option"
  j_last_error :: "string option"
  j_created_at :: int
  j_updated_at :: int
  j_completed_at :: "int option"

record embedding_row =
  e_fact_id :: int
  e_embedding :: string
  e_dim :: int
  e_identity :: string

datatype queue_status = QPending | QProcessing | QDead

record queue_row =
  q_id :: int
  q_payload :: string
  q_created_epoch :: "rat option"
  q_attempts :: int
  q_last_error :: "string option"
  q_status :: queue_status
  q_not_before :: "rat option"
  q_lease_owner :: "string option"
  q_lease_until :: "rat option"
  q_lease_token :: "string option"
  q_payload_hash :: "string option"
  q_proposal_json :: "string option"
  q_proposal_hash :: "string option"

record db =
  db_fact_columns :: "string list"
  db_slot_index :: bool
  db_fact_seq :: int
  db_facts :: "fact list"
  db_fact_entities :: "(int \<times> int) list"
  db_conflicts :: "conflict_row list"
  db_conflict_members :: "(string \<times> int) list"
  db_resolutions :: "resolution_row list"
  db_clients :: "client_row list"
  db_sessions :: "session_row list"
  db_observations :: "observation_row list"
  db_provenance :: "provenance_row list"
  db_write_log :: "write_log_row list"
  db_erasure_log :: "erasure_log_row list"
  db_jobs :: "job_row list"
  db_embeddings :: "embedding_row list"
  db_queue_seq :: int
  db_queue :: "queue_row list"

section \<open>Columns of the facts table\<close>

definition v1_fact_columns :: "string list" where
  "v1_fact_columns =
     [''fact_id'', ''content'', ''category'', ''tags'', ''trust_score'',
      ''retrieval_count'', ''helpful_count'', ''created_at'', ''updated_at'',
      ''hrr_vector'', ''valid_from'', ''invalid_at'', ''superseded_by'',
      ''memory_kind'', ''subject_key'', ''predicate_key'', ''object_value'',
      ''object_entity_id'', ''confidence'', ''source_authority'', ''scope'',
      ''sensitivity'', ''correction_status'', ''schema_version'', ''conflict_group'']"

definition has_columns :: "db \<Rightarrow> string list \<Rightarrow> bool" where
  "has_columns d names \<longleftrightarrow> set names \<subseteq> set (db_fact_columns d)"

section \<open>Facts: the slot index and foreign keys\<close>

text \<open>
  The key of a row in the partial index \<open>uq_facts_current_state_slot\<close>, \<open>None\<close> for a row
  outside its \<open>WHERE\<close> clause.
\<close>

definition slot_key :: "fact \<Rightarrow> (string \<times> string \<times> string) option" where
  "slot_key f =
     (case (f_subject_key f, f_predicate_key f) of
        (Some s, Some p) \<Rightarrow>
          if f_memory_kind f = Some ''state'' \<and> f_invalid_at f = None \<and> f_superseded_by f = None
             \<and> f_conflict_group f = None
          then Some (f_scope f, s, p) else None
      | _ \<Rightarrow> None)"

fun slot_keys :: "fact list \<Rightarrow> (string \<times> string \<times> string) list" where
  "slot_keys [] = []"
| "slot_keys (f # fs) =
     (case slot_key f of None \<Rightarrow> slot_keys fs | Some k \<Rightarrow> k # slot_keys fs)"

definition slot_unique :: "fact list \<Rightarrow> bool" where
  "slot_unique fs \<longleftrightarrow> distinct (slot_keys fs)"

definition superseded_fk :: "fact list \<Rightarrow> bool" where
  "superseded_fk fs \<longleftrightarrow>
     list_all (\<lambda>f. case f_superseded_by f of None \<Rightarrow> True | Some i \<Rightarrow> i \<in> set (map f_id fs)) fs"

definition store_facts :: "fact list \<Rightarrow> db \<Rightarrow> db res" where
  "store_facts fs d =
     (if db_slot_index d \<and> \<not> slot_unique fs
        then Inl (IntegrityError ''UNIQUE constraint failed: uq_facts_current_state_slot'')
      else if \<not> superseded_fk fs then Inl (IntegrityError ''FOREIGN KEY constraint failed'')
      else Inr (d\<lparr>db_facts := fs\<rparr>))"

text \<open>\<open>UPDATE facts SET u WHERE P\<close>: the new database and the cursor's row count.\<close>

definition sql_update_facts :: "(fact \<Rightarrow> bool) \<Rightarrow> (fact \<Rightarrow> fact) \<Rightarrow> db \<Rightarrow> (db \<times> nat) res" where
  "sql_update_facts P u d =
     rbind (store_facts (update_where P u (db_facts d)) d)
       (\<lambda>d'. Inr (d', rowcount P (db_facts d)))"

text \<open>\<open>INSERT INTO facts\<close>: the id comes from \<open>sqlite_sequence\<close>.\<close>

definition sql_insert_fact :: "fact \<Rightarrow> db \<Rightarrow> (db \<times> int) res" where
  "sql_insert_fact f d =
     (let i = db_fact_seq d + 1
      in rbind (store_facts (db_facts d @ [f\<lparr>f_id := i\<rparr>]) d)
           (\<lambda>d'. Inr (d'\<lparr>db_fact_seq := i\<rparr>, i)))"

definition fact_ids :: "db \<Rightarrow> int list" where
  "fact_ids d = map f_id (db_facts d)"

definition fact_by_id :: "db \<Rightarrow> int \<Rightarrow> fact option" where
  "fact_by_id d i = first_row (\<lambda>f. f_id f = i) (db_facts d)"

text \<open>A current fact: neither invalidated nor superseded.\<close>

definition is_current :: "fact \<Rightarrow> bool" where
  "is_current f \<longleftrightarrow> f_invalid_at f = None \<and> f_superseded_by f = None"

section \<open>The other tables\<close>

definition insert_conflict :: "conflict_row \<Rightarrow> db \<Rightarrow> db res" where
  "insert_conflict k d =
     (if k_id k \<in> set (map k_id (db_conflicts d))
        then Inl (IntegrityError ''UNIQUE constraint failed: fact_conflicts.conflict_id'')
      else Inr (d\<lparr>db_conflicts := db_conflicts d @ [k]\<rparr>))"

definition insert_conflict_member :: "string \<Rightarrow> int \<Rightarrow> db \<Rightarrow> db res" where
  "insert_conflict_member c i d =
     (if (c, i) \<in> set (db_conflict_members d)
        then Inl (IntegrityError ''UNIQUE constraint failed: fact_conflict_members'')
      else if c \<notin> set (map k_id (db_conflicts d)) \<or> i \<notin> set (fact_ids d)
        then Inl (IntegrityError ''FOREIGN KEY constraint failed'')
      else Inr (d\<lparr>db_conflict_members := db_conflict_members d @ [(c, i)]\<rparr>))"

fun insert_conflict_members :: "string \<Rightarrow> int list \<Rightarrow> db \<Rightarrow> db res" where
  "insert_conflict_members c [] d = Inr d"
| "insert_conflict_members c (i # is) d =
     rbind (insert_conflict_member c i d) (insert_conflict_members c is)"

definition insert_resolution :: "resolution_row \<Rightarrow> db \<Rightarrow> db res" where
  "insert_resolution r d =
     (if r_conflict_id r \<in> set (map r_conflict_id (db_resolutions d))
        then Inl (IntegrityError ''UNIQUE constraint failed: fact_conflict_resolutions'')
      else if r_conflict_id r \<notin> set (map k_id (db_conflicts d))
              \<or> r_resolution_fact_id r \<notin> set (fact_ids d)
              \<or> (r_client_id r, r_session_id r) \<notin> set (map (\<lambda>s. (s_client_id s, s_id s)) (db_sessions d))
        then Inl (IntegrityError ''FOREIGN KEY constraint failed'')
      else Inr (d\<lparr>db_resolutions := db_resolutions d @ [r]\<rparr>))"

text \<open>\<open>INSERT ... ON CONFLICT(client_id) DO NOTHING\<close>.\<close>

definition insert_client_or_ignore :: "client_row \<Rightarrow> db \<Rightarrow> db" where
  "insert_client_or_ignore c d =
     (if c_id c \<in> set (map c_id (db_clients d)) then d
      else d\<lparr>db_clients := db_clients d @ [c]\<rparr>)"

definition insert_session_or_ignore :: "session_row \<Rightarrow> db \<Rightarrow> db res" where
  "insert_session_or_ignore s d =
     (if (s_client_id s, s_id s) \<in> set (map (\<lambda>t. (s_client_id t, s_id t)) (db_sessions d)) then Inr d
      else if s_client_id s \<notin> set (map c_id (db_clients d))
        then Inl (IntegrityError ''FOREIGN KEY constraint failed'')
      else Inr (d\<lparr>db_sessions := db_sessions d @ [s]\<rparr>))"

definition obs_key :: "observation_row \<Rightarrow> string \<times> string \<times> string \<times> string" where
  "obs_key ob = (o_client_id ob, o_content_sha256 ob, o_session_id ob, o_source_type ob)"

definition insert_observation_or_ignore :: "observation_row \<Rightarrow> db \<Rightarrow> db res" where
  "insert_observation_or_ignore ob d =
     (if obs_key ob \<in> set (map obs_key (db_observations d)) then Inr d
      else if (o_client_id ob, o_session_id ob) \<notin> set (map (\<lambda>t. (s_client_id t, s_id t)) (db_sessions d))
        then Inl (IntegrityError ''FOREIGN KEY constraint failed'')
      else Inr (d\<lparr>db_observations := db_observations d
                   @ [ob\<lparr>o_id := next_rowid (map o_id (db_observations d))\<rparr>]\<rparr>))"

definition prov_key :: "provenance_row \<Rightarrow> int \<times> int \<times> string" where
  "prov_key p = (p_fact_id p, p_observation_id p, p_relation p)"

definition insert_provenance_or_ignore :: "provenance_row \<Rightarrow> db \<Rightarrow> db res" where
  "insert_provenance_or_ignore p d =
     (if prov_key p \<in> set (map prov_key (db_provenance d)) then Inr d
      else if p_fact_id p \<notin> set (fact_ids d) \<or> p_observation_id p \<notin> set (map o_id (db_observations d))
        then Inl (IntegrityError ''FOREIGN KEY constraint failed'')
      else Inr (d\<lparr>db_provenance := db_provenance d @ [p]\<rparr>))"

definition opt_in :: "'a option \<Rightarrow> 'a list \<Rightarrow> bool" where
  "opt_in x xs = (case x of None \<Rightarrow> True | Some a \<Rightarrow> a \<in> set xs)"

definition insert_write_log :: "write_log_row \<Rightarrow> db \<Rightarrow> db res" where
  "insert_write_log l d =
     (if l_write_id l \<in> set (map l_write_id (db_write_log d))
         \<or> (l_client_id l, l_idempotency_key l)
             \<in> set (map (\<lambda>m. (l_client_id m, l_idempotency_key m)) (db_write_log d))
        then Inl (IntegrityError ''UNIQUE constraint failed: memory_write_log'')
      else if l_client_id l \<notin> set (map c_id (db_clients d))
              \<or> \<not> opt_in (l_fact_id l) (fact_ids d)
              \<or> \<not> opt_in (l_existing_fact_id l) (fact_ids d)
              \<or> \<not> opt_in (l_observation_id l) (map o_id (db_observations d))
        then Inl (IntegrityError ''FOREIGN KEY constraint failed'')
      else Inr (d\<lparr>db_write_log := db_write_log d @ [l]\<rparr>))"

section \<open>Facts about the statements\<close>

lemma slot_key_None_iff:
  "slot_key f = None \<longleftrightarrow>
     \<not> (f_memory_kind f = Some ''state'' \<and> is_current f \<and> f_conflict_group f = None
        \<and> f_subject_key f \<noteq> None \<and> f_predicate_key f \<noteq> None)"
  by (auto simp: slot_key_def is_current_def split: option.splits)

lemma slot_key_Some_iff:
  "slot_key f = Some (sc, s, p) \<longleftrightarrow>
     f_memory_kind f = Some ''state'' \<and> is_current f \<and> f_conflict_group f = None
     \<and> f_scope f = sc \<and> f_subject_key f = Some s \<and> f_predicate_key f = Some p"
  by (auto simp: slot_key_def is_current_def split: option.splits)

lemma set_slot_keys: "k \<in> set (slot_keys fs) \<longleftrightarrow> (\<exists>f \<in> set fs. slot_key f = Some k)"
  by (induction fs) (auto split: option.splits)

lemma slot_keys_append [simp]: "slot_keys (fs @ gs) = slot_keys fs @ slot_keys gs"
  by (induction fs) (auto split: option.splits)

text \<open>With distinct ids, the index says that two current unconflicted facts of one slot are one row.\<close>

lemma slot_unique_iff:
  assumes "distinct (map f_id fs)"
  shows "slot_unique fs \<longleftrightarrow>
    (\<forall>f \<in> set fs. \<forall>g \<in> set fs. slot_key f \<noteq> None \<longrightarrow> slot_key f = slot_key g \<longrightarrow> f = g)"
  using assms
proof (induction fs)
  case Nil
  then show ?case by (simp add: slot_unique_def)
next
  case (Cons f fs)
  have IH: "slot_unique fs \<longleftrightarrow>
    (\<forall>f \<in> set fs. \<forall>g \<in> set fs. slot_key f \<noteq> None \<longrightarrow> slot_key f = slot_key g \<longrightarrow> f = g)"
    using Cons by simp
  have nin: "g \<noteq> f" if "g \<in> set fs" for g using Cons.prems that by auto
  show ?case
  proof (cases "slot_key f")
    case None
    have "slot_unique (f # fs) = slot_unique fs" using None by (simp add: slot_unique_def)
    also have "\<dots> = (\<forall>g \<in> set (f # fs). \<forall>h \<in> set (f # fs).
        slot_key g \<noteq> None \<longrightarrow> slot_key g = slot_key h \<longrightarrow> g = h)"
      unfolding IH using None by (metis set_ConsD list.set_intros(2))
    finally show ?thesis .
  next
    case (Some k)
    have "slot_unique (f # fs) = (k \<notin> set (slot_keys fs) \<and> slot_unique fs)"
      using Some by (simp add: slot_unique_def)
    also have "\<dots> = ((\<forall>g \<in> set fs. slot_key g \<noteq> slot_key f) \<and> slot_unique fs)"
      using Some by (auto simp: set_slot_keys)
    also have "\<dots> = (\<forall>g \<in> set (f # fs). \<forall>h \<in> set (f # fs).
        slot_key g \<noteq> None \<longrightarrow> slot_key g = slot_key h \<longrightarrow> g = h)"
      unfolding IH using Some nin by (metis list.set_intros(1,2) option.discI set_ConsD)
    finally show ?thesis .
  qed
qed

lemma store_facts_Inr [res_simps]:
  "store_facts fs d = Inr d' \<longleftrightarrow>
     (db_slot_index d \<longrightarrow> slot_unique fs) \<and> superseded_fk fs \<and> d' = d\<lparr>db_facts := fs\<rparr>"
  by (auto simp: store_facts_def)

lemma sql_update_facts_Inr [res_simps]:
  "sql_update_facts P u d = Inr (d', n) \<longleftrightarrow>
     (db_slot_index d \<longrightarrow> slot_unique (update_where P u (db_facts d)))
     \<and> superseded_fk (update_where P u (db_facts d))
     \<and> d' = d\<lparr>db_facts := update_where P u (db_facts d)\<rparr> \<and> n = rowcount P (db_facts d)"
  by (auto simp: sql_update_facts_def rbind_eq_Inr store_facts_Inr)

lemma sql_insert_fact_Inr [res_simps]:
  "sql_insert_fact f d = Inr (d', i) \<longleftrightarrow>
     i = db_fact_seq d + 1
     \<and> (db_slot_index d \<longrightarrow> slot_unique (db_facts d @ [f\<lparr>f_id := i\<rparr>]))
     \<and> superseded_fk (db_facts d @ [f\<lparr>f_id := i\<rparr>])
     \<and> d' = d\<lparr>db_facts := db_facts d @ [f\<lparr>f_id := i\<rparr>], db_fact_seq := i\<rparr>"
  by (auto simp: sql_insert_fact_def Let_def rbind_eq_Inr store_facts_Inr)

lemma superseded_fk_iff:
  "superseded_fk fs \<longleftrightarrow> (\<forall>f \<in> set fs. \<forall>i. f_superseded_by f = Some i \<longrightarrow> i \<in> f_id ` set fs)"
  by (auto simp: superseded_fk_def list_all_iff split: option.splits)

lemma fact_by_id_Some: "fact_by_id d i = Some f \<Longrightarrow> f \<in> set (db_facts d) \<and> f_id f = i"
  unfolding fact_by_id_def by (auto dest: first_row_Some)

lemma fact_by_id_None: "fact_by_id d i = None \<longleftrightarrow> i \<notin> set (fact_ids d)"
  by (auto simp: fact_by_id_def first_row_None_iff fact_ids_def)

lemma fact_by_id_in:
  "distinct (fact_ids d) \<Longrightarrow> f \<in> set (db_facts d) \<Longrightarrow> fact_by_id d (f_id f) = Some f"
  unfolding fact_by_id_def fact_ids_def
  by (rule first_row_distinct [where k = f_id]) auto

lemma insert_conflict_members_Inr:
  "insert_conflict_members c is d = Inr d' \<Longrightarrow>
     d' = d\<lparr>db_conflict_members := db_conflict_members d @ map (Pair c) is\<rparr>
     \<and> distinct is \<and> set is \<subseteq> set (fact_ids d)
     \<and> (\<forall>i \<in> set is. (c, i) \<notin> set (db_conflict_members d))"
proof (induction "is" arbitrary: d)
  case Nil
  then show ?case by simp
next
  case (Cons i "is")
  then obtain e where e: "insert_conflict_member c i d = Inr e"
    and r: "insert_conflict_members c is e = Inr d'"
    by (auto simp: rbind_eq_Inr)
  from e have e': "e = d\<lparr>db_conflict_members := db_conflict_members d @ [(c, i)]\<rparr>"
    and "(c, i) \<notin> set (db_conflict_members d)" "i \<in> set (fact_ids d)"
    by (auto simp: insert_conflict_member_def split: if_splits)
  with Cons.IH [OF r] show ?case by (auto simp: fact_ids_def)
qed

lemma insert_conflict_members_ok:
  assumes "distinct is" and "set is \<subseteq> set (fact_ids d)" and "c \<in> set (map k_id (db_conflicts d))"
    and "\<forall>i \<in> set is. (c, i) \<notin> set (db_conflict_members d)"
  shows "insert_conflict_members c is d
    = Inr (d\<lparr>db_conflict_members := db_conflict_members d @ map (Pair c) is\<rparr>)"
  using assms
proof (induction "is" arbitrary: d)
  case Nil
  then show ?case by simp
next
  case (Cons i "is")
  have "insert_conflict_member c i d = Inr (d\<lparr>db_conflict_members := db_conflict_members d @ [(c, i)]\<rparr>)"
    using Cons.prems by (auto simp: insert_conflict_member_def)
  moreover have "insert_conflict_members c is (d\<lparr>db_conflict_members := db_conflict_members d @ [(c, i)]\<rparr>)
    = Inr (d\<lparr>db_conflict_members := db_conflict_members d @ [(c, i)] @ map (Pair c) is\<rparr>)"
    using Cons.IH [of "d\<lparr>db_conflict_members := db_conflict_members d @ [(c, i)]\<rparr>"] Cons.prems
    by (auto simp: fact_ids_def)
  ultimately show ?case by simp
qed

end
