(* ===== verification/Provenance.thy ===== *)
theory Provenance
  imports Store
begin

text \<open>
  The immutable value objects of \<open>provenance.py\<close> with their \<open>__post_init__\<close> checks:
  \<open>ConnectionContext\<close>, \<open>WriteRequest\<close>, \<open>WriteOutcome\<close>. A constructor call is an
  \<open>_init\<close> function from the raw fields to the cleaned object or the \<open>ValueError\<close>.

  The record \<open>runtime\<close> carries the library routines whose results the code only compares,
  orders or stores: the SHA-256 hex digest, the text of a float, and
  \<open>datetime.fromisoformat\<close> (wall-clock microseconds and, when present, the UTC offset in
  microseconds). No theorem fixes them beyond its own hypotheses.
\<close>

record runtime =
  rt_sha256 :: "string \<Rightarrow> string"
  rt_float_repr :: "rat \<Rightarrow> string"
  rt_fromisoformat :: "string \<Rightarrow> (int \<times> int option) option"

section \<open>ConnectionContext\<close>

record connection_context =
  cc_client_id :: string
  cc_surface :: string
  cc_agent_id :: string
  cc_session_id :: string
  cc_display_name :: "string option"
  cc_parent_agent_id :: "string option"
  cc_project_root :: "string option"
  cc_repository :: "string option"
  cc_branch :: "string option"
  cc_commit_sha :: "string option"
  cc_capabilities :: "string list"
  cc_access_scopes :: "string list"
  cc_started_at :: "string option"

text \<open>\<open>tuple(sorted({...}))\<close>.\<close>

definition sorted_set :: "string list \<Rightarrow> string list" where
  "sorted_set xs = sort (remdups xs)"

definition connection_context_init :: "connection_context \<Rightarrow> connection_context res" where
  "connection_context_init c =
     rbind (py_required (cc_client_id c) ''client_id'') (\<lambda>client_id.
     rbind (py_required (cc_surface c) ''surface'') (\<lambda>surface.
     rbind (py_required (cc_agent_id c) ''agent_id'') (\<lambda>agent_id.
     rbind (py_required (cc_session_id c) ''session_id'') (\<lambda>session_id.
     rbind (map_res (\<lambda>v. py_required v ''capability'') (cc_capabilities c)) (\<lambda>caps.
     rbind (map_res (\<lambda>v. py_required v ''access_scope'') (cc_access_scopes c)) (\<lambda>scopes.
     rbind (guard_res (scopes \<noteq> []) (ValueError ''access_scopes must not be empty'')) (\<lambda>_.
     Inr (c\<lparr>cc_client_id := client_id, cc_surface := surface, cc_agent_id := agent_id,
            cc_session_id := session_id, cc_capabilities := sorted_set caps,
            cc_access_scopes := sorted_set scopes\<rparr>))))))))"

section \<open>WriteRequest\<close>

record write_request =
  wr_idempotency_key :: string
  wr_content :: string
  wr_source_type :: string
  wr_category :: string
  wr_tags :: string
  wr_trust_score :: rat
  wr_source_authority :: rat
  wr_source_uri :: "string option"
  wr_observation_content :: "string option"
  wr_asserted_by :: "string option"
  wr_performed_by :: "string option"
  wr_observed_at :: "string option"
  wr_scope :: string
  wr_sensitivity :: string
  wr_correction_status :: "string option"
  wr_evidence_excerpt :: "string option"
  wr_relation :: string
  wr_metadata_json :: string
  wr_supersede_fact_id :: "int option"
  wr_operation :: string

definition in_unit :: "rat \<Rightarrow> bool" where
  "in_unit q \<longleftrightarrow> 0 \<le> q \<and> q \<le> 1"

text \<open>The second argument is the decoded \<open>metadata_json\<close> text, \<open>None\<close> if it is not JSON.\<close>

definition write_request_init ::
  "runtime \<Rightarrow> write_request \<Rightarrow> json option \<Rightarrow> write_request res" where
  "write_request_init rt w metadata =
     rbind (py_required (wr_idempotency_key w) ''idempotency_key'') (\<lambda>key.
     rbind (py_required (wr_content w) ''content'') (\<lambda>content.
     rbind (py_required (wr_source_type w) ''source_type'') (\<lambda>source_type.
     rbind (py_required (wr_category w) ''category'') (\<lambda>category.
     rbind (py_required (wr_scope w) ''scope'') (\<lambda>scope.
     rbind (py_required (wr_sensitivity w) ''sensitivity'') (\<lambda>sensitivity.
     rbind (py_required (wr_relation w) ''relation'') (\<lambda>relation.
     rbind (py_required (wr_operation w) ''operation'') (\<lambda>operation.
     rbind (guard_res (in_unit (wr_trust_score w))
              (ValueError ''trust_score must be between 0 and 1'')) (\<lambda>_.
     rbind (guard_res (in_unit (wr_source_authority w))
              (ValueError ''source_authority must be between 0 and 1'')) (\<lambda>_.
     rbind (guard_res (case wr_supersede_fact_id w of None \<Rightarrow> True | Some i \<Rightarrow> \<not> i \<le> 0)
              (ValueError ''supersede_fact_id must be positive'')) (\<lambda>_.
     rbind (canonical_json_object (rt_float_repr rt) metadata ''metadata_json'') (\<lambda>meta.
     Inr (w\<lparr>wr_idempotency_key := key, wr_content := content, wr_source_type := source_type,
            wr_category := category, wr_scope := scope, wr_sensitivity := sensitivity,
            wr_relation := relation, wr_operation := operation, wr_metadata_json := meta\<rparr>)))))))))))))"

section \<open>WriteOutcome\<close>

record write_outcome =
  wo_write_id :: string
  wo_outcome :: string
  wo_fact_id :: "int option"
  wo_existing_fact_id :: "int option"
  wo_observation_id :: "int option"
  wo_replayed :: bool
  wo_detail_json :: string

definition positive_opt :: "int option \<Rightarrow> bool" where
  "positive_opt x = (case x of None \<Rightarrow> True | Some i \<Rightarrow> \<not> i \<le> 0)"

text \<open>
  Every caller passes a \<open>detail_json\<close> that \<open>json.dumps\<close> has just written (or a row of the
  write log that holds such a text), on which the canonicalisation is the identity.
\<close>

definition write_outcome_init :: "write_outcome \<Rightarrow> write_outcome res" where
  "write_outcome_init w =
     rbind (py_required (wo_write_id w) ''write_id'') (\<lambda>wid.
     rbind (py_required (wo_outcome w) ''outcome'') (\<lambda>oc.
     rbind (guard_res (positive_opt (wo_fact_id w)) (ValueError ''fact_id must be positive'')) (\<lambda>_.
     rbind (guard_res (positive_opt (wo_existing_fact_id w))
              (ValueError ''existing_fact_id must be positive'')) (\<lambda>_.
     rbind (guard_res (positive_opt (wo_observation_id w))
              (ValueError ''observation_id must be positive'')) (\<lambda>_.
     Inr (w\<lparr>wo_write_id := wid, wo_outcome := oc\<rparr>))))))"

section \<open>What the constructors guarantee\<close>

lemma sorted_set_props [simp]:
  "set (sorted_set xs) = set xs" "distinct (sorted_set xs)" "sorted (sorted_set xs)"
  by (simp_all add: sorted_set_def)

lemma sorted_set_Nil_iff [simp]: "sorted_set xs = [] \<longleftrightarrow> xs = []"
  by (metis set_empty sorted_set_props(1))

lemma sorted_set_fixed: "sorted xs \<Longrightarrow> distinct xs \<Longrightarrow> sorted_set xs = xs"
  by (simp add: sorted_set_def sorted_sort_id distinct_remdups_id)

lemma map_res_required_fixed:
  assumes "\<forall>v \<in> set vs. py_required v n = Inr v"
  shows "map_res (\<lambda>v. py_required v n) vs = Inr vs"
  using assms by (induction vs) auto

lemma map_res_required_elems:
  assumes "map_res (\<lambda>v. py_required v n) vs = Inr ws" and "w \<in> set ws"
  shows "py_required w m = Inr w"
proof -
  from assms(1) have "list_all2 (\<lambda>x y. py_required x n = Inr y) vs ws"
    by (simp add: map_res_Inr_iff)
  with assms(2) obtain v where "py_required v n = Inr w"
    by (auto simp: list_all2_conv_all_nth in_set_conv_nth)
  then show ?thesis by (rule py_required_again)
qed

lemma connection_context_init_Inr:
  assumes "connection_context_init c = Inr c'"
  shows "cc_client_id c' = py_strip (cc_client_id c) \<and> cc_client_id c' \<noteq> []
    \<and> cc_access_scopes c' \<noteq> [] \<and> sorted (cc_access_scopes c') \<and> distinct (cc_access_scopes c')"
proof -
  from assms obtain client surface agent session caps scopes where
    client: "py_required (cc_client_id c) ''client_id'' = Inr client"
    and scopes: "scopes \<noteq> []"
    and c': "c' = c\<lparr>cc_client_id := client, cc_surface := surface, cc_agent_id := agent,
            cc_session_id := session, cc_capabilities := sorted_set caps,
            cc_access_scopes := sorted_set scopes\<rparr>"
    unfolding connection_context_init_def rbind_eq_Inr guard_res_Inr by blast
  from py_required_Inr [OF client] scopes show ?thesis by (auto simp: c')
qed

end
