(* ===== verification/Regex.thy ===== *)
theory Regex
  imports Prelude
begin

text \<open>
  The fragment of Python's \<open>re\<close> that the sources use: literals, character classes,
  bounded and unbounded repetition of a class, alternation, optional groups and the word
  boundary \<open>\b\<close>. \<open>rx_ends r s i\<close> lists every position where a match of \<open>r\<close> that
  starts at position \<open>i\<close> of \<open>s\<close> may end; \<open>rx_search\<close> and \<open>rx_fullmatch\<close> are the
  truth values of \<open>Pattern.search\<close> and \<open>Pattern.fullmatch\<close>.
\<close>

datatype rx =
    RLit string
  | RCls "char \<Rightarrow> bool"
  | RRep "char \<Rightarrow> bool" nat "nat option"
  | RSeq "rx list"
  | RAlt "rx list"
  | ROpt rx
  | RWordB

definition is_word :: "char \<Rightarrow> bool" where
  "is_word c \<longleftrightarrow> is_lower_az c \<or> is_upper_az c \<or> is_digit09 c \<or> c = CHR ''_''
     \<or> (let n = (of_char c :: nat) in
          n = 170 \<or> n = 178 \<or> n = 179 \<or> n = 181 \<or> n = 185 \<or> n = 186 \<or> (188 \<le> n \<and> n \<le> 190)
          \<or> (192 \<le> n \<and> n \<noteq> 215 \<and> n \<noteq> 247))"

lemma is_word_code [code]:
  "is_word c \<longleftrightarrow> is_lower_az c \<or> is_upper_az c \<or> is_digit09 c \<or> c = CHR ''_''
     \<or> (digit7 c \<and> (let n = (of_char c :: nat) in
          n = 170 \<or> n = 178 \<or> n = 179 \<or> n = 181 \<or> n = 185 \<or> n = 186 \<or> (188 \<le> n \<and> n \<le> 190)
          \<or> (192 \<le> n \<and> n \<noteq> 215 \<and> n \<noteq> 247)))"
  using ascii_char [of c] by (cases "digit7 c") (auto simp: is_word_def Let_def)

definition word_at :: "string \<Rightarrow> nat \<Rightarrow> bool" where
  "word_at s i \<longleftrightarrow> i < length s \<and> is_word (s ! i)"

definition word_boundary :: "string \<Rightarrow> nat \<Rightarrow> bool" where
  "word_boundary s i \<longleftrightarrow> (0 < i \<and> word_at s (i - 1)) \<noteq> word_at s i"

text \<open>The length of the run of characters of a class from a position on.\<close>

definition run_length :: "(char \<Rightarrow> bool) \<Rightarrow> string \<Rightarrow> nat \<Rightarrow> nat" where
  "run_length P s i = length (takeWhile P (drop i s))"

definition rep_ends :: "(char \<Rightarrow> bool) \<Rightarrow> nat \<Rightarrow> nat option \<Rightarrow> string \<Rightarrow> nat \<Rightarrow> nat list" where
  "rep_ends P lo hi s i =
     (let n = run_length P s i; m = (case hi of None \<Rightarrow> n | Some h \<Rightarrow> min h n)
      in map (\<lambda>k. i + k) [lo ..< Suc m])"

fun fold_ends :: "(string \<Rightarrow> nat \<Rightarrow> nat list) list \<Rightarrow> string \<Rightarrow> nat \<Rightarrow> nat list" where
  "fold_ends [] s i = [i]"
| "fold_ends (m # ms) s i = concat (map (fold_ends ms s) (m s i))"

primrec rx_ends :: "rx \<Rightarrow> string \<Rightarrow> nat \<Rightarrow> nat list" where
  "rx_ends (RLit w) = (\<lambda>s i. if starts_with w (drop i s) then [i + length w] else [])"
| "rx_ends (RCls P) = (\<lambda>s i. if i < length s \<and> P (s ! i) then [Suc i] else [])"
| "rx_ends (RRep P lo hi) = rep_ends P lo hi"
| "rx_ends (RSeq rs) = fold_ends (map rx_ends rs)"
| "rx_ends (RAlt rs) = (\<lambda>s i. concat (map (\<lambda>m. m s i) (map rx_ends rs)))"
| "rx_ends (ROpt r) = (\<lambda>s i. i # rx_ends r s i)"
| "rx_ends RWordB = (\<lambda>s i. if word_boundary s i then [i] else [])"

definition rx_search :: "rx \<Rightarrow> string \<Rightarrow> bool" where
  "rx_search r s \<longleftrightarrow> list_ex (\<lambda>i. rx_ends r s i \<noteq> []) [0 ..< Suc (length s)]"

definition rx_fullmatch :: "rx \<Rightarrow> string \<Rightarrow> bool" where
  "rx_fullmatch r s \<longleftrightarrow> length s \<in> set (rx_ends r s 0)"

text \<open>The flag \<open>re.IGNORECASE\<close> for a lower-case literal.\<close>

definition ci_lit :: "string \<Rightarrow> rx" where
  "ci_lit w = RSeq (map (\<lambda>c. RCls (\<lambda>d. char_lower d = c)) w)"

lemma rx_search_iff: "rx_search r s \<longleftrightarrow> (\<exists>i \<le> length s. rx_ends r s i \<noteq> [])"
  unfolding rx_search_def list_ex_iff set_upt by (auto simp: less_Suc_eq_le Bex_def)

lemma fold_ends_mem:
  "e \<in> set (fold_ends (m # ms) s i) \<longleftrightarrow> (\<exists>k \<in> set (m s i). e \<in> set (fold_ends ms s k))"
  by auto

text \<open>A run of the class that is long enough gives an end position.\<close>

lemma run_length_append:
  assumes "\<forall>c \<in> set w. P c"
  shows "length w \<le> run_length P (a @ w @ b) (length a)"
proof -
  have "takeWhile P (w @ b) = w @ takeWhile P b" using assms by (simp add: takeWhile_append2)
  then show ?thesis by (simp add: run_length_def)
qed

lemma rep_ends_mem:
  assumes "\<forall>c \<in> set w. P c" and "lo \<le> length w"
    and "case hi of None \<Rightarrow> True | Some h \<Rightarrow> length w \<le> h"
  shows "length a + length w \<in> set (rep_ends P lo hi (a @ w @ b) (length a))"
  using run_length_append [OF assms(1), of a b] assms(2,3)
  by (auto simp: rep_ends_def Let_def image_iff split: option.splits)

lemma word_boundary_start:
  "is_word c \<Longrightarrow> a = [] \<or> \<not> is_word (last a) \<Longrightarrow> word_boundary (a @ c # b) (length a)"
  by (cases a rule: rev_cases)
    (auto simp: word_boundary_def word_at_def nth_append)

lemma word_boundary_end:
  "is_word (last w) \<Longrightarrow> w \<noteq> [] \<Longrightarrow> b = [] \<or> \<not> is_word (hd b) \<Longrightarrow>
     word_boundary (a @ w @ b) (length a + length w)"
  by (cases w rule: rev_cases; cases b)
    (auto simp: word_boundary_def word_at_def nth_append)

end
