(* ===== verification/Policy.thy ===== *)
theory Policy
  imports Provenance Regex
begin

text \<open>
  \<open>policy.py\<close>: the validators of scopes, sensitivities, relations and correction
  statuses, the credential screen with its ten patterns, and \<open>MemoryPolicy\<close>
  (\<open>__init__\<close>, \<open>authorize_context\<close>, \<open>can_assert_correction\<close>,
  \<open>can_resolve_conflicts\<close>, \<open>evaluate_write\<close>).
\<close>

section \<open>Validators\<close>

definition base_scopes :: "string list" where
  "base_scopes = [''private'', ''work'', ''public'', ''sensitive'', ''secret'']"

definition sensitivities :: "string list" where
  "sensitivities = [''normal'', ''sensitive'', ''secret'']"

definition provenance_relations :: "string list" where
  "provenance_relations = [''supports'', ''contradicts'', ''verifies'', ''corrects'', ''derived_from'']"

definition correction_statuses :: "string list" where
  "correction_statuses = [''unreviewed'', ''human_corrected'', ''human_confirmed'']"

definition alnum :: "char \<Rightarrow> bool" where
  "alnum c \<longleftrightarrow> is_lower_az c \<or> is_upper_az c \<or> is_digit09 c"

text \<open>\<open>^project:[A-Za-z0-9][A-Za-z0-9._-]{0,127}$\<close>, used with \<open>fullmatch\<close>.\<close>

definition project_scope_rx :: rx where
  "project_scope_rx =
     RSeq [RLit ''project:'', RCls alnum,
           RRep (\<lambda>c. alnum c \<or> c \<in> set ''._-'') 0 (Some 127)]"

definition validate_scope :: "string \<Rightarrow> string res" where
  "validate_scope v =
     (if v \<in> set base_scopes \<or> rx_fullmatch project_scope_rx v then Inr v
      else Inl (ValueError ''unsupported memory scope''))"

definition validate_sensitivity :: "string \<Rightarrow> string res" where
  "validate_sensitivity v =
     (if v \<notin> set sensitivities then Inl (ValueError ''unsupported memory sensitivity'') else Inr v)"

definition validate_relation :: "string \<Rightarrow> string res" where
  "validate_relation v =
     (if v \<notin> set provenance_relations then Inl (ValueError ''unsupported provenance relation'')
      else Inr v)"

definition validate_correction_status :: "string option \<Rightarrow> string option res" where
  "validate_correction_status v =
     (case v of
        None \<Rightarrow> Inr None
      | Some t \<Rightarrow> if t \<notin> set correction_statuses
                  then Inl (ValueError ''unsupported correction status'') else Inr v)"

section \<open>Decisions and the credential screen\<close>

datatype policy_outcome = Rejected | NeedsReview

record policy_decision =
  pd_outcome :: policy_outcome
  pd_reason :: string

definition mk_decision :: "policy_outcome \<Rightarrow> string \<Rightarrow> policy_decision" where
  "mk_decision oc r = \<lparr>pd_outcome = oc, pd_reason = r\<rparr>"

definition not_space :: "char \<Rightarrow> bool" where
  "not_space c \<longleftrightarrow> \<not> py_isspace c"

definition word_dash :: "char \<Rightarrow> bool" where
  "word_dash c \<longleftrightarrow> alnum c \<or> c = CHR ''_'' \<or> c = CHR ''-''"

definition quote_char :: "char \<Rightarrow> bool" where
  "quote_char c \<longleftrightarrow> c = CHR 0x27 \<or> c = CHR 0x22"

definition spaces :: rx where
  "spaces = RRep py_isspace 0 None"

text \<open>A separator class \<open>[_ -]?\<close>.\<close>

definition key_sep :: rx where
  "key_sep = ROpt (RCls (\<lambda>c. c \<in> set ''_ -''))"

text \<open>\<open>_CREDENTIAL_SHAPES\<close>, in the order of the source.\<close>

definition rx_private_key :: rx where
  "rx_private_key =
     RSeq [RLit ''-----BEGIN '', ROpt (RAlt [RLit ''RSA '', RLit ''EC '', RLit ''OPENSSH '']),
           RLit ''PRIVATE KEY-----'']"

definition rx_aws_key :: rx where
  "rx_aws_key =
     RSeq [RWordB, RLit ''AKIA'', RRep (\<lambda>c. is_digit09 c \<or> is_upper_az c) 16 (Some 16), RWordB]"

definition rx_token_prefix :: rx where
  "rx_token_prefix =
     RSeq [RWordB,
           RAlt [RLit ''ghp'', RLit ''github_pat'', RSeq [RLit ''sk-'', RRep word_dash 8 (Some 8)]],
           RRep word_dash 12 None, RWordB]"

definition rx_assignment :: rx where
  "rx_assignment =
     RSeq [RWordB,
           RAlt [RSeq [ci_lit ''api'', key_sep, ci_lit ''key''],
                 RSeq [ci_lit ''client'', key_sep, ci_lit ''secret''],
                 ci_lit ''password'', ci_lit ''token''],
           RWordB, ROpt (RCls quote_char), spaces, RCls (\<lambda>c. c \<in> set '':=''), spaces,
           ROpt (RCls quote_char), RRep (\<lambda>c. not_space c \<and> \<not> quote_char c) 8 None]"

definition rx_bearer :: rx where
  "rx_bearer =
     RSeq [RWordB, ci_lit ''authorization'', spaces, RLit '':'', spaces, ci_lit ''bearer'',
           RRep py_isspace 1 None, RRep (\<lambda>c. alnum c \<or> c \<in> set ''._~+/=-'') 8 None]"

definition rx_google_key :: rx where
  "rx_google_key = RSeq [RWordB, RLit ''AIza'', RRep word_dash 30 None, RWordB]"

definition rx_slack_token :: rx where
  "rx_slack_token =
     RSeq [RWordB, RLit ''xox'', RCls (\<lambda>c. c \<in> set ''baprs''), RLit ''-'',
           RRep (\<lambda>c. alnum c \<or> c = CHR ''-'') 10 None, RWordB]"

definition rx_jwt :: rx where
  "rx_jwt =
     RSeq [RWordB, RLit ''eyJ'', RRep word_dash 8 None, RLit ''.'', RRep word_dash 8 None,
           RLit ''.'', RRep word_dash 8 None, RWordB]"

definition rx_database_url :: rx where
  "rx_database_url =
     RSeq [RWordB,
           RAlt [RSeq [ci_lit ''postgres'', ROpt (ci_lit ''ql'')], ci_lit ''mysql'',
                 RSeq [ci_lit ''mongodb'', ROpt (RSeq [RLit ''+'', ci_lit ''srv''])]],
           RLit ''://'', RRep (\<lambda>c. not_space c \<and> c \<notin> set '':/'') 1 None, RLit '':'',
           RRep (\<lambda>c. not_space c \<and> c \<notin> set ''/@'') 1 None, RLit ''@'']"

definition rx_account_key :: rx where
  "rx_account_key =
     RSeq [RWordB,
           RAlt [ci_lit ''accountkey'', ci_lit ''sharedaccesssignature'', ci_lit ''aws_secret_access_key''],
           spaces, RLit ''='', spaces, RRep (\<lambda>c. not_space c \<and> c \<noteq> CHR '';'') 8 None]"

definition credential_shapes :: "rx list" where
  "credential_shapes =
     [rx_private_key, rx_aws_key, rx_token_prefix, rx_assignment, rx_bearer, rx_google_key,
      rx_slack_token, rx_jwt, rx_database_url, rx_account_key]"

definition text_or_empty :: "string option \<Rightarrow> string" where
  "text_or_empty x = (case x of None \<Rightarrow> [] | Some s \<Rightarrow> s)"

definition screened_text :: "write_request \<Rightarrow> string list \<Rightarrow> string" where
  "screened_text w extra =
     py_join [CHR 0x0A]
       (filter (\<lambda>part. part \<noteq> [])
          ([wr_content w, text_or_empty (wr_observation_content w),
            text_or_empty (wr_evidence_excerpt w), text_or_empty (wr_source_uri w),
            text_or_empty (wr_asserted_by w), wr_category w, wr_tags w, wr_metadata_json w] @ extra))"

definition default_credential_screen ::
  "write_request \<Rightarrow> string list \<Rightarrow> policy_decision option" where
  "default_credential_screen w extra =
     (if list_ex (\<lambda>p. rx_search p (screened_text w extra)) credential_shapes
      then Some (mk_decision Rejected ''credential-shaped content'') else None)"

section \<open>MemoryPolicy\<close>

record memory_policy =
  mp_grants :: "(string \<times> string list) list"
  mp_screens :: "(write_request \<Rightarrow> policy_decision option) list"
  mp_correction_authorities :: "string list"
  mp_conflict_resolution_authorities :: "string list"

text \<open>The constructor: grants are validated and the last grant of a stripped id wins.\<close>

fun normalize_grants ::
  "(string \<times> string list) list \<Rightarrow> (string \<times> string list) list \<Rightarrow> (string \<times> string list) list res" where
  "normalize_grants acc [] = Inr acc"
| "normalize_grants acc ((client, scopes) # rest) =
     (let key = py_strip client
      in rbind (guard_res (key \<noteq> []) (ValueError ''client grant id must not be empty'')) (\<lambda>_.
         rbind (map_res validate_scope scopes) (\<lambda>vs.
         rbind (guard_res (dict_fromkeys vs \<noteq> []) (ValueError ''client scope grant must not be empty'')) (\<lambda>_.
         normalize_grants (dict_set key (dict_fromkeys vs) acc) rest))))"

definition memory_policy_init ::
  "(string \<times> string list) list \<Rightarrow> (write_request \<Rightarrow> policy_decision option) list
     \<Rightarrow> string list \<Rightarrow> string list \<Rightarrow> memory_policy res" where
  "memory_policy_init grants screens corr resol =
     rbind (normalize_grants [] grants) (\<lambda>g.
     Inr \<lparr>mp_grants = g, mp_screens = screens, mp_correction_authorities = corr,
          mp_conflict_resolution_authorities = resol\<rparr>)"

text \<open>\<open>replace(context, ...)\<close> runs \<open>ConnectionContext.__post_init__\<close> again.\<close>

definition authorize_context ::
  "memory_policy \<Rightarrow> connection_context \<Rightarrow> connection_context res" where
  "authorize_context mp ctx =
     (case map_of (mp_grants mp) (cc_client_id ctx) of
        None \<Rightarrow> Inl (UnknownMemoryClient ''memory client has no server-side scope grant'')
      | Some grants \<Rightarrow>
          rbind (map_res validate_scope (cc_access_scopes ctx)) (\<lambda>requested.
            let effective = filter (\<lambda>sc. sc \<in> set grants) requested
            in if effective = []
               then Inl (PermissionError ''requested scopes do not intersect server-side grants'')
               else connection_context_init (ctx\<lparr>cc_access_scopes := effective\<rparr>)))"

definition can_assert_correction :: "memory_policy \<Rightarrow> string \<Rightarrow> bool" where
  "can_assert_correction mp client \<longleftrightarrow> client \<in> set (mp_correction_authorities mp)"

definition can_resolve_conflicts :: "memory_policy \<Rightarrow> string \<Rightarrow> bool" where
  "can_resolve_conflicts mp client \<longleftrightarrow> client \<in> set (mp_conflict_resolution_authorities mp)"

definition human_statuses :: "string option list" where
  "human_statuses = [Some ''human_corrected'', Some ''human_confirmed'']"

definition claims_correction :: "write_request \<Rightarrow> bool" where
  "claims_correction w \<longleftrightarrow>
     wr_source_type w = ''human_correction'' \<or> wr_relation w = ''corrects''
     \<or> wr_correction_status w \<in> set human_statuses"

fun run_screens ::
  "(write_request \<Rightarrow> policy_decision option) list \<Rightarrow> write_request \<Rightarrow> policy_decision option" where
  "run_screens [] w = None"
| "run_screens (sc # scs) w = (case sc w of Some dec \<Rightarrow> Some dec | None \<Rightarrow> run_screens scs w)"

definition evaluate_write ::
  "memory_policy \<Rightarrow> write_request \<Rightarrow> string option \<Rightarrow> string list \<Rightarrow> policy_decision option res" where
  "evaluate_write mp w client sensitive_fields =
     rbind (validate_scope (wr_scope w)) (\<lambda>_.
     rbind (validate_sensitivity (wr_sensitivity w)) (\<lambda>_.
     rbind (validate_relation (wr_relation w)) (\<lambda>_.
     rbind (validate_correction_status (wr_correction_status w)) (\<lambda>_.
     if wr_scope w = ''secret'' \<or> wr_sensitivity w = ''secret''
       then Inr (Some (mk_decision Rejected ''secret durable writes are disabled''))
     else if claims_correction w
             \<and> (case client of None \<Rightarrow> True | Some c \<Rightarrow> \<not> can_assert_correction mp c)
       then Inr (Some (mk_decision NeedsReview ''client is not authorized to assert human correction''))
     else (case default_credential_screen w sensitive_fields of
             Some dec \<Rightarrow> Inr (Some dec)
           | None \<Rightarrow> Inr (run_screens (mp_screens mp) w))))))"

section \<open>Properties\<close>

lemma validate_scope_Inr [simp]: "validate_scope v = Inr w \<Longrightarrow> w = v"
  by (auto simp: validate_scope_def split: if_splits)

lemma map_res_validate_scope: "map_res validate_scope vs = Inr ws \<Longrightarrow> ws = vs"
proof -
  assume "map_res validate_scope vs = Inr ws"
  then have "list_all2 (\<lambda>x y. validate_scope x = Inr y) vs ws" by (simp add: map_res_Inr_iff)
  then have "list_all2 (\<lambda>x y. y = x) vs ws" by (rule list_all2_mono) simp
  then show ?thesis by (simp add: list.rel_eq list_all2_conv_all_nth list_eq_iff_nth_eq)
qed

lemma connection_context_init_scopes:
  assumes "connection_context_init c = Inr c'"
  shows "set (cc_access_scopes c') = py_strip ` set (cc_access_scopes c)"
proof -
  from assms obtain scopes where
    scopes: "map_res (\<lambda>v. py_required v ''access_scope'') (cc_access_scopes c) = Inr scopes"
    and c': "cc_access_scopes c' = sorted_set scopes"
    unfolding connection_context_init_def rbind_eq_Inr guard_res_Inr by auto
  from scopes have l: "list_all2 (\<lambda>x y. py_required x ''access_scope'' = Inr y) (cc_access_scopes c) scopes"
    by (simp add: map_res_Inr_iff)
  then have "list_all2 (\<lambda>x y. y = py_strip x) (cc_access_scopes c) scopes"
    by (rule list_all2_mono) (auto dest: py_required_Inr)
  then have "scopes = map py_strip (cc_access_scopes c)"
    by (simp add: list_all2_conv_all_nth list_eq_iff_nth_eq)
  with c' show ?thesis by simp
qed

text \<open>A scope that validates has no surrounding white space, so stripping keeps it.\<close>

lemma project_scope_form:
  assumes "rx_fullmatch project_scope_rx v"
  shows "\<exists>c w. v = ''project:'' @ c # w \<and> alnum c \<and> (\<forall>x \<in> set w. alnum x \<or> x \<in> set ''._-'')
    \<and> length w \<le> 127"
proof -
  let ?P = "\<lambda>c. alnum c \<or> c \<in> set ''._-''"
  from assms obtain i j where i: "i \<in> set (rx_ends (RLit ''project:'') v 0)"
    and j: "j \<in> set (rx_ends (RCls alnum) v i)"
    and e: "length v \<in> set (rx_ends (RRep ?P 0 (Some 127)) v j)"
    unfolding rx_fullmatch_def project_scope_rx_def by (auto simp del: starts_with.simps)
  from i obtain t where v: "v = ''project:'' @ t" and i8: "i = 8"
    by (auto simp: starts_with_iff simp del: starts_with.simps split: if_splits)
  from j have "8 < length v" and c: "alnum (v ! 8)" and j9: "j = 9"
    by (auto simp: i8 split: if_splits)
  then obtain c w where t: "t = c # w" by (cases t) (auto simp: v)
  have w: "drop 9 v = w" by (simp add: v t)
  from e have len: "length w \<le> 127" "length w \<le> length (takeWhile ?P w)"
    using w by (auto simp: rep_ends_def run_length_def Let_def j9 v t)
  have "length w = length (takeWhile ?P w) + length (dropWhile ?P w)"
    by (metis length_append takeWhile_dropWhile_id)
  with len(2) have "dropWhile ?P w = []" by simp
  then have "\<forall>x \<in> set w. ?P x" by (simp only: dropWhile_eq_Nil_conv)
  moreover have "alnum c" using c by (simp add: v t)
  ultimately show ?thesis using v t len(1) by blast
qed

lemma py_strip_fixed:
  assumes "s \<noteq> []" and "\<not> py_isspace (hd s)" and "\<not> py_isspace (last s)"
  shows "py_strip s = s"
proof -
  have "py_lstrip s = s" using assms(1,2) by (cases s) (auto simp: py_lstrip_Cons)
  moreover have "py_rstrip s = s"
    using assms(1,3) by (cases s rule: rev_cases) (auto simp: py_rstrip_snoc)
  ultimately show ?thesis by (simp add: py_strip_def)
qed

lemma alnum_not_space: "alnum c \<Longrightarrow> \<not> py_isspace c"
  by (auto simp: alnum_def is_lower_az_def is_upper_az_def is_digit09_def py_isspace_def
      py_whitespace_def)

lemma punct_not_space: "c \<in> set ''._-'' \<Longrightarrow> \<not> py_isspace c"
  by (auto simp: py_isspace_def py_whitespace_def)

lemma validate_scope_strip:
  assumes "validate_scope v = Inr w"
  shows "py_strip v = v"
proof -
  consider "v \<in> set base_scopes" | "rx_fullmatch project_scope_rx v"
    using assms by (auto simp: validate_scope_def split: if_splits)
  then show ?thesis
  proof cases
    case 1
    then show ?thesis
      by (auto simp: base_scopes_def py_isspace_def py_whitespace_def intro!: py_strip_fixed)
  next
    case 2
    then obtain c w where v: "v = ''project:'' @ c # w" and c: "alnum c"
      and w: "\<forall>x \<in> set w. alnum x \<or> x \<in> set ''._-''"
      using project_scope_form by blast
    have "last (c # w) \<in> set (c # w)" by (rule last_in_set) simp
    then have "\<not> py_isspace (last (c # w))"
      using c w alnum_not_space punct_not_space by (metis set_ConsD)
    then show ?thesis
      by (intro py_strip_fixed) (auto simp: v py_isspace_def py_whitespace_def)
  qed
qed

lemma filter_scopes_strip:
  assumes "map_res validate_scope vs = Inr ws"
  shows "\<forall>v \<in> set vs. py_strip v = v"
proof
  fix v assume "v \<in> set vs"
  from assms have "list_all2 (\<lambda>x y. validate_scope x = Inr y) vs ws" by (simp add: map_res_Inr_iff)
  with \<open>v \<in> set vs\<close> obtain y where "validate_scope v = Inr y"
    by (auto simp: list_all2_conv_all_nth in_set_conv_nth)
  then show "py_strip v = v" by (rule validate_scope_strip)
qed

lemma authorize_context_Inr:
  assumes "authorize_context mp ctx = Inr ctx'"
  obtains grants where "map_of (mp_grants mp) (cc_client_id ctx) = Some grants"
    and "set (cc_access_scopes ctx') = set (cc_access_scopes ctx) \<inter> set grants"
    and "cc_access_scopes ctx' \<noteq> []"
    and "connection_context_init (ctx\<lparr>cc_access_scopes :=
           filter (\<lambda>sc. sc \<in> set grants) (cc_access_scopes ctx)\<rparr>) = Inr ctx'"
proof -
  from assms obtain grants requested where
    g: "map_of (mp_grants mp) (cc_client_id ctx) = Some grants"
    and r: "map_res validate_scope (cc_access_scopes ctx) = Inr requested"
    and ne: "filter (\<lambda>sc. sc \<in> set grants) requested \<noteq> []"
    and i: "connection_context_init
      (ctx\<lparr>cc_access_scopes := filter (\<lambda>sc. sc \<in> set grants) requested\<rparr>) = Inr ctx'"
    by (auto simp: authorize_context_def Let_def rbind_eq_Inr split: option.splits if_splits)
  have req: "requested = cc_access_scopes ctx" using map_res_validate_scope [OF r] .
  have "set (cc_access_scopes ctx') = py_strip ` {sc \<in> set (cc_access_scopes ctx). sc \<in> set grants}"
    using connection_context_init_scopes [OF i] by (simp add: req)
  also have "\<dots> = set (cc_access_scopes ctx) \<inter> set grants"
    using filter_scopes_strip [OF r] by (auto simp: image_iff)
  finally have "set (cc_access_scopes ctx') = set (cc_access_scopes ctx) \<inter> set grants" .
  moreover have "cc_access_scopes ctx' \<noteq> []" using connection_context_init_Inr [OF i] by blast
  ultimately show thesis using that g i req by blast
qed

text \<open>A request for no more than a client's grant keeps exactly the requested scopes it was granted.\<close>

lemma evaluate_write_None:
  assumes "evaluate_write mp w client extra = Inr None"
  shows "wr_scope w \<noteq> ''secret''" and "wr_sensitivity w \<in> {''normal'', ''sensitive''}"
    and "wr_relation w \<in> set provenance_relations"
    and "claims_correction w \<Longrightarrow> \<exists>c. client = Some c \<and> can_assert_correction mp c"
    and "default_credential_screen w extra = None"
proof -
  from assms obtain x where v: "validate_sensitivity (wr_sensitivity w) = Inr x"
    by (auto simp: evaluate_write_def rbind_eq_Inr)
  from assms obtain y where r: "validate_relation (wr_relation w) = Inr y"
    by (auto simp: evaluate_write_def rbind_eq_Inr)
  from assms show "wr_scope w \<noteq> ''secret''"
    by (auto simp: evaluate_write_def rbind_eq_Inr)
  from assms have "wr_sensitivity w \<noteq> ''secret''"
    by (auto simp: evaluate_write_def rbind_eq_Inr)
  with v show "wr_sensitivity w \<in> {''normal'', ''sensitive''}"
    by (auto simp: validate_sensitivity_def sensitivities_def split: if_splits)
  from r show "wr_relation w \<in> set provenance_relations"
    by (auto simp: validate_relation_def split: if_splits)
  from assms show "claims_correction w \<Longrightarrow> \<exists>c. client = Some c \<and> can_assert_correction mp c"
    by (auto simp: evaluate_write_def rbind_eq_Inr split: if_splits option.splits)
  from assms show "default_credential_screen w extra = None"
    by (auto simp: evaluate_write_def rbind_eq_Inr split: if_splits option.splits)
qed

lemma py_join_Cons: "py_join sep (w # ws) = w @ (if ws = [] then [] else sep @ py_join sep ws)"
  by (cases ws) auto

text \<open>The screened text starts with the content; what follows it, if anything, is a line break.\<close>

lemma screened_text_content:
  assumes "wr_content w \<noteq> []"
  obtains rest where "screened_text w extra = wr_content w @ rest"
    and "rest = [] \<or> hd rest = CHR 0x0A"
  using assms by (auto simp: screened_text_def py_join_Cons)

lemma rx_aws_key_found:
  assumes key: "length key = 16" "\<forall>c \<in> set key. is_digit09 c \<or> is_upper_az c"
    and before: "a = [] \<or> \<not> is_word (last a)" and after: "b = [] \<or> \<not> is_word (hd b)"
  shows "rx_search rx_aws_key (a @ ''AKIA'' @ key @ b)"
proof -
  let ?P = "\<lambda>c. is_digit09 c \<or> is_upper_az c"
  let ?s = "a @ ''AKIA'' @ key @ b"
  have b1: "word_boundary ?s (length a)"
    using word_boundary_start [of "CHR ''A''" a "''KIA'' @ key @ b"] before
    by (simp add: is_word_def is_upper_az_def)
  have lit: "starts_with ''AKIA'' (drop (length a) ?s)" by (simp add: starts_with_iff)
  have rep: "length a + 20 \<in> set (rep_ends ?P 16 (Some 16) ?s (Suc (Suc (Suc (Suc (length a))))))"
    using rep_ends_mem [of key ?P 16 "Some 16" "a @ ''AKIA''" b] key
    by (simp add: add.commute)
  have ne: "key \<noteq> []" using key(1) by auto
  have lastk: "is_word (last key)"
  proof -
    have "last key \<in> set key" using ne by (rule last_in_set)
    then show ?thesis using key(2) by (auto simp: is_word_def)
  qed
  have b2: "word_boundary ?s (length a + 20)"
    using word_boundary_end [of key b "a @ ''AKIA''", OF lastk ne after] key(1)
    by (simp add: add.commute)
  have "length a + 20 \<in> set (rx_ends rx_aws_key ?s (length a))"
    unfolding rx_aws_key_def rx_ends.simps list.map fold_ends_mem fold_ends.simps(1)
    using b1 lit rep b2 by (auto simp del: starts_with.simps intro!: bexI [of _ "length a"])
  then show ?thesis
    by (auto simp: rx_search_iff intro!: exI [of _ "length a"])
qed

section \<open>Claims\<close>

text \<open>an authorised context has exactly the scopes that were both requested and granted by
  the server's configuration, and at least one; a client never grants a scope to itself.\<close>

theorem authorize_context_grants:
  assumes "authorize_context mp ctx = Inr ctx'"
  shows "\<exists>grants. map_of (mp_grants mp) (cc_client_id ctx) = Some grants
    \<and> set (cc_access_scopes ctx') = set (cc_access_scopes ctx) \<inter> set grants
    \<and> cc_access_scopes ctx' \<noteq> []"
  using assms by (elim authorize_context_Inr) blast

definition demo_context :: connection_context where
  "demo_context =
     \<lparr>cc_client_id = ''cli'', cc_surface = ''local'', cc_agent_id = ''agent'', cc_session_id = ''s1'',
      cc_display_name = None, cc_parent_agent_id = None, cc_project_root = None, cc_repository = None,
      cc_branch = None, cc_commit_sha = None, cc_capabilities = [],
      cc_access_scopes = [''private'', ''work''], cc_started_at = None\<rparr>"

definition demo_policy :: memory_policy where
  "demo_policy =
     \<lparr>mp_grants = [(''cli'', [''public'', ''private''])], mp_screens = [],
      mp_correction_authorities = [], mp_conflict_resolution_authorities = [''cli'']\<rparr>"

lemma demo_authorized:
  "authorize_context demo_policy demo_context = Inr (demo_context\<lparr>cc_access_scopes := [''private'']\<rparr>)"
  by code_simp

theorem authorize_context_grants_witness:
  "\<exists>grants. map_of (mp_grants demo_policy) (cc_client_id demo_context) = Some grants
    \<and> {''private''} = set (cc_access_scopes demo_context) \<inter> set grants"
  using authorize_context_grants [OF demo_authorized] by simp

text \<open>a request whose content holds a separate AWS access key id is never let through by the
  write policy, whatever surrounds the key and whatever else the request carries.\<close>

theorem evaluate_write_blocks_aws_key:
  assumes "wr_content w = a @ ''AKIA'' @ key @ b"
    and "length key = 16" and "\<forall>c \<in> set key. is_digit09 c \<or> is_upper_az c"
    and "a = [] \<or> \<not> is_word (last a)" and "b = [] \<or> \<not> is_word (hd b)"
  shows "evaluate_write mp w client extra \<noteq> Inr None"
proof
  assume ok: "evaluate_write mp w client extra = Inr None"
  obtain rest where rest: "screened_text w extra = wr_content w @ rest" "rest = [] \<or> hd rest = CHR 0x0A"
    using screened_text_content [of w extra] assms(1) by auto
  have "b @ rest = [] \<or> \<not> is_word (hd (b @ rest))"
    using assms(5) rest(2) by (cases b; cases rest)
      (auto simp: is_word_def is_lower_az_def is_upper_az_def is_digit09_def)
  then have "rx_search rx_aws_key (screened_text w extra)"
    using rx_aws_key_found [OF assms(2,3,4), of "b @ rest"] by (simp add: rest(1) assms(1))
  then have "default_credential_screen w extra \<noteq> None"
    by (simp add: default_credential_screen_def credential_shapes_def)
  with evaluate_write_None(5) [OF ok] show False by simp
qed

definition demo_request :: write_request where
  "demo_request =
     \<lparr>wr_idempotency_key = ''k1'', wr_content = ''the sky is blue'', wr_source_type = ''chat'',
      wr_category = ''general'', wr_tags = [], wr_trust_score = 1/2, wr_source_authority = 1/2,
      wr_source_uri = None, wr_observation_content = None, wr_asserted_by = None,
      wr_performed_by = None, wr_observed_at = None, wr_scope = ''private'',
      wr_sensitivity = ''normal'', wr_correction_status = None, wr_evidence_excerpt = None,
      wr_relation = ''supports'', wr_metadata_json = ''{}'', wr_supersede_fact_id = None,
      wr_operation = ''add_fact''\<rparr>"

theorem evaluate_write_blocks_aws_key_witness:
  "evaluate_write demo_policy (demo_request\<lparr>wr_content := ''key: AKIA0123456789ABCDEF.''\<rparr>) (Some ''cli'') []
    \<noteq> Inr None"
  by (rule evaluate_write_blocks_aws_key [where a = "''key: ''" and key = "''0123456789ABCDEF''"
        and b = "''.''"])
    (simp_all add: is_digit09_def is_upper_az_def is_lower_az_def is_word_def)

end
