(* ===== verification/State_Slots.thy ===== *)
theory State_Slots
  imports Policy "HOL-Library.Product_Lexorder"
begin

text \<open>
  \<open>state_slots.py\<close>: the normalisation of slot keys, timestamps, the schema installer, the
  decision of a typed state write, and the durable conflict records (open, add a member,
  resolve, list). Functions that mutate return the new database; the caller owns the
  transaction, so an exception means that the database of the call is rolled back.

  The second half defines the slot invariant \<open>slot_inv\<close> and proves what the operations
  keep of it.
\<close>

section \<open>Slot keys\<close>

text \<open>\<open>re.sub(r"X+", "_", s)\<close> for a character class \<open>X\<close>.\<close>

fun collapse :: "(char \<Rightarrow> bool) \<Rightarrow> bool \<Rightarrow> string \<Rightarrow> string" where
  "collapse P in_run [] = []"
| "collapse P in_run (c # s) =
     (if P c then (if in_run then collapse P True s else CHR ''_'' # collapse P True s)
      else c # collapse P False s)"

definition key_char :: "char \<Rightarrow> bool" where
  "key_char c \<longleftrightarrow> is_lower_az c \<or> is_digit09 c"

definition subject_key_rx :: rx where
  "subject_key_rx =
     RSeq [RCls key_char, RRep (\<lambda>c. key_char c \<or> c \<in> set ''._:/-'') 0 (Some 127)]"

definition predicate_key_rx :: rx where
  "predicate_key_rx =
     RSeq [RCls key_char, RRep (\<lambda>c. key_char c \<or> c \<in> set ''._-'') 0 (Some 63)]"

definition normalize_subject_key :: "string \<Rightarrow> string res" where
  "normalize_subject_key v =
     (let n = collapse py_isspace False (py_casefold (py_strip v))
      in if \<not> rx_fullmatch subject_key_rx n
         then Inl (ValueError ''subject_key is not a canonical slot key'') else Inr n)"

definition normalize_predicate_key :: "string \<Rightarrow> string res" where
  "normalize_predicate_key v =
     (let n = collapse (\<lambda>c. py_isspace c \<or> c = CHR ''-'') False (py_casefold (py_strip v))
      in if \<not> rx_fullmatch predicate_key_rx n
         then Inl (ValueError ''predicate_key is not a canonical slot key'') else Inr n)"

section \<open>Timestamps\<close>

text \<open>Instants are microseconds since the epoch in UTC.\<close>

definition parse_timestamp :: "runtime \<Rightarrow> string option \<Rightarrow> int option res" where
  "parse_timestamp rt value =
     (case value of
        None \<Rightarrow> Inr None
      | Some v \<Rightarrow>
          let candidate = py_strip v in
          if candidate = [] then Inr None
          else
            let candidate' = (if ends_with ''Z'' candidate then butlast candidate @ ''+00:00'' else candidate)
            in (case rt_fromisoformat rt candidate' of
                  None \<Rightarrow> Inl (ValueError ''invalid ISO timestamp'')
                | Some (wall, offset) \<Rightarrow>
                    Inr (Some (case offset of None \<Rightarrow> wall | Some off \<Rightarrow> wall - off))))"

section \<open>Value objects\<close>

record state_candidate =
  sc_content :: string
  sc_subject_key :: string
  sc_predicate_key :: string
  sc_object_value :: "string option"
  sc_source_authority :: rat
  sc_valid_from :: "string option"
  sc_memory_kind :: string
  sc_scope :: string

definition state_candidate_init :: "runtime \<Rightarrow> state_candidate \<Rightarrow> state_candidate res" where
  "state_candidate_init rt c =
     rbind (py_required (sc_content c) ''content'') (\<lambda>content.
     rbind (py_required (sc_scope c) ''scope'') (\<lambda>scope.
     rbind (py_required (sc_subject_key c) ''subject_key'') (\<lambda>subject.
     rbind (py_required (sc_predicate_key c) ''predicate_key'') (\<lambda>predicate.
     rbind (py_required (sc_memory_kind c) ''memory_kind'') (\<lambda>kind.
     rbind (guard_res (in_unit (sc_source_authority c))
              (ValueError ''source_authority must be between 0 and 1'')) (\<lambda>_.
     rbind (parse_timestamp rt (sc_valid_from c)) (\<lambda>_.
     Inr (c\<lparr>sc_content := content, sc_scope := scope, sc_subject_key := subject,
            sc_predicate_key := predicate, sc_memory_kind := kind\<rparr>))))))))"

record current_state_fact =
  cs_fact_id :: int
  cs_content :: string
  cs_subject_key :: string
  cs_predicate_key :: string
  cs_scope :: string
  cs_object_value :: "string option"
  cs_source_authority :: rat
  cs_valid_from :: "string option"
  cs_conflict_group :: "string option"

datatype decision_action = AddFact | Dedup | Supersede | Conflict

record slot_decision =
  sd_action :: decision_action
  sd_scope :: string
  sd_subject_key :: string
  sd_predicate_key :: string
  sd_current_fact_ids :: "int list"
  sd_target_fact_id :: "int option"
  sd_reason :: string

record conflict_record =
  cr_conflict_id :: string
  cr_scope :: string
  cr_subject_key :: string
  cr_predicate_key :: string
  cr_member_fact_ids :: "int list"
  cr_detected_at :: string

record conflict_resolution =
  cx_conflict_id :: string
  cx_resolution_fact_id :: int
  cx_superseded_fact_ids :: "int list"
  cx_resolved_by :: string
  cx_reason :: string
  cx_resolved_at :: string

section \<open>Schema\<close>

definition typed_columns :: "string list" where
  "typed_columns =
     [''memory_kind'', ''subject_key'', ''predicate_key'', ''object_value'', ''object_entity_id'',
      ''confidence'', ''source_authority'', ''scope'', ''sensitivity'', ''correction_status'',
      ''schema_version'', ''conflict_group'']"

text \<open>
  \<open>ALTER TABLE facts ADD COLUMN\<close>: existing rows read the new column's default, which is
  \<open>NULL\<close> for every typed column but \<open>scope\<close>. (A model row always has a sensitivity text,
  as in a v1 store, so adding that column leaves rows as they are.)
\<close>

definition add_column :: "string \<Rightarrow> fact \<Rightarrow> fact" where
  "add_column name f =
     (if name = ''memory_kind'' then f\<lparr>f_memory_kind := None\<rparr>
      else if name = ''subject_key'' then f\<lparr>f_subject_key := None\<rparr>
      else if name = ''predicate_key'' then f\<lparr>f_predicate_key := None\<rparr>
      else if name = ''object_value'' then f\<lparr>f_object_value := None\<rparr>
      else if name = ''object_entity_id'' then f\<lparr>f_object_entity_id := None\<rparr>
      else if name = ''confidence'' then f\<lparr>f_confidence := None\<rparr>
      else if name = ''source_authority'' then f\<lparr>f_source_authority := None\<rparr>
      else if name = ''scope'' then f\<lparr>f_scope := ''private''\<rparr>
      else if name = ''correction_status'' then f\<lparr>f_correction_status := None\<rparr>
      else if name = ''schema_version'' then f\<lparr>f_schema_version := None\<rparr>
      else if name = ''conflict_group'' then f\<lparr>f_conflict_group := None\<rparr>
      else f)"

fun add_missing_columns :: "string list \<Rightarrow> db \<Rightarrow> db" where
  "add_missing_columns [] d = d"
| "add_missing_columns (n # ns) d =
     (if n \<in> set (db_fact_columns d) then add_missing_columns ns d
      else add_missing_columns ns
             (d\<lparr>db_fact_columns := db_fact_columns d @ [n], db_facts := map (add_column n) (db_facts d)\<rparr>))"

text \<open>
  The conflict tables are created empty or kept; in the model they always exist. A database
  without a \<open>facts\<close> table has no fact columns.
\<close>

definition ensure_state_slot_schema :: "db \<Rightarrow> (bool \<times> db) res" where
  "ensure_state_slot_schema d =
     (if db_fact_columns d = [] then Inl (RuntimeError ''facts table must exist before state-slot schema'')
      else
        let d1 = add_missing_columns typed_columns d
        in if \<not> has_columns d1 [''invalid_at'', ''superseded_by''] then Inr (False, d1)
           else if \<not> slot_unique (db_facts d1) then Inr (False, d1)
           else Inr (True, d1\<lparr>db_slot_index := True\<rparr>))"

section \<open>Reading a slot\<close>

definition in_slot :: "string \<Rightarrow> string \<Rightarrow> string \<Rightarrow> fact \<Rightarrow> bool" where
  "in_slot scope subject predicate f \<longleftrightarrow>
     f_memory_kind f = Some ''state'' \<and> f_scope f = scope
     \<and> f_subject_key f = Some subject \<and> f_predicate_key f = Some predicate"

definition slot_rows :: "db \<Rightarrow> string \<Rightarrow> string \<Rightarrow> string \<Rightarrow> fact list" where
  "slot_rows d scope subject predicate =
     sort_key f_id (filter (\<lambda>f. in_slot scope subject predicate f \<and> is_current f) (db_facts d))"

definition coalesce_authority :: "fact \<Rightarrow> rat" where
  "coalesce_authority f = (case f_source_authority f of None \<Rightarrow> 1/2 | Some a \<Rightarrow> a)"

definition state_fact_of :: "fact \<Rightarrow> current_state_fact" where
  "state_fact_of f =
     \<lparr>cs_fact_id = f_id f, cs_content = f_content f,
      cs_subject_key = text_or_empty (f_subject_key f),
      cs_predicate_key = text_or_empty (f_predicate_key f),
      cs_scope = f_scope f, cs_object_value = f_object_value f,
      cs_source_authority = coalesce_authority f, cs_valid_from = f_valid_from f,
      cs_conflict_group = f_conflict_group f\<rparr>"

definition current_state_facts ::
  "db \<Rightarrow> string \<Rightarrow> string \<Rightarrow> string \<Rightarrow> current_state_fact list res" where
  "current_state_facts d subject predicate scope =
     rbind (py_required subject ''subject_key'') (\<lambda>s.
     rbind (py_required predicate ''predicate_key'') (\<lambda>p.
     rbind (py_required scope ''scope'') (\<lambda>sc.
     Inr (map state_fact_of (slot_rows d sc s p)))))"

definition read_current_state ::
  "db \<Rightarrow> string \<Rightarrow> string \<Rightarrow> string \<Rightarrow> current_state_fact option res" where
  "read_current_state d subject predicate scope =
     rbind (current_state_facts d subject predicate scope) (\<lambda>facts.
     if facts = [] \<or> list_ex (\<lambda>f. truthy (cs_conflict_group f)) facts then Inr None
     else if length facts \<noteq> 1
       then Inl (StateSlotInvariantError ''strict state slot has multiple non-conflicted current facts'')
     else Inr (Some (hd facts)))"

section \<open>Listing conflicts\<close>

definition conflict_join :: "db \<Rightarrow> string \<Rightarrow> bool \<Rightarrow> (conflict_row \<times> int) list" where
  "conflict_join d scope unresolved_only =
     sort_key (\<lambda>(k, i). (k_detected_at k, k_id k, i))
       (filter (\<lambda>(k, i). k_scope k = scope \<and> (unresolved_only \<longrightarrow> k_resolved_at k = None))
         (concat (map (\<lambda>k. map (\<lambda>m. (k, snd m))
                        (filter (\<lambda>m. fst m = k_id k) (db_conflict_members d)))
                   (db_conflicts d))))"

text \<open>The loop that groups the joined rows by conflict id, in order of first appearance.\<close>

fun group_add :: "conflict_row \<Rightarrow> int \<Rightarrow> conflict_record list \<Rightarrow> conflict_record list" where
  "group_add k i [] =
     [\<lparr>cr_conflict_id = k_id k, cr_scope = k_scope k, cr_subject_key = k_subject_key k,
       cr_predicate_key = k_predicate_key k, cr_member_fact_ids = [i],
       cr_detected_at = k_detected_at k\<rparr>]"
| "group_add k i (r # rs) =
     (if cr_conflict_id r = k_id k
      then r\<lparr>cr_member_fact_ids := cr_member_fact_ids r @ [i]\<rparr> # rs
      else r # group_add k i rs)"

definition list_state_conflicts :: "db \<Rightarrow> string \<Rightarrow> bool \<Rightarrow> conflict_record list res" where
  "list_state_conflicts d scope unresolved_only =
     rbind (py_required scope ''scope'') (\<lambda>sc.
     Inr (fold (\<lambda>(k, i). group_add k i) (conflict_join d sc unresolved_only) []))"

section \<open>The decision\<close>

definition exact_match :: "state_candidate \<Rightarrow> current_state_fact \<Rightarrow> bool" where
  "exact_match cand f \<longleftrightarrow>
     cs_content f = sc_content cand
     \<or> (sc_object_value cand \<noteq> None \<and> cs_object_value f = sc_object_value cand)"

definition mk_slot_decision ::
  "state_candidate \<Rightarrow> decision_action \<Rightarrow> int list \<Rightarrow> int option \<Rightarrow> string \<Rightarrow> slot_decision" where
  "mk_slot_decision cand a ids target reason =
     \<lparr>sd_action = a, sd_scope = sc_scope cand, sd_subject_key = sc_subject_key cand,
      sd_predicate_key = sc_predicate_key cand, sd_current_fact_ids = ids,
      sd_target_fact_id = target, sd_reason = reason\<rparr>"

definition not_older :: "int option \<Rightarrow> int option \<Rightarrow> bool" where
  "not_older candidate_time existing_time \<longleftrightarrow>
     (case existing_time of
        None \<Rightarrow> True
      | Some e \<Rightarrow> (case candidate_time of None \<Rightarrow> False | Some c \<Rightarrow> e \<le> c))"

definition fresher :: "int option \<Rightarrow> int option \<Rightarrow> bool" where
  "fresher candidate_time existing_time \<longleftrightarrow>
     (case candidate_time of
        None \<Rightarrow> False
      | Some c \<Rightarrow> (case existing_time of None \<Rightarrow> True | Some e \<Rightarrow> e < c))"

definition decide_state_write :: "runtime \<Rightarrow> db \<Rightarrow> state_candidate \<Rightarrow> slot_decision res" where
  "decide_state_write rt d cand =
     (if sc_memory_kind cand \<noteq> ''state''
      then Inr (mk_slot_decision cand AddFact [] None ''non-state memories coexist'')
      else
        rbind (current_state_facts d (sc_subject_key cand) (sc_predicate_key cand) (sc_scope cand)) (\<lambda>current.
        if current = [] then Inr (mk_slot_decision cand AddFact [] None ''slot has no current value'')
        else
          let exact = first_row (exact_match cand) current
          in if 1 < length current \<or> list_ex (\<lambda>f. truthy (cs_conflict_group f)) current
             then Inr (mk_slot_decision cand Conflict (map cs_fact_id current)
                         (map_option cs_fact_id exact) ''slot already has an unresolved conflict'')
             else (case exact of
               Some f \<Rightarrow> Inr (mk_slot_decision cand Dedup (map cs_fact_id current) (Some (cs_fact_id f))
                                ''identical current content or structured value'')
             | None \<Rightarrow>
                 let existing = hd current in
                 rbind (parse_timestamp rt (sc_valid_from cand)) (\<lambda>candidate_time.
                 rbind (parse_timestamp rt (cs_valid_from existing)) (\<lambda>existing_time.
                 if cs_source_authority existing < sc_source_authority cand
                    \<and> not_older candidate_time existing_time
                 then Inr (mk_slot_decision cand Supersede [cs_fact_id existing]
                             (Some (cs_fact_id existing)) ''higher authority and not older'')
                 else if sc_source_authority cand = cs_source_authority existing
                         \<and> fresher candidate_time existing_time
                 then Inr (mk_slot_decision cand Supersede [cs_fact_id existing]
                             (Some (cs_fact_id existing)) ''same authority with newer validity time'')
                 else Inr (mk_slot_decision cand Conflict [cs_fact_id existing] None
                             ''authority and freshness do not establish a clear winner''))))))"

section \<open>Conflicts\<close>

text \<open>\<open>value or default\<close> for an optional text.\<close>

definition or_else :: "string option \<Rightarrow> string \<Rightarrow> string" where
  "or_else x y = (case x of None \<Rightarrow> y | Some s \<Rightarrow> if s = [] then y else s)"

definition open_state_conflict ::
  "runtime \<Rightarrow> string \<Rightarrow> string \<Rightarrow> string \<Rightarrow> string \<Rightarrow> int list \<Rightarrow> string \<Rightarrow> string option
     \<Rightarrow> json option \<Rightarrow> db \<Rightarrow> (conflict_record \<times> db) res" where
  "open_state_conflict rt now uuid subject predicate ids scope detected_at detail d =
     rbind (py_required subject ''subject_key'') (\<lambda>s.
     rbind (py_required predicate ''predicate_key'') (\<lambda>p.
     rbind (py_required scope ''scope'') (\<lambda>sc.
     rbind (guard_res (ids \<noteq> []) (ValueError ''a conflict requires at least one existing fact'')) (\<lambda>_.
     rbind (guard_res (distinct ids) (ValueError ''conflict member ids must be unique'')) (\<lambda>_.
     rbind (canonical_json_object (rt_float_repr rt) detail ''detail_json'') (\<lambda>detail_json.
     let detected = or_else detected_at now in
     rbind (parse_timestamp rt (Some detected)) (\<lambda>_.
     let found = map f_id (filter (\<lambda>f. f_id f \<in> set ids \<and> in_slot sc s p f \<and> is_current f
                                       \<and> f_conflict_group f = None) (db_facts d))
     in rbind (guard_res (set found = set ids)
          (StateSlotInvariantError ''every conflict member must be an active state fact in the exact slot'')) (\<lambda>_.
     rbind (insert_conflict
              \<lparr>k_id = uuid, k_scope = sc, k_subject_key = s, k_predicate_key = p,
               k_detected_at = detected, k_resolved_at = None, k_resolution_fact_id = None,
               k_resolved_by = None, k_resolution_reason = None, k_detail_json = detail_json\<rparr> d) (\<lambda>d1.
     rbind (sql_update_facts (\<lambda>f. f_id f \<in> set ids) (\<lambda>f. f\<lparr>f_conflict_group := Some uuid\<rparr>) d1) (\<lambda>(d2, n).
     rbind (insert_conflict_members uuid ids d2) (\<lambda>d3.
     Inr (\<lparr>cr_conflict_id = uuid, cr_scope = sc, cr_subject_key = s, cr_predicate_key = p,
           cr_member_fact_ids = ids, cr_detected_at = detected\<rparr>, d3))))))))))))"

definition add_conflict_member :: "string \<Rightarrow> int \<Rightarrow> db \<Rightarrow> db res" where
  "add_conflict_member cid fid d =
     (case first_row (\<lambda>k. k_id k = cid \<and> k_resolved_at k = None) (db_conflicts d) of
        None \<Rightarrow> Inl (ValueError ''conflict does not exist or is already resolved'')
      | Some k \<Rightarrow>
          (case fact_by_id d fid of
             None \<Rightarrow> Inl (StateSlotInvariantError
                      ''new conflict member must be a state fact in the exact slot and group'')
           | Some f \<Rightarrow>
               if (f_scope f, f_subject_key f, f_predicate_key f, f_conflict_group f, f_memory_kind f)
                  \<noteq> (k_scope k, Some (k_subject_key k), Some (k_predicate_key k), Some cid, Some ''state'')
               then Inl (StateSlotInvariantError
                      ''new conflict member must be a state fact in the exact slot and group'')
               else if f_invalid_at f \<noteq> None \<or> f_superseded_by f \<noteq> None
               then Inl (StateSlotInvariantError ''new conflict member must be current'')
               else insert_conflict_member cid fid d))"

definition conflict_members :: "db \<Rightarrow> string \<Rightarrow> int list" where
  "conflict_members d cid = sort (map snd (filter (\<lambda>m. fst m = cid) (db_conflict_members d)))"

text \<open>The three optional resolver fields: recorded together, or not at all.\<close>

definition record_resolver ::
  "string \<Rightarrow> int \<Rightarrow> string \<Rightarrow> string \<Rightarrow> string option \<Rightarrow> string option \<Rightarrow> string option \<Rightarrow> db \<Rightarrow> db res" where
  "record_resolver cid rid reason stamp client session agent d =
     (if client = None \<and> session = None \<and> agent = None then Inr d
      else
        rbind (py_required (text_or_empty client) ''resolver_client_id'') (\<lambda>c.
        rbind (py_required (text_or_empty session) ''resolver_session_id'') (\<lambda>s.
        rbind (py_required (text_or_empty agent) ''resolver_agent_id'') (\<lambda>a.
        insert_resolution
          \<lparr>r_conflict_id = cid, r_resolution_fact_id = rid, r_client_id = c, r_session_id = s,
           r_agent_id = a, r_reason = reason, r_resolved_at = stamp\<rparr> d))))"

definition invalidate_losers :: "string \<Rightarrow> int \<Rightarrow> string \<Rightarrow> int list \<Rightarrow> db \<Rightarrow> db res" where
  "invalidate_losers cid rid stamp losers d =
     (if losers = [] then Inr d
      else
        rbind (sql_update_facts
                 (\<lambda>f. f_id f \<in> set losers \<and> f_conflict_group f = Some cid \<and> f_invalid_at f = None)
                 (\<lambda>f. f\<lparr>f_invalid_at := Some stamp, f_superseded_by := Some rid\<rparr>) d) (\<lambda>(d1, n).
        rbind (guard_res (n = length losers)
                 (StateSlotInvariantError ''not all losing conflict members are current'')) (\<lambda>_.
        Inr d1)))"

definition release_winner :: "string \<Rightarrow> int \<Rightarrow> db \<Rightarrow> db res" where
  "release_winner cid rid d =
     rbind (sql_update_facts
              (\<lambda>f. f_id f = rid \<and> f_conflict_group f = Some cid \<and> is_current f)
              (\<lambda>f. f\<lparr>f_conflict_group := None\<rparr>) d) (\<lambda>(d1, n).
     rbind (guard_res (n = 1)
              (StateSlotInvariantError ''resolution fact is not a current member'')) (\<lambda>_.
     Inr d1))"

definition close_conflict :: "string \<Rightarrow> int \<Rightarrow> string \<Rightarrow> string \<Rightarrow> string \<Rightarrow> db \<Rightarrow> db" where
  "close_conflict cid rid by_whom reason stamp d =
     d\<lparr>db_conflicts := update_where (\<lambda>k. k_id k = cid \<and> k_resolved_at k = None)
          (\<lambda>k. k\<lparr>k_resolved_at := Some stamp, k_resolution_fact_id := Some rid,
                 k_resolved_by := Some by_whom, k_resolution_reason := Some reason\<rparr>) (db_conflicts d)\<rparr>"

definition resolve_state_conflict ::
  "runtime \<Rightarrow> string \<Rightarrow> string \<Rightarrow> int \<Rightarrow> string \<Rightarrow> string \<Rightarrow> string option \<Rightarrow> string option
     \<Rightarrow> string option \<Rightarrow> string option \<Rightarrow> db \<Rightarrow> (conflict_resolution \<times> db) res" where
  "resolve_state_conflict rt now cid rid resolved_by reason resolved_at client session agent d =
     rbind (py_required resolved_by ''resolved_by'') (\<lambda>by_whom.
     rbind (py_required reason ''reason'') (\<lambda>why.
     let stamp = or_else resolved_at now in
     rbind (parse_timestamp rt (Some stamp)) (\<lambda>_.
     case first_row (\<lambda>k. k_id k = cid) (db_conflicts d) of
       None \<Rightarrow> Inl (ValueError ''conflict does not exist'')
     | Some k \<Rightarrow>
         if k_resolved_at k \<noteq> None then Inl (ValueError ''conflict is already resolved'')
         else
           let members = conflict_members d cid in
           if rid \<notin> set members then Inl (ValueError ''resolution fact must be a conflict member'')
           else
             let losers = filter (\<lambda>i. i \<noteq> rid) members in
             rbind (invalidate_losers cid rid stamp losers d) (\<lambda>d1.
             rbind (release_winner cid rid d1) (\<lambda>d2.
             rbind (record_resolver cid rid why stamp client session agent
                      (close_conflict cid rid by_whom why stamp d2)) (\<lambda>d3.
             Inr (\<lparr>cx_conflict_id = cid, cx_resolution_fact_id = rid, cx_superseded_fact_ids = losers,
                   cx_resolved_by = by_whom, cx_reason = why, cx_resolved_at = stamp\<rparr>, d3)))))))"

end
