(* ===== verification/Slot_Invariant.thy ===== *)
theory Slot_Invariant
  imports State_Slots
begin

text \<open>
  The invariant of the store that the slot operations rely on and keep.

  Every slot \<open>(scope, subject_key, predicate_key)\<close> is in one of three states: it has no
  current fact; it has one current fact outside every conflict; or all its current facts
  belong to one open conflict, whose members are exactly those facts. The lemmas say which
  single statements and which sequences of statements keep it.
\<close>

section \<open>The invariant\<close>

text \<open>A text that \<open>_required\<close> returns unchanged.\<close>

definition clean :: "string \<Rightarrow> bool" where
  "clean v \<longleftrightarrow> v \<noteq> [] \<and> py_strip v = v"

definition is_open :: "conflict_row \<Rightarrow> bool" where
  "is_open k \<longleftrightarrow> k_resolved_at k = None"

definition in_conflict_slot :: "conflict_row \<Rightarrow> fact \<Rightarrow> bool" where
  "in_conflict_slot k f = in_slot (k_scope k) (k_subject_key k) (k_predicate_key k) f"

definition ids_ok :: "db \<Rightarrow> bool" where
  "ids_ok d \<longleftrightarrow> distinct (fact_ids d) \<and> (\<forall>i \<in> set (fact_ids d). 0 < i \<and> i \<le> db_fact_seq d)
     \<and> 0 \<le> db_fact_seq d"

definition keys_ok :: "db \<Rightarrow> bool" where
  "keys_ok d \<longleftrightarrow> db_slot_index d \<and> slot_unique (db_facts d) \<and> superseded_fk (db_facts d)
     \<and> distinct (map k_id (db_conflicts d)) \<and> distinct (db_conflict_members d)"

text \<open>A current fact in a group is a member of an open conflict on its own slot.\<close>

definition groups_ok :: "db \<Rightarrow> bool" where
  "groups_ok d \<longleftrightarrow>
     (\<forall>f \<in> set (db_facts d). \<forall>c. is_current f \<and> f_conflict_group f = Some c \<longrightarrow>
        (\<exists>k \<in> set (db_conflicts d). k_id k = c \<and> is_open k \<and> in_conflict_slot k f)
        \<and> (c, f_id f) \<in> set (db_conflict_members d))"

text \<open>The members of an open conflict are current facts of its slot and group, at least one.\<close>

definition conflict_ok :: "db \<Rightarrow> conflict_row \<Rightarrow> bool" where
  "conflict_ok d k \<longleftrightarrow>
     k_id k \<noteq> [] \<and> clean (k_scope k) \<and> clean (k_subject_key k) \<and> clean (k_predicate_key k)
     \<and> (\<exists>i. (k_id k, i) \<in> set (db_conflict_members d))
     \<and> (\<forall>i. (k_id k, i) \<in> set (db_conflict_members d) \<longrightarrow>
          (\<exists>f \<in> set (db_facts d). f_id f = i \<and> is_current f
             \<and> f_conflict_group f = Some (k_id k) \<and> in_conflict_slot k f))"

definition members_ok :: "db \<Rightarrow> bool" where
  "members_ok d \<longleftrightarrow> (\<forall>k \<in> set (db_conflicts d). is_open k \<longrightarrow> conflict_ok d k)"

text \<open>Conflict rows of members exist.\<close>

definition member_rows_ok :: "db \<Rightarrow> bool" where
  "member_rows_ok d \<longleftrightarrow>
     (\<forall>m \<in> set (db_conflict_members d). fst m \<in> k_id ` set (db_conflicts d))"

text \<open>All current facts of one slot have the same group.\<close>

definition exclusive_ok :: "db \<Rightarrow> bool" where
  "exclusive_ok d \<longleftrightarrow>
     (\<forall>f \<in> set (db_facts d). \<forall>g \<in> set (db_facts d). \<forall>sc s p.
        is_current f \<and> is_current g \<and> in_slot sc s p f \<and> in_slot sc s p g
        \<longrightarrow> f_conflict_group f = f_conflict_group g)"

definition slot_inv :: "db \<Rightarrow> bool" where
  "slot_inv d \<longleftrightarrow> ids_ok d \<and> keys_ok d \<and> groups_ok d \<and> members_ok d \<and> member_rows_ok d
     \<and> exclusive_ok d"

lemmas slot_inv_defs =
  slot_inv_def ids_ok_def keys_ok_def groups_ok_def members_ok_def member_rows_ok_def exclusive_ok_def

section \<open>Consequences\<close>

lemma conflict_ok_member:
  assumes "conflict_ok d k" and "(k_id k, i) \<in> set (db_conflict_members d)"
  obtains f where "f \<in> set (db_facts d)" "f_id f = i" "is_current f"
    "f_conflict_group f = Some (k_id k)" "in_conflict_slot k f"
  using assms unfolding conflict_ok_def by blast

lemma slot_inv_conflict_ok:
  "slot_inv d \<Longrightarrow> k \<in> set (db_conflicts d) \<Longrightarrow> is_open k \<Longrightarrow> conflict_ok d k"
  by (simp add: slot_inv_def members_ok_def)

text \<open>A conflict stays well formed while its members stay.\<close>

lemma conflict_ok_keep:
  assumes "conflict_ok d k"
    and "\<And>j. (k_id k, j) \<in> set (db_conflict_members d') \<longleftrightarrow> (k_id k, j) \<in> set (db_conflict_members d)"
    and "\<And>f. f \<in> set (db_facts d) \<Longrightarrow> is_current f \<Longrightarrow> f_conflict_group f = Some (k_id k)
           \<Longrightarrow> in_conflict_slot k f \<Longrightarrow>
           \<exists>g \<in> set (db_facts d'). f_id g = f_id f \<and> is_current g
             \<and> f_conflict_group g = Some (k_id k) \<and> in_conflict_slot k g"
  shows "conflict_ok d' k"
  unfolding conflict_ok_def assms(2)
proof (intro conjI allI impI)
  show "k_id k \<noteq> []" "clean (k_scope k)" "clean (k_subject_key k)" "clean (k_predicate_key k)"
    "\<exists>i. (k_id k, i) \<in> set (db_conflict_members d)"
    using assms(1) unfolding conflict_ok_def by blast+
  fix i assume "(k_id k, i) \<in> set (db_conflict_members d)"
  with assms(1) obtain f where f: "f \<in> set (db_facts d)" "f_id f = i" "is_current f"
    "f_conflict_group f = Some (k_id k)" "in_conflict_slot k f" by (rule conflict_ok_member)
  show "\<exists>f \<in> set (db_facts d'). f_id f = i \<and> is_current f
      \<and> f_conflict_group f = Some (k_id k) \<and> in_conflict_slot k f"
    using assms(3) [OF f(1,3,4,5)] f(2) by simp
qed

lemma conflict_ok_stay:
  assumes "conflict_ok d k"
    and "\<And>f. f \<in> set (db_facts d) \<Longrightarrow> f_conflict_group f = Some (k_id k) \<Longrightarrow> is_current f \<Longrightarrow> f \<in> set (db_facts d')"
    and "\<And>j. (k_id k, j) \<in> set (db_conflict_members d') \<longleftrightarrow> (k_id k, j) \<in> set (db_conflict_members d)"
  shows "conflict_ok d' k"
  using assms(1,3) by (rule conflict_ok_keep) (use assms(2) in blast)

lemma clean_required: "clean v \<Longrightarrow> py_required v n = Inr v"
  by (simp add: clean_def py_required_def Let_def)

lemma required_clean: "py_required v n = Inr w \<Longrightarrow> clean w"
  by (auto simp: clean_def dest: py_required_Inr)

lemma slot_inv_distinct: "slot_inv d \<Longrightarrow> distinct (fact_ids d)"
  by (simp add: slot_inv_defs)

lemma slot_inv_same_id:
  "slot_inv d \<Longrightarrow> f \<in> set (db_facts d) \<Longrightarrow> g \<in> set (db_facts d) \<Longrightarrow> f_id f = f_id g \<Longrightarrow> f = g"
  by (metis slot_inv_distinct distinct_key_inj fact_ids_def)

lemma in_slot_key: "in_slot sc s p f \<Longrightarrow> is_current f \<Longrightarrow> f_conflict_group f = None \<Longrightarrow>
    slot_key f = Some (sc, s, p)"
  by (simp add: slot_key_Some_iff in_slot_def)

lemma slot_inv_ungrouped_unique:
  assumes "slot_inv d" "f \<in> set (db_facts d)" "g \<in> set (db_facts d)"
    and "in_slot sc s p f" "in_slot sc s p g" "is_current f" "is_current g"
    and "f_conflict_group f = None"
  shows "g = f"
proof -
  have "f_conflict_group g = None"
    using assms unfolding slot_inv_def exclusive_ok_def by metis
  then have "slot_key f = Some (sc, s, p)" "slot_key g = Some (sc, s, p)"
    using assms by (simp_all add: in_slot_key)
  moreover have "slot_unique (db_facts d)" "distinct (map f_id (db_facts d))"
    using assms(1) by (simp_all add: slot_inv_defs fact_ids_def)
  ultimately show ?thesis using assms(2,3) slot_unique_iff by (metis option.discI)
qed

lemma slot_rows_mem:
  "f \<in> set (slot_rows d sc s p) \<longleftrightarrow> f \<in> set (db_facts d) \<and> in_slot sc s p f \<and> is_current f"
  by (auto simp: slot_rows_def)

lemma slot_rows_distinct: "slot_inv d \<Longrightarrow> distinct (map f_id (slot_rows d sc s p))"
proof -
  assume "slot_inv d"
  then have "distinct (map f_id (db_facts d))" by (simp add: slot_inv_defs fact_ids_def)
  then have "distinct (map f_id (filter (\<lambda>f. in_slot sc s p f \<and> is_current f) (db_facts d)))"
    by (simp add: distinct_map_filter)
  then show ?thesis
    by (simp add: slot_rows_def distinct_map)
qed

text \<open>The three states of a slot.\<close>

lemma slot_rows_cases:
  assumes inv: "slot_inv d"
  obtains (Empty) "slot_rows d sc s p = []"
  | (Single) f where "slot_rows d sc s p = [f]" "f_conflict_group f = None"
  | (Conflicted) k where "slot_rows d sc s p \<noteq> []" "k \<in> set (db_conflicts d)" "is_open k"
      "k_scope k = sc" "k_subject_key k = s" "k_predicate_key k = p"
      "\<forall>f \<in> set (slot_rows d sc s p). f_conflict_group f = Some (k_id k)"
      "\<forall>i. i \<in> f_id ` set (slot_rows d sc s p) \<longleftrightarrow> (k_id k, i) \<in> set (db_conflict_members d)"
proof (cases "slot_rows d sc s p")
  case Nil
  then show thesis by (rule Empty)
next
  case (Cons f rs)
  have f: "f \<in> set (db_facts d)" "in_slot sc s p f" "is_current f"
    using Cons slot_rows_mem [of f d sc s p] by simp_all
  show thesis
  proof (cases "f_conflict_group f")
    case None
    have "g = f" if "g \<in> set (slot_rows d sc s p)" for g
      using slot_inv_ungrouped_unique [OF inv f(1) _ f(2) _ f(3) _ None, of g] that
      by (simp add: slot_rows_mem)
    moreover have "distinct (slot_rows d sc s p)"
      using slot_rows_distinct [OF inv, of sc s p] by (simp add: distinct_map)
    ultimately have "rs = []"
      using Cons by (cases rs) auto
    with Cons None show thesis using Single by blast
  next
    case (Some c)
    obtain k where k: "k \<in> set (db_conflicts d)" "k_id k = c" "is_open k" "in_conflict_slot k f"
      using inv f(1,3) Some unfolding slot_inv_def groups_ok_def by blast
    have slot: "k_scope k = sc" "k_subject_key k = s" "k_predicate_key k = p"
      using k(4) f(2) by (auto simp: in_conflict_slot_def in_slot_def)
    have grp: "f_conflict_group g = Some (k_id k)" if "g \<in> set (slot_rows d sc s p)" for g
      using inv f Some k(2) that unfolding slot_inv_def exclusive_ok_def slot_rows_mem by metis
    have mem: "(k_id k, f_id g) \<in> set (db_conflict_members d)" if "g \<in> set (slot_rows d sc s p)" for g
      using inv grp [OF that] that unfolding slot_inv_def groups_ok_def slot_rows_mem by blast
    have conv: "i \<in> f_id ` set (slot_rows d sc s p)"
      if i: "(k_id k, i) \<in> set (db_conflict_members d)" for i
    proof -
      obtain g where g: "g \<in> set (db_facts d)" "f_id g = i" "is_current g" "in_conflict_slot k g"
        using slot_inv_conflict_ok [OF inv k(1,3)] i by (rule conflict_ok_member)
      then have "g \<in> set (slot_rows d sc s p)"
        using slot by (simp add: slot_rows_mem in_conflict_slot_def)
      with g(2) show ?thesis by blast
    qed
    show thesis
    proof (rule Conflicted [of k])
      show "slot_rows d sc s p \<noteq> []" using Cons by simp
      show "\<forall>i. (i \<in> f_id ` set (slot_rows d sc s p)) = ((k_id k, i) \<in> set (db_conflict_members d))"
        using mem conv by blast
    qed (use k slot grp in auto)
  qed
qed

section \<open>Statements that keep the invariant\<close>

lemma in_update_where:
  "g \<in> set (update_where P u fs) \<longleftrightarrow> (\<exists>f \<in> set fs. g = (if P f then u f else f))"
  by (auto simp: update_where_def)

text \<open>What the invariant reads of a fact.\<close>

definition same_view :: "fact \<Rightarrow> fact \<Rightarrow> bool" where
  "same_view f g \<longleftrightarrow> f_id g = f_id f \<and> is_current g = is_current f
     \<and> (is_current f \<longrightarrow> f_conflict_group g = f_conflict_group f \<and> f_memory_kind g = f_memory_kind f
          \<and> f_scope g = f_scope f \<and> f_subject_key g = f_subject_key f
          \<and> f_predicate_key g = f_predicate_key f)"

lemma same_view_slot_key: "same_view f g \<Longrightarrow> slot_key g = slot_key f"
  by (cases "is_current f") (auto simp: same_view_def slot_key_def is_current_def split: option.splits)

lemma same_view_in_slot: "same_view f g \<Longrightarrow> is_current f \<Longrightarrow> in_slot sc s p g = in_slot sc s p f"
  by (simp add: same_view_def in_slot_def)

lemma slot_keys_update_where:
  "(\<And>f. P f \<Longrightarrow> f \<in> set fs \<Longrightarrow> slot_key (u f) = slot_key f) \<Longrightarrow>
     slot_keys (update_where P u fs) = slot_keys fs"
  by (induction fs) (auto split: option.splits)

text \<open>An update that changes nothing the invariant reads.\<close>

lemma slot_inv_view_update:
  assumes inv: "slot_inv d"
    and v: "\<And>f. f \<in> set (db_facts d) \<Longrightarrow> P f \<Longrightarrow> same_view f (u f)"
    and fk: "superseded_fk (update_where P u (db_facts d))"
  shows "slot_inv (d\<lparr>db_facts := update_where P u (db_facts d)\<rparr>)"
proof -
  let ?d = "d\<lparr>db_facts := update_where P u (db_facts d)\<rparr>"
  let ?h = "\<lambda>f. if P f then u f else f"
  have sv: "same_view f (?h f)" if "f \<in> set (db_facts d)" for f
    using v [OF that] by (auto simp: same_view_def)
  have ids: "fact_ids ?d = fact_ids d"
    using sv by (auto simp: fact_ids_def update_where_def same_view_def)
  have "slot_keys (update_where P u (db_facts d)) = slot_keys (db_facts d)"
    by (rule slot_keys_update_where) (auto intro: same_view_slot_key v)
  then have "slot_unique (db_facts ?d)"
    using inv by (simp add: slot_inv_defs slot_unique_def)
  then have keys: "keys_ok ?d" using inv fk by (simp add: slot_inv_defs)
  have groups: "groups_ok ?d"
    unfolding groups_ok_def
  proof (intro ballI allI impI)
    fix g c assume g: "g \<in> set (db_facts ?d)" and c: "is_current g \<and> f_conflict_group g = Some c"
    then obtain f where f: "f \<in> set (db_facts d)" and gf: "g = ?h f"
      by (auto simp: in_update_where)
    have view: "same_view f g" using sv [OF f] gf by simp
    then have "is_current f" "f_conflict_group f = Some c" "f_id g = f_id f"
      using c by (auto simp: same_view_def)
    then show "(\<exists>k \<in> set (db_conflicts ?d). k_id k = c \<and> is_open k \<and> in_conflict_slot k g)
        \<and> (c, f_id g) \<in> set (db_conflict_members ?d)"
      using inv f view unfolding slot_inv_def groups_ok_def in_conflict_slot_def
      by (auto simp: same_view_in_slot)
  qed
  have members: "members_ok ?d"
    unfolding members_ok_def
  proof (intro ballI impI)
    fix k assume "k \<in> set (db_conflicts ?d)" "is_open k"
    then have "conflict_ok d k" using slot_inv_conflict_ok [OF inv] by simp
    then show "conflict_ok ?d k"
    proof (rule conflict_ok_keep)
      fix f assume f: "f \<in> set (db_facts d)" "is_current f"
        "f_conflict_group f = Some (k_id k)" "in_conflict_slot k f"
      have view: "same_view f (?h f)" by (rule sv [OF f(1)])
      then have "f_id (?h f) = f_id f" "is_current (?h f)" "f_conflict_group (?h f) = Some (k_id k)"
        using f by (auto simp: same_view_def)
      moreover have "in_conflict_slot k (?h f)"
        using f(2,4) view by (simp add: in_conflict_slot_def same_view_in_slot)
      moreover have "?h f \<in> set (db_facts ?d)" using f(1) by (auto simp: in_update_where)
      ultimately show "\<exists>g \<in> set (db_facts ?d). f_id g = f_id f \<and> is_current g
          \<and> f_conflict_group g = Some (k_id k) \<and> in_conflict_slot k g" by blast
    qed simp
  qed
  have excl: "exclusive_ok ?d"
    unfolding exclusive_ok_def
  proof (intro ballI allI impI)
    fix g h sc s p
    assume g: "g \<in> set (db_facts ?d)" and h: "h \<in> set (db_facts ?d)"
      and a: "is_current g \<and> is_current h \<and> in_slot sc s p g \<and> in_slot sc s p h"
    obtain f1 f2 where f: "f1 \<in> set (db_facts d)" "f2 \<in> set (db_facts d)"
      and v1: "same_view f1 g" and v2: "same_view f2 h"
      using g h sv by (auto simp: in_update_where)
    have "is_current f1" "is_current f2" using a v1 v2 by (auto simp: same_view_def)
    then have "f_conflict_group f1 = f_conflict_group f2"
      using inv f a v1 v2 unfolding slot_inv_def exclusive_ok_def by (metis same_view_in_slot)
    then show "f_conflict_group g = f_conflict_group h"
      using v1 v2 \<open>is_current f1\<close> \<open>is_current f2\<close> by (simp add: same_view_def)
  qed
  from inv ids keys groups members excl show ?thesis
    by (simp add: slot_inv_def ids_ok_def member_rows_ok_def)
qed

text \<open>An update that retires current facts outside every conflict.\<close>

lemma slot_keys_subset_distinct:
  assumes "distinct (slot_keys fs)"
    and "\<And>f. f \<in> set fs \<Longrightarrow> P f \<Longrightarrow> slot_key (u f) = None"
  shows "distinct (slot_keys (update_where P u fs))"
    and "set (slot_keys (update_where P u fs)) \<subseteq> set (slot_keys fs)"
proof -
  have "set (slot_keys (update_where P u fs)) \<subseteq> set (slot_keys fs)
      \<and> (distinct (slot_keys fs) \<longrightarrow> distinct (slot_keys (update_where P u fs)))"
    using assms(2) by (induction fs) (auto split: option.splits)
  with assms(1) show "distinct (slot_keys (update_where P u fs))"
    and "set (slot_keys (update_where P u fs)) \<subseteq> set (slot_keys fs)" by blast+
qed

lemma slot_inv_retire:
  assumes inv: "slot_inv d"
    and r: "\<And>f. f \<in> set (db_facts d) \<Longrightarrow> P f \<Longrightarrow>
      (is_current f \<longrightarrow> f_conflict_group f = None) \<and> f_id (u f) = f_id f \<and> \<not> is_current (u f)"
    and fk: "superseded_fk (update_where P u (db_facts d))"
  shows "slot_inv (d\<lparr>db_facts := update_where P u (db_facts d)\<rparr>)"
proof -
  let ?d = "d\<lparr>db_facts := update_where P u (db_facts d)\<rparr>"
  have ids: "fact_ids ?d = fact_ids d"
    using r by (auto simp: fact_ids_def update_where_def)
  have cur: "f \<in> set (db_facts d) \<and> \<not> P f" if "f \<in> set (db_facts ?d)" "is_current f" for f
  proof -
    from that(1) obtain g where g: "g \<in> set (db_facts d)" "f = (if P g then u g else g)"
      by (auto simp: in_update_where)
    with that(2) r [of g] have "\<not> P g" by auto
    with g show ?thesis by simp
  qed
  have stay: "f \<in> set (db_facts ?d)" if "f \<in> set (db_facts d)" "is_current f" "f_conflict_group f = Some c" for f c
    using that r [of f] by (auto simp: in_update_where)
  have "distinct (slot_keys (update_where P u (db_facts d)))"
    using inv r by (intro slot_keys_subset_distinct(1))
      (auto simp: slot_inv_defs slot_unique_def slot_key_None_iff)
  then have keys: "keys_ok ?d" using inv fk by (simp add: slot_inv_defs slot_unique_def)
  have "groups_ok ?d"
    using inv cur unfolding slot_inv_def groups_ok_def by simp
  moreover have "members_ok ?d"
    unfolding members_ok_def
  proof (intro ballI impI)
    fix k assume "k \<in> set (db_conflicts ?d)" "is_open k"
    then have "conflict_ok d k" using slot_inv_conflict_ok [OF inv] by simp
    then show "conflict_ok ?d k" by (rule conflict_ok_stay) (use stay in \<open>blast, simp\<close>)
  qed
  moreover have "exclusive_ok ?d"
    using inv cur unfolding slot_inv_def exclusive_ok_def by meson
  ultimately show ?thesis
    using inv ids keys by (simp add: slot_inv_def ids_ok_def member_rows_ok_def)
qed

text \<open>Inserting a fact that is not a state fact.\<close>

lemma slot_inv_insert:
  assumes inv: "slot_inv d" and ins: "sql_insert_fact f d = Inr (d', i)"
    and f: "f_memory_kind f \<noteq> Some ''state''" "f_conflict_group f = None"
  shows "slot_inv d'" and "0 < i" and "i \<notin> set (fact_ids d)"
proof -
  from ins have i: "i = db_fact_seq d + 1"
    and u: "slot_unique (db_facts d @ [f\<lparr>f_id := i\<rparr>])"
    and fk: "superseded_fk (db_facts d @ [f\<lparr>f_id := i\<rparr>])"
    and d': "d' = d\<lparr>db_facts := db_facts d @ [f\<lparr>f_id := i\<rparr>], db_fact_seq := i\<rparr>"
    using inv by (auto simp: sql_insert_fact_Inr slot_inv_defs)
  have ids: "ids_ok d" using inv by (simp add: slot_inv_def)
  show "0 < i" using ids by (simp add: ids_ok_def i)
  show nin: "i \<notin> set (fact_ids d)" using ids by (auto simp: ids_ok_def i)
  have "ids_ok d'" using ids nin by (auto simp: ids_ok_def fact_ids_def d' i)
  moreover have "keys_ok d'" using inv u fk by (simp add: slot_inv_defs d')
  moreover have "groups_ok d'"
    using inv f(2) unfolding slot_inv_def groups_ok_def d' by simp
  moreover have "members_ok d'"
    unfolding members_ok_def
  proof (intro ballI impI)
    fix k assume "k \<in> set (db_conflicts d')" "is_open k"
    then have "conflict_ok d k" using slot_inv_conflict_ok [OF inv] by (simp add: d')
    then show "conflict_ok d' k" by (rule conflict_ok_stay) (simp_all add: d')
  qed
  moreover have "exclusive_ok d'"
    using inv f(1) unfolding slot_inv_def exclusive_ok_def d' by (auto simp: in_slot_def)
  ultimately show "slot_inv d'" using inv by (simp add: slot_inv_def member_rows_ok_def d')
qed

section \<open>Giving a fact its slot\<close>

lemma update_where_replace:
  assumes "distinct fs" and "f \<in> set fs" and "\<And>g. g \<in> set fs \<Longrightarrow> P g = (g = f)"
  shows "set (update_where P u fs) = insert (u f) (set fs - {f})"
  unfolding set_update_where using assms by auto

lemma slot_inv_distinct_facts: "slot_inv d \<Longrightarrow> distinct (db_facts d)"
  using slot_inv_distinct by (auto simp: fact_ids_def distinct_map)

text \<open>A fact that was in no slot enters an empty one.\<close>

lemma slot_inv_enter_slot:
  assumes inv: "slot_inv d" and f: "f \<in> set (db_facts d)" "f_memory_kind f \<noteq> Some ''state''"
      "f_conflict_group f = None"
    and P: "\<And>g. g \<in> set (db_facts d) \<Longrightarrow> P g = (g = f)"
    and g: "f_id (u f) = f_id f" "in_slot sc s p (u f)" "f_conflict_group (u f) = None"
    and empty: "slot_rows d sc s p = []"
    and uniq: "slot_unique (update_where P u (db_facts d))"
    and fk: "superseded_fk (update_where P u (db_facts d))"
  shows "slot_inv (d\<lparr>db_facts := update_where P u (db_facts d)\<rparr>)"
proof -
  let ?d = "d\<lparr>db_facts := update_where P u (db_facts d)\<rparr>"
  have set: "set (db_facts ?d) = insert (u f) (set (db_facts d) - {f})"
    using update_where_replace [OF slot_inv_distinct_facts [OF inv] f(1) P] by simp
  have ids: "fact_ids ?d = fact_ids d"
    using P g(1) by (auto simp: fact_ids_def update_where_def)
  have "groups_ok ?d"
    using inv g(3) unfolding slot_inv_def groups_ok_def set by simp
  moreover have stay: "h \<in> set (db_facts ?d)" if "h \<in> set (db_facts d)" "f_conflict_group h = Some c" for h c
    using that f(3) unfolding set by auto
  have "members_ok ?d"
    unfolding members_ok_def
  proof (intro ballI impI)
    fix k assume "k \<in> set (db_conflicts ?d)" "is_open k"
    then have "conflict_ok d k" using slot_inv_conflict_ok [OF inv] by simp
    then show "conflict_ok ?d k" by (rule conflict_ok_stay) (use stay in \<open>blast, simp\<close>)
  qed
  moreover have "exclusive_ok ?d"
  proof -
    have "h \<notin> set (db_facts d) \<or> \<not> is_current h \<or> \<not> in_slot sc' s' p' h"
      if "in_slot sc' s' p' (u f)" for h sc' s' p'
    proof -
      from that g(2) have "sc' = sc" "s' = s" "p' = p" by (auto simp: in_slot_def)
      then show ?thesis using empty slot_rows_mem [of h d sc s p] by auto
    qed
    then show ?thesis
      using inv unfolding slot_inv_def exclusive_ok_def set by (metis Diff_iff insert_iff)
  qed
  ultimately show ?thesis
    using inv ids uniq fk by (simp add: slot_inv_def ids_ok_def keys_ok_def member_rows_ok_def)
qed

text \<open>A fact that was in no slot joins the open conflict of its slot.\<close>

lemma slot_inv_join_conflict:
  assumes inv: "slot_inv d" and f: "f \<in> set (db_facts d)" "f_memory_kind f \<noteq> Some ''state''"
      "f_conflict_group f = None"
    and P: "\<And>g. g \<in> set (db_facts d) \<Longrightarrow> P g = (g = f)"
    and k: "k \<in> set (db_conflicts d)" "is_open k"
    and g: "f_id (u f) = f_id f" "is_current (u f)" "in_conflict_slot k (u f)"
      "f_conflict_group (u f) = Some (k_id k)"
    and fresh: "(k_id k, f_id f) \<notin> set (db_conflict_members d)"
    and uniq: "slot_unique (update_where P u (db_facts d))"
    and fk: "superseded_fk (update_where P u (db_facts d))"
  shows "slot_inv (d\<lparr>db_facts := update_where P u (db_facts d),
      db_conflict_members := db_conflict_members d @ [(k_id k, f_id f)]\<rparr>)"
proof -
  let ?d = "d\<lparr>db_facts := update_where P u (db_facts d),
      db_conflict_members := db_conflict_members d @ [(k_id k, f_id f)]\<rparr>"
  have set: "set (db_facts ?d) = insert (u f) (set (db_facts d) - {f})"
    using update_where_replace [OF slot_inv_distinct_facts [OF inv] f(1) P] by simp
  have ids: "fact_ids ?d = fact_ids d"
    using P g(1) by (auto simp: fact_ids_def update_where_def)
  have "groups_ok ?d"
    using inv g k unfolding slot_inv_def groups_ok_def set by auto
  moreover have "members_ok ?d"
    unfolding members_ok_def
  proof (intro ballI impI)
    fix l assume l: "l \<in> set (db_conflicts ?d)" "is_open l"
    then have old: "conflict_ok d l" using slot_inv_conflict_ok [OF inv] by simp
    have same: "l = k" if "k_id l = k_id k"
      using inv l k that unfolding slot_inv_def keys_ok_def by (auto dest: distinct_key_inj)
    have stay: "h \<in> set (db_facts ?d)" if "h \<in> set (db_facts d)" "f_conflict_group h = Some c" for h c
      using that f(3) unfolding set by auto
    show "conflict_ok ?d l"
    proof (cases "l = k")
      case False
      then have "k_id l \<noteq> k_id k" using same by blast
      then have mem: "(k_id l, j) \<in> set (db_conflict_members ?d) \<longleftrightarrow> (k_id l, j) \<in> set (db_conflict_members d)" for j
        by simp
      show ?thesis using old stay mem by (rule conflict_ok_stay)
    next
      case True
      have "\<exists>h \<in> set (db_facts ?d). f_id h = i \<and> is_current h
          \<and> f_conflict_group h = Some (k_id k) \<and> in_conflict_slot k h"
        if i: "(k_id k, i) \<in> set (db_conflict_members ?d)" for i
      proof (cases "(k_id k, i) \<in> set (db_conflict_members d)")
        case True
        then show ?thesis
          using stay \<open>l = k\<close> by (metis conflict_ok_member [OF old])
      next
        case False
        with i have "i = f_id f" by auto
        then show ?thesis using g set by auto
      qed
      moreover have "(k_id k, f_id f) \<in> set (db_conflict_members ?d)" by simp
      ultimately show ?thesis using old True unfolding conflict_ok_def by blast
    qed
  qed
  moreover have "exclusive_ok ?d"
  proof -
    obtain m where m: "m \<in> set (db_facts d)" "is_current m" "f_conflict_group m = Some (k_id k)"
      "in_conflict_slot k m"
      using slot_inv_conflict_ok [OF inv k] unfolding conflict_ok_def by blast
    have "f_conflict_group h = Some (k_id k)"
      if "h \<in> set (db_facts d)" "is_current h" "in_slot sc s p h" "in_slot sc s p (u f)" for h sc s p
    proof -
      have "in_slot sc s p m" using m(4) g(3) that(4) by (auto simp: in_conflict_slot_def in_slot_def)
      then show ?thesis
        using inv m that unfolding slot_inv_def exclusive_ok_def by metis
    qed
    then show ?thesis
      using inv g(4) unfolding slot_inv_def exclusive_ok_def set by (metis Diff_iff insert_iff)
  qed
  ultimately show ?thesis
    using inv ids uniq fk fresh k(1)
    by (auto simp add: slot_inv_def ids_ok_def keys_ok_def member_rows_ok_def)
qed

end
