(* ===== verification/Conflict_Lifecycle.thy ===== *)
theory Conflict_Lifecycle
  imports Slot_Invariant
begin

text \<open>
  The life of a conflict: opening one, resolving one, and what a reader of the slot sees
  before and after. Opening and resolving keep the slot invariant; under the invariant an
  open conflict can always be resolved to any of its members, and then the slot reads as
  that member.
\<close>

section \<open>Frames\<close>

lemma in_slot_group [simp]: "in_slot a b c (f\<lparr>f_conflict_group := x\<rparr>) = in_slot a b c f"
  by (simp add: in_slot_def)

lemma is_current_group [simp]: "is_current (f\<lparr>f_conflict_group := x\<rparr>) = is_current f"
  by (simp add: is_current_def)

lemma slot_inv_frame:
  assumes "db_facts d' = db_facts d" "db_fact_seq d' = db_fact_seq d" "db_slot_index d' = db_slot_index d"
    "db_conflicts d' = db_conflicts d" "db_conflict_members d' = db_conflict_members d"
  shows "slot_inv d' = slot_inv d"
  using assms by (simp add: slot_inv_defs conflict_ok_def fact_ids_def)

section \<open>Opening\<close>

lemma open_state_conflict_Inr:
  assumes "open_state_conflict rt now uuid subject predicate ids scope detected detail d = Inr (r, d')"
  obtains s p sc dj stamp where
    "py_required subject ''subject_key'' = Inr s" "py_required predicate ''predicate_key'' = Inr p"
    "py_required scope ''scope'' = Inr sc" "ids \<noteq> []" "distinct ids"
    "\<forall>i \<in> set ids. \<exists>f \<in> set (db_facts d). f_id f = i \<and> in_slot sc s p f \<and> is_current f
        \<and> f_conflict_group f = None"
    "uuid \<notin> set (map k_id (db_conflicts d))"
    "db_slot_index d \<longrightarrow> slot_unique (update_where (\<lambda>f. f_id f \<in> set ids)
        (\<lambda>f. f\<lparr>f_conflict_group := Some uuid\<rparr>) (db_facts d))"
    "superseded_fk (update_where (\<lambda>f. f_id f \<in> set ids)
        (\<lambda>f. f\<lparr>f_conflict_group := Some uuid\<rparr>) (db_facts d))"
    "d' = d\<lparr>db_facts := update_where (\<lambda>f. f_id f \<in> set ids)
              (\<lambda>f. f\<lparr>f_conflict_group := Some uuid\<rparr>) (db_facts d),
            db_conflicts := db_conflicts d @
              [\<lparr>k_id = uuid, k_scope = sc, k_subject_key = s, k_predicate_key = p,
                k_detected_at = stamp, k_resolved_at = None, k_resolution_fact_id = None,
                k_resolved_by = None, k_resolution_reason = None, k_detail_json = dj\<rparr>],
            db_conflict_members := db_conflict_members d @ map (Pair uuid) ids\<rparr>"
    "cr_conflict_id r = uuid"
proof -
  from assms obtain s p sc dj d1 d2 n where
    s: "py_required subject ''subject_key'' = Inr s" and p: "py_required predicate ''predicate_key'' = Inr p"
    and sc: "py_required scope ''scope'' = Inr sc" and ids: "ids \<noteq> []" "distinct ids"
    and found: "set (map f_id (filter (\<lambda>f. f_id f \<in> set ids \<and> in_slot sc s p f \<and> is_current f
        \<and> f_conflict_group f = None) (db_facts d))) = set ids"
    and k: "insert_conflict
              \<lparr>k_id = uuid, k_scope = sc, k_subject_key = s, k_predicate_key = p,
               k_detected_at = or_else detected now, k_resolved_at = None, k_resolution_fact_id = None,
               k_resolved_by = None, k_resolution_reason = None, k_detail_json = dj\<rparr> d = Inr d1"
    and u: "sql_update_facts (\<lambda>f. f_id f \<in> set ids) (\<lambda>f. f\<lparr>f_conflict_group := Some uuid\<rparr>) d1 = Inr (d2, n)"
    and m: "insert_conflict_members uuid ids d2 = Inr d'"
    and r: "cr_conflict_id r = uuid"
    unfolding open_state_conflict_def Let_def rbind_eq_Inr guard_res_Inr
    by (auto simp: rbind_eq_Inr split: prod.splits)
  have d1: "d1 = d\<lparr>db_conflicts := db_conflicts d @
      [\<lparr>k_id = uuid, k_scope = sc, k_subject_key = s, k_predicate_key = p,
        k_detected_at = or_else detected now, k_resolved_at = None, k_resolution_fact_id = None,
        k_resolved_by = None, k_resolution_reason = None, k_detail_json = dj\<rparr>]\<rparr>"
    and fresh: "uuid \<notin> set (map k_id (db_conflicts d))"
    using k by (auto simp: insert_conflict_def split: if_splits)
  have each: "\<forall>i \<in> set ids. \<exists>f \<in> set (db_facts d). f_id f = i \<and> in_slot sc s p f \<and> is_current f
        \<and> f_conflict_group f = None"
  proof
    fix i assume "i \<in> set ids"
    then have "i \<in> f_id ` {f \<in> set (db_facts d). f_id f \<in> set ids \<and> in_slot sc s p f \<and> is_current f
        \<and> f_conflict_group f = None}"
      using found by auto
    then show "\<exists>f \<in> set (db_facts d). f_id f = i \<and> in_slot sc s p f \<and> is_current f
        \<and> f_conflict_group f = None" by auto
  qed
  note mm = insert_conflict_members_Inr [OF m]
  have d2: "d2 = d1\<lparr>db_facts := update_where (\<lambda>f. f_id f \<in> set ids)
              (\<lambda>f. f\<lparr>f_conflict_group := Some uuid\<rparr>) (db_facts d)\<rparr>"
    and uniq: "db_slot_index d \<longrightarrow> slot_unique (update_where (\<lambda>f. f_id f \<in> set ids)
        (\<lambda>f. f\<lparr>f_conflict_group := Some uuid\<rparr>) (db_facts d))"
    and fk: "superseded_fk (update_where (\<lambda>f. f_id f \<in> set ids)
        (\<lambda>f. f\<lparr>f_conflict_group := Some uuid\<rparr>) (db_facts d))"
    using u by (simp_all add: sql_update_facts_Inr d1)
  have d': "d' = d\<lparr>db_facts := update_where (\<lambda>f. f_id f \<in> set ids)
              (\<lambda>f. f\<lparr>f_conflict_group := Some uuid\<rparr>) (db_facts d),
            db_conflicts := db_conflicts d @
              [\<lparr>k_id = uuid, k_scope = sc, k_subject_key = s, k_predicate_key = p,
                k_detected_at = or_else detected now, k_resolved_at = None, k_resolution_fact_id = None,
                k_resolved_by = None, k_resolution_reason = None, k_detail_json = dj\<rparr>],
            db_conflict_members := db_conflict_members d @ map (Pair uuid) ids\<rparr>"
    using mm by (simp add: d2 d1)
  show thesis by (rule that [OF s p sc ids each fresh uniq fk d' r])
qed

lemma open_state_conflict_inv:
  assumes inv: "slot_inv d" and uuid: "uuid \<noteq> []"
    and ok: "open_state_conflict rt now uuid subject predicate ids scope detected detail d = Inr (r, d')"
  shows "slot_inv d'"
proof (rule open_state_conflict_Inr [OF ok])
  fix s p sc dj stamp
  assume s: "py_required subject ''subject_key'' = Inr s" and p: "py_required predicate ''predicate_key'' = Inr p"
    and sc: "py_required scope ''scope'' = Inr sc" and ids: "ids \<noteq> []" "distinct ids"
    and each: "\<forall>i \<in> set ids. \<exists>f \<in> set (db_facts d). f_id f = i \<and> in_slot sc s p f \<and> is_current f
        \<and> f_conflict_group f = None"
    and fresh: "uuid \<notin> set (map k_id (db_conflicts d))"
    and uniq: "db_slot_index d \<longrightarrow> slot_unique (update_where (\<lambda>f. f_id f \<in> set ids)
        (\<lambda>f. f\<lparr>f_conflict_group := Some uuid\<rparr>) (db_facts d))"
    and fk: "superseded_fk (update_where (\<lambda>f. f_id f \<in> set ids)
        (\<lambda>f. f\<lparr>f_conflict_group := Some uuid\<rparr>) (db_facts d))"
    and d': "d' = d\<lparr>db_facts := update_where (\<lambda>f. f_id f \<in> set ids)
              (\<lambda>f. f\<lparr>f_conflict_group := Some uuid\<rparr>) (db_facts d),
            db_conflicts := db_conflicts d @
              [\<lparr>k_id = uuid, k_scope = sc, k_subject_key = s, k_predicate_key = p,
                k_detected_at = stamp, k_resolved_at = None, k_resolution_fact_id = None,
                k_resolved_by = None, k_resolution_reason = None, k_detail_json = dj\<rparr>],
            db_conflict_members := db_conflict_members d @ map (Pair uuid) ids\<rparr>"
  let ?u = "\<lambda>f. f\<lparr>f_conflict_group := Some uuid\<rparr>"
  from ids(1) obtain i where i: "i \<in> set ids" by (cases ids) auto
  then obtain f where f: "f \<in> set (db_facts d)" "f_id f = i" "in_slot sc s p f" "is_current f"
    "f_conflict_group f = None" using each by blast
  have only: "j = i" if "j \<in> set ids" for j
    using each that slot_inv_ungrouped_unique [OF inv f(1) _ f(3) _ f(4) _ f(5)] f(2) by metis
  then have ids1: "ids = [i]" using ids i by (metis distinct_length_2_or_more list.exhaust list.set_intros(1,2))
  have P: "(f_id g \<in> set ids) = (g = f)" if "g \<in> set (db_facts d)" for g
    using slot_inv_same_id [OF inv that f(1)] f(2) by (auto simp: ids1)
  have set: "set (db_facts d') = insert (?u f) (set (db_facts d) - {f})"
    using update_where_replace [OF slot_inv_distinct_facts [OF inv] f(1) P] by (simp add: d')
  have fresh_mem: "(uuid, j) \<notin> set (db_conflict_members d)" for j
    using inv fresh unfolding slot_inv_def member_rows_ok_def by force
  have "ids_ok d'"
    using inv by (auto simp: slot_inv_def ids_ok_def d' fact_ids_def map_update_where)
  moreover have "keys_ok d'"
    using inv uniq fk fresh fresh_mem by (auto simp: slot_inv_def keys_ok_def d' ids1)
  moreover have "groups_ok d'"
    unfolding groups_ok_def
  proof (intro ballI allI impI)
    fix g c assume g: "g \<in> set (db_facts d')" and c: "is_current g \<and> f_conflict_group g = Some c"
    show "(\<exists>k \<in> set (db_conflicts d'). k_id k = c \<and> is_open k \<and> in_conflict_slot k g)
        \<and> (c, f_id g) \<in> set (db_conflict_members d')"
    proof (cases "g = ?u f")
      case True
      then have "c = uuid" "in_slot sc s p g" "f_id g = i" using c f by simp_all
      then show ?thesis
        by (auto simp: d' is_open_def in_conflict_slot_def ids1)
    next
      case False
      then have "g \<in> set (db_facts d)" using g set by auto
      then show ?thesis
        using inv c unfolding slot_inv_def groups_ok_def by (auto simp: d')
    qed
  qed
  moreover have "members_ok d'"
    unfolding members_ok_def
  proof (intro ballI impI)
    fix k assume k: "k \<in> set (db_conflicts d')" "is_open k"
    show "conflict_ok d' k"
    proof (cases "k \<in> set (db_conflicts d)")
      case True
      then have ne: "k_id k \<noteq> uuid" using fresh by auto
      have old: "conflict_ok d k" using slot_inv_conflict_ok [OF inv True k(2)] .
      have stay: "h \<in> set (db_facts d')" if "h \<in> set (db_facts d)" "f_conflict_group h = Some c" for h c
      proof -
        have "h \<noteq> f" using that(2) f(5) by auto
        then show ?thesis unfolding set using that(1) by blast
      qed
      show ?thesis
        by (rule conflict_ok_stay [OF old stay]) (use ne in \<open>auto simp: d'\<close>)
    next
      case False
      then have k': "k_id k = uuid" "k_scope k = sc" "k_subject_key k = s" "k_predicate_key k = p"
        using k(1) by (auto simp: d')
      have "clean sc" "clean s" "clean p" using s p sc by (auto dest: required_clean)
      moreover have "\<exists>f \<in> set (db_facts d'). f_id f = i \<and> is_current f
                \<and> f_conflict_group f = Some uuid \<and> in_conflict_slot k f"
        using f set k' by (auto simp: in_conflict_slot_def intro!: bexI [of _ "?u f"])
      moreover have "(uuid, j) \<in> set (db_conflict_members d') \<longleftrightarrow> j = i" for j
        using fresh_mem by (auto simp: d' ids1)
      ultimately show ?thesis using uuid k' by (simp add: conflict_ok_def)
    qed
  qed
  moreover have "member_rows_ok d'"
    using inv by (auto simp: slot_inv_def member_rows_ok_def d')
  moreover have "exclusive_ok d'"
  proof -
    have "g = f" if "g \<in> set (db_facts d)" "is_current g" "in_slot a b c g" "in_slot a b c (?u f)" for g a b c
    proof -
      have "in_slot a b c f" using that(4) by simp
      then have "in_slot sc s p g" using that(3) f(3) by (auto simp: in_slot_def)
      then show ?thesis
        using slot_inv_ungrouped_unique [OF inv f(1) that(1) f(3) _ f(4) that(2) f(5)] by simp
    qed
    then show ?thesis
      using inv unfolding slot_inv_def exclusive_ok_def set by (metis Diff_iff insert_iff)
  qed
  ultimately show ?thesis by (simp add: slot_inv_def)
qed

section \<open>Resolving\<close>

lemma open_conflict_member_iff:
  assumes inv: "slot_inv d" and k: "k \<in> set (db_conflicts d)" "is_open k" and f: "f \<in> set (db_facts d)"
  shows "f_id f \<in> set (conflict_members d (k_id k)) \<longleftrightarrow> is_current f \<and> f_conflict_group f = Some (k_id k)"
proof -
  have mem: "f_id f \<in> set (conflict_members d (k_id k)) \<longleftrightarrow> (k_id k, f_id f) \<in> set (db_conflict_members d)"
    by (force simp: conflict_members_def)
  show ?thesis
  proof
    assume "f_id f \<in> set (conflict_members d (k_id k))"
    then obtain g where "g \<in> set (db_facts d)" "f_id g = f_id f" "is_current g"
      "f_conflict_group g = Some (k_id k)"
      using mem by (metis conflict_ok_member [OF slot_inv_conflict_ok [OF inv k]])
    moreover from this have "g = f" using slot_inv_same_id [OF inv _ f] by blast
    ultimately show "is_current f \<and> f_conflict_group f = Some (k_id k)" by simp
  next
    assume "is_current f \<and> f_conflict_group f = Some (k_id k)"
    then show "f_id f \<in> set (conflict_members d (k_id k))"
      using inv f mem unfolding slot_inv_def groups_ok_def by blast
  qed
qed

lemma open_conflict_members_facts:
  assumes inv: "slot_inv d" and k: "k \<in> set (db_conflicts d)" "is_open k"
    and i: "i \<in> set (conflict_members d (k_id k))"
  obtains f where "f \<in> set (db_facts d)" "f_id f = i" "is_current f"
    "f_conflict_group f = Some (k_id k)" "in_conflict_slot k f"
proof -
  have "(k_id k, i) \<in> set (db_conflict_members d)" using i by (auto simp: conflict_members_def)
  then show thesis using that by (rule conflict_ok_member [OF slot_inv_conflict_ok [OF inv k]])
qed

lemma conflict_members_distinct: "slot_inv d \<Longrightarrow> distinct (conflict_members d c)"
proof -
  assume "slot_inv d"
  then have "distinct (db_conflict_members d)" by (simp add: slot_inv_defs)
  then have "distinct (filter (\<lambda>m. fst m = c) (db_conflict_members d))" by simp
  moreover have "inj_on snd (set (filter (\<lambda>m. fst m = c) (db_conflict_members d)))"
    by (auto simp: inj_on_def)
  ultimately show ?thesis by (simp add: conflict_members_def distinct_map)
qed

lemma rowcount_ids:
  assumes "distinct (map f_id fs)" and "distinct is"
    and "\<And>f. f \<in> set fs \<Longrightarrow> P f \<longleftrightarrow> f_id f \<in> set is" and "set is \<subseteq> f_id ` set fs"
  shows "rowcount P fs = length is"
proof -
  have "distinct (map f_id (filter P fs))" using assms(1) by (simp add: distinct_map_filter)
  moreover have "set (map f_id (filter P fs)) = set is" using assms(3,4) by force
  ultimately have "length (map f_id (filter P fs)) = length is"
    using assms(2) by (metis distinct_card)
  then show ?thesis by (simp add: rowcount_def)
qed

text \<open>The facts after a resolution, as one pass over the table.\<close>

definition resolved_fact :: "int list \<Rightarrow> int \<Rightarrow> string \<Rightarrow> fact \<Rightarrow> fact" where
  "resolved_fact members rid stamp f =
     (if f_id f \<notin> set members then f
      else if f_id f = rid then f\<lparr>f_conflict_group := None\<rparr>
      else f\<lparr>f_invalid_at := Some stamp, f_superseded_by := Some rid\<rparr>)"

lemma resolved_fact_id [simp]: "f_id (resolved_fact ms rid stamp f) = f_id f"
  by (simp add: resolved_fact_def)

lemma resolved_current:
  "is_current (resolved_fact ms rid stamp f) \<longleftrightarrow> is_current f \<and> (f_id f \<in> set ms \<longrightarrow> f_id f = rid)"
  by (auto simp: resolved_fact_def is_current_def)

lemma resolved_in_slot [simp]: "in_slot a b c (resolved_fact ms rid stamp f) = in_slot a b c f"
  by (simp add: resolved_fact_def in_slot_def)

text \<open>The invariant after a resolution.\<close>

lemma slot_inv_resolved:
  assumes inv: "slot_inv d" and k: "k \<in> set (db_conflicts d)" "is_open k"
    and rid: "rid \<in> set (conflict_members d (k_id k))"
  shows "slot_inv (close_conflict (k_id k) rid by_whom why stamp
      (d\<lparr>db_facts := map (resolved_fact (conflict_members d (k_id k)) rid stamp) (db_facts d)\<rparr>))"
    (is "slot_inv ?d")
proof -
  let ?ms = "conflict_members d (k_id k)"
  let ?h = "resolved_fact ?ms rid stamp"
  let ?q = "\<lambda>l. if k_id l = k_id k \<and> k_resolved_at l = None
       then l\<lparr>k_resolved_at := Some stamp, k_resolution_fact_id := Some rid,
              k_resolved_by := Some by_whom, k_resolution_reason := Some why\<rparr> else l"
  note mi = open_conflict_member_iff [OF inv k]
  obtain w where w: "w \<in> set (db_facts d)" "f_id w = rid" "is_current w"
    "f_conflict_group w = Some (k_id k)" "in_conflict_slot k w"
    using open_conflict_members_facts [OF inv k rid] .
  have facts: "db_facts ?d = map ?h (db_facts d)" by (simp add: close_conflict_def)
  have confs: "db_conflicts ?d = map ?q (db_conflicts d)"
    by (simp add: close_conflict_def update_where_def)
  have mems: "db_conflict_members ?d = db_conflict_members d" by (simp add: close_conflict_def)
  have dist: "distinct (map f_id (map ?h (db_facts d)))"
    using slot_inv_distinct [OF inv] by (simp add: fact_ids_def comp_def)
  have same_k: "l = k" if "l \<in> set (db_conflicts d)" "k_id l = k_id k" for l
    using inv k(1) that unfolding slot_inv_def keys_ok_def by (auto dest: distinct_key_inj)
  have open_new: "l \<in> set (db_conflicts d) \<and> k_id l \<noteq> k_id k"
    if "l \<in> set (db_conflicts ?d)" "is_open l" for l
    using that same_k k(2) by (auto simp: confs is_open_def split: if_splits)
  have keep: "?h f = f" if "f \<in> set (db_facts d)" "f_conflict_group f \<noteq> Some (k_id k)" for f
    using mi [OF that(1)] that(2) by (simp add: resolved_fact_def)
  have slot_w: "f = w" if f: "f \<in> set (db_facts d)" "is_current (?h f)" "in_conflict_slot k f" for f
  proof -
    have c: "is_current f" using f(2) by (simp add: resolved_current)
    then have "f_conflict_group f = Some (k_id k)"
      using inv w f unfolding slot_inv_def exclusive_ok_def in_conflict_slot_def by metis
    then have "f_id f = rid" using mi [OF f(1)] c f(2) by (simp add: resolved_current)
    then show ?thesis using slot_inv_same_id [OF inv f(1) w(1)] w(2) by simp
  qed
  have group_h: "f_conflict_group (?h f) = (if f = w then None else f_conflict_group f)"
    if "f \<in> set (db_facts d)" "is_current (?h f)" for f
  proof (cases "f_id f \<in> set ?ms")
    case True
    then have "f_id f = rid" using that(2) by (simp add: resolved_current)
    moreover from this have "f = w" using slot_inv_same_id [OF inv that(1) w(1)] w(2) by simp
    ultimately show ?thesis using True by (simp add: resolved_fact_def)
  next
    case False
    then have "f \<noteq> w" using rid w(2) by blast
    with False show ?thesis by (simp add: resolved_fact_def)
  qed
  have "ids_ok ?d"
    using inv by (simp add: slot_inv_def ids_ok_def fact_ids_def close_conflict_def comp_def)
  moreover have "slot_unique (db_facts ?d)"
    unfolding facts slot_unique_iff [OF dist]
  proof (intro ballI impI)
    fix f g assume "f \<in> set (map ?h (db_facts d))" "g \<in> set (map ?h (db_facts d))"
      and key: "slot_key f \<noteq> None" "slot_key f = slot_key g"
    then obtain a b where a: "a \<in> set (db_facts d)" "f = ?h a" and b: "b \<in> set (db_facts d)" "g = ?h b"
      by auto
    from key obtain sc s p where kf: "slot_key f = Some (sc, s, p)" and kg: "slot_key g = Some (sc, s, p)"
      by (metis option.collapse prod_cases3)
    have f: "in_slot sc s p a" "is_current (?h a)" "f_conflict_group (?h a) = None"
      and g: "in_slot sc s p b" "is_current (?h b)" "f_conflict_group (?h b) = None"
      using kf kg a b resolved_in_slot [of sc s p ?ms rid stamp] by (auto simp: slot_key_Some_iff in_slot_def)
    show "f = g"
    proof (cases "in_conflict_slot k a")
      case True
      then have "in_conflict_slot k b"
        using f(1) g(1) by (auto simp: in_conflict_slot_def in_slot_def)
      with True show ?thesis using slot_w a b f(2) g(2) by metis
    next
      case False
      then have "a \<noteq> w" "b \<noteq> w"
        using w(5) f(1) g(1) by (auto simp: in_conflict_slot_def in_slot_def)
      then have "f_conflict_group a = None" "f_conflict_group b = None"
        using group_h [OF a(1) f(2)] group_h [OF b(1) g(2)] f(3) g(3) by simp_all
      then have "b = a"
        using slot_inv_ungrouped_unique [OF inv a(1) b(1) f(1) g(1)] f(2) g(2)
        by (simp add: resolved_current)
      then show ?thesis using a b by simp
    qed
  qed
  moreover have "superseded_fk (db_facts ?d)"
  proof -
    have "superseded_fk (db_facts d)" using inv by (simp add: slot_inv_defs)
    moreover have "f_id ` set (map ?h (db_facts d)) = f_id ` set (db_facts d)" by (auto simp: image_iff)
    ultimately show ?thesis
      using w(1,2) unfolding facts superseded_fk_iff by (auto simp: resolved_fact_def split: if_splits)
  qed
  moreover have "distinct (map k_id (db_conflicts ?d))"
  proof -
    have "map k_id (db_conflicts ?d) = map k_id (db_conflicts d)" by (simp add: confs)
    then show ?thesis using inv by (simp add: slot_inv_defs)
  qed
  moreover have "groups_ok ?d"
    unfolding groups_ok_def mems
  proof (intro ballI allI impI)
    fix g c assume "g \<in> set (db_facts ?d)" and c: "is_current g \<and> f_conflict_group g = Some c"
    then obtain f where f: "f \<in> set (db_facts d)" "g = ?h f" by (auto simp: facts)
    have "f \<noteq> w" "f_conflict_group f = Some c"
      using group_h [OF f(1)] c f(2) by (auto split: if_splits)
    have cur: "is_current f" using c f(2) by (simp add: resolved_current)
    have ne: "c \<noteq> k_id k"
    proof
      assume "c = k_id k"
      then have "f_id f = rid" using mi [OF f(1)] cur \<open>f_conflict_group f = Some c\<close> c f(2)
        by (simp add: resolved_current)
      then show False using \<open>f \<noteq> w\<close> slot_inv_same_id [OF inv f(1) w(1)] w(2) by simp
    qed
    then have gf: "g = f" using keep f \<open>f_conflict_group f = Some c\<close> by simp
    obtain l where l: "l \<in> set (db_conflicts d)" "k_id l = c" "is_open l" "in_conflict_slot l f"
      and m: "(c, f_id f) \<in> set (db_conflict_members d)"
      using inv f(1) cur \<open>f_conflict_group f = Some c\<close> unfolding slot_inv_def groups_ok_def by blast
    have "l \<in> set (db_conflicts ?d)" using l ne by (auto simp: confs image_iff intro!: bexI [of _ l])
    then show "(\<exists>k \<in> set (db_conflicts ?d). k_id k = c \<and> is_open k \<and> in_conflict_slot k g)
        \<and> (c, f_id g) \<in> set (db_conflict_members d)" using l m gf by auto
  qed
  moreover have "members_ok ?d"
    unfolding members_ok_def
  proof (intro ballI impI)
    fix l assume "l \<in> set (db_conflicts ?d)" "is_open l"
    then have l: "l \<in> set (db_conflicts d)" "k_id l \<noteq> k_id k" "is_open l" using open_new by auto
    have stay: "f \<in> set (db_facts ?d)" if "f \<in> set (db_facts d)" "f_conflict_group f = Some (k_id l)" for f
      using keep [OF that(1)] that l(2) by (force simp: facts image_iff)
    show "conflict_ok ?d l"
      by (rule conflict_ok_stay [OF slot_inv_conflict_ok [OF inv l(1,3)] stay]) (simp_all add: mems)
  qed
  moreover have "exclusive_ok ?d"
    unfolding exclusive_ok_def
  proof (intro ballI allI impI)
    fix f g sc s p
    assume "f \<in> set (db_facts ?d)" "g \<in> set (db_facts ?d)"
      and c: "is_current f \<and> is_current g \<and> in_slot sc s p f \<and> in_slot sc s p g"
    then obtain a b where a: "a \<in> set (db_facts d)" "f = ?h a" and b: "b \<in> set (db_facts d)" "g = ?h b"
      by (auto simp: facts)
    have ca: "is_current (?h a)" "is_current (?h b)" "in_slot sc s p a" "in_slot sc s p b"
      using c a b by simp_all
    have same: "f_conflict_group a = f_conflict_group b"
      using inv a(1) b(1) ca unfolding slot_inv_def exclusive_ok_def by (metis resolved_current)
    have "a = w \<longleftrightarrow> b = w"
    proof -
      have "in_conflict_slot k a = in_conflict_slot k b"
        using ca by (auto simp: in_conflict_slot_def in_slot_def)
      then show ?thesis using slot_w a(1) b(1) ca w(5) by metis
    qed
    then show "f_conflict_group f = f_conflict_group g"
      using group_h a b ca same by simp
  qed
  moreover have "map k_id (db_conflicts ?d) = map k_id (db_conflicts d)" by (simp add: confs)
  then have "k_id ` set (db_conflicts ?d) = k_id ` set (db_conflicts d)" by (metis list.set_map)
  then have "member_rows_ok ?d"
    using inv by (simp add: slot_inv_def member_rows_ok_def mems)
  moreover have "db_slot_index ?d = db_slot_index d" by (simp add: close_conflict_def)
  ultimately show ?thesis
    using inv mems by (simp add: slot_inv_def keys_ok_def)
qed

lemma update_where_cong:
  "(\<And>r. r \<in> set rs \<Longrightarrow> P r = Q r) \<Longrightarrow> update_where P u rs = map (\<lambda>r. if Q r then u r else r) rs"
  by (simp add: update_where_def)

lemma superseded_fk_update:
  assumes fk: "superseded_fk fs" and ids: "\<And>r. f_id (u r) = f_id r"
    and new: "\<And>r i. r \<in> set fs \<Longrightarrow> P r \<Longrightarrow> f_superseded_by (u r) = Some i \<Longrightarrow> i \<in> f_id ` set fs"
  shows "superseded_fk (update_where P u fs)"
proof -
  have "map f_id (update_where P u fs) = map f_id fs" by (rule map_update_where) (rule ids)
  then have same: "f_id ` set (update_where P u fs) = f_id ` set fs" by (metis list.set_map)
  show ?thesis
    unfolding superseded_fk_iff same
  proof (intro ballI allI impI)
    fix g i assume "g \<in> set (update_where P u fs)" and i: "f_superseded_by g = Some i"
    then obtain f where f: "f \<in> set fs" "g = (if P f then u f else f)" by (auto simp: in_update_where)
    show "i \<in> f_id ` set fs"
    proof (cases "P f")
      case True
      then show ?thesis using new [OF f(1) True] f(2) i by simp
    next
      case False
      then show ?thesis using fk f i unfolding superseded_fk_iff by simp
    qed
  qed
qed

lemma invalidate_losers_ok:
  assumes inv: "slot_inv d" and k: "k \<in> set (db_conflicts d)" "is_open k"
    and rid: "rid \<in> set (conflict_members d (k_id k))"
  shows "invalidate_losers (k_id k) rid stamp (filter (\<lambda>i. i \<noteq> rid) (conflict_members d (k_id k))) d
    = Inr (d\<lparr>db_facts := map (\<lambda>f. if f_id f \<in> set (conflict_members d (k_id k)) \<and> f_id f \<noteq> rid
              then f\<lparr>f_invalid_at := Some stamp, f_superseded_by := Some rid\<rparr> else f) (db_facts d)\<rparr>)"
proof (cases "filter (\<lambda>i. i \<noteq> rid) (conflict_members d (k_id k)) = []")
  case True
  then have "\<not> (f_id f \<in> set (conflict_members d (k_id k)) \<and> f_id f \<noteq> rid)" for f :: fact
    by (auto simp: filter_empty_conv)
  then have "map (\<lambda>f. if f_id f \<in> set (conflict_members d (k_id k)) \<and> f_id f \<noteq> rid
      then f\<lparr>f_invalid_at := Some stamp, f_superseded_by := Some rid\<rparr> else f) (db_facts d) = db_facts d"
    by (intro map_idI) meson
  then show ?thesis using True by (simp add: invalidate_losers_def)
next
  case False
  let ?ms = "conflict_members d (k_id k)"
  let ?losers = "filter (\<lambda>i. i \<noteq> rid) ?ms"
  let ?P = "\<lambda>f. f_id f \<in> set ?losers \<and> f_conflict_group f = Some (k_id k) \<and> f_invalid_at f = None"
  let ?Q = "\<lambda>f. f_id f \<in> set ?ms \<and> f_id f \<noteq> rid"
  let ?u = "\<lambda>f. f\<lparr>f_invalid_at := Some stamp, f_superseded_by := Some rid\<rparr>"
  have PQ: "?P f = ?Q f" if "f \<in> set (db_facts d)" for f
    using open_conflict_member_iff [OF inv k that] by (auto simp: is_current_def)
  have eq: "update_where ?P ?u (db_facts d) = map (\<lambda>f. if ?Q f then ?u f else f) (db_facts d)"
    by (rule update_where_cong) (rule PQ)
  obtain w where w: "w \<in> set (db_facts d)" "f_id w = rid"
    using open_conflict_members_facts [OF inv k rid] by metis
  have "distinct (slot_keys (update_where ?P ?u (db_facts d)))"
    using inv by (intro slot_keys_subset_distinct(1))
      (auto simp: slot_inv_defs slot_unique_def slot_key_None_iff is_current_def)
  moreover have "superseded_fk (update_where ?P ?u (db_facts d))"
    using inv w by (intro superseded_fk_update) (auto simp: slot_inv_defs)
  moreover have "rowcount ?P (db_facts d) = length ?losers"
  proof (rule rowcount_ids)
    show "distinct (map f_id (db_facts d))" using slot_inv_distinct [OF inv] by (simp add: fact_ids_def)
    show "distinct ?losers" using conflict_members_distinct [OF inv] by simp
    show "?P f \<longleftrightarrow> f_id f \<in> set ?losers" if "f \<in> set (db_facts d)" for f using PQ [OF that] by auto
    show "set ?losers \<subseteq> f_id ` set (db_facts d)"
      using open_conflict_members_facts [OF inv k] by (auto simp: image_iff)
  qed
  ultimately have "sql_update_facts ?P ?u d
      = Inr (d\<lparr>db_facts := map (\<lambda>f. if ?Q f then ?u f else f) (db_facts d)\<rparr>, length ?losers)"
    unfolding sql_update_facts_Inr using eq by (simp add: slot_unique_def)
  then show ?thesis using False by (simp add: invalidate_losers_def guard_res_def)
qed

lemma release_winner_ok:
  assumes inv: "slot_inv d" and k: "k \<in> set (db_conflicts d)" "is_open k"
    and rid: "rid \<in> set (conflict_members d (k_id k))"
  shows "release_winner (k_id k) rid
      (d\<lparr>db_facts := map (\<lambda>f. if f_id f \<in> set (conflict_members d (k_id k)) \<and> f_id f \<noteq> rid
              then f\<lparr>f_invalid_at := Some stamp, f_superseded_by := Some rid\<rparr> else f) (db_facts d)\<rparr>)
    = Inr (d\<lparr>db_facts := map (resolved_fact (conflict_members d (k_id k)) rid stamp) (db_facts d)\<rparr>)"
proof -
  let ?ms = "conflict_members d (k_id k)"
  let ?l = "\<lambda>f. if f_id f \<in> set ?ms \<and> f_id f \<noteq> rid
       then f\<lparr>f_invalid_at := Some stamp, f_superseded_by := Some rid\<rparr> else f"
  let ?W = "\<lambda>f. f_id f = rid \<and> f_conflict_group f = Some (k_id k) \<and> is_current f"
  let ?r = "\<lambda>f. f\<lparr>f_conflict_group := None\<rparr>"
  obtain w where w: "w \<in> set (db_facts d)" "f_id w = rid" "is_current w" "f_conflict_group w = Some (k_id k)"
    using open_conflict_members_facts [OF inv k rid] by metis
  have W: "?W (?l f) \<longleftrightarrow> f = w" if "f \<in> set (db_facts d)" for f
  proof (cases "f = w")
    case True
    then show ?thesis using w by simp
  next
    case False
    then have "f_id f \<noteq> rid" using slot_inv_same_id [OF inv that w(1)] w(2) by metis
    then have "f_id (?l f) \<noteq> rid" by simp
    then show ?thesis using False by blast
  qed
  have eq: "update_where ?W ?r (map ?l (db_facts d)) = map (resolved_fact ?ms rid stamp) (db_facts d)"
    unfolding update_where_def map_map
  proof (rule map_cong [OF refl])
    fix f assume f: "f \<in> set (db_facts d)"
    have fw: "f_id f = rid \<longleftrightarrow> f = w" using slot_inv_same_id [OF inv f w(1)] w(2) by metis
    show "((\<lambda>r. if ?W r then ?r r else r) \<circ> ?l) f = resolved_fact ?ms rid stamp f"
    proof (cases "f = w")
      case True
      then show ?thesis using w rid by (simp add: resolved_fact_def)
    next
      case False
      then have n: "\<not> ?W (?l f)" using W [OF f] by blast
      show ?thesis using False fw unfolding o_apply if_not_P [OF n] by (simp add: resolved_fact_def)
    qed
  qed
  have count: "rowcount ?W (map ?l (db_facts d)) = 1"
  proof (rule rowcount_distinct_one [where k = f_id and r = "?l w"])
    show "distinct (map f_id (map ?l (db_facts d)))"
      using slot_inv_distinct [OF inv] by (simp add: fact_ids_def comp_def if_distrib cong: if_cong)
    show "?l w \<in> set (map ?l (db_facts d))" using w(1) by auto
    show "?W (?l w)" using W [OF w(1)] by blast
    show "f_id s = f_id (?l w)" if "?W s" for s using that w(2) by simp
  qed
  have inv': "slot_inv (close_conflict (k_id k) rid [] [] stamp
      (d\<lparr>db_facts := map (resolved_fact ?ms rid stamp) (db_facts d)\<rparr>))"
    by (rule slot_inv_resolved [OF inv k rid])
  then have "slot_unique (map (resolved_fact ?ms rid stamp) (db_facts d))"
    and "superseded_fk (map (resolved_fact ?ms rid stamp) (db_facts d))"
    by (simp_all add: slot_inv_def keys_ok_def close_conflict_def)
  then have "sql_update_facts ?W ?r (d\<lparr>db_facts := map ?l (db_facts d)\<rparr>)
      = Inr (d\<lparr>db_facts := map (resolved_fact ?ms rid stamp) (db_facts d)\<rparr>, 1)"
    unfolding sql_update_facts_Inr using eq count by simp
  then show ?thesis by (simp add: release_winner_def guard_res_def)
qed

lemma slot_inv_resolutions [simp]: "slot_inv (d\<lparr>db_resolutions := x\<rparr>) = slot_inv d"
  by (rule slot_inv_frame) simp_all

lemma record_resolver_Inr:
  "record_resolver cid rid reason stamp c s a d = Inr d' \<Longrightarrow> \<exists>x. d' = d\<lparr>db_resolutions := x\<rparr>"
  by (auto simp: record_resolver_def rbind_eq_Inr insert_resolution_def split: if_splits)
    (metis db.surjective db.update_convs(8))+

text \<open>A successful call has passed every guard of the function.\<close>

lemma resolve_state_conflict_guards:
  assumes ok: "resolve_state_conflict rt now cid rid resolved_by reason resolved_at client session agent d = Inr (r, d')"
  obtains by_whom why k where
    "first_row (\<lambda>k. k_id k = cid) (db_conflicts d) = Some k" "k_resolved_at k = None"
    "rid \<in> set (conflict_members d cid)"
    "rbind (invalidate_losers cid rid (or_else resolved_at now)
          (filter (\<lambda>i. i \<noteq> rid) (conflict_members d cid)) d) (\<lambda>d1.
        rbind (release_winner cid rid d1) (\<lambda>d2.
        rbind (record_resolver cid rid why (or_else resolved_at now) client session agent
                 (close_conflict cid rid by_whom why (or_else resolved_at now) d2)) (\<lambda>d3.
        Inr (\<lparr>cx_conflict_id = cid, cx_resolution_fact_id = rid,
              cx_superseded_fact_ids = filter (\<lambda>i. i \<noteq> rid) (conflict_members d cid),
              cx_resolved_by = by_whom, cx_reason = why, cx_resolved_at = or_else resolved_at now\<rparr>, d3))))
        = Inr (r, d')"
proof -
  obtain by_whom where 1: "py_required resolved_by ''resolved_by'' = Inr by_whom"
    using ok by (cases "py_required resolved_by ''resolved_by''") (simp_all add: resolve_state_conflict_def)
  obtain why where 2: "py_required reason ''reason'' = Inr why"
    using ok 1 by (cases "py_required reason ''reason''") (simp_all add: resolve_state_conflict_def)
  obtain ts where 3: "parse_timestamp rt (Some (or_else resolved_at now)) = Inr ts"
    using ok 1 2 by (cases "parse_timestamp rt (Some (or_else resolved_at now))")
      (simp_all add: resolve_state_conflict_def)
  obtain k where 4: "first_row (\<lambda>k. k_id k = cid) (db_conflicts d) = Some k"
    using ok 1 2 3 by (cases "first_row (\<lambda>k. k_id k = cid) (db_conflicts d)")
      (simp_all add: resolve_state_conflict_def)
  have 5: "k_resolved_at k = None"
    using ok 1 2 3 4 by (cases "k_resolved_at k") (simp_all add: resolve_state_conflict_def)
  have 6: "rid \<in> set (conflict_members d cid)"
    using ok 1 2 3 4 5 by (cases "rid \<in> set (conflict_members d cid)")
      (simp_all add: resolve_state_conflict_def Let_def)
  show thesis
    by (rule that [OF 4 5 6]) (use ok in \<open>simp add: resolve_state_conflict_def Let_def 1 2 3 4 5 6\<close>)
qed

text \<open>What a successful resolution does, under the invariant.\<close>

lemma resolve_state_conflict_Inr:
  assumes inv: "slot_inv d"
    and ok: "resolve_state_conflict rt now cid rid resolved_by reason resolved_at client session agent d = Inr (r, d')"
  obtains k stamp by_whom why x where "k \<in> set (db_conflicts d)" "k_id k = cid" "is_open k"
    "rid \<in> set (conflict_members d cid)"
    "d' = (close_conflict cid rid by_whom why stamp
      (d\<lparr>db_facts := map (resolved_fact (conflict_members d cid) rid stamp) (db_facts d)\<rparr>))\<lparr>db_resolutions := x\<rparr>"
    "cx_resolution_fact_id r = rid"
    "cx_superseded_fact_ids r = filter (\<lambda>i. i \<noteq> rid) (conflict_members d cid)"
proof -
  from ok obtain by_whom why k where
    k: "first_row (\<lambda>k. k_id k = cid) (db_conflicts d) = Some k" "k_resolved_at k = None"
    and rid: "rid \<in> set (conflict_members d cid)"
    and rest: "rbind (invalidate_losers cid rid (or_else resolved_at now)
          (filter (\<lambda>i. i \<noteq> rid) (conflict_members d cid)) d) (\<lambda>d1.
        rbind (release_winner cid rid d1) (\<lambda>d2.
        rbind (record_resolver cid rid why (or_else resolved_at now) client session agent
                 (close_conflict cid rid by_whom why (or_else resolved_at now) d2)) (\<lambda>d3.
        Inr (\<lparr>cx_conflict_id = cid, cx_resolution_fact_id = rid,
              cx_superseded_fact_ids = filter (\<lambda>i. i \<noteq> rid) (conflict_members d cid),
              cx_resolved_by = by_whom, cx_reason = why, cx_resolved_at = or_else resolved_at now\<rparr>, d3))))
        = Inr (r, d')"
    by (rule resolve_state_conflict_guards)
  have k': "k \<in> set (db_conflicts d)" "k_id k = cid" "is_open k"
    using first_row_Some [OF k(1)] k(2) by (auto simp: is_open_def)
  note steps = invalidate_losers_ok [OF inv k'(1,3), unfolded k'(2), OF rid]
    release_winner_ok [OF inv k'(1,3), unfolded k'(2), OF rid]
  from rest obtain x where
    "d' = (close_conflict cid rid by_whom why (or_else resolved_at now)
      (d\<lparr>db_facts := map (resolved_fact (conflict_members d cid) rid (or_else resolved_at now)) (db_facts d)\<rparr>))
        \<lparr>db_resolutions := x\<rparr>"
    and "cx_resolution_fact_id r = rid"
    and "cx_superseded_fact_ids r = filter (\<lambda>i. i \<noteq> rid) (conflict_members d cid)"
    by (auto simp: steps rbind_eq_Inr dest!: record_resolver_Inr)
  then show thesis using that k' rid by blast
qed

lemma resolve_state_conflict_inv:
  assumes inv: "slot_inv d"
    and ok: "resolve_state_conflict rt now cid rid resolved_by reason resolved_at client session agent d = Inr (r, d')"
  shows "slot_inv d'"
proof (rule resolve_state_conflict_Inr [OF inv ok])
  fix k stamp by_whom why x
  assume k: "k \<in> set (db_conflicts d)" "k_id k = cid" "is_open k"
    and rid: "rid \<in> set (conflict_members d cid)"
    and d': "d' = (close_conflict cid rid by_whom why stamp
      (d\<lparr>db_facts := map (resolved_fact (conflict_members d cid) rid stamp) (db_facts d)\<rparr>))\<lparr>db_resolutions := x\<rparr>"
  show ?thesis
    using slot_inv_resolved [OF inv k(1,3), of rid] rid k(2) by (simp add: d')
qed

section \<open>Reading a slot under the invariant\<close>

lemma truthy_open_group:
  "slot_inv d \<Longrightarrow> k \<in> set (db_conflicts d) \<Longrightarrow> is_open k \<Longrightarrow> truthy (Some (k_id k))"
  by (drule (2) slot_inv_conflict_ok) (simp add: conflict_ok_def truthy_def)

lemma current_state_facts_clean:
  "clean s \<Longrightarrow> clean p \<Longrightarrow> clean sc \<Longrightarrow>
    current_state_facts d s p sc = Inr (map state_fact_of (slot_rows d sc s p))"
  by (simp add: current_state_facts_def clean_required)

lemma read_current_state_settled:
  assumes inv: "slot_inv d" and keys: "clean s" "clean p" "clean sc"
    and f: "f \<in> set (db_facts d)" "in_slot sc s p f" "is_current f" "f_conflict_group f = None"
  shows "read_current_state d s p sc = Inr (Some (state_fact_of f))"
proof -
  have mem: "f \<in> set (slot_rows d sc s p)" using f by (simp add: slot_rows_mem)
  have "slot_rows d sc s p = [f]"
    using inv by (rule slot_rows_cases [of d sc s p]) (use mem f(4) in auto)
  then show ?thesis
    using f(4) by (simp add: read_current_state_def current_state_facts_clean [OF keys] state_fact_of_def truthy_def)
qed

lemma read_current_state_unsettled:
  assumes inv: "slot_inv d" and keys: "clean s" "clean p" "clean sc"
    and none: "\<And>f. f \<in> set (db_facts d) \<Longrightarrow> in_slot sc s p f \<Longrightarrow> is_current f \<Longrightarrow> f_conflict_group f \<noteq> None"
  shows "read_current_state d s p sc = Inr None"
  using inv
proof (rule slot_rows_cases [of d sc s p])
  assume "slot_rows d sc s p = []"
  then show ?thesis by (simp add: read_current_state_def current_state_facts_clean [OF keys])
next
  fix f assume "slot_rows d sc s p = [f]" "f_conflict_group f = None"
  then show ?thesis using none [of f] slot_rows_mem [of f d sc s p] by simp
next
  fix k assume ne: "slot_rows d sc s p \<noteq> []" and k: "k \<in> set (db_conflicts d)" "is_open k"
    and grp: "\<forall>f \<in> set (slot_rows d sc s p). f_conflict_group f = Some (k_id k)"
  obtain f where f: "f \<in> set (slot_rows d sc s p)" using ne by (meson list.set_sel(1))
  then have "truthy (cs_conflict_group (state_fact_of f))"
    using grp truthy_open_group [OF inv k] by (simp add: state_fact_of_def)
  then have "list_ex (\<lambda>f. truthy (cs_conflict_group f)) (map state_fact_of (slot_rows d sc s p))"
    using f by (auto simp: list_ex_iff)
  then show ?thesis by (simp add: read_current_state_def current_state_facts_clean [OF keys])
qed

text \<open>The demonstration store: an open conflict of two values of one slot, and an untyped fact.\<close>

definition demo_runtime :: runtime where
  "demo_runtime = \<lparr>rt_sha256 = (\<lambda>s. s), rt_float_repr = (\<lambda>q. ''0.5''),
     rt_fromisoformat = (\<lambda>s. Some (int (length s), None))\<rparr>"

definition demo_fact :: "int \<Rightarrow> string \<Rightarrow> fact" where
  "demo_fact i content =
     \<lparr>f_id = i, f_content = content, f_category = ''general'', f_tags = [], f_trust_score = 1/2,
      f_retrieval_count = 0, f_helpful_count = 0, f_created_at = ''t'', f_updated_at = ''t'',
      f_hrr_vector = None, f_valid_from = Some ''t'', f_invalid_at = None, f_superseded_by = None,
      f_memory_kind = None, f_subject_key = None, f_predicate_key = None, f_object_value = None,
      f_object_entity_id = None, f_confidence = None, f_source_authority = Some (1/2),
      f_scope = ''private'', f_sensitivity = ''normal'', f_correction_status = None,
      f_schema_version = Some 1, f_conflict_group = None\<rparr>"

definition demo_state_fact :: "int \<Rightarrow> string \<Rightarrow> string \<Rightarrow> string option \<Rightarrow> fact" where
  "demo_state_fact i content subject grp =
     (demo_fact i content)\<lparr>f_memory_kind := Some ''state'', f_subject_key := Some subject,
       f_predicate_key := Some ''editor'', f_conflict_group := grp\<rparr>"

definition demo_conflict :: conflict_row where
  "demo_conflict =
     \<lparr>k_id = ''c1'', k_scope = ''private'', k_subject_key = ''me'', k_predicate_key = ''editor'',
      k_detected_at = ''t'', k_resolved_at = None, k_resolution_fact_id = None, k_resolved_by = None,
      k_resolution_reason = None, k_detail_json = ''{}''\<rparr>"

definition empty_db :: db where
  "empty_db =
     \<lparr>db_fact_columns = v1_fact_columns, db_slot_index = True, db_fact_seq = 0, db_facts = [],
      db_fact_entities = [], db_conflicts = [], db_conflict_members = [], db_resolutions = [],
      db_clients = [], db_sessions = [], db_observations = [], db_provenance = [],
      db_write_log = [], db_erasure_log = [], db_jobs = [], db_embeddings = [], db_queue_seq = 0,
      db_queue = []\<rparr>"

definition demo_db :: db where
  "demo_db = empty_db\<lparr>db_fact_seq := 4,
     db_facts := [demo_state_fact 1 ''uses vim'' ''me'' (Some ''c1''),
                  demo_state_fact 2 ''uses emacs'' ''me'' (Some ''c1''),
                  demo_fact 3 ''likes tea'', demo_state_fact 4 ''uses nano'' ''you'' None],
     db_conflicts := [demo_conflict],
     db_conflict_members := [(''c1'', 1), (''c1'', 2)]\<rparr>"

lemmas demo_defs = demo_db_def empty_db_def demo_conflict_def demo_state_fact_def demo_fact_def

lemma empty_db_slot_inv: "slot_inv empty_db"
  by (simp add: empty_db_def slot_inv_defs fact_ids_def slot_unique_def superseded_fk_def)

lemma demo_clean: "clean ''me''" "clean ''you''" "clean ''editor''" "clean ''private''"
  by code_simp+

lemma demo_db_slot_inv: "slot_inv demo_db"
  unfolding slot_inv_def
proof (intro conjI)
  show "ids_ok demo_db" by (simp add: ids_ok_def demo_defs fact_ids_def)
  show "keys_ok demo_db"
    by (simp add: keys_ok_def demo_defs slot_unique_def slot_key_def superseded_fk_def)
  show "groups_ok demo_db"
    by (simp add: groups_ok_def demo_defs is_current_def is_open_def in_conflict_slot_def in_slot_def)
  show "members_ok demo_db"
    by (auto simp: members_ok_def conflict_ok_def demo_defs is_current_def is_open_def
        in_conflict_slot_def in_slot_def demo_clean)
  show "member_rows_ok demo_db" by (simp add: member_rows_ok_def demo_defs)
  show "exclusive_ok demo_db" by (simp add: exclusive_ok_def demo_defs is_current_def in_slot_def)
qed

section \<open>The claims\<close>

text \<open>a read of a slot never fails on a well formed store, and it returns a value exactly
  when the slot has a current fact outside every conflict: that fact, and no other.\<close>

theorem read_current_state_exact:
  assumes "slot_inv d" and "clean s" "clean p" "clean sc"
  shows "\<exists>v. read_current_state d s p sc = Inr v
    \<and> (\<forall>x. v = Some x \<longleftrightarrow> (\<exists>f \<in> set (db_facts d). in_slot sc s p f \<and> is_current f
                              \<and> f_conflict_group f = None \<and> x = state_fact_of f))"
proof (cases "\<exists>f \<in> set (db_facts d). in_slot sc s p f \<and> is_current f \<and> f_conflict_group f = None")
  case True
  then obtain f where f: "f \<in> set (db_facts d)" "in_slot sc s p f" "is_current f" "f_conflict_group f = None"
    by blast
  have "g = f" if "g \<in> set (db_facts d)" "in_slot sc s p g" "is_current g" for g
    by (rule slot_inv_ungrouped_unique [OF assms(1) f(1) that(1) f(2) that(2) f(3) that(3) f(4)])
  then show ?thesis using read_current_state_settled [OF assms f] f by blast
next
  case False
  then have "read_current_state d s p sc = Inr None" by (intro read_current_state_unsettled [OF assms]) auto
  then show ?thesis using False by (intro exI [of _ None]) auto
qed

theorem read_current_state_exact_witness:
  "slot_inv demo_db \<and> (\<exists>v. read_current_state demo_db ''you'' ''editor'' ''private'' = Inr v
    \<and> (\<forall>x. v = Some x \<longleftrightarrow> (\<exists>f \<in> set (db_facts demo_db). in_slot ''private'' ''you'' ''editor'' f
         \<and> is_current f \<and> f_conflict_group f = None \<and> x = state_fact_of f)))"
  by (intro conjI demo_db_slot_inv read_current_state_exact demo_clean)

text \<open>C4: on a well formed store every open conflict can be resolved to any of its members: the
  call succeeds and keeps the store well formed, the slot then reads as that member, and
  every other member is retired and points to it.\<close>

theorem resolve_any_member:
  assumes inv: "slot_inv d" and k: "k \<in> set (db_conflicts d)" "is_open k"
    and rid: "rid \<in> set (conflict_members d (k_id k))"
    and args: "py_strip resolved_by \<noteq> []" "py_strip reason \<noteq> []"
    and stamp: "parse_timestamp rt (Some (or_else resolved_at now)) = Inr ts"
  shows "\<exists>r d' w. resolve_state_conflict rt now (k_id k) rid resolved_by reason resolved_at None None None d = Inr (r, d')
    \<and> slot_inv d'
    \<and> f_id w = rid \<and> w \<in> set (db_facts d')
    \<and> read_current_state d' (k_subject_key k) (k_predicate_key k) (k_scope k) = Inr (Some (state_fact_of w))
    \<and> (\<forall>f \<in> set (db_facts d'). f_id f \<in> set (conflict_members d (k_id k)) \<and> f_id f \<noteq> rid
         \<longrightarrow> f_superseded_by f = Some rid \<and> f_invalid_at f = Some (or_else resolved_at now))"
proof -
  let ?ms = "conflict_members d (k_id k)"
  let ?st = "or_else resolved_at now"
  let ?d = "close_conflict (k_id k) rid (py_strip resolved_by) (py_strip reason) ?st
      (d\<lparr>db_facts := map (resolved_fact ?ms rid ?st) (db_facts d)\<rparr>)"
  have "distinct (map k_id (db_conflicts d))" using inv by (simp add: slot_inv_defs)
  then have row: "first_row (\<lambda>l. k_id l = k_id k) (db_conflicts d) = Some k"
    by (rule first_row_distinct) (use k in simp_all)
  obtain r where ok: "resolve_state_conflict rt now (k_id k) rid resolved_by reason resolved_at None None None d = Inr (r, ?d)"
    using k(2) rid args stamp
    by (simp add: resolve_state_conflict_def py_required_def Let_def row is_open_def record_resolver_def
        invalidate_losers_ok [OF inv k rid] release_winner_ok [OF inv k rid])
  have inv': "slot_inv ?d" by (rule slot_inv_resolved [OF inv k rid])
  obtain w where w: "w \<in> set (db_facts d)" "f_id w = rid" "is_current w" "in_conflict_slot k w"
    using open_conflict_members_facts [OF inv k rid] by metis
  let ?w = "w\<lparr>f_conflict_group := None\<rparr>"
  have facts: "db_facts ?d = map (resolved_fact ?ms rid ?st) (db_facts d)" by (simp add: close_conflict_def)
  have "?w = resolved_fact ?ms rid ?st w" using w(2) rid by (simp add: resolved_fact_def)
  then have mem: "?w \<in> set (db_facts ?d)" using w(1) by (auto simp: facts)
  have keys: "clean (k_subject_key k)" "clean (k_predicate_key k)" "clean (k_scope k)"
    using slot_inv_conflict_ok [OF inv k] by (simp_all add: conflict_ok_def)
  have "read_current_state ?d (k_subject_key k) (k_predicate_key k) (k_scope k) = Inr (Some (state_fact_of ?w))"
    by (rule read_current_state_settled [OF inv' keys mem]) (use w in \<open>simp_all add: in_conflict_slot_def\<close>)
  moreover have "\<forall>f \<in> set (db_facts ?d). f_id f \<in> set ?ms \<and> f_id f \<noteq> rid
      \<longrightarrow> f_superseded_by f = Some rid \<and> f_invalid_at f = Some ?st"
    by (auto simp: facts resolved_fact_def)
  moreover have "f_id ?w = rid" using w(2) by simp
  ultimately show ?thesis using ok inv' mem by blast
qed

theorem resolve_any_member_witness:
  "\<exists>r d' w. resolve_state_conflict demo_runtime ''now'' (k_id demo_conflict) 2 ''me'' ''newer'' None None None None demo_db = Inr (r, d')
    \<and> slot_inv d' \<and> f_id w = 2 \<and> w \<in> set (db_facts d')
    \<and> read_current_state d' (k_subject_key demo_conflict) (k_predicate_key demo_conflict) (k_scope demo_conflict)
        = Inr (Some (state_fact_of w))
    \<and> (\<forall>f \<in> set (db_facts d'). f_id f \<in> set (conflict_members demo_db (k_id demo_conflict)) \<and> f_id f \<noteq> 2
         \<longrightarrow> f_superseded_by f = Some 2 \<and> f_invalid_at f = Some (or_else None ''now''))"
proof (rule resolve_any_member [OF demo_db_slot_inv])
  show "demo_conflict \<in> set (db_conflicts demo_db)" by (simp add: demo_db_def)
  show "is_open demo_conflict" by (simp add: is_open_def demo_conflict_def)
  show "2 \<in> set (conflict_members demo_db (k_id demo_conflict))" by (simp add: conflict_members_def demo_defs)
  show "py_strip ''me'' \<noteq> []" "py_strip ''newer'' \<noteq> []" by code_simp+
  show "parse_timestamp demo_runtime (Some (or_else None ''now'')) = Inr (Some 3)" by code_simp
qed

end
