(* ===== verification/Slot_Decision.thy ===== *)
theory Slot_Decision
  imports Conflict_Lifecycle
begin

text \<open>
  What \<open>decide_state_write\<close> of \<open>state_slots.py\<close> decides: one case per state of the slot,
  and that supersession is a strict order on (authority, validity time).
\<close>

section \<open>One lemma per branch\<close>

lemma mk_slot_decision_sel [simp]:
  "sd_action (mk_slot_decision c a ids t r) = a"
  "sd_current_fact_ids (mk_slot_decision c a ids t r) = ids"
  "sd_target_fact_id (mk_slot_decision c a ids t r) = t"
  "sd_scope (mk_slot_decision c a ids t r) = sc_scope c"
  "sd_subject_key (mk_slot_decision c a ids t r) = sc_subject_key c"
  "sd_predicate_key (mk_slot_decision c a ids t r) = sc_predicate_key c"
  by (simp_all add: mk_slot_decision_def)

lemma state_fact_of_sel [simp]:
  "cs_fact_id (state_fact_of f) = f_id f"
  "cs_content (state_fact_of f) = f_content f"
  "cs_conflict_group (state_fact_of f) = f_conflict_group f"
  "cs_object_value (state_fact_of f) = f_object_value f"
  "cs_source_authority (state_fact_of f) = coalesce_authority f"
  "cs_valid_from (state_fact_of f) = f_valid_from f"
  by (simp_all add: state_fact_of_def)

definition cand_clean :: "state_candidate \<Rightarrow> bool" where
  "cand_clean c \<longleftrightarrow> clean (sc_subject_key c) \<and> clean (sc_predicate_key c) \<and> clean (sc_scope c)"

abbreviation cand_rows :: "db \<Rightarrow> state_candidate \<Rightarrow> fact list" where
  "cand_rows d c \<equiv> slot_rows d (sc_scope c) (sc_subject_key c) (sc_predicate_key c)"

text \<open>The candidate outranks the fact: more authority and not older, or the same authority and
  newer.\<close>

definition outranks :: "rat \<Rightarrow> int option \<Rightarrow> rat \<Rightarrow> int option \<Rightarrow> bool" where
  "outranks a t b u \<longleftrightarrow> (b < a \<and> not_older t u) \<or> (a = b \<and> fresher t u)"

lemma decide_rows:
  "sc_memory_kind c = ''state'' \<Longrightarrow> cand_clean c \<Longrightarrow>
    current_state_facts d (sc_subject_key c) (sc_predicate_key c) (sc_scope c)
      = Inr (map state_fact_of (cand_rows d c))"
  by (simp add: cand_clean_def current_state_facts_clean)

lemma decide_non_state:
  "sc_memory_kind c \<noteq> ''state'' \<Longrightarrow>
    \<exists>r. decide_state_write rt d c = Inr (mk_slot_decision c AddFact [] None r)"
  by (auto simp: decide_state_write_def)

lemma decide_empty:
  assumes "sc_memory_kind c = ''state''" "cand_clean c" "cand_rows d c = []"
  shows "\<exists>r. decide_state_write rt d c = Inr (mk_slot_decision c AddFact [] None r)"
  using assms by (auto simp: decide_state_write_def decide_rows)

lemma decide_single_dedup:
  assumes "sc_memory_kind c = ''state''" "cand_clean c" "cand_rows d c = [f]" "f_conflict_group f = None"
    and "exact_match c (state_fact_of f)"
  shows "\<exists>r. decide_state_write rt d c = Inr (mk_slot_decision c Dedup [f_id f] (Some (f_id f)) r)"
  using assms by (auto simp: decide_state_write_def decide_rows truthy_def first_row_def)

lemma decide_single_new:
  assumes "sc_memory_kind c = ''state''" "cand_clean c" "cand_rows d c = [f]" "f_conflict_group f = None"
    and "\<not> exact_match c (state_fact_of f)"
    and "parse_timestamp rt (sc_valid_from c) = Inr t" "parse_timestamp rt (f_valid_from f) = Inr u"
  shows "\<exists>r. decide_state_write rt d c = Inr (
      if outranks (sc_source_authority c) t (coalesce_authority f) u
      then mk_slot_decision c Supersede [f_id f] (Some (f_id f)) r
      else mk_slot_decision c Conflict [f_id f] None r)"
  using assms by (auto simp add: decide_state_write_def decide_rows truthy_def first_row_def outranks_def Let_def)

lemma first_row_map: "first_row P (map g xs) = map_option g (first_row (P \<circ> g) xs)"
  by (simp add: first_row_def filter_map split: list.splits)

lemma decide_conflicted:
  assumes "sc_memory_kind c = ''state''" "cand_clean c" "cand_rows d c \<noteq> []"
    and "\<exists>f \<in> set (cand_rows d c). truthy (f_conflict_group f)"
  shows "\<exists>r. decide_state_write rt d c = Inr (mk_slot_decision c Conflict (map f_id (cand_rows d c))
      (map_option f_id (first_row (\<lambda>f. exact_match c (state_fact_of f)) (cand_rows d c))) r)"
proof -
  have "list_ex (\<lambda>f. truthy (cs_conflict_group f)) (map state_fact_of (cand_rows d c))"
    using assms(4) by (auto simp: list_ex_iff)
  then show ?thesis
    using assms by (auto simp: decide_state_write_def decide_rows Let_def first_row_map o_def option.map_comp)
qed

section \<open>Supersession is a strict order\<close>

lemma outranks_irrefl: "\<not> outranks a t a t"
  by (simp add: outranks_def fresher_def split: option.splits)

lemma outranks_asym: "outranks a t b u \<Longrightarrow> \<not> outranks b u a t"
  by (auto simp: outranks_def fresher_def not_older_def split: option.splits)

lemma outranks_trans: "outranks a t b u \<Longrightarrow> outranks b u c v \<Longrightarrow> outranks a t c v"
  by (auto simp: outranks_def fresher_def not_older_def split: option.splits)

text \<open>A candidate that carries the values of a fact.\<close>

lemma decide_supersede_single:
  assumes "sc_memory_kind c = ''state''" "cand_clean c" "cand_rows d c = [f]" "f_conflict_group f = None"
    and "decide_state_write rt d c = Inr dec" and "sd_action dec = Supersede"
  obtains t u where "parse_timestamp rt (sc_valid_from c) = Inr t" "parse_timestamp rt (f_valid_from f) = Inr u"
    "outranks (sc_source_authority c) t (coalesce_authority f) u" "\<not> exact_match c (state_fact_of f)"
proof -
  have new: "\<not> exact_match c (state_fact_of f)"
  proof
    assume "exact_match c (state_fact_of f)"
    from decide_single_dedup [OF assms(1-4) this, of rt] show False using assms(5,6) by auto
  qed
  then obtain t u where
    tu: "parse_timestamp rt (sc_valid_from c) = Inr t" "parse_timestamp rt (f_valid_from f) = Inr u"
    using assms by (auto simp: decide_state_write_def decide_rows truthy_def first_row_def rbind_eq_Inr Let_def)
  have "outranks (sc_source_authority c) t (coalesce_authority f) u"
    using decide_single_new [OF assms(1-4) new tu] assms(5,6) by (auto simp: mk_slot_decision_def split: if_splits)
  then show thesis using tu new by (intro that)
qed

section \<open>The claims\<close>

text \<open>C30: on a well formed store the decision about a typed value, when its times parse, is the
  one the slot's state calls for: an empty slot takes the value; a slot with one settled value
  dedups an equal one, is superseded by one that outranks it and conflicts with any other;
  a slot in conflict stays in conflict, with exactly the members of the open conflict.\<close>

theorem decide_state_write_by_slot:
  assumes inv: "slot_inv d" and c: "sc_memory_kind c = ''state''" "cand_clean c"
    and t: "parse_timestamp rt (sc_valid_from c) = Inr t"
    and times: "\<forall>f \<in> set (db_facts d). \<exists>u. parse_timestamp rt (f_valid_from f) = Inr u"
  shows "\<exists>dec. decide_state_write rt d c = Inr dec \<and>
    (cand_rows d c = [] \<and> sd_action dec = AddFact
     \<or> (\<exists>f u. cand_rows d c = [f] \<and> f_conflict_group f = None
          \<and> sd_current_fact_ids dec = [f_id f] \<and> parse_timestamp rt (f_valid_from f) = Inr u
          \<and> sd_action dec = (if exact_match c (state_fact_of f) then Dedup
               else if outranks (sc_source_authority c) t (coalesce_authority f) u then Supersede else Conflict)
          \<and> sd_target_fact_id dec = (if sd_action dec = Conflict then None else Some (f_id f)))
     \<or> (\<exists>k \<in> set (db_conflicts d). is_open k
          \<and> (k_scope k, k_subject_key k, k_predicate_key k) = (sc_scope c, sc_subject_key c, sc_predicate_key c)
          \<and> sd_action dec = Conflict \<and> set (sd_current_fact_ids dec) = set (conflict_members d (k_id k))))"
  using inv
proof (rule slot_rows_cases [of d "sc_scope c" "sc_subject_key c" "sc_predicate_key c"])
  assume "cand_rows d c = []"
  then show ?thesis using decide_empty [OF c] by fastforce
next
  fix f assume f: "cand_rows d c = [f]" "f_conflict_group f = None"
  have "f \<in> set (db_facts d)" using slot_rows_mem [of f d] f(1) by (metis list.set_intros(1))
  then obtain u where u: "parse_timestamp rt (f_valid_from f) = Inr u" using times by blast
  show ?thesis
  proof (cases "exact_match c (state_fact_of f)")
    case True
    then show ?thesis using decide_single_dedup [OF c f True, of rt] f u by fastforce
  next
    case False
    then show ?thesis using decide_single_new [OF c f False t u] f u by (fastforce split: if_splits)
  qed
next
  fix k assume ne: "cand_rows d c \<noteq> []" and k: "k \<in> set (db_conflicts d)" "is_open k"
    and slot: "k_scope k = sc_scope c" "k_subject_key k = sc_subject_key c" "k_predicate_key k = sc_predicate_key c"
    and grp: "\<forall>f \<in> set (cand_rows d c). f_conflict_group f = Some (k_id k)"
    and mem: "\<forall>i. i \<in> f_id ` set (cand_rows d c) \<longleftrightarrow> (k_id k, i) \<in> set (db_conflict_members d)"
  have "\<exists>f \<in> set (cand_rows d c). truthy (f_conflict_group f)"
    using ne grp truthy_open_group [OF inv k] by (metis list.set_sel(1))
  then obtain r tgt where
    dec: "decide_state_write rt d c = Inr (mk_slot_decision c Conflict (map f_id (cand_rows d c)) tgt r)"
    using decide_conflicted [OF c ne] by blast
  have "set (map f_id (cand_rows d c)) = set (conflict_members d (k_id k))"
    using mem by (force simp: conflict_members_def)
  then show ?thesis using dec k slot by fastforce
qed

definition demo_candidate :: state_candidate where
  "demo_candidate = \<lparr>sc_content = ''uses vim'', sc_subject_key = ''you'', sc_predicate_key = ''editor'',
     sc_object_value = None, sc_source_authority = 9/10, sc_valid_from = Some ''later'',
     sc_memory_kind = ''state'', sc_scope = ''private''\<rparr>"

lemma demo_candidate_clean: "cand_clean demo_candidate" "sc_memory_kind demo_candidate = ''state''"
  by (simp_all add: demo_candidate_def cand_clean_def demo_clean)

theorem decide_state_write_by_slot_witness:
  "\<exists>dec. decide_state_write demo_runtime demo_db demo_candidate = Inr dec \<and>
    (cand_rows demo_db demo_candidate = [] \<and> sd_action dec = AddFact
     \<or> (\<exists>f u. cand_rows demo_db demo_candidate = [f] \<and> f_conflict_group f = None
          \<and> sd_current_fact_ids dec = [f_id f] \<and> parse_timestamp demo_runtime (f_valid_from f) = Inr u
          \<and> sd_action dec = (if exact_match demo_candidate (state_fact_of f) then Dedup
               else if outranks (sc_source_authority demo_candidate) (Some 5) (coalesce_authority f) u
               then Supersede else Conflict)
          \<and> sd_target_fact_id dec = (if sd_action dec = Conflict then None else Some (f_id f)))
     \<or> (\<exists>k \<in> set (db_conflicts demo_db). is_open k
          \<and> (k_scope k, k_subject_key k, k_predicate_key k)
              = (sc_scope demo_candidate, sc_subject_key demo_candidate, sc_predicate_key demo_candidate)
          \<and> sd_action dec = Conflict \<and> set (sd_current_fact_ids dec) = set (conflict_members demo_db (k_id k))))"
proof (rule decide_state_write_by_slot [OF demo_db_slot_inv demo_candidate_clean(2,1)])
  show "parse_timestamp demo_runtime (sc_valid_from demo_candidate) = Inr (Some 5)" by code_simp
  have "parse_timestamp demo_runtime (Some ''t'') = Inr (Some 1)" by code_simp
  then show "\<forall>f \<in> set (db_facts demo_db). \<exists>u. parse_timestamp demo_runtime (f_valid_from f) = Inr u"
    by (simp add: demo_defs)
qed

text \<open>values do not alternate. When a value supersedes the settled value \<open>f\<close> of its slot, then a
  later write that carries the values of \<open>f\<close> never supersedes it back, whatever else changed.\<close>

theorem supersede_never_reverts:
  assumes "sc_memory_kind c = ''state''" "cand_clean c" "cand_rows d c = [f]" "f_conflict_group f = None"
    and "decide_state_write rt d c = Inr dec" and "sd_action dec = Supersede"
    and "sc_memory_kind c' = ''state''" "cand_clean c'" "cand_rows d' c' = [g]" "f_conflict_group g = None"
    and new: "coalesce_authority g = sc_source_authority c" "f_valid_from g = sc_valid_from c"
    and old: "sc_source_authority c' = coalesce_authority f" "sc_valid_from c' = f_valid_from f"
    and again: "decide_state_write rt d' c' = Inr dec'"
  shows "sd_action dec' \<noteq> Supersede"
proof
  assume sup: "sd_action dec' = Supersede"
  obtain t u where 1: "parse_timestamp rt (sc_valid_from c) = Inr t" "parse_timestamp rt (f_valid_from f) = Inr u"
    "outranks (sc_source_authority c) t (coalesce_authority f) u"
    using decide_supersede_single [OF assms(1-6)] by metis
  obtain t' u' where 2: "parse_timestamp rt (sc_valid_from c') = Inr t'" "parse_timestamp rt (f_valid_from g) = Inr u'"
    "outranks (sc_source_authority c') t' (coalesce_authority g) u'"
    using decide_supersede_single [OF assms(7-10) again sup] by metis
  show False using outranks_asym [OF 1(3)] 1 2 new old by simp
qed

definition demo_superseded_db :: db where
  "demo_superseded_db = demo_db\<lparr>db_fact_seq := 5,
     db_facts := [(demo_state_fact 4 ''uses nano'' ''you'' None)
                    \<lparr>f_invalid_at := Some ''later'', f_superseded_by := Some 5\<rparr>,
                  (demo_state_fact 5 ''uses vim'' ''you'' None)
                    \<lparr>f_source_authority := Some (9/10), f_valid_from := Some ''later''\<rparr>]\<rparr>"

definition demo_old_candidate :: state_candidate where
  "demo_old_candidate = demo_candidate\<lparr>sc_content := ''uses nano'', sc_source_authority := 1/2,
     sc_valid_from := Some ''t''\<rparr>"

theorem supersede_never_reverts_witness:
  "\<exists>dec dec'. decide_state_write demo_runtime demo_db demo_candidate = Inr dec \<and> sd_action dec = Supersede
     \<and> decide_state_write demo_runtime demo_superseded_db demo_old_candidate = Inr dec'
     \<and> sd_action dec' \<noteq> Supersede"
proof -
  let ?dec = "mk_slot_decision demo_candidate Supersede [4] (Some 4) ''higher authority and not older''"
  let ?dec' = "mk_slot_decision demo_old_candidate Conflict [5] None
      ''authority and freshness do not establish a clear winner''"
  have dec: "decide_state_write demo_runtime demo_db demo_candidate = Inr ?dec" "sd_action ?dec = Supersede"
    by code_simp+
  have dec': "decide_state_write demo_runtime demo_superseded_db demo_old_candidate = Inr ?dec'"
    by code_simp
  have rows: "cand_rows demo_db demo_candidate = [demo_state_fact 4 ''uses nano'' ''you'' None]"
    "cand_rows demo_superseded_db demo_old_candidate = [(demo_state_fact 5 ''uses vim'' ''you'' None)
                    \<lparr>f_source_authority := Some (9/10), f_valid_from := Some ''later''\<rparr>]"
    by (simp_all add: slot_rows_def demo_defs demo_superseded_db_def demo_old_candidate_def demo_candidate_def
        in_slot_def is_current_def)
  have clean: "cand_clean demo_old_candidate" "sc_memory_kind demo_old_candidate = ''state''"
    using demo_candidate_clean by (simp_all add: demo_old_candidate_def cand_clean_def)
  have "sd_action ?dec' \<noteq> Supersede"
    by (rule supersede_never_reverts [OF demo_candidate_clean(2,1) rows(1) _ dec clean(2,1) rows(2) _ _ _ _ _ dec'])
      (simp_all add: demo_defs demo_candidate_def demo_old_candidate_def coalesce_authority_def)
  then show ?thesis using dec dec' by blast
qed

end
