(* ===== verification/Core_Store.thy ===== *)
theory Core_Store
  imports Slot_Decision
begin

text \<open>
  \<open>core_store.py\<close>: fact insertion with the validation and the legacy-schema checks, the
  scope predicate that every read goes through, and the reads of facts and of settled
  history. FTS5 ranking and \<open>julianday\<close> are SQLite's: they are arguments of the reads that use
  them.
\<close>

section \<open>Insertion\<close>

definition default_scope :: string where
  "default_scope = ''private''"

definition opt_unit :: "rat option \<Rightarrow> bool" where
  "opt_unit v = (case v of None \<Rightarrow> True | Some q \<Rightarrow> in_unit q)"

text \<open>The modern fields that were given a value the table cannot hold.\<close>

definition unsupported_fields :: "string list \<Rightarrow> (string \<times> bool) list \<Rightarrow> string list" where
  "unsupported_fields available given =
     map fst (filter (\<lambda>(name, present). present \<and> name \<notin> set available) given)"

definition column_value :: "db \<Rightarrow> string \<Rightarrow> 'v \<Rightarrow> 'v \<Rightarrow> 'v" where
  "column_value d name v dflt = (if name \<in> set (db_fact_columns d) then v else dflt)"

text \<open>\<open>clock\<close> is SQLite's \<open>CURRENT_TIMESTAMP\<close>, the default of \<open>created_at\<close> and \<open>updated_at\<close>.\<close>

definition insert_fact ::
  "string \<Rightarrow> string \<Rightarrow> string \<Rightarrow> string \<Rightarrow> rat \<Rightarrow> string option \<Rightarrow> string option \<Rightarrow> string option
     \<Rightarrow> string option \<Rightarrow> rat option \<Rightarrow> rat option \<Rightarrow> string \<Rightarrow> string \<Rightarrow> string option \<Rightarrow> db \<Rightarrow> (db \<times> int) res" where
  "insert_fact clock content category tags trust kind subject predicate object confidence authority
     scope sensitivity valid_from d =
     rbind (py_required content ''content'') (\<lambda>content'.
     rbind (py_required category ''category'') (\<lambda>category'.
     rbind (py_required scope ''scope'') (\<lambda>scope'.
     rbind (py_required sensitivity ''sensitivity'') (\<lambda>sensitivity'.
     rbind (guard_res (in_unit trust) (ValueError ''trust_score must be between 0 and 1'')) (\<lambda>_.
     rbind (guard_res (opt_unit confidence) (ValueError ''confidence must be between 0 and 1'')) (\<lambda>_.
     rbind (guard_res (opt_unit authority) (ValueError ''source_authority must be between 0 and 1'')) (\<lambda>_.
     rbind (guard_res (\<not> (''scope'' \<notin> set (db_fact_columns d) \<and> scope' \<noteq> default_scope))
              (ValueError ''legacy facts schema cannot persist a non-private scope'')) (\<lambda>_.
     let unsupported = unsupported_fields (db_fact_columns d)
           [(''memory_kind'', is_some kind), (''subject_key'', is_some subject),
            (''predicate_key'', is_some predicate), (''object_value'', is_some object),
            (''confidence'', is_some confidence), (''source_authority'', is_some authority),
            (''valid_from'', is_some valid_from)]
     in
     rbind (guard_res (unsupported = [])
              (ValueError (''legacy facts schema cannot persist fields: '' @ py_join '', '' unsupported))) (\<lambda>_.
     sql_insert_fact
       \<lparr>f_id = 0, f_content = content', f_category = column_value d ''category'' category' ''general'',
        f_tags = column_value d ''tags'' tags [],
        f_trust_score = column_value d ''trust_score'' trust (1/2),
        f_retrieval_count = 0, f_helpful_count = 0, f_created_at = clock, f_updated_at = clock,
        f_hrr_vector = None, f_valid_from = column_value d ''valid_from'' valid_from None,
        f_invalid_at = None, f_superseded_by = None,
        f_memory_kind = column_value d ''memory_kind'' kind None,
        f_subject_key = column_value d ''subject_key'' subject None,
        f_predicate_key = column_value d ''predicate_key'' predicate None,
        f_object_value = column_value d ''object_value'' object None, f_object_entity_id = None,
        f_confidence = column_value d ''confidence'' confidence None,
        f_source_authority = column_value d ''source_authority'' authority None,
        f_scope = column_value d ''scope'' scope' default_scope,
        f_sensitivity = column_value d ''sensitivity'' sensitivity' ''normal'',
        f_correction_status = None, f_schema_version = None, f_conflict_group = None\<rparr> d)))))))))"

section \<open>The scope predicate\<close>

text \<open>The SQL text and its parameters, as the predicate on a row's scope that they denote.\<close>

definition build_scope_predicate :: "string list option \<Rightarrow> bool \<Rightarrow> (string \<Rightarrow> bool) res" where
  "build_scope_predicate allowed scope_column_available =
     (case allowed of
        None \<Rightarrow> Inr (\<lambda>_. True)
      | Some given \<Rightarrow>
          rbind (map_res (\<lambda>v. py_required v ''scope'') given) (\<lambda>cleaned.
          let scopes = dict_fromkeys cleaned in
          if scopes = [] then Inr (\<lambda>_. False)
          else if \<not> scope_column_available then Inr (\<lambda>_. default_scope \<in> set scopes)
          else Inr (\<lambda>s. s \<in> set scopes)))"

definition active_predicates :: "db \<Rightarrow> fact \<Rightarrow> bool" where
  "active_predicates d f \<longleftrightarrow>
     (''invalid_at'' \<in> set (db_fact_columns d) \<longrightarrow> f_invalid_at f = None)
     \<and> (''superseded_by'' \<in> set (db_fact_columns d) \<longrightarrow> f_superseded_by f = None)
     \<and> (''conflict_group'' \<in> set (db_fact_columns d) \<longrightarrow> f_conflict_group f = None)"

section \<open>Reads\<close>

definition category_ok :: "string option \<Rightarrow> fact \<Rightarrow> bool" where
  "category_ok category f = (case category of None \<Rightarrow> True | Some c \<Rightarrow> f_category f = c)"

definition active_facts ::
  "string list option \<Rightarrow> string option \<Rightarrow> int \<Rightarrow> db \<Rightarrow> fact list res" where
  "active_facts allowed category limit d =
     (if limit < 1 then Inr []
      else
        rbind (build_scope_predicate allowed (''scope'' \<in> set (db_fact_columns d))) (\<lambda>scope_ok.
        Inr (take (nat limit) (rev (sort_key f_id
               (filter (\<lambda>f. active_predicates d f \<and> scope_ok (f_scope f) \<and> category_ok category f)
                 (db_facts d)))))))"

definition get_active_fact :: "int \<Rightarrow> string list option \<Rightarrow> db \<Rightarrow> fact option res" where
  "get_active_fact fact_id allowed d =
     rbind (build_scope_predicate allowed (''scope'' \<in> set (db_fact_columns d))) (\<lambda>scope_ok.
     Inr (first_row (\<lambda>f. f_id f = fact_id \<and> active_predicates d f \<and> scope_ok (f_scope f)) (db_facts d)))"

text \<open>\<open>rank\<close> is \<open>bm25\<close> of a row for the query, \<open>None\<close> where the row does not match it.\<close>

definition search_fts ::
  "(string \<Rightarrow> fact \<Rightarrow> rat option) \<Rightarrow> string \<Rightarrow> string list option \<Rightarrow> string option \<Rightarrow> rat \<Rightarrow> int
     \<Rightarrow> db \<Rightarrow> (fact \<times> rat) list res" where
  "search_fts rank query allowed category min_trust limit d =
     rbind (py_required query ''query'') (\<lambda>q.
     if limit < 1 then Inr []
     else
       rbind (build_scope_predicate allowed (''scope'' \<in> set (db_fact_columns d))) (\<lambda>scope_ok.
       Inr (take (nat limit) (sort_key (\<lambda>(f, r). (r, - f_id f))
              (concat (map (\<lambda>f. case rank q f of
                   None \<Rightarrow> []
                 | Some r \<Rightarrow> if active_predicates d f \<and> scope_ok (f_scope f) \<and> category_ok category f
                              \<and> min_trust \<le> f_trust_score f then [(f, r)] else []) (db_facts d)))))))"

datatype event_kind = Created | Superseded | Resolved

primrec kind_rank :: "event_kind \<Rightarrow> nat" where
  "kind_rank Created = 0"
| "kind_rank Superseded = 1"
| "kind_rank Resolved = 2"

record fact_event =
  ev_kind :: event_kind
  ev_changed_at :: string
  ev_fact :: fact

definition mk_event :: "event_kind \<Rightarrow> string option \<Rightarrow> fact \<Rightarrow> fact_event list" where
  "mk_event kind changed_at f =
     (case changed_at of None \<Rightarrow> []
      | Some t \<Rightarrow> [\<lparr>ev_kind = kind, ev_changed_at = t, ev_fact = f\<rparr>])"

definition fact_events :: "(string \<Rightarrow> bool) \<Rightarrow> db \<Rightarrow> fact_event list" where
  "fact_events scope_ok d =
     concat (map (\<lambda>f. if scope_ok (f_scope f) \<and> f_conflict_group f = None
                      then mk_event Created (Some (f_created_at f)) f else []) (db_facts d))
     @ concat (map (\<lambda>f. if scope_ok (f_scope f) \<and> f_invalid_at f \<noteq> None \<and> f_superseded_by f \<noteq> None
                        then mk_event Superseded (f_invalid_at f) f else []) (db_facts d))
     @ concat (map (\<lambda>k. case k_resolution_fact_id k of
                          None \<Rightarrow> []
                        | Some i \<Rightarrow>
                            (case fact_by_id d i of
                               None \<Rightarrow> []
                             | Some f \<Rightarrow> if scope_ok (f_scope f) then mk_event Resolved (k_resolved_at k) f
                                         else [])) (db_conflicts d))"

text \<open>\<open>julianday\<close> of a text, \<open>None\<close> (NULL) where SQLite cannot read it as a time: such a row is in
  no window, and sorts first.\<close>

definition in_window ::
  "(string \<Rightarrow> rat option) \<Rightarrow> string option \<Rightarrow> string option \<Rightarrow> string \<Rightarrow> bool" where
  "in_window julianday since until t =
     (case (since, until) of
        (Some a, Some b) \<Rightarrow>
          (case (julianday t, julianday a, julianday b) of
             (Some x, Some lo, Some hi) \<Rightarrow> lo \<le> x \<and> x < hi
           | _ \<Rightarrow> False)
      | _ \<Rightarrow> True)"

definition null_first :: "rat option \<Rightarrow> nat \<times> rat" where
  "null_first x = (case x of None \<Rightarrow> (0, 0) | Some q \<Rightarrow> (1, q))"

definition event_key :: "(string \<Rightarrow> rat option) \<Rightarrow> fact_event \<Rightarrow> (nat \<times> rat) \<times> string \<times> nat \<times> int" where
  "event_key julianday e =
     (null_first (julianday (ev_changed_at e)), ev_changed_at e, kind_rank (ev_kind e), f_id (ev_fact e))"

definition settled_fact_events ::
  "(string \<Rightarrow> rat option) \<Rightarrow> string list option \<Rightarrow> string option \<Rightarrow> string option \<Rightarrow> db \<Rightarrow> fact_event list res" where
  "settled_fact_events julianday allowed since until d =
     rbind (guard_res ((since = None) = (until = None))
              (ValueError ''since and until must be supplied together'')) (\<lambda>_.
     rbind (guard_res (has_columns d [''scope'', ''conflict_group'', ''invalid_at'', ''superseded_by'', ''created_at''])
              (RuntimeError ''fact store does not support settled event projections'')) (\<lambda>_.
     rbind (build_scope_predicate allowed True) (\<lambda>scope_ok.
     Inr (sort_key (event_key julianday)
            (filter (\<lambda>e. in_window julianday since until (ev_changed_at e)) (fact_events scope_ok d))))))"

definition historical_facts_by_id :: "int list \<Rightarrow> string list option \<Rightarrow> db \<Rightarrow> fact list res" where
  "historical_facts_by_id ids allowed d =
     (if dict_fromkeys ids = [] then Inr []
      else
        rbind (build_scope_predicate allowed (''scope'' \<in> set (db_fact_columns d))) (\<lambda>scope_ok.
        Inr (sort_key f_id (filter (\<lambda>f. f_id f \<in> set ids \<and> scope_ok (f_scope f)) (db_facts d)))))"

section \<open>Entities\<close>

record entity_row =
  n_id :: int
  n_name :: string
  n_entity_type :: string
  n_aliases :: string

text \<open>The entity table and its \<open>AUTOINCREMENT\<close> sequence. \<open>COLLATE NOCASE\<close> folds ASCII letters.\<close>

definition nocase :: "string \<Rightarrow> string" where
  "nocase s = map (\<lambda>c. if is_upper_az c then char_of (of_char c + 32 :: nat) else c) s"

definition resolve_entity ::
  "string \<Rightarrow> string \<Rightarrow> string \<Rightarrow> int \<times> entity_row list \<Rightarrow> (int \<times> (int \<times> entity_row list)) res" where
  "resolve_entity name entity_type aliases = (\<lambda>(seq, rows).
     rbind (py_required name ''name'') (\<lambda>name'.
     case sort_key n_id (filter (\<lambda>e. nocase (n_name e) = nocase name') rows) of
       e # _ \<Rightarrow> Inr (n_id e, (seq, rows))
     | [] \<Rightarrow> Inr (seq + 1, (seq + 1, rows @ [\<lparr>n_id = seq + 1, n_name = name',
                 n_entity_type = entity_type, n_aliases = aliases\<rparr>]))))"

definition link_fact_entities :: "int \<Rightarrow> int list \<Rightarrow> (int \<times> int) list \<Rightarrow> (int \<times> int) list" where
  "link_fact_entities fact_id entity_ids links =
     fold (\<lambda>e ls. if (fact_id, e) \<in> set ls then ls else ls @ [(fact_id, e)]) entity_ids links"

section \<open>The laws\<close>

lemma build_scope_predicate_Some:
  assumes "build_scope_predicate (Some allowed) True = Inr ok" and "ok s"
  shows "s \<in> set (map py_strip allowed)"
proof -
  from assms(1) obtain cleaned where
    c: "map_res (\<lambda>v. py_required v ''scope'') allowed = Inr cleaned"
    and ok: "ok = (\<lambda>s. s \<in> set cleaned) \<or> ok = (\<lambda>_. False)"
    by (auto simp: build_scope_predicate_def rbind_eq_Inr Let_def set_dict_fromkeys split: if_splits)
  have "list_all2 (\<lambda>x y. y = py_strip x) allowed cleaned"
    using c unfolding map_res_Inr_iff by (rule list_all2_mono) (auto dest: py_required_Inr)
  then have "cleaned = map py_strip allowed" by (induction rule: list_all2_induct) auto
  then show ?thesis using assms(2) ok by auto
qed

text \<open>What \<open>insert_fact\<close> puts into the store on every successful call.\<close>

lemma insert_fact_Inr:
  assumes "insert_fact clock content category tags trust kind subject predicate object confidence
      authority scope sensitivity valid_from d = Inr (d', i)"
  obtains f where "sql_insert_fact f d = Inr (d', i)"
    "f_content f = py_strip content" "f_content f \<noteq> []"
    "f_scope f = py_strip scope" "f_invalid_at f = None" "f_superseded_by f = None"
    "f_conflict_group f = None" "f_memory_kind f = kind" "f_subject_key f = subject"
    "f_predicate_key f = predicate" "f_object_value f = object" "f_source_authority f = authority"
    "f_correction_status f = None"
proof -
  from assms obtain content' category' scope' sensitivity' where
    r: "py_required content ''content'' = Inr content'" "py_required scope ''scope'' = Inr scope'"
    and sc: "''scope'' \<notin> set (db_fact_columns d) \<longrightarrow> scope' = default_scope"
    and u: "unsupported_fields (db_fact_columns d)
           [(''memory_kind'', is_some kind), (''subject_key'', is_some subject),
            (''predicate_key'', is_some predicate), (''object_value'', is_some object),
            (''confidence'', is_some confidence), (''source_authority'', is_some authority),
            (''valid_from'', is_some valid_from)] = []"
    and ins: "sql_insert_fact
       \<lparr>f_id = 0, f_content = content', f_category = column_value d ''category'' category' ''general'',
        f_tags = column_value d ''tags'' tags [],
        f_trust_score = column_value d ''trust_score'' trust (1/2),
        f_retrieval_count = 0, f_helpful_count = 0, f_created_at = clock, f_updated_at = clock,
        f_hrr_vector = None, f_valid_from = column_value d ''valid_from'' valid_from None,
        f_invalid_at = None, f_superseded_by = None,
        f_memory_kind = column_value d ''memory_kind'' kind None,
        f_subject_key = column_value d ''subject_key'' subject None,
        f_predicate_key = column_value d ''predicate_key'' predicate None,
        f_object_value = column_value d ''object_value'' object None, f_object_entity_id = None,
        f_confidence = column_value d ''confidence'' confidence None,
        f_source_authority = column_value d ''source_authority'' authority None,
        f_scope = column_value d ''scope'' scope' default_scope,
        f_sensitivity = column_value d ''sensitivity'' sensitivity' ''normal'',
        f_correction_status = None, f_schema_version = None, f_conflict_group = None\<rparr> d = Inr (d', i)"
    unfolding insert_fact_def rbind_eq_Inr Let_def guard_res_Inr by blast
  have cols: "column_value d ''memory_kind'' kind None = kind" "column_value d ''subject_key'' subject None = subject"
    "column_value d ''predicate_key'' predicate None = predicate"
    "column_value d ''object_value'' object None = object"
    "column_value d ''source_authority'' authority None = authority"
    "column_value d ''scope'' scope' default_scope = scope'"
    using u sc by (auto simp: unsupported_fields_def column_value_def is_some_def split: if_splits)
  show thesis
    by (rule that [OF ins]) (use cols py_required_Inr [OF r(1)] py_required_Inr [OF r(2)] in auto)
qed

section \<open>The claims\<close>

lemma active_predicates_v1:
  "db_fact_columns d = v1_fact_columns \<Longrightarrow> active_predicates d f \<longleftrightarrow> is_current f \<and> f_conflict_group f = None"
  by (auto simp: active_predicates_def v1_fact_columns_def is_current_def)

lemma v1_scope_column: "db_fact_columns d = v1_fact_columns \<Longrightarrow> ''scope'' \<in> set (db_fact_columns d)"
  by (simp add: v1_fact_columns_def)

lemma fact_events_scope: "e \<in> set (fact_events ok d) \<Longrightarrow> ok (f_scope (ev_fact e))"
  by (auto simp: fact_events_def mk_event_def split: if_splits option.splits)

text \<open>C31: no read of the fact store leaves the caller's scopes. Whatever a listing, a lookup by id, a
  text search, the settled history or a lookup of historical rows returns to a caller limited to
  \<open>allowed\<close> lies in one of these scopes; the first three return only current facts outside
  every open conflict.\<close>

theorem reads_stay_in_scope:
  assumes cols: "db_fact_columns d = v1_fact_columns"
  shows "(active_facts (Some allowed) category limit d = Inr fs \<longrightarrow>
        (\<forall>f \<in> set fs. f_scope f \<in> set (map py_strip allowed) \<and> is_current f \<and> f_conflict_group f = None))
    \<and> (get_active_fact i (Some allowed) d = Inr (Some g) \<longrightarrow>
        f_id g = i \<and> f_scope g \<in> set (map py_strip allowed) \<and> is_current g \<and> f_conflict_group g = None)
    \<and> (search_fts rank query (Some allowed) category min_trust limit d = Inr hits \<longrightarrow>
        (\<forall>(f, r) \<in> set hits. f_scope f \<in> set (map py_strip allowed) \<and> is_current f \<and> f_conflict_group f = None))
    \<and> (settled_fact_events jd (Some allowed) since until d = Inr es \<longrightarrow>
        (\<forall>e \<in> set es. f_scope (ev_fact e) \<in> set (map py_strip allowed)))
    \<and> (historical_facts_by_id ids (Some allowed) d = Inr hs \<longrightarrow>
        (\<forall>f \<in> set hs. f_scope f \<in> set (map py_strip allowed)))"
proof (intro conjI impI)
  note sc = v1_scope_column [OF cols] and act = active_predicates_v1 [OF cols]
  assume "active_facts (Some allowed) category limit d = Inr fs"
  then show "\<forall>f \<in> set fs. f_scope f \<in> set (map py_strip allowed) \<and> is_current f \<and> f_conflict_group f = None"
    using sc by (auto simp: active_facts_def rbind_eq_Inr act dest!: in_set_takeD build_scope_predicate_Some
        split: if_splits)
next
  note sc = v1_scope_column [OF cols] and act = active_predicates_v1 [OF cols]
  assume "get_active_fact i (Some allowed) d = Inr (Some g)"
  then obtain ok where ok: "build_scope_predicate (Some allowed) True = Inr ok"
    and g: "first_row (\<lambda>f. f_id f = i \<and> active_predicates d f \<and> ok (f_scope f)) (db_facts d) = Some g"
    using sc by (auto simp: get_active_fact_def rbind_eq_Inr)
  show "f_id g = i" "is_current g" "f_conflict_group g = None" "f_scope g \<in> set (map py_strip allowed)"
    using first_row_Some [OF g] build_scope_predicate_Some [OF ok] by (simp_all add: act)
next
  note sc = v1_scope_column [OF cols] and act = active_predicates_v1 [OF cols]
  assume "search_fts rank query (Some allowed) category min_trust limit d = Inr hits"
  then show "\<forall>(f, r) \<in> set hits. f_scope f \<in> set (map py_strip allowed) \<and> is_current f \<and> f_conflict_group f = None"
    using sc by (auto simp: search_fts_def rbind_eq_Inr act dest!: in_set_takeD build_scope_predicate_Some
        split: if_splits option.splits)
next
  assume "settled_fact_events jd (Some allowed) since until d = Inr es"
  then show "\<forall>e \<in> set es. f_scope (ev_fact e) \<in> set (map py_strip allowed)"
    by (auto simp: settled_fact_events_def rbind_eq_Inr dest!: fact_events_scope build_scope_predicate_Some)
next
  note sc = v1_scope_column [OF cols]
  assume "historical_facts_by_id ids (Some allowed) d = Inr hs"
  then show "\<forall>f \<in> set hs. f_scope f \<in> set (map py_strip allowed)"
    using sc by (auto simp: historical_facts_by_id_def rbind_eq_Inr dest!: build_scope_predicate_Some split: if_splits)
qed

theorem reads_stay_in_scope_witness:
  "get_active_fact 4 (Some ['' private '']) demo_db = Inr (Some (demo_state_fact 4 ''uses nano'' ''you'' None))
    \<and> f_scope (demo_state_fact 4 ''uses nano'' ''you'' None) \<in> set (map py_strip ['' private ''])"
proof -
  have cols: "db_fact_columns demo_db = v1_fact_columns" by (simp add: demo_defs)
  have get: "get_active_fact 4 (Some ['' private '']) demo_db = Inr (Some (demo_state_fact 4 ''uses nano'' ''you'' None))"
    by code_simp
  show ?thesis using reads_stay_in_scope [OF cols] get by blast
qed

text \<open>the settled history never shows the creation of a member of an open conflict, shows events
  in time order, and with a window shows nothing outside it.\<close>

theorem settled_events_sound:
  assumes ok: "settled_fact_events jd allowed since until d = Inr es" and e: "e \<in> set es"
  shows "sorted (map (event_key jd) es)
    \<and> (ev_kind e = Created \<longrightarrow> f_conflict_group (ev_fact e) = None)
    \<and> (ev_kind e = Superseded \<longrightarrow> \<not> is_current (ev_fact e))
    \<and> (\<forall>lo hi. since = Some lo \<longrightarrow> until = Some hi \<longrightarrow>
         (\<exists>x a b. jd (ev_changed_at e) = Some x \<and> jd lo = Some a \<and> jd hi = Some b \<and> a \<le> x \<and> x < b))"
proof -
  obtain sc where es: "es = sort_key (event_key jd)
        (filter (\<lambda>e. in_window jd since until (ev_changed_at e)) (fact_events sc d))"
    using ok by (auto simp: settled_fact_events_def rbind_eq_Inr)
  have mem: "e \<in> set (fact_events sc d)" "in_window jd since until (ev_changed_at e)" using e es by auto
  have "sorted (map (event_key jd) es)" by (simp add: es)
  moreover have "ev_kind e = Created \<longrightarrow> f_conflict_group (ev_fact e) = None"
    and "ev_kind e = Superseded \<longrightarrow> \<not> is_current (ev_fact e)"
    using mem(1) by (auto simp: fact_events_def mk_event_def is_current_def split: if_splits option.splits)
  moreover have "\<exists>x a b. jd (ev_changed_at e) = Some x \<and> jd lo = Some a \<and> jd hi = Some b \<and> a \<le> x \<and> x < b"
    if "since = Some lo" "until = Some hi" for lo hi
    using mem(2) that by (auto simp: in_window_def split: option.splits)
  ultimately show ?thesis by blast
qed

definition demo_julianday :: "string \<Rightarrow> rat option" where
  "demo_julianday s = Some (of_nat (length s))"

definition demo_event :: fact_event where
  "demo_event = \<lparr>ev_kind = Created, ev_changed_at = ''t'', ev_fact = demo_fact 3 ''likes tea''\<rparr>"

definition demo_event2 :: fact_event where
  "demo_event2 = \<lparr>ev_kind = Created, ev_changed_at = ''t'',
     ev_fact = demo_state_fact 4 ''uses nano'' ''you'' None\<rparr>"

theorem settled_events_sound_witness:
  "settled_fact_events demo_julianday None (Some []) (Some ''zz'') demo_db = Inr [demo_event, demo_event2]
    \<and> f_conflict_group (ev_fact demo_event) = None"
proof -
  have ok: "settled_fact_events demo_julianday None (Some []) (Some ''zz'') demo_db = Inr [demo_event, demo_event2]"
    by code_simp
  show ?thesis using settled_events_sound [OF ok, of demo_event] ok by (simp add: demo_event_def)
qed

end
