(* ===== verification/Near_Dedup.thy ===== *)
theory Near_Dedup
  imports Core_Store
begin

text \<open>
  The write-time half of \<open>cluster_merge.py\<close>: the tokens of a text, the textual signals that
  block a merge, and the search for near duplicates. FTS5 matching and numpy's vectors are
  arguments (\<open>near_lib\<close>): the rowids that match a query in \<open>bm25\<close> order, the size, finiteness,
  norm and dot product of vectors, and \<open>frombuffer\<close>. Scores are exact rationals; rounding of
  floats is not modelled.
\<close>

section \<open>Tokens\<close>

definition token_char :: "char \<Rightarrow> bool" where
  "token_char c \<longleftrightarrow> is_lower_az c \<or> is_digit09 c"

fun find_tokens :: "string \<Rightarrow> string \<Rightarrow> string list" where
  "find_tokens cur [] = (if cur = [] then [] else [rev cur])"
| "find_tokens cur (c # s) =
     (if token_char c then find_tokens (c # cur) s
      else if cur = [] then find_tokens [] s
      else rev cur # find_tokens [] s)"

definition tokens :: "string \<Rightarrow> string list" where
  "tokens content = find_tokens [] (py_lower content)"

definition negation_words :: "string list" where
  "negation_words = [''not'', ''no'', ''never'', ''without'']"

definition date_words :: "string list" where
  "date_words =
     [''january'', ''february'', ''march'', ''april'', ''may'', ''june'', ''july'', ''august'',
      ''september'', ''october'', ''november'', ''december'', ''monday'', ''tuesday'',
      ''wednesday'', ''thursday'', ''friday'', ''saturday'', ''sunday'', ''today'', ''tomorrow'',
      ''yesterday'']"

definition state_words :: "string list" where
  "state_words =
     [''enabled'', ''disabled'', ''active'', ''inactive'', ''archived'', ''on'', ''off'', ''open'',
      ''closed'', ''paused'', ''resumed'', ''up'', ''down'', ''alive'', ''dead'', ''started'',
      ''stopped'', ''pending'', ''running'', ''completed'', ''failed'', ''succeeded'', ''deployed'',
      ''undeployed'', ''installed'', ''uninstalled'', ''available'', ''unavailable'', ''approved'',
      ''rejected'', ''accepted'', ''denied'']"

definition value_tokens :: "string \<Rightarrow> string list" where
  "value_tokens content =
     filter (\<lambda>t. list_ex is_digit09 t \<or> t \<in> set date_words) (tokens content)"

text \<open>The loop over the token positions that discards \<open>on\<close> and \<open>off\<close> used as prepositions.\<close>

fun discard_prepositions :: "string option \<Rightarrow> string list \<Rightarrow> string set \<Rightarrow> string set" where
  "discard_prepositions prev [] states = states"
| "discard_prepositions prev (t # ts) states =
     discard_prepositions (Some t) ts
       (if t \<in> {''on'', ''off''} \<and> (case prev of None \<Rightarrow> True
             | Some p \<Rightarrow> p \<notin> {''is'', ''was'', ''turned'', ''set''})
        then states - {t} else states)"

definition state_tokens :: "string \<Rightarrow> string set" where
  "state_tokens content =
     discard_prepositions None (tokens content) (set (tokens content) \<inter> set state_words)"

definition has_negation :: "string \<Rightarrow> bool" where
  "has_negation content \<longleftrightarrow> set (tokens content) \<inter> set negation_words \<noteq> {}"

definition safe_to_merge_near_duplicate :: "string \<Rightarrow> string \<Rightarrow> bool" where
  "safe_to_merge_near_duplicate content other \<longleftrightarrow>
     (if value_tokens content \<noteq> value_tokens other then False
      else if has_negation content \<noteq> has_negation other then False
      else state_tokens content = state_tokens other)"

section \<open>Search\<close>

record near_duplicate_candidate =
  nd_fact_id :: int
  nd_trust_score :: rat
  nd_created_at :: string
  nd_cosine :: rat

record 'v near_lib =
  nl_match :: "db \<Rightarrow> string \<Rightarrow> int list option"
  nl_size :: "'v \<Rightarrow> int"
  nl_finite :: "'v \<Rightarrow> bool"
  nl_norm :: "'v \<Rightarrow> rat"
  nl_dot :: "'v \<Rightarrow> 'v \<Rightarrow> rat"
  nl_frombuffer :: "string \<Rightarrow> 'v"

definition match_query :: "string list \<Rightarrow> string" where
  "match_query terms = py_join '' OR '' (map (\<lambda>t. [CHR 0x22] @ t @ [CHR 0x22]) terms)"

text \<open>The joined rows of one FTS hit that pass the \<open>WHERE\<close> clause.\<close>

definition near_rows :: "db \<Rightarrow> string \<Rightarrow> string option \<Rightarrow> int \<Rightarrow> (fact \<times> embedding_row) list" where
  "near_rows d scope identity i =
     concat (map (\<lambda>f. map (Pair f) (filter (\<lambda>e. e_fact_id e = f_id f
                   \<and> (case identity of None \<Rightarrow> True | Some n \<Rightarrow> e_identity e = n)) (db_embeddings d)))
       (filter (\<lambda>f. f_id f = i \<and> f_scope f = scope \<and> is_current f \<and> f_conflict_group f = None)
         (db_facts d)))"

definition near_match ::
  "'v near_lib \<Rightarrow> string \<Rightarrow> 'v \<Rightarrow> rat \<Rightarrow> fact \<times> embedding_row \<Rightarrow> near_duplicate_candidate list" where
  "near_match nl content vector threshold = (\<lambda>(f, e).
     if e_dim e \<noteq> nl_size nl vector \<or> \<not> safe_to_merge_near_duplicate content (f_content f) then []
     else
       let stored = nl_frombuffer nl (e_embedding e) in
       if nl_size nl stored \<noteq> nl_size nl vector then []
       else if nl_norm nl stored = 0 then []
       else
         let cosine = nl_dot nl vector stored / (nl_norm nl vector * nl_norm nl stored) in
         if threshold \<le> cosine
         then [\<lparr>nd_fact_id = f_id f, nd_trust_score = f_trust_score f,
                nd_created_at = f_created_at f, nd_cosine = cosine\<rparr>]
         else [])"

definition find_write_near_duplicates ::
  "'v near_lib \<Rightarrow> string \<Rightarrow> string \<Rightarrow> 'v \<Rightarrow> rat \<Rightarrow> int \<Rightarrow> string option \<Rightarrow> db
     \<Rightarrow> near_duplicate_candidate list res" where
  "find_write_near_duplicates nl content scope vector threshold limit identity d =
     (let terms = dict_fromkeys (tokens content) in
      if terms = [] \<or> nl_size nl vector = 0 \<or> \<not> nl_finite nl vector then Inr []
      else if limit \<le> 0 \<or> \<not> in_unit threshold
        then Inl (ValueError ''near-duplicate search configuration is invalid'')
      else (case nl_match nl d (match_query terms) of
          None \<Rightarrow> Inr []
        | Some ids \<Rightarrow>
            let rows = take (nat limit) (concat (map (near_rows d scope identity) ids)) in
            if nl_norm nl vector = 0 then Inr []
            else Inr (concat (map (near_match nl content vector threshold) rows))))"

section \<open>What the search returns\<close>

lemma near_match_Some:
  "c \<in> set (near_match nl content v thr (f, e)) \<Longrightarrow>
     nd_fact_id c = f_id f \<and> nd_trust_score c = f_trust_score f \<and> thr \<le> nd_cosine c
     \<and> safe_to_merge_near_duplicate content (f_content f)"
  by (auto simp: near_match_def Let_def split: if_splits)

lemma find_write_near_duplicates_mem:
  assumes "find_write_near_duplicates nl content scope v thr limit identity d = Inr cs" and "c \<in> set cs"
  obtains f where "f \<in> set (db_facts d)" "f_id f = nd_fact_id c" "f_scope f = scope" "is_current f"
    "f_conflict_group f = None" "safe_to_merge_near_duplicate content (f_content f)" "thr \<le> nd_cosine c"
proof -
  from assms obtain f e ids where m: "(f, e) \<in> set (take (nat limit) (concat (map (near_rows d scope identity) ids)))"
    and c: "c \<in> set (near_match nl content v thr (f, e))"
    by (auto simp: find_write_near_duplicates_def Let_def split: if_splits option.splits)
  from in_set_takeD [OF m] have "f \<in> set (db_facts d)" "f_scope f = scope" "is_current f" "f_conflict_group f = None"
    by (auto simp: near_rows_def)
  with near_match_Some [OF c] show thesis by (intro that) auto
qed

text \<open>write-time near duplicates are only ever sought among current, unconflicted facts of the
  request's scope, and never across texts that differ in a number, a date, a negation or a
  lifecycle word, whatever the embeddings say.\<close>

theorem near_duplicates_safe:
  assumes "find_write_near_duplicates nl content scope v thr limit identity d = Inr cs" and "c \<in> set cs"
  shows "\<exists>f \<in> set (db_facts d). f_id f = nd_fact_id c \<and> f_scope f = scope \<and> is_current f
    \<and> f_conflict_group f = None \<and> thr \<le> nd_cosine c
    \<and> value_tokens (f_content f) = value_tokens content
    \<and> has_negation (f_content f) = has_negation content
    \<and> state_tokens (f_content f) = state_tokens content"
  using assms by (rule find_write_near_duplicates_mem)
    (auto simp: safe_to_merge_near_duplicate_def split: if_splits)

definition demo_near_lib :: "string near_lib" where
  "demo_near_lib = \<lparr>nl_match = (\<lambda>d q. Some [3]), nl_size = (\<lambda>v. int (length v)), nl_finite = (\<lambda>v. True),
     nl_norm = (\<lambda>v. 1), nl_dot = (\<lambda>u v. if u = v then 1 else 0), nl_frombuffer = (\<lambda>s. s)\<rparr>"

definition demo_embedded_db :: db where
  "demo_embedded_db = demo_db\<lparr>db_embeddings := [\<lparr>e_fact_id = 3, e_embedding = ''vv'', e_dim = 2,
     e_identity = ''m''\<rparr>]\<rparr>"

definition demo_near :: near_duplicate_candidate where
  "demo_near = \<lparr>nd_fact_id = 3, nd_trust_score = 1/2, nd_created_at = ''t'', nd_cosine = 1\<rparr>"

lemma demo_near_found:
  "find_write_near_duplicates demo_near_lib ''likes the tea'' ''private'' ''vv'' (97/100) 64 (Some ''m'') demo_embedded_db
    = Inr [demo_near]"
  by code_simp

theorem near_duplicates_safe_witness:
  "\<exists>f \<in> set (db_facts demo_embedded_db). f_id f = nd_fact_id demo_near \<and> f_scope f = ''private'' \<and> is_current f
    \<and> f_conflict_group f = None \<and> 97/100 \<le> nd_cosine demo_near
    \<and> value_tokens (f_content f) = value_tokens ''likes the tea''
    \<and> has_negation (f_content f) = has_negation ''likes the tea''
    \<and> state_tokens (f_content f) = state_tokens ''likes the tea''"
  by (rule near_duplicates_safe [OF demo_near_found]) simp

end
