(* ===== verification/Write_Service.thy ===== *)
theory Write_Service
  imports Near_Dedup
begin

text \<open>
  \<open>write_service.py\<close>: the transactional write envelope. One definition per method; \<open>write_txn\<close>
  is the body of the \<open>BEGIN IMMEDIATE\<close> transaction of \<open>write\<close>, and \<open>memory_write\<close> adds the
  authorisation before it and the rollback on every exception.

  What the code obtains from outside is in \<open>write_env\<close>: the policy, the wall clock, SQLite's
  clock, the next UUIDs, the near-dedup configuration with its query embedder, and the optional
  embedding outbox. The fact writer is an argument, as in the constructor of the class.
\<close>

section \<open>Values\<close>

record fact_write_result =
  fw_fact_id :: int
  fw_outcome :: string
  fw_existing_fact_id :: "int option"
  fw_detail :: "(string \<times> json) list"

text \<open>\<open>FactWriteResult.__post_init__\<close>. \<open>detail_json\<close> is the object it denotes.\<close>

definition fact_write_result_init ::
  "int \<Rightarrow> string \<Rightarrow> int option \<Rightarrow> (string \<times> json) list \<Rightarrow> fact_write_result res" where
  "fact_write_result_init fid oc existing detail =
     (if fid \<le> 0 then Inl (ValueError ''fact_id must be positive'')
      else if \<not> positive_opt existing then Inl (ValueError ''existing_fact_id must be positive'')
      else Inr \<lparr>fw_fact_id = fid, fw_outcome = oc, fw_existing_fact_id = existing, fw_detail = detail\<rparr>)"

type_synonym fact_writer_fn = "write_request \<Rightarrow> int \<Rightarrow> db \<Rightarrow> (fact_write_result \<times> db) res"

record near_dedup_config =
  ndc_enabled :: bool
  ndc_cosine_threshold :: rat
  ndc_candidate_limit :: int
  ndc_embedding_identity :: "string option"

definition near_dedup_config_init :: "near_dedup_config \<Rightarrow> near_dedup_config res" where
  "near_dedup_config_init c =
     (if \<not> in_unit (ndc_cosine_threshold c)
        then Inl (ValueError ''near dedup cosine threshold must be between 0 and 1'')
      else if ndc_candidate_limit c \<le> 0
        then Inl (ValueError ''near dedup candidate limit must be positive'')
      else if (case ndc_embedding_identity c of None \<Rightarrow> False | Some n \<Rightarrow> py_strip n = [])
        then Inl (ValueError ''near dedup embedding identity must be non-empty'')
      else Inr c)"

record 'v write_env =
  we_runtime :: runtime
  we_policy :: memory_policy
  we_now :: string
  we_clock :: string
  we_write_id :: string
  we_conflict_id :: string
  we_near :: near_dedup_config
  we_near_lib :: "'v near_lib"
  we_query_embedder :: "(string \<Rightarrow> 'v res) option"
  we_embedding_enqueue :: "(int \<Rightarrow> db \<Rightarrow> db res) option"

section \<open>Hashes\<close>

definition request_json :: "write_request \<Rightarrow> json" where
  "request_json w = JObj
     [(''idempotency_key'', JStr (wr_idempotency_key w)), (''content'', JStr (wr_content w)),
      (''source_type'', JStr (wr_source_type w)), (''category'', JStr (wr_category w)),
      (''tags'', JStr (wr_tags w)), (''trust_score'', JNum (wr_trust_score w)),
      (''source_authority'', JNum (wr_source_authority w)), (''source_uri'', jopt (wr_source_uri w)),
      (''observation_content'', jopt (wr_observation_content w)),
      (''asserted_by'', jopt (wr_asserted_by w)), (''performed_by'', jopt (wr_performed_by w)),
      (''observed_at'', jopt (wr_observed_at w)), (''scope'', JStr (wr_scope w)),
      (''sensitivity'', JStr (wr_sensitivity w)),
      (''correction_status'', jopt (wr_correction_status w)),
      (''evidence_excerpt'', jopt (wr_evidence_excerpt w)), (''relation'', JStr (wr_relation w)),
      (''metadata_json'', JStr (wr_metadata_json w)),
      (''supersede_fact_id'', (case wr_supersede_fact_id w of None \<Rightarrow> JNull | Some i \<Rightarrow> JInt i)),
      (''operation'', JStr (wr_operation w))]"

definition candidate_json :: "state_candidate option \<Rightarrow> json" where
  "candidate_json cand =
     (case cand of None \<Rightarrow> JNull
      | Some c \<Rightarrow> JObj
         [(''content'', JStr (sc_content c)), (''subject_key'', JStr (sc_subject_key c)),
          (''predicate_key'', JStr (sc_predicate_key c)), (''object_value'', jopt (sc_object_value c)),
          (''source_authority'', JNum (sc_source_authority c)), (''valid_from'', jopt (sc_valid_from c)),
          (''memory_kind'', JStr (sc_memory_kind c)), (''scope'', JStr (sc_scope c))])"

definition request_sha256 ::
  "runtime \<Rightarrow> connection_context \<Rightarrow> write_request \<Rightarrow> state_candidate option \<Rightarrow> string" where
  "request_sha256 rt ctx req cand =
     rt_sha256 rt (json_dumps (rt_float_repr rt) canonical_unicode (JObj
       [(''client_id'', JStr (cc_client_id ctx)), (''session_id'', JStr (cc_session_id ctx)),
        (''request'', request_json req), (''state_candidate'', candidate_json cand)]))"

definition observed_content :: "write_request \<Rightarrow> string" where
  "observed_content req = or_else (wr_observation_content req) (wr_content req)"

definition observation_sha256 :: "runtime \<Rightarrow> connection_context \<Rightarrow> write_request \<Rightarrow> string" where
  "observation_sha256 rt ctx req =
     rt_sha256 rt (json_dumps (rt_float_repr rt) canonical_unicode (JObj
       [(''content'', JStr (observed_content req)), (''source_type'', JStr (wr_source_type req)),
        (''source_uri'', jopt (wr_source_uri req)), (''asserted_by'', jopt (wr_asserted_by req)),
        (''performed_by'', jopt (wr_performed_by req)), (''observed_at'', jopt (wr_observed_at req)),
        (''scope'', JStr (wr_scope req)), (''sensitivity'', JStr (wr_sensitivity req)),
        (''metadata_json'', JStr (wr_metadata_json req)),
        (''project_root'', jopt (cc_project_root ctx)), (''repository'', jopt (cc_repository ctx)),
        (''branch'', jopt (cc_branch ctx)), (''commit_sha'', jopt (cc_commit_sha ctx))]))"

section \<open>Validation, registration and replay\<close>

definition validate_state_candidate :: "write_request \<Rightarrow> state_candidate option \<Rightarrow> unit res" where
  "validate_state_candidate req cand =
     (case cand of
        None \<Rightarrow> Inr ()
      | Some c \<Rightarrow>
          if sc_memory_kind c \<noteq> ''state''
            then Inl (ValueError (''state_candidate must have memory_kind='' @ [CHR 0x27] @ ''state'' @ [CHR 0x27]))
          else if sc_content c \<noteq> wr_content req
            then Inl (ValueError ''state candidate content must match the write request'')
          else if sc_scope c \<noteq> wr_scope req
            then Inl (ValueError ''state candidate scope must match the write request'')
          else if sc_source_authority c \<noteq> wr_source_authority req
            then Inl (ValueError ''state candidate authority must match the write request'')
          else if wr_supersede_fact_id req \<noteq> None
            then Inl (ValueError ''typed state writes derive supersession from the exact slot'')
          else Inr ())"

definition register_client :: "connection_context \<Rightarrow> string \<Rightarrow> db \<Rightarrow> db res" where
  "register_client ctx now d =
     (let d1 = insert_client_or_ignore
            \<lparr>c_id = cc_client_id ctx, c_surface = cc_surface ctx, c_display_name = cc_display_name ctx,
             c_created_at = now, c_disabled_at = None\<rparr> d
      in case first_row (\<lambda>c. c_id c = cc_client_id ctx) (db_clients d1) of
           None \<Rightarrow> Inl (RuntimeError ''failed to register memory client'')
         | Some c \<Rightarrow>
             if c_surface c \<noteq> cc_surface ctx
               then Inl (ClientIdentityConflict ''client_id is already registered to a different surface'')
             else if c_disabled_at c \<noteq> None then Inl (PermissionError ''memory client is disabled'')
             else Inr d1)"

definition string_array_json :: "runtime \<Rightarrow> string list \<Rightarrow> string" where
  "string_array_json rt xs = json_dumps (rt_float_repr rt) compact_ascii (JArr (map JStr xs))"

definition register_session :: "runtime \<Rightarrow> connection_context \<Rightarrow> string \<Rightarrow> db \<Rightarrow> db res" where
  "register_session rt ctx now d =
     (let caps = string_array_json rt (cc_capabilities ctx);
          scopes = string_array_json rt (cc_access_scopes ctx)
      in rbind (insert_session_or_ignore
            \<lparr>s_id = cc_session_id ctx, s_client_id = cc_client_id ctx, s_agent_id = cc_agent_id ctx,
             s_parent_agent_id = cc_parent_agent_id ctx, s_project_root = cc_project_root ctx,
             s_repository = cc_repository ctx, s_branch = cc_branch ctx, s_commit_sha = cc_commit_sha ctx,
             s_capabilities_json = caps, s_access_scopes_json = scopes,
             s_started_at = Some (or_else (cc_started_at ctx) now), s_ended_at = None\<rparr> d) (\<lambda>d1.
         let d2 = d1\<lparr>db_sessions := update_where
               (\<lambda>s. s_client_id s = cc_client_id ctx \<and> s_id s = cc_session_id ctx)
               (\<lambda>s. s\<lparr>s_branch := cc_branch ctx, s_commit_sha := cc_commit_sha ctx\<rparr>) (db_sessions d1)\<rparr>
         in case first_row (\<lambda>s. s_client_id s = cc_client_id ctx \<and> s_id s = cc_session_id ctx) (db_sessions d2) of
              None \<Rightarrow> Inl (SessionContextConflict
                        ''client_id/session_id was reused with different connection context'')
            | Some s \<Rightarrow>
                if (s_agent_id s, s_parent_agent_id s, s_project_root s, s_repository s,
                    s_capabilities_json s, s_access_scopes_json s)
                   \<noteq> (cc_agent_id ctx, cc_parent_agent_id ctx, cc_project_root ctx, cc_repository ctx, caps, scopes)
                then Inl (SessionContextConflict
                        ''client_id/session_id was reused with different connection context'')
                else Inr d2))"

definition load_prior :: "string \<Rightarrow> string \<Rightarrow> db \<Rightarrow> write_log_row option" where
  "load_prior client key d =
     first_row (\<lambda>l. l_client_id l = client \<and> l_idempotency_key l = key) (db_write_log d)"

definition outcome_from_row :: "write_log_row \<Rightarrow> bool \<Rightarrow> write_outcome res" where
  "outcome_from_row row replayed =
     write_outcome_init \<lparr>wo_write_id = l_write_id row, wo_outcome = l_outcome row,
       wo_fact_id = l_fact_id row, wo_existing_fact_id = l_existing_fact_id row,
       wo_observation_id = l_observation_id row, wo_replayed = replayed,
       wo_detail_json = l_detail_json row\<rparr>"

section \<open>Policy on supersession\<close>

definition candidate_is_human :: "write_request \<Rightarrow> bool" where
  "candidate_is_human req \<longleftrightarrow>
     wr_source_type req = ''human_correction'' \<or> wr_relation req = ''corrects''
     \<or> wr_correction_status req \<in> set human_statuses"

definition supersession_target :: "int option \<Rightarrow> write_request \<Rightarrow> int option" where
  "supersession_target target req =
     (case target of None \<Rightarrow> wr_supersede_fact_id req
      | Some i \<Rightarrow> if i = 0 then wr_supersede_fact_id req else Some i)"

definition supersession_policy ::
  "write_request \<Rightarrow> int option \<Rightarrow> rat option \<Rightarrow> db \<Rightarrow> policy_decision option" where
  "supersession_policy req target candidate_authority d =
     (case supersession_target target req of
        None \<Rightarrow> None
      | Some i \<Rightarrow>
          (case first_row (\<lambda>f. f_id f = i \<and> f_scope f = wr_scope req) (db_facts d) of
             None \<Rightarrow> Some (mk_decision NeedsReview ''supersession target is unavailable'')
           | Some f \<Rightarrow>
               if wr_supersede_fact_id req \<noteq> None \<and> f_memory_kind f = Some ''state''
                 then Some (mk_decision NeedsReview ''typed state requires state-slot supersession'')
               else if wr_supersede_fact_id req \<noteq> None \<and> f_conflict_group f \<noteq> None
                 then Some (mk_decision NeedsReview ''open-conflict members cannot be explicitly superseded'')
               else if f_correction_status f \<in> set human_statuses \<and> \<not> candidate_is_human req
                 then Some (mk_decision NeedsReview ''target is protected by human correction'')
               else if coalesce_authority f
                       > (case candidate_authority of None \<Rightarrow> wr_source_authority req | Some a \<Rightarrow> a)
                 then Some (mk_decision NeedsReview ''target has higher source authority'')
               else None))"

section \<open>Duplicates\<close>

definition find_untyped_exact_duplicate :: "write_request \<Rightarrow> db \<Rightarrow> int option" where
  "find_untyped_exact_duplicate req d =
     (if \<not> has_columns d [''scope'', ''invalid_at'', ''superseded_by'', ''conflict_group''] then None
      else map_option f_id (first_row (\<lambda>f. True)
             (sort_key f_id (filter (\<lambda>f. f_scope f = wr_scope req \<and> f_content f = wr_content req
                \<and> is_current f \<and> f_conflict_group f = None) (db_facts d)))))"

text \<open>Python's \<open>max\<close> keeps the first of the largest items.\<close>

fun py_max :: "('a \<Rightarrow> 'k::linorder) \<Rightarrow> 'a \<Rightarrow> 'a list \<Rightarrow> 'a" where
  "py_max key best [] = best"
| "py_max key best (x # xs) = py_max key (if key best < key x then x else best) xs"

definition near_key :: "near_duplicate_candidate \<Rightarrow> rat \<times> string \<times> int" where
  "near_key c = (nd_trust_score c, nd_created_at c, nd_fact_id c)"

text \<open>The exceptions of the \<open>try\<close> block that mean no candidate. \<open>DatabaseError\<close> of the search is
  already the empty list.\<close>

definition near_error_handled :: "exc \<Rightarrow> bool" where
  "near_error_handled e =
     (case e of TypeError _ \<Rightarrow> True | ValueError _ \<Rightarrow> True | IntegrityError _ \<Rightarrow> True | _ \<Rightarrow> False)"

definition find_untyped_near_duplicate ::
  "'v write_env \<Rightarrow> write_request \<Rightarrow> db \<Rightarrow> near_duplicate_candidate option res" where
  "find_untyped_near_duplicate env req d =
     (case (we_query_embedder env, ndc_embedding_identity (we_near env)) of
        (Some embedder, Some identity) \<Rightarrow>
          if \<not> ndc_enabled (we_near env) then Inr None
          else
            (case rbind (embedder (wr_content req)) (\<lambda>v.
                    find_write_near_duplicates (we_near_lib env) (wr_content req) (wr_scope req) v
                      (ndc_cosine_threshold (we_near env)) (ndc_candidate_limit (we_near env))
                      (Some identity) d) of
               Inl e \<Rightarrow> if near_error_handled e then Inr None else Inl e
             | Inr [] \<Rightarrow> Inr None
             | Inr (c # cs) \<Rightarrow> Inr (Some (py_max near_key c cs)))
      | _ \<Rightarrow> Inr None)"

definition supersede_near_duplicate :: "int \<Rightarrow> int \<Rightarrow> string \<Rightarrow> db \<Rightarrow> db res" where
  "supersede_near_duplicate loser survivor now d =
     rbind (sql_update_facts (\<lambda>f. f_id f = loser \<and> is_current f)
              (\<lambda>f. f\<lparr>f_invalid_at := Some now, f_superseded_by := Some survivor\<rparr>) d) (\<lambda>(d1, n).
     rbind (guard_res (n = 1) (RuntimeError ''near-duplicate candidate is no longer active'')) (\<lambda>_.
     Inr d1))"

definition merge_near_duplicate ::
  "fact_write_result \<Rightarrow> near_duplicate_candidate \<Rightarrow> write_request \<Rightarrow> string \<Rightarrow> db
     \<Rightarrow> ((fact_write_result \<times> int option) \<times> db) res" where
  "merge_near_duplicate inserted c req now d =
     (if (nd_trust_score c, nd_created_at c) < (wr_trust_score req, now)
      then rbind (supersede_near_duplicate (nd_fact_id c) (fw_fact_id inserted) now d) (\<lambda>d1.
           rbind (fact_write_result_init (fw_fact_id inserted) ''near_dedup'' (Some (nd_fact_id c))
                    (fw_detail inserted)) (\<lambda>r.
           Inr ((r, Some (fw_fact_id inserted)), d1)))
      else rbind (supersede_near_duplicate (fw_fact_id inserted) (nd_fact_id c) now d) (\<lambda>d1.
           rbind (fact_write_result_init (nd_fact_id c) ''near_dedup'' (Some (nd_fact_id c))
                    (fw_detail inserted)) (\<lambda>r.
           Inr ((r, None), d1))))"

section \<open>Typed state\<close>

primrec action_text :: "decision_action \<Rightarrow> string" where
  "action_text AddFact = ''add''"
| "action_text Dedup = ''dedup''"
| "action_text Supersede = ''supersede''"
| "action_text Conflict = ''conflict''"

definition conflict_groups :: "int list \<Rightarrow> db \<Rightarrow> string list" where
  "conflict_groups ids d =
     remdups (concat (map (\<lambda>f. case f_conflict_group f of None \<Rightarrow> [] | Some g \<Rightarrow> [g])
       (filter (\<lambda>f. f_id f \<in> set ids) (db_facts d))))"

definition prepare_state_mutation ::
  "'v write_env \<Rightarrow> slot_decision \<Rightarrow> db \<Rightarrow> (string option \<times> db) res" where
  "prepare_state_mutation env dec d =
     (if sd_action dec = Supersede
      then (case sd_target_fact_id dec of
              None \<Rightarrow> Inl (RuntimeError ''supersession decision has no target'')
            | Some i \<Rightarrow>
                rbind (sql_update_facts
                         (\<lambda>f. f_id f = i \<and> f_scope f = sd_scope dec \<and> is_current f \<and> f_conflict_group f = None)
                         (\<lambda>f. f\<lparr>f_invalid_at := Some (we_now env)\<rparr>) d) (\<lambda>(d1, n).
                rbind (guard_res (n = 1) (RuntimeError ''state supersession target is no longer current'')) (\<lambda>_.
                Inr (None, d1))))
      else if sd_action dec \<noteq> Conflict then Inr (None, d)
      else
        (case conflict_groups (sd_current_fact_ids dec) d of
           [] \<Rightarrow>
             rbind (open_state_conflict (we_runtime env) (we_now env) (we_conflict_id env)
                      (sd_subject_key dec) (sd_predicate_key dec) (sd_current_fact_ids dec) (sd_scope dec)
                      (Some (we_now env)) (Some (JObj [(''reason'', JStr (sd_reason dec))])) d) (\<lambda>(c, d1).
             Inr (Some (cr_conflict_id c), d1))
         | [g] \<Rightarrow> Inr (Some g, d)
         | _ \<Rightarrow> Inl (RuntimeError ''state slot spans multiple unresolved conflicts'')))"

definition persist_state_candidate ::
  "fact_write_result \<Rightarrow> state_candidate \<Rightarrow> string option \<Rightarrow> db \<Rightarrow> db res" where
  "persist_state_candidate r cand cid d =
     rbind (guard_res (\<not> (fw_existing_fact_id r \<noteq> None \<or> fw_outcome r \<notin> {''inserted'', ''add''}))
              (RuntimeError ''typed state creation requires the fact writer to insert a new fact'')) (\<lambda>_.
     rbind (sql_update_facts (\<lambda>f. f_id f = fw_fact_id r \<and> is_current f)
              (\<lambda>f. f\<lparr>f_memory_kind := Some ''state'', f_subject_key := Some (sc_subject_key cand),
                     f_predicate_key := Some (sc_predicate_key cand), f_object_value := sc_object_value cand,
                     f_source_authority := Some (sc_source_authority cand), f_valid_from := sc_valid_from cand,
                     f_scope := sc_scope cand, f_conflict_group := cid\<rparr>) d) (\<lambda>(d1, n).
     rbind (guard_res (n = 1) (RuntimeError ''fact writer returned an unusable state fact'')) (\<lambda>_.
     Inr d1)))"

definition finish_state_supersession :: "int option \<Rightarrow> int \<Rightarrow> db \<Rightarrow> db res" where
  "finish_state_supersession old new d =
     (case old of
        None \<Rightarrow> Inl (RuntimeError ''supersession decision has no target'')
      | Some i \<Rightarrow>
          rbind (sql_update_facts (\<lambda>f. f_id f = i \<and> f_invalid_at f \<noteq> None \<and> f_superseded_by f = None)
                   (\<lambda>f. f\<lparr>f_superseded_by := Some new\<rparr>) d) (\<lambda>(d1, n).
          rbind (guard_res (n = 1) (RuntimeError ''could not finalize state supersession'')) (\<lambda>_.
          Inr d1)))"

section \<open>Observations, provenance and the other statements\<close>

definition record_observation ::
  "runtime \<Rightarrow> connection_context \<Rightarrow> write_request \<Rightarrow> string \<Rightarrow> db \<Rightarrow> (int \<times> db) res" where
  "record_observation rt ctx req now d =
     (let h = observation_sha256 rt ctx req
      in rbind (insert_observation_or_ignore
           \<lparr>o_id = 0, o_client_id = cc_client_id ctx, o_session_id = cc_session_id ctx,
            o_source_type = wr_source_type req, o_source_uri = wr_source_uri req,
            o_project_root = cc_project_root ctx, o_repository = cc_repository ctx,
            o_branch = cc_branch ctx, o_commit_sha = cc_commit_sha ctx,
            o_content = Some (observed_content req), o_content_sha256 = h,
            o_asserted_by = wr_asserted_by req, o_performed_by = wr_performed_by req,
            o_observed_at = wr_observed_at req, o_recorded_at = now, o_scope = wr_scope req,
            o_sensitivity = wr_sensitivity req, o_redacted_at = None,
            o_metadata_json = wr_metadata_json req\<rparr> d) (\<lambda>d1.
         case first_row (\<lambda>ob. obs_key ob = (cc_client_id ctx, h, cc_session_id ctx, wr_source_type req))
                (db_observations d1) of
           None \<Rightarrow> Inl (RuntimeError ''failed to record observation'')
         | Some ob \<Rightarrow> Inr (o_id ob, d1)))"

definition attach_provenance :: "int \<Rightarrow> int \<Rightarrow> write_request \<Rightarrow> string \<Rightarrow> db \<Rightarrow> db res" where
  "attach_provenance fact_id observation_id req now d =
     insert_provenance_or_ignore
       \<lparr>p_fact_id = fact_id, p_observation_id = observation_id, p_relation = wr_relation req,
        p_evidence_excerpt = wr_evidence_excerpt req, p_created_at = now\<rparr> d"

definition authorize_fact_scope :: "int \<Rightarrow> string \<Rightarrow> db \<Rightarrow> unit res" where
  "authorize_fact_scope fact_id requested d =
     (if ''scope'' \<notin> set (db_fact_columns d)
      then (if requested \<noteq> ''private''
            then Inl (RuntimeError ''legacy facts schema cannot persist requested scope'') else Inr ())
      else (case fact_by_id d fact_id of
              None \<Rightarrow> Inl (RuntimeError ''fact writer returned a missing fact'')
            | Some f \<Rightarrow> if f_scope f \<noteq> requested
                then Inl (PermissionError ''fact writer persisted a different memory scope'') else Inr ()))"

definition supersede_if_requested :: "int option \<Rightarrow> int \<Rightarrow> string \<Rightarrow> db \<Rightarrow> (bool \<times> db) res" where
  "supersede_if_requested old new now d =
     (case old of
        None \<Rightarrow> Inr (False, d)
      | Some i \<Rightarrow>
          if i = new then Inl (ValueError ''a fact cannot supersede itself'')
          else if \<not> has_columns d [''invalid_at'', ''superseded_by'']
            then Inl (RuntimeError ''structural supersession requires temporal facts columns'')
          else
            rbind (if ''scope'' \<in> set (db_fact_columns d)
                   then (case fact_by_id d new of
                           None \<Rightarrow> Inl (RuntimeError ''replacement fact is unavailable'')
                         | Some g \<Rightarrow>
                             if first_row (\<lambda>f. f_id f = i \<and> f_scope f = f_scope g) (db_facts d) = None
                             then Inl (ValueError ''superseded fact is unavailable or no longer current'')
                             else Inr (f_scope g))
                   else Inr ''private'') (\<lambda>request_scope.
            case fact_by_id d i of
              None \<Rightarrow> Inl (ValueError ''superseded fact is unavailable or no longer current'')
            | Some f \<Rightarrow>
                if f_memory_kind f = Some ''state'' \<or> f_conflict_group f \<noteq> None
                then Inl (ValueError ''typed or conflicted facts require their dedicated resolution path'')
                else
                  rbind (sql_update_facts (\<lambda>f. f_id f = i \<and> f_scope f = request_scope \<and> is_current f)
                           (\<lambda>f. f\<lparr>f_invalid_at := Some now, f_superseded_by := Some new\<rparr>) d) (\<lambda>(d1, n).
                  rbind (guard_res (n = 1)
                           (ValueError ''superseded fact is unavailable or no longer current'')) (\<lambda>_.
                  Inr (True, d1)))))"

primrec outcome_text :: "policy_outcome \<Rightarrow> string" where
  "outcome_text Rejected = ''rejected''"
| "outcome_text NeedsReview = ''needs_review''"

definition record_factless_decision ::
  "'v write_env \<Rightarrow> connection_context \<Rightarrow> write_request \<Rightarrow> string \<Rightarrow> policy_decision \<Rightarrow> db
     \<Rightarrow> (write_outcome \<times> db) res" where
  "record_factless_decision env ctx req h dec d =
     (let detail = json_dumps (rt_float_repr (we_runtime env)) canonical_ascii
                     (JObj [(''policy_reason'', JStr (pd_reason dec))])
      in rbind (insert_write_log
           \<lparr>l_write_id = we_write_id env, l_idempotency_key = wr_idempotency_key req,
            l_client_id = cc_client_id ctx, l_session_id = Some (cc_session_id ctx),
            l_operation = wr_operation req, l_outcome = outcome_text (pd_outcome dec),
            l_fact_id = None, l_existing_fact_id = None, l_observation_id = None,
            l_recorded_at = we_now env, l_request_sha256 = h, l_detail_json = detail\<rparr> d) (\<lambda>d1.
         rbind (write_outcome_init \<lparr>wo_write_id = we_write_id env,
                  wo_outcome = outcome_text (pd_outcome dec), wo_fact_id = None,
                  wo_existing_fact_id = None, wo_observation_id = None, wo_replayed = False,
                  wo_detail_json = detail\<rparr>) (\<lambda>out.
         Inr (out, d1))))"

section \<open>The write\<close>

definition sensitive_fields :: "state_candidate option \<Rightarrow> string list" where
  "sensitive_fields cand =
     (case cand of None \<Rightarrow> []
      | Some c \<Rightarrow> filter (\<lambda>v. v \<noteq> [])
          ([sc_subject_key c, sc_predicate_key c]
           @ (case sc_object_value c of None \<Rightarrow> [] | Some v \<Rightarrow> [v])))"

text \<open>The policy checks before any slot is read.\<close>

definition policy_gate ::
  "'v write_env \<Rightarrow> connection_context \<Rightarrow> write_request \<Rightarrow> state_candidate option \<Rightarrow> db
     \<Rightarrow> policy_decision option res" where
  "policy_gate env ctx req cand d =
     rbind (evaluate_write (we_policy env) req (Some (cc_client_id ctx)) (sensitive_fields cand)) (\<lambda>dec.
     case dec of
       Some v \<Rightarrow> Inr (Some v)
     | None \<Rightarrow>
         if wr_scope req \<notin> set (cc_access_scopes ctx)
         then Inr (Some (mk_decision Rejected ''requested write scope is not server-authorized''))
         else Inr (supersession_policy req None None d))"

text \<open>\<open>dataclasses.replace\<close> runs the validation of the candidate again.\<close>

definition effective_candidate ::
  "runtime \<Rightarrow> string \<Rightarrow> write_request \<Rightarrow> state_candidate option \<Rightarrow> state_candidate option res" where
  "effective_candidate rt now req cand =
     (case cand of
        None \<Rightarrow> Inr None
      | Some c \<Rightarrow>
          if sc_valid_from c \<noteq> None then Inr (Some c)
          else rbind (state_candidate_init rt (c\<lparr>sc_valid_from := Some (or_else (wr_observed_at req) now)\<rparr>))
                 (\<lambda>c'. Inr (Some c')))"

text \<open>The decision about the slot, and the policy on what it would supersede.\<close>

definition slot_gate ::
  "'v write_env \<Rightarrow> write_request \<Rightarrow> state_candidate option \<Rightarrow> policy_decision option \<Rightarrow> db
     \<Rightarrow> (policy_decision option \<times> slot_decision option) res" where
  "slot_gate env req eff dec d =
     (case (dec, eff) of
        (None, Some c) \<Rightarrow>
          rbind (decide_state_write (we_runtime env) d c) (\<lambda>sd.
          Inr (if sd_action sd = Supersede
               then supersession_policy req (sd_target_fact_id sd) (Some (sc_source_authority c)) d
               else None, Some sd))
      | _ \<Rightarrow> Inr (dec, None))"

text \<open>A new fact through the fact writer, what makes it a near duplicate, and what makes it a typed
  value.\<close>

definition settle_typed ::
  "(state_candidate \<times> slot_decision) option \<Rightarrow> fact_write_result \<Rightarrow> string option \<Rightarrow> db
     \<Rightarrow> (fact_write_result \<times> db) res" where
  "settle_typed typed r cid d =
     (case typed of
        None \<Rightarrow> Inr (r, d)
      | Some (c, sd) \<Rightarrow>
          rbind (persist_state_candidate r c cid d) (\<lambda>d1.
          rbind (if sd_action sd = Supersede
                 then finish_state_supersession (sd_target_fact_id sd) (fw_fact_id r) d1
                 else if sd_action sd = Conflict
                 then (case cid of
                         None \<Rightarrow> Inl (RuntimeError ''state conflict group was not established'')
                       | Some g \<Rightarrow> add_conflict_member g (fw_fact_id r) d1)
                 else Inr d1) (\<lambda>d2.
          rbind (fact_write_result_init (fw_fact_id r) (action_text (sd_action sd))
                   (fw_existing_fact_id r) (fw_detail r)) (\<lambda>r'.
          Inr (r', d2)))))"

definition create_fact ::
  "'v write_env \<Rightarrow> fact_writer_fn \<Rightarrow> write_request \<Rightarrow> (state_candidate \<times> slot_decision) option
     \<Rightarrow> near_duplicate_candidate option \<Rightarrow> int \<Rightarrow> db
     \<Rightarrow> (fact_write_result \<times> string option \<times> int option \<times> db) res" where
  "create_fact env fact_writer req typed near obs d =
     rbind (case typed of None \<Rightarrow> Inr (None, d)
            | Some (c, sd) \<Rightarrow> prepare_state_mutation env sd d) (\<lambda>(cid, d1).
     rbind (fact_writer req obs d1) (\<lambda>(r, d2).
     rbind (case near of
              Some c \<Rightarrow> merge_near_duplicate r c req (we_now env) d2
            | None \<Rightarrow> Inr ((r, Some (fw_fact_id r)), d2)) (\<lambda>((r', enqueue), d3).
     rbind (settle_typed typed r' cid d3) (\<lambda>(r'', d4).
     Inr (r'', cid, enqueue, d4)))))"

text \<open>Where the write lands: on the value the slot already holds, on an exact duplicate, or on a
  new fact.\<close>

definition place_fact ::
  "'v write_env \<Rightarrow> fact_writer_fn \<Rightarrow> write_request \<Rightarrow> (state_candidate \<times> slot_decision) option
     \<Rightarrow> int option \<Rightarrow> near_duplicate_candidate option \<Rightarrow> int \<Rightarrow> db
     \<Rightarrow> (fact_write_result \<times> string option \<times> int option \<times> db) res" where
  "place_fact env fact_writer req typed dup near obs d =
     (case typed of
        Some (c, sd) \<Rightarrow>
          (case sd_target_fact_id sd of
             Some i \<Rightarrow>
               if sd_action sd = Dedup \<or> sd_action sd = Conflict
               then rbind (fact_write_result_init i (action_text (sd_action sd)) (Some i) []) (\<lambda>r.
                    Inr (r, if sd_action sd = Conflict
                            then (case fact_by_id d i of None \<Rightarrow> None
                                  | Some f \<Rightarrow> if truthy (f_conflict_group f) then f_conflict_group f else None)
                            else None, None, d))
               else create_fact env fact_writer req typed near obs d
           | None \<Rightarrow> create_fact env fact_writer req typed near obs d)
      | None \<Rightarrow>
          (case dup of
             Some i \<Rightarrow> rbind (fact_write_result_init i ''dedup'' (Some i) []) (\<lambda>r. Inr (r, None, None, d))
           | None \<Rightarrow> create_fact env fact_writer req typed near obs d))"

text \<open>Python's \<open>round\<close> to six decimals of an exact value: half to even.\<close>

definition round_half_even :: "rat \<Rightarrow> int" where
  "round_half_even q =
     (let n = \<lfloor>q\<rfloor>; r = q - of_int n
      in if r < 1/2 then n else if 1/2 < r then n + 1 else if even n then n else n + 1)"

definition round6 :: "rat \<Rightarrow> rat" where
  "round6 q = of_int (round_half_even (q * 1000000)) / 1000000"

definition write_detail ::
  "fact_write_result \<Rightarrow> near_duplicate_candidate option \<Rightarrow> bool \<Rightarrow> write_request \<Rightarrow> slot_decision option
     \<Rightarrow> string option \<Rightarrow> (string \<times> json) list" where
  "write_detail r near superseded req sd cid =
     (let opt_int = (\<lambda>x. case x of None \<Rightarrow> JNull | Some i \<Rightarrow> JInt i);
          d0 = fw_detail r;
          d1 = (case near of None \<Rightarrow> d0
                | Some c \<Rightarrow> dict_set ''near_duplicate''
                    (JObj [(''candidate_fact_id'', JInt (nd_fact_id c)),
                           (''cosine'', JNum (round6 (nd_cosine c))),
                           (''survivor_fact_id'', JInt (fw_fact_id r))]) d0);
          d2 = (if superseded then dict_set ''superseded_fact_id'' (opt_int (wr_supersede_fact_id req)) d1 else d1)
      in case sd of None \<Rightarrow> d2
         | Some s \<Rightarrow>
             let d3 = dict_set ''state_action'' (JStr (action_text (sd_action s))) d2;
                 d4 = dict_set ''state_slot''
                        (JObj [(''scope'', JStr (sd_scope s)), (''subject_key'', JStr (sd_subject_key s)),
                               (''predicate_key'', JStr (sd_predicate_key s))]) d3;
                 d5 = (if sd_action s = Supersede
                       then dict_set ''superseded_fact_id'' (opt_int (sd_target_fact_id s)) d4 else d4)
             in case cid of None \<Rightarrow> d5 | Some c \<Rightarrow> dict_set ''conflict_id'' (JStr c) d5)"

text \<open>The part of the transaction after the policy let the write through.\<close>

definition commit_write ::
  "'v write_env \<Rightarrow> fact_writer_fn \<Rightarrow> connection_context \<Rightarrow> write_request \<Rightarrow> string
     \<Rightarrow> (state_candidate \<times> slot_decision) option \<Rightarrow> db \<Rightarrow> (write_outcome \<times> db) res" where
  "commit_write env fact_writer ctx req h typed d =
     rbind (record_observation (we_runtime env) ctx req (we_now env) d) (\<lambda>(obs, d1).
     let dup = (if typed = None then find_untyped_exact_duplicate req d1 else None) in
     rbind (if typed = None \<and> wr_supersede_fact_id req = None \<and> dup = None
            then find_untyped_near_duplicate env req d1 else Inr None) (\<lambda>near.
     rbind (place_fact env fact_writer req typed dup near obs d1) (\<lambda>(r, cid, enqueue, d2).
     rbind (case (enqueue, we_embedding_enqueue env) of
              (Some i, Some enq) \<Rightarrow> enq i d2 | _ \<Rightarrow> Inr d2) (\<lambda>d3.
     rbind (authorize_fact_scope (fw_fact_id r) (wr_scope req) d3) (\<lambda>_.
     rbind (attach_provenance (fw_fact_id r) obs req (we_now env) d3) (\<lambda>d4.
     rbind (if typed = None then supersede_if_requested (wr_supersede_fact_id req) (fw_fact_id r) (we_now env) d4
            else Inr (False, d4)) (\<lambda>(superseded, d5).
     let detail = json_dumps (rt_float_repr (we_runtime env)) canonical_ascii
                    (JObj (write_detail r near superseded req (map_option snd typed) cid)) in
     rbind (insert_write_log
              \<lparr>l_write_id = we_write_id env, l_idempotency_key = wr_idempotency_key req,
               l_client_id = cc_client_id ctx, l_session_id = Some (cc_session_id ctx),
               l_operation = wr_operation req, l_outcome = fw_outcome r, l_fact_id = Some (fw_fact_id r),
               l_existing_fact_id = fw_existing_fact_id r, l_observation_id = Some obs,
               l_recorded_at = we_now env, l_request_sha256 = h, l_detail_json = detail\<rparr> d5) (\<lambda>d6.
     rbind (write_outcome_init \<lparr>wo_write_id = we_write_id env, wo_outcome = fw_outcome r,
              wo_fact_id = Some (fw_fact_id r), wo_existing_fact_id = fw_existing_fact_id r,
              wo_observation_id = Some obs, wo_replayed = False, wo_detail_json = detail\<rparr>) (\<lambda>out.
     Inr (out, d6))))))))))"

definition pair_typed :: "state_candidate option \<Rightarrow> slot_decision option \<Rightarrow> (state_candidate \<times> slot_decision) option" where
  "pair_typed eff sd = (case (eff, sd) of (Some c, Some s) \<Rightarrow> Some (c, s) | _ \<Rightarrow> None)"

definition write_txn ::
  "'v write_env \<Rightarrow> fact_writer_fn \<Rightarrow> connection_context \<Rightarrow> write_request \<Rightarrow> state_candidate option
     \<Rightarrow> db \<Rightarrow> (write_outcome \<times> db) res" where
  "write_txn env fact_writer ctx req cand d =
     (let h = request_sha256 (we_runtime env) ctx req cand in
      rbind (register_client ctx (we_now env) d) (\<lambda>d1.
      case load_prior (cc_client_id ctx) (wr_idempotency_key req) d1 of
        Some prior \<Rightarrow>
          if l_request_sha256 prior \<noteq> h
          then Inl (IdempotencyConflict ''idempotency key was already used for a different request'')
          else rbind (outcome_from_row prior True) (\<lambda>out. Inr (out, d1))
      | None \<Rightarrow>
          rbind (register_session (we_runtime env) ctx (we_now env) d1) (\<lambda>d2.
          rbind (policy_gate env ctx req cand d2) (\<lambda>dec.
          rbind (effective_candidate (we_runtime env) (we_now env) req cand) (\<lambda>eff.
          rbind (slot_gate env req eff dec d2) (\<lambda>(dec', sd).
          case dec' of
            Some v \<Rightarrow> record_factless_decision env ctx req h v d2
          | None \<Rightarrow> commit_write env fact_writer ctx req h (pair_typed eff sd) d2))))))"

text \<open>The whole method: the result, or the exception it raises, and the committed database.\<close>

definition memory_write ::
  "'v write_env \<Rightarrow> fact_writer_fn \<Rightarrow> connection_context \<Rightarrow> write_request \<Rightarrow> state_candidate option
     \<Rightarrow> db \<Rightarrow> write_outcome res \<times> db" where
  "memory_write env fact_writer ctx req cand d =
     (case rbind (authorize_context (we_policy env) ctx) (\<lambda>ctx'.
           rbind (validate_state_candidate req cand) (\<lambda>_.
           write_txn env fact_writer ctx' req cand d)) of
        Inl e \<Rightarrow> (Inl e, d)
      | Inr (out, d') \<Rightarrow> (Inr out, d'))"

section \<open>The fact writer of the service\<close>

definition service_fact_writer :: "string \<Rightarrow> fact_writer_fn" where
  "service_fact_writer clock req obs d =
     rbind (insert_fact clock (wr_content req) (wr_category req) (wr_tags req) (wr_trust_score req)
              None None None None None (Some (wr_source_authority req)) (wr_scope req)
              (wr_sensitivity req) None d) (\<lambda>(d1, i).
     rbind (case wr_correction_status req of
              None \<Rightarrow> Inr d1
            | Some st \<Rightarrow>
                rbind (sql_update_facts (\<lambda>f. f_id f = i) (\<lambda>f. f\<lparr>f_correction_status := Some st\<rparr>) d1)
                  (\<lambda>(d2, n). Inr d2)) (\<lambda>d2.
     rbind (fact_write_result_init i ''inserted'' None []) (\<lambda>r.
     Inr (r, d2))))"

end
