(* ===== verification/Write_Invariant.thy ===== *)
theory Write_Invariant
  imports Write_Service
begin

text \<open>
  The write envelope keeps the slot invariant. The two collaborators of the envelope are
  interfaces: \<open>fact_writer\<close> (what the injected writer does to the facts table) and
  \<open>embedding_outbox\<close> (what the enqueue callback may touch). The lemmas about the envelope are
  proved once from these laws; \<open>svc\<close> interprets the first on the writer of \<open>service.py\<close>.
\<close>

section \<open>Statements outside the slot tables\<close>

definition same_slots :: "db \<Rightarrow> db \<Rightarrow> bool" where
  "same_slots d d' \<longleftrightarrow> db_facts d' = db_facts d \<and> db_fact_seq d' = db_fact_seq d
     \<and> db_slot_index d' = db_slot_index d \<and> db_conflicts d' = db_conflicts d
     \<and> db_conflict_members d' = db_conflict_members d \<and> db_fact_columns d' = db_fact_columns d"

lemma same_slots_refl [simp]: "same_slots d d"
  by (simp add: same_slots_def)

lemma same_slots_trans: "same_slots a b \<Longrightarrow> same_slots b c \<Longrightarrow> same_slots a c"
  by (simp add: same_slots_def)

lemma same_slots_inv: "same_slots d d' \<Longrightarrow> slot_inv d' = slot_inv d"
  by (rule slot_inv_frame) (simp_all add: same_slots_def)

lemma same_slots_rows: "same_slots d d' \<Longrightarrow> slot_rows d' = slot_rows d"
  by (simp add: same_slots_def slot_rows_def fun_eq_iff)

lemma register_client_frame: "register_client ctx now d = Inr d' \<Longrightarrow> same_slots d d'"
  by (auto simp: register_client_def insert_client_or_ignore_def same_slots_def Let_def
      split: option.splits if_splits)

lemma register_session_frame: "register_session rt ctx now d = Inr d' \<Longrightarrow> same_slots d d'"
  by (auto simp: register_session_def insert_session_or_ignore_def same_slots_def Let_def rbind_eq_Inr
      split: option.splits if_splits)

lemma record_observation_frame: "record_observation rt ctx req now d = Inr (i, d') \<Longrightarrow> same_slots d d'"
  by (auto simp: record_observation_def insert_observation_or_ignore_def same_slots_def Let_def rbind_eq_Inr
      split: option.splits if_splits)

lemma attach_provenance_frame: "attach_provenance f i req now d = Inr d' \<Longrightarrow> same_slots d d'"
  by (auto simp: attach_provenance_def insert_provenance_or_ignore_def same_slots_def split: if_splits)

lemma insert_write_log_frame: "insert_write_log l d = Inr d' \<Longrightarrow> same_slots d d'"
  by (auto simp: insert_write_log_def same_slots_def split: if_splits)

lemma record_factless_frame: "record_factless_decision env ctx req h dec d = Inr (out, d') \<Longrightarrow> same_slots d d'"
  by (auto simp: record_factless_decision_def rbind_eq_Inr Let_def dest: insert_write_log_frame)

section \<open>Retiring facts\<close>

lemma sql_retire_inv:
  assumes inv: "slot_inv d" and ok: "sql_update_facts P u d = Inr (d', n)"
    and r: "\<And>f. f \<in> set (db_facts d) \<Longrightarrow> P f \<Longrightarrow>
      (is_current f \<longrightarrow> f_conflict_group f = None) \<and> f_id (u f) = f_id f \<and> \<not> is_current (u f)"
  shows "slot_inv d'"
proof -
  have d': "d' = d\<lparr>db_facts := update_where P u (db_facts d)\<rparr>"
    and fk: "superseded_fk (update_where P u (db_facts d))"
    using ok by (simp_all add: sql_update_facts_Inr)
  show ?thesis unfolding d' by (rule slot_inv_retire [OF inv r fk])
qed

lemma supersede_near_duplicate_inv:
  assumes inv: "slot_inv d" and ok: "supersede_near_duplicate loser survivor now d = Inr d'"
    and l: "\<And>f. f \<in> set (db_facts d) \<Longrightarrow> f_id f = loser \<Longrightarrow> f_conflict_group f = None"
  shows "slot_inv d'"
proof -
  obtain n where "sql_update_facts (\<lambda>f. f_id f = loser \<and> is_current f)
              (\<lambda>f. f\<lparr>f_invalid_at := Some now, f_superseded_by := Some survivor\<rparr>) d = Inr (d', n)"
    using ok by (auto simp: supersede_near_duplicate_def rbind_eq_Inr)
  then show ?thesis by (rule sql_retire_inv [OF inv]) (auto simp: l is_current_def)
qed

lemma supersede_if_requested_inv:
  assumes inv: "slot_inv d" and ok: "supersede_if_requested old new now d = Inr (b, d')"
  shows "slot_inv d'"
proof (cases old)
  case None
  then show ?thesis using ok inv by (simp add: supersede_if_requested_def)
next
  case (Some i)
  obtain f sc n where f: "fact_by_id d i = Some f" "f_conflict_group f = None"
    and up: "sql_update_facts (\<lambda>f. f_id f = i \<and> f_scope f = sc \<and> is_current f)
                           (\<lambda>f. f\<lparr>f_invalid_at := Some now, f_superseded_by := Some new\<rparr>) d = Inr (d', n)"
    using ok Some by (auto simp: supersede_if_requested_def rbind_eq_Inr split: if_splits option.splits)
  have "g = f" if "g \<in> set (db_facts d)" "f_id g = i" for g
    using slot_inv_same_id [OF inv that(1)] fact_by_id_Some [OF f(1)] that(2) by metis
  then show ?thesis using f(2) by (intro sql_retire_inv [OF inv up]) (auto simp: is_current_def)
qed

section \<open>The decision under the invariant\<close>

lemma slot_conflict_groups:
  assumes "f \<in> set (db_facts d)" "slot_inv d" "f_conflict_group f = None"
  shows "conflict_groups [f_id f] d = []"
proof -
  have "f_conflict_group g = None" if "g \<in> set (db_facts d)" "f_id g = f_id f" for g
    using slot_inv_same_id [OF assms(2) that(1) assms(1) that(2)] assms(3) by simp
  then show ?thesis by (auto simp: conflict_groups_def)
qed

lemma decide_state_write_cases:
  assumes inv: "slot_inv d" and c: "sc_memory_kind c = ''state''" "cand_clean c"
    and ok: "decide_state_write rt d c = Inr sd"
  obtains (Add) "sd_action sd = AddFact" "cand_rows d c = []"
  | (Dup) i where "sd_action sd = Dedup" "sd_target_fact_id sd = Some i"
  | (Super) f where "sd_action sd = Supersede" "sd_target_fact_id sd = Some (f_id f)"
      "cand_rows d c = [f]" "f_conflict_group f = None" "sd_scope sd = sc_scope c"
  | (Open) f where "sd_action sd = Conflict" "sd_target_fact_id sd = None" "sd_current_fact_ids sd = [f_id f]"
      "cand_rows d c = [f]" "f_conflict_group f = None" "sd_scope sd = sc_scope c"
      "sd_subject_key sd = sc_subject_key c" "sd_predicate_key sd = sc_predicate_key c"
  | (Join) k where "sd_action sd = Conflict" "k \<in> set (db_conflicts d)" "is_open k" "cand_rows d c \<noteq> []"
      "k_scope k = sc_scope c" "k_subject_key k = sc_subject_key c" "k_predicate_key k = sc_predicate_key c"
      "sd_current_fact_ids sd = map f_id (cand_rows d c)"
      "\<forall>f \<in> set (cand_rows d c). f_conflict_group f = Some (k_id k)"
  using inv
proof (rule slot_rows_cases [of d "sc_scope c" "sc_subject_key c" "sc_predicate_key c"])
  assume e: "cand_rows d c = []"
  with decide_empty [OF c e, of rt] ok show thesis by (intro Add) auto
next
  fix f assume f: "cand_rows d c = [f]" "f_conflict_group f = None"
  show thesis
  proof (cases "exact_match c (state_fact_of f)")
    case True
    with decide_single_dedup [OF c f True, of rt] ok show thesis by (intro Dup) auto
  next
    case False
    then obtain t u where tu: "parse_timestamp rt (sc_valid_from c) = Inr t" "parse_timestamp rt (f_valid_from f) = Inr u"
      using ok c f by (auto simp: decide_state_write_def decide_rows truthy_def first_row_def rbind_eq_Inr Let_def)
    from decide_single_new [OF c f False tu] ok f show thesis
      by (cases "outranks (sc_source_authority c) t (coalesce_authority f) u") (auto intro: Super Open)
  qed
next
  fix k assume ne: "cand_rows d c \<noteq> []" and k: "k \<in> set (db_conflicts d)" "is_open k"
    and slot: "k_scope k = sc_scope c" "k_subject_key k = sc_subject_key c" "k_predicate_key k = sc_predicate_key c"
    and grp: "\<forall>f \<in> set (cand_rows d c). f_conflict_group f = Some (k_id k)"
  have "\<exists>f \<in> set (cand_rows d c). truthy (f_conflict_group f)"
    using ne grp truthy_open_group [OF inv k] by (metis list.set_sel(1))
  then obtain r tgt where
    dec: "decide_state_write rt d c = Inr (mk_slot_decision c Conflict (map f_id (cand_rows d c)) tgt r)"
    using decide_conflicted [OF c ne] by blast
  with ok have "sd = mk_slot_decision c Conflict (map f_id (cand_rows d c)) tgt r" by simp
  then show thesis by (intro Join [OF _ k ne slot _ grp]) simp_all
qed

section \<open>Opening or joining a conflict for a new value\<close>

lemma persist_Inr:
  assumes "persist_state_candidate r c cid d = Inr d'"
  shows "d' = d\<lparr>db_facts := update_where (\<lambda>f. f_id f = fw_fact_id r \<and> is_current f)
              (\<lambda>f. f\<lparr>f_memory_kind := Some ''state'', f_subject_key := Some (sc_subject_key c),
                     f_predicate_key := Some (sc_predicate_key c), f_object_value := sc_object_value c,
                     f_source_authority := Some (sc_source_authority c), f_valid_from := sc_valid_from c,
                     f_scope := sc_scope c, f_conflict_group := cid\<rparr>) (db_facts d)\<rparr>"
    and "db_slot_index d \<longrightarrow> slot_unique (db_facts d')" and "superseded_fk (db_facts d')"
  using assms by (auto simp: persist_state_candidate_def rbind_eq_Inr sql_update_facts_Inr)

lemma add_conflict_member_Inr:
  "add_conflict_member g i d = Inr d' \<Longrightarrow>
     d' = d\<lparr>db_conflict_members := db_conflict_members d @ [(g, i)]\<rparr> \<and> (g, i) \<notin> set (db_conflict_members d)"
  by (auto simp: add_conflict_member_def insert_conflict_member_def split: option.splits if_splits)

text \<open>The new, untyped row enters the empty slot of its candidate.\<close>

lemma persist_enter_inv:
  assumes inv: "slot_inv d" and g: "g \<in> set (db_facts d)" "f_id g = fw_fact_id r" "is_current g"
      "f_memory_kind g \<noteq> Some ''state''" "f_conflict_group g = None"
    and empty: "cand_rows d c = []" and ok: "persist_state_candidate r c None d = Inr d'"
  shows "slot_inv d'"
proof -
  have one: "(f_id f = fw_fact_id r \<and> is_current f) = (f = g)" if "f \<in> set (db_facts d)" for f
    using slot_inv_same_id [OF inv that g(1)] g by metis
  have "db_slot_index d" using inv by (simp add: slot_inv_defs)
  with persist_Inr [OF ok] show ?thesis
    using slot_inv_enter_slot [OF inv g(1,4,5) one _ _ _ empty, where u = "\<lambda>f. f\<lparr>f_memory_kind := Some ''state'', f_subject_key := Some (sc_subject_key c),
                     f_predicate_key := Some (sc_predicate_key c), f_object_value := sc_object_value c,
                     f_source_authority := Some (sc_source_authority c), f_valid_from := sc_valid_from c,
                     f_scope := sc_scope c, f_conflict_group := None\<rparr>"]
    by (simp add: in_slot_def)
qed

lemma persist_join_inv:
  assumes inv: "slot_inv d" and g: "g \<in> set (db_facts d)" "f_id g = fw_fact_id r" "is_current g"
      "f_memory_kind g \<noteq> Some ''state''" "f_conflict_group g = None"
    and k: "k \<in> set (db_conflicts d)" "is_open k"
    and slot: "k_scope k = sc_scope c" "k_subject_key k = sc_subject_key c" "k_predicate_key k = sc_predicate_key c"
    and ok: "persist_state_candidate r c (Some (k_id k)) d = Inr d1"
    and add: "add_conflict_member (k_id k) (fw_fact_id r) d1 = Inr d'"
  shows "slot_inv d'"
proof -
  let ?u = "\<lambda>f. f\<lparr>f_memory_kind := Some ''state'', f_subject_key := Some (sc_subject_key c),
                     f_predicate_key := Some (sc_predicate_key c), f_object_value := sc_object_value c,
                     f_source_authority := Some (sc_source_authority c), f_valid_from := sc_valid_from c,
                     f_scope := sc_scope c, f_conflict_group := Some (k_id k)\<rparr>"
  let ?P = "\<lambda>f. f_id f = fw_fact_id r \<and> is_current f"
  have one: "?P f = (f = g)" if "f \<in> set (db_facts d)" for f
    using slot_inv_same_id [OF inv that g(1)] g by metis
  have "db_slot_index d" using inv by (simp add: slot_inv_defs)
  then have d1: "d1 = d\<lparr>db_facts := update_where ?P ?u (db_facts d)\<rparr>"
    and uq: "slot_unique (update_where ?P ?u (db_facts d))" and fk: "superseded_fk (update_where ?P ?u (db_facts d))"
    using persist_Inr [OF ok] by simp_all
  have d': "d' = d\<lparr>db_facts := update_where ?P ?u (db_facts d),
      db_conflict_members := db_conflict_members d @ [(k_id k, f_id g)]\<rparr>"
    and fresh: "(k_id k, f_id g) \<notin> set (db_conflict_members d)"
    using add_conflict_member_Inr [OF add] g(2) by (simp_all add: d1)
  have "is_current (?u g)" "in_conflict_slot k (?u g)"
    using g(3) slot by (simp_all add: is_current_def in_conflict_slot_def in_slot_def)
  then show ?thesis
    unfolding d' by (intro slot_inv_join_conflict [OF inv g(1,4,5) one k _ _ _ _ fresh uq fk]) simp_all
qed

lemma distinct_singleton: "distinct xs \<Longrightarrow> set xs = {a} \<Longrightarrow> xs = [a]"
  by (cases xs; cases "tl xs") auto

lemma conflict_groups_joined:
  assumes inv: "slot_inv d" and ne: "slot_rows d sc s p \<noteq> []"
    and grp: "\<forall>f \<in> set (slot_rows d sc s p). f_conflict_group f = Some g"
  shows "conflict_groups (map f_id (slot_rows d sc s p)) d = [g]"
proof -
  have row: "f \<in> set (slot_rows d sc s p)" if f: "f \<in> set (db_facts d)" "f_id f \<in> f_id ` set (slot_rows d sc s p)" for f
  proof -
    from f(2) obtain h where h: "h \<in> set (slot_rows d sc s p)" "f_id f = f_id h" by blast
    have "h \<in> set (db_facts d)" using h(1) by (simp add: slot_rows_mem)
    then show ?thesis using slot_inv_same_id [OF inv f(1) _ h(2)] h(1) by simp
  qed
  have "set (conflict_groups (map f_id (slot_rows d sc s p)) d) \<subseteq> {g}"
    using row grp by (auto simp: conflict_groups_def split: option.splits)
  moreover obtain f where f: "f \<in> set (slot_rows d sc s p)" using ne by (meson list.set_sel(1))
  then have "g \<in> set (conflict_groups (map f_id (slot_rows d sc s p)) d)"
    using grp by (force simp: conflict_groups_def slot_rows_mem)
  ultimately have "set (conflict_groups (map f_id (slot_rows d sc s p)) d) = {g}" by blast
  moreover have "distinct (conflict_groups (map f_id (slot_rows d sc s p)) d)" by (simp add: conflict_groups_def)
  ultimately show ?thesis using distinct_singleton by metis
qed

text \<open>Once the only settled value of a slot is invalidated, the slot is empty.\<close>

lemma invalidated_slot_empty:
  assumes inv: "slot_inv d" and rows: "slot_rows d sc s p = [f]" "f_conflict_group f = None"
  shows "slot_rows (d\<lparr>db_facts := update_where
      (\<lambda>g. f_id g = f_id f \<and> f_scope g = sc \<and> is_current g \<and> f_conflict_group g = None)
      (\<lambda>g. g\<lparr>f_invalid_at := Some now\<rparr>) (db_facts d)\<rparr>) sc s p = []"
    (is "slot_rows ?d sc s p = []")
proof -
  have "h \<notin> set (slot_rows ?d sc s p)" for h
  proof
    assume "h \<in> set (slot_rows ?d sc s p)"
    then have h: "h \<in> set (db_facts ?d)" "in_slot sc s p h" "is_current h" by (simp_all add: slot_rows_mem)
    then obtain a where a: "a \<in> set (db_facts d)"
      "h = (if f_id a = f_id f \<and> f_scope a = sc \<and> is_current a \<and> f_conflict_group a = None
            then a\<lparr>f_invalid_at := Some now\<rparr> else a)"
      by (auto simp: in_update_where)
    show False
    proof (cases "f_id a = f_id f \<and> f_scope a = sc \<and> is_current a \<and> f_conflict_group a = None")
      case True
      then show False using a(2) h(3) by (simp add: is_current_def)
    next
      case False
      then have "h = a" using a(2) by argo
      then have "a \<in> set (slot_rows d sc s p)" using a(1) h(2,3) by (simp add: slot_rows_mem)
      then have "a = f" using rows by simp
      then show False using False rows(2) h(2,3) \<open>h = a\<close> by (simp add: in_slot_def)
    qed
  qed
  then show ?thesis by (meson list.set_sel(1))
qed

lemma slot_rows_append_untyped:
  "f_memory_kind g = None \<Longrightarrow>
    slot_rows (d\<lparr>db_facts := db_facts d @ [g], db_fact_seq := n\<rparr>) sc s p = slot_rows d sc s p"
  by (simp add: slot_rows_def in_slot_def)

section \<open>The collaborators\<close>

text \<open>The law of the injected writer: on a well formed store a successful call inserts one current,
  untyped, unconflicted row with the request's stripped content and scope, changes nothing else,
  and reports the id of this row as a plain insertion.\<close>

locale fact_writer =
  fixes fw :: fact_writer_fn
  assumes inserts: "slot_inv d \<Longrightarrow> fw req obs d = Inr (r, d') \<Longrightarrow>
      \<exists>f. sql_insert_fact f d = Inr (d', fw_fact_id r) \<and> is_current f \<and> f_memory_kind f = None
        \<and> f_conflict_group f = None \<and> f_scope f = py_strip (wr_scope req) \<and> f_content f = py_strip (wr_content req)"
    and reports: "fw req obs d = Inr (r, d') \<Longrightarrow> fw_existing_fact_id r = None \<and> fw_outcome r = ''inserted''"
begin

lemma new_row:
  assumes inv: "slot_inv d" and ok: "fw req obs d = Inr (r, d')"
  obtains g where "d' = d\<lparr>db_facts := db_facts d @ [g], db_fact_seq := fw_fact_id r\<rparr>"
    "f_id g = fw_fact_id r" "is_current g" "f_memory_kind g = None" "f_conflict_group g = None"
    "f_scope g = py_strip (wr_scope req)" "f_content g = py_strip (wr_content req)"
    "fw_fact_id r \<notin> set (fact_ids d)" "slot_inv d'"
proof -
  from inserts [OF inv ok] obtain f where f: "sql_insert_fact f d = Inr (d', fw_fact_id r)"
    "is_current f" "f_memory_kind f = None" "f_conflict_group f = None"
    "f_scope f = py_strip (wr_scope req)" "f_content f = py_strip (wr_content req)" by blast
  have inv': "slot_inv d'" "fw_fact_id r \<notin> set (fact_ids d)"
    using slot_inv_insert [OF inv f(1)] f(3,4) by simp_all
  show thesis
    by (rule that [of "f\<lparr>f_id := fw_fact_id r\<rparr>"])
      (use f inv' in \<open>simp_all add: sql_insert_fact_Inr is_current_def\<close>)
qed

text \<open>An untyped write: a plain insertion, possibly merged with a near duplicate.\<close>

lemma create_untyped_inv:
  assumes inv: "slot_inv d"
    and near: "\<And>c f. near = Some c \<Longrightarrow> f \<in> set (db_facts d) \<Longrightarrow> f_id f = nd_fact_id c \<Longrightarrow> f_conflict_group f = None"
    and ok: "create_fact env fw req None near obs d = Inr (r, cid, enq, d')"
  shows "slot_inv d'"
proof -
  from ok obtain r2 d2 where w: "fw req obs d = Inr (r2, d2)"
    and m: "(case near of Some c \<Rightarrow> merge_near_duplicate r2 c req (we_now env) d2
            | None \<Rightarrow> Inr ((r2, Some (fw_fact_id r2)), d2)) = Inr ((r, enq), d')"
    by (auto simp: create_fact_def settle_typed_def rbind_eq_Inr)
  show ?thesis
  proof (rule new_row [OF inv w])
    fix g assume g: "d2 = d\<lparr>db_facts := db_facts d @ [g], db_fact_seq := fw_fact_id r2\<rparr>"
      "f_id g = fw_fact_id r2" "f_conflict_group g = None" "slot_inv d2" "fw_fact_id r2 \<notin> set (fact_ids d)"
    show ?thesis
    proof (cases near)
      case None
      then have "d' = d2" using m by simp
      then show ?thesis using g(4) by simp
    next
      case (Some c)
      have free: "f_conflict_group f = None"
        if "f \<in> set (db_facts d2)" "f_id f = fw_fact_id r2 \<or> f_id f = nd_fact_id c" for f
        using that near [OF Some, of f] g(1,3,5) by (auto simp: fact_ids_def image_iff)
      from m Some show ?thesis
        by (auto simp: merge_near_duplicate_def rbind_eq_Inr split: if_splits
            intro: supersede_near_duplicate_inv [OF g(4)] dest: free)
    qed
  qed
qed

end

text \<open>The law of the enqueue callback: it writes embedding jobs and nothing else.\<close>

locale embedding_outbox =
  fixes enq :: "int \<Rightarrow> db \<Rightarrow> db res"
  assumes jobs_only: "enq i d = Inr d' \<Longrightarrow> \<exists>js. d' = d\<lparr>db_jobs := js\<rparr>"
begin

lemma same_slots: "enq i d = Inr d' \<Longrightarrow> same_slots d d'"
  using jobs_only by (fastforce simp: same_slots_def)

end

section \<open>A typed write\<close>

context fact_writer
begin

lemma create_enter_inv:
  assumes inv: "slot_inv d" and empty: "cand_rows d c = []"
    and w: "fw req obs d = Inr (r, d2)" and p: "persist_state_candidate r c None d2 = Inr d4"
  shows "slot_inv d4"
proof (rule new_row [OF inv w])
  fix g assume g: "d2 = d\<lparr>db_facts := db_facts d @ [g], db_fact_seq := fw_fact_id r\<rparr>"
    "f_id g = fw_fact_id r" "is_current g" "f_memory_kind g = None" "f_conflict_group g = None" "slot_inv d2"
  have "cand_rows d2 c = []" using empty g(1,4) by (simp add: slot_rows_append_untyped)
  then show ?thesis
    by (intro persist_enter_inv [OF g(6) _ g(2,3) _ g(5) _ p]) (simp_all add: g(1,4))
qed

lemma create_join_inv:
  assumes inv: "slot_inv d" and k: "k \<in> set (db_conflicts d)" "is_open k"
    and slot: "k_scope k = sc_scope c" "k_subject_key k = sc_subject_key c" "k_predicate_key k = sc_predicate_key c"
    and w: "fw req obs d = Inr (r, d2)" and p: "persist_state_candidate r c (Some (k_id k)) d2 = Inr d4"
    and a: "add_conflict_member (k_id k) (fw_fact_id r) d4 = Inr d5"
  shows "slot_inv d5"
proof (rule new_row [OF inv w])
  fix g assume g: "d2 = d\<lparr>db_facts := db_facts d @ [g], db_fact_seq := fw_fact_id r\<rparr>"
    "f_id g = fw_fact_id r" "is_current g" "f_memory_kind g = None" "f_conflict_group g = None" "slot_inv d2"
  show ?thesis
    by (rule persist_join_inv [OF g(6) _ g(2,3) _ g(5) _ k(2) slot p a]) (use k(1) in \<open>simp_all add: g(1,4)\<close>)
qed

text \<open>The statements of a typed creation.\<close>

lemma create_typed_Inr:
  assumes "create_fact env fw req (Some (c, sd)) None obs d = Inr (r', cid, enq, d')"
  obtains d1 r d2 d4 where "prepare_state_mutation env sd d = Inr (cid, d1)" "fw req obs d1 = Inr (r, d2)"
    "persist_state_candidate r c cid d2 = Inr d4" "enq = Some (fw_fact_id r)" "fw_fact_id r' = fw_fact_id r"
    "sd_action sd = Supersede \<Longrightarrow> finish_state_supersession (sd_target_fact_id sd) (fw_fact_id r) d4 = Inr d'"
    "\<And>g. sd_action sd = Conflict \<Longrightarrow> cid = Some g \<Longrightarrow> add_conflict_member g (fw_fact_id r) d4 = Inr d'"
    "sd_action sd = Conflict \<Longrightarrow> cid \<noteq> None"
    "sd_action sd \<noteq> Supersede \<Longrightarrow> sd_action sd \<noteq> Conflict \<Longrightarrow> d' = d4"
proof -
  from assms obtain d1 r d2 d4 where
    s: "prepare_state_mutation env sd d = Inr (cid, d1)" "fw req obs d1 = Inr (r, d2)"
    "persist_state_candidate r c cid d2 = Inr d4" "enq = Some (fw_fact_id r)"
    and f: "(if sd_action sd = Supersede then finish_state_supersession (sd_target_fact_id sd) (fw_fact_id r) d4
             else if sd_action sd = Conflict
             then (case cid of None \<Rightarrow> Inl (RuntimeError ''state conflict group was not established'')
                   | Some g \<Rightarrow> add_conflict_member g (fw_fact_id r) d4)
             else Inr d4) = Inr d'"
    and r': "fact_write_result_init (fw_fact_id r) (action_text (sd_action sd)) (fw_existing_fact_id r) (fw_detail r)
               = Inr r'"
    by (auto simp: create_fact_def settle_typed_def rbind_eq_Inr)
  have "fw_fact_id r' = fw_fact_id r" using r' by (auto simp: fact_write_result_init_def split: if_splits)
  then show thesis
    by (rule that [OF s]) (use f in \<open>auto split: option.splits\<close>)
qed

lemma create_typed_inv:
  assumes inv: "slot_inv d" and c: "sc_memory_kind c = ''state''" "cand_clean c"
    and dec: "decide_state_write rt d c = Inr sd"
    and new: "sd_action sd \<noteq> Dedup" "sd_action sd = Conflict \<Longrightarrow> sd_target_fact_id sd = None"
    and uuid: "we_conflict_id env \<noteq> []"
    and ok: "create_fact env fw req (Some (c, sd)) None obs d = Inr (r', cid, enq, d')"
  shows "slot_inv d'"
proof (rule create_typed_Inr [OF ok])
  fix d1 r d2 d4
  assume prep: "prepare_state_mutation env sd d = Inr (cid, d1)" and w: "fw req obs d1 = Inr (r, d2)"
    and p: "persist_state_candidate r c cid d2 = Inr d4"
    and fin: "sd_action sd = Supersede \<Longrightarrow> finish_state_supersession (sd_target_fact_id sd) (fw_fact_id r) d4 = Inr d'"
    and add: "\<And>g. sd_action sd = Conflict \<Longrightarrow> cid = Some g \<Longrightarrow> add_conflict_member g (fw_fact_id r) d4 = Inr d'"
    and other: "sd_action sd \<noteq> Supersede \<Longrightarrow> sd_action sd \<noteq> Conflict \<Longrightarrow> d' = d4"
  from inv c dec show ?thesis
  proof (cases rule: decide_state_write_cases)
    case Add
    then have "cid = None" "d1 = d" using prep by (simp_all add: prepare_state_mutation_def)
    then show ?thesis using create_enter_inv [OF inv Add(2)] w p other Add(1) by simp
  next
    case (Dup i)
    then show ?thesis using new(1) by simp
  next
    case (Super f)
    let ?P = "\<lambda>g. f_id g = f_id f \<and> f_scope g = sc_scope c \<and> is_current g \<and> f_conflict_group g = None"
    let ?u = "\<lambda>g. g\<lparr>f_invalid_at := Some (we_now env)\<rparr>"
    obtain n where up: "sql_update_facts ?P ?u d = Inr (d1, n)" and cid: "cid = None"
      using prep Super by (auto simp: prepare_state_mutation_def rbind_eq_Inr)
    have inv1: "slot_inv d1" by (rule sql_retire_inv [OF inv up]) (auto simp: is_current_def)
    have "cand_rows d1 c = []"
      using invalidated_slot_empty [OF inv Super(3,4)] up by (simp add: sql_update_facts_Inr)
    then have inv4: "slot_inv d4" using create_enter_inv [OF inv1 _ w] p cid by simp
    obtain m where "sql_update_facts (\<lambda>g. f_id g = f_id f \<and> f_invalid_at g \<noteq> None \<and> f_superseded_by g = None)
                   (\<lambda>g. g\<lparr>f_superseded_by := Some (fw_fact_id r)\<rparr>) d4 = Inr (d', m)"
      using fin [OF Super(1)] Super(2) by (auto simp: finish_state_supersession_def rbind_eq_Inr)
    then show ?thesis by (rule sql_retire_inv [OF inv4]) (auto simp: is_current_def)
  next
    case (Open f)
    have "f \<in> set (db_facts d)" using slot_rows_mem [of f d] Open(4) by (metis list.set_intros(1))
    then have "conflict_groups (sd_current_fact_ids sd) d = []"
      using slot_conflict_groups [OF _ inv Open(5)] Open(3) by simp
    then obtain cr where o: "open_state_conflict (we_runtime env) (we_now env) (we_conflict_id env)
                      (sc_subject_key c) (sc_predicate_key c) [f_id f] (sc_scope c)
                      (Some (we_now env)) (Some (JObj [(''reason'', JStr (sd_reason sd))])) d = Inr (cr, d1)"
      and cid: "cid = Some (cr_conflict_id cr)"
      using prep Open by (auto simp: prepare_state_mutation_def rbind_eq_Inr)
    have inv1: "slot_inv d1" by (rule open_state_conflict_inv [OF inv uuid o])
    have "\<exists>k \<in> set (db_conflicts d1). is_open k \<and> k_id k = cr_conflict_id cr \<and> k_scope k = sc_scope c
        \<and> k_subject_key k = sc_subject_key c \<and> k_predicate_key k = sc_predicate_key c"
      by (rule open_state_conflict_Inr [OF o])
        (use c(2) in \<open>simp add: is_open_def cand_clean_def clean_required\<close>)
    then obtain k where k: "k \<in> set (db_conflicts d1)" "is_open k" "k_id k = cr_conflict_id cr"
      "k_scope k = sc_scope c" "k_subject_key k = sc_subject_key c" "k_predicate_key k = sc_predicate_key c"
      by blast
    show ?thesis
      by (rule create_join_inv [OF inv1 k(1,2,4,5,6) w]) (use p add [OF Open(1)] cid k(3) in simp_all)
  next
    case (Join k)
    have "cid = Some (k_id k)" "d1 = d"
      using prep Join(1) conflict_groups_joined [OF inv Join(4,9)] Join(8)
      by (simp_all add: prepare_state_mutation_def)
    then show ?thesis using create_join_inv [OF inv Join(2,3,5,6,7)] w p add [OF Join(1)] by simp
  qed
qed

end

section \<open>The candidate and the near duplicate\<close>

text \<open>A candidate that its constructor has validated.\<close>

definition valid_candidate :: "runtime \<Rightarrow> state_candidate option \<Rightarrow> bool" where
  "valid_candidate rt cand = (case cand of None \<Rightarrow> True | Some c \<Rightarrow> state_candidate_init rt c = Inr c)"

lemma state_candidate_init_clean:
  "state_candidate_init rt c = Inr c' \<Longrightarrow> cand_clean c' \<and> sc_memory_kind c' = py_strip (sc_memory_kind c)"
  by (auto simp: state_candidate_init_def rbind_eq_Inr cand_clean_def dest: required_clean py_required_Inr)

lemma strip_state: "py_strip ''state'' = ''state''"
  by code_simp

lemma effective_candidate_clean:
  assumes "valid_candidate rt cand" and "validate_state_candidate req cand = Inr ()"
    and "effective_candidate rt now req cand = Inr (Some c)"
  shows "cand_clean c \<and> sc_memory_kind c = ''state''"
proof -
  obtain c0 where c0: "cand = Some c0" using assms(3) by (cases cand) (simp_all add: effective_candidate_def)
  have k: "sc_memory_kind c0 = ''state''"
    using assms(2) c0 by (simp add: validate_state_candidate_def split: if_splits)
  show ?thesis
  proof (cases "sc_valid_from c0")
    case None
    then show ?thesis
      using assms(3) k by (auto simp: effective_candidate_def c0 rbind_eq_Inr strip_state dest!: state_candidate_init_clean)
  next
    case (Some v)
    then have "c = c0" using assms(3) by (simp add: effective_candidate_def c0)
    then show ?thesis using assms(1) k state_candidate_init_clean [of rt c0 c0] by (simp add: valid_candidate_def c0)
  qed
qed

lemma effective_candidate_None:
  "effective_candidate rt now req cand = Inr None \<longleftrightarrow> cand = None"
  by (cases cand) (auto simp: effective_candidate_def rbind_eq_Inr)

lemma py_max_mem: "py_max key x xs \<in> set (x # xs)"
proof (induction xs arbitrary: x)
  case (Cons y ys)
  then show ?case using Cons [of "if key x < key y then y else x"] by auto
qed simp

lemma near_duplicate_free:
  assumes inv: "slot_inv d" and ok: "find_untyped_near_duplicate env req d = Inr (Some c)"
    and f: "f \<in> set (db_facts d)" "f_id f = nd_fact_id c"
  shows "f_conflict_group f = None"
proof -
  obtain v identity cs where "find_write_near_duplicates (we_near_lib env) (wr_content req) (wr_scope req) v
      (ndc_cosine_threshold (we_near env)) (ndc_candidate_limit (we_near env)) (Some identity) d = Inr cs" "c \<in> set cs"
    using ok py_max_mem [of near_key]
    by (auto simp: find_untyped_near_duplicate_def rbind_eq_Inr split: option.splits if_splits sum.splits list.splits)
  then show ?thesis
    by (rule find_write_near_duplicates_mem) (use slot_inv_same_id [OF inv f(1)] f(2) in metis)
qed

section \<open>The whole write\<close>

definition outbox_ok :: "'v write_env \<Rightarrow> bool" where
  "outbox_ok env \<longleftrightarrow> (\<forall>enq. we_embedding_enqueue env = Some enq \<longrightarrow> embedding_outbox enq)"

text \<open>What the decision pair of a typed write must be.\<close>

definition typed_ok :: "'v write_env \<Rightarrow> db \<Rightarrow> (state_candidate \<times> slot_decision) option \<Rightarrow> bool" where
  "typed_ok env d typed = (case typed of None \<Rightarrow> True
     | Some (c, sd) \<Rightarrow> sc_memory_kind c = ''state'' \<and> cand_clean c
         \<and> decide_state_write (we_runtime env) d c = Inr sd)"

lemma decide_same_slots: "same_slots d d' \<Longrightarrow> decide_state_write rt d' c = decide_state_write rt d c"
  by (simp add: decide_state_write_def current_state_facts_def same_slots_rows)

lemma typed_ok_same_slots: "same_slots d d' \<Longrightarrow> typed_ok env d' typed = typed_ok env d typed"
  by (simp add: typed_ok_def decide_same_slots split: option.splits prod.splits)

lemma enqueue_frame:
  assumes "outbox_ok env"
    and "(case (x, we_embedding_enqueue env) of (Some i, Some enq) \<Rightarrow> enq i d | _ \<Rightarrow> Inr d) = Inr d'"
  shows "same_slots d d'"
  using assms embedding_outbox.same_slots by (auto simp: outbox_ok_def split: option.splits)

context fact_writer
begin

lemma place_fact_inv:
  assumes inv: "slot_inv d" and typed: "typed_ok env d typed" and uuid: "we_conflict_id env \<noteq> []"
    and near: "near \<noteq> None \<longrightarrow> typed = None"
      "\<And>c f. near = Some c \<Longrightarrow> f \<in> set (db_facts d) \<Longrightarrow> f_id f = nd_fact_id c \<Longrightarrow> f_conflict_group f = None"
    and ok: "place_fact env fw req typed dup near obs d = Inr (r, cid, enq, d')"
  shows "slot_inv d'"
proof (cases typed)
  case None
  then show ?thesis
  proof (cases dup)
    case None
    then have "create_fact env fw req None near obs d = Inr (r, cid, enq, d')"
      using ok \<open>typed = None\<close> by (simp add: place_fact_def)
    then show ?thesis by (rule create_untyped_inv [OF inv, rotated]) (rule near(2))
  next
    case (Some i)
    then show ?thesis using ok inv \<open>typed = None\<close> by (auto simp: place_fact_def rbind_eq_Inr)
  qed
next
  case (Some p)
  obtain c sd where p: "p = (c, sd)" by fastforce
  have t: "sc_memory_kind c = ''state''" "cand_clean c" "decide_state_write (we_runtime env) d c = Inr sd"
    using typed Some p by (simp_all add: typed_ok_def)
  have n: "near = None" using near(1) Some by auto
  show ?thesis
  proof (cases "sd_target_fact_id sd \<noteq> None \<and> (sd_action sd = Dedup \<or> sd_action sd = Conflict)")
    case True
    then show ?thesis using ok inv Some p by (auto simp: place_fact_def rbind_eq_Inr split: if_splits)
  next
    case False
    have "create_fact env fw req (Some (c, sd)) None obs d = Inr (r, cid, enq, d')"
      using ok False Some p n by (auto simp: place_fact_def split: option.splits if_splits)
    moreover have "sd_action sd \<noteq> Dedup"
    proof
      assume d: "sd_action sd = Dedup"
      from inv t show False by (cases rule: decide_state_write_cases) (use d False in simp_all)
    qed
    ultimately show ?thesis using False by (intro create_typed_inv [OF inv t _ _ uuid]) auto
  qed
qed

lemma commit_write_inv:
  assumes inv: "slot_inv d" and typed: "typed_ok env d typed" and uuid: "we_conflict_id env \<noteq> []"
    and outbox: "outbox_ok env"
    and ok: "commit_write env fw ctx req h typed d = Inr (out, d')"
  shows "slot_inv d'"
proof -
  from ok obtain obs d1 dup near r cid enq d2 d3 d4 sup d5 detail where
    o: "record_observation (we_runtime env) ctx req (we_now env) d = Inr (obs, d1)"
    and near: "(if typed = None \<and> wr_supersede_fact_id req = None \<and> dup = None
            then find_untyped_near_duplicate env req d1 else Inr None) = Inr near"
    and place: "place_fact env fw req typed dup near obs d1 = Inr (r, cid, enq, d2)"
    and enq: "(case (enq, we_embedding_enqueue env) of
              (Some i, Some enq) \<Rightarrow> enq i d2 | _ \<Rightarrow> Inr d2) = Inr d3"
    and prov: "attach_provenance (fw_fact_id r) obs req (we_now env) d3 = Inr d4"
    and sup: "(if typed = None then supersede_if_requested (wr_supersede_fact_id req) (fw_fact_id r) (we_now env) d4
            else Inr (False, d4)) = Inr (sup, d5)"
    and log: "insert_write_log
              \<lparr>l_write_id = we_write_id env, l_idempotency_key = wr_idempotency_key req,
               l_client_id = cc_client_id ctx, l_session_id = Some (cc_session_id ctx),
               l_operation = wr_operation req, l_outcome = fw_outcome r, l_fact_id = Some (fw_fact_id r),
               l_existing_fact_id = fw_existing_fact_id r, l_observation_id = Some obs,
               l_recorded_at = we_now env, l_request_sha256 = h, l_detail_json = detail\<rparr> d5 = Inr d'"
    unfolding commit_write_def rbind_eq_Inr Let_def by (auto simp: rbind_eq_Inr)
  have ss1: "same_slots d d1" by (rule record_observation_frame [OF o])
  have inv1: "slot_inv d1" using ss1 inv by (simp add: same_slots_inv)
  have "typed_ok env d1 typed" using typed by (simp add: typed_ok_same_slots [OF ss1])
  then have inv2: "slot_inv d2"
    using near near_duplicate_free [OF inv1]
    by (intro place_fact_inv [OF inv1 _ uuid _ _ place]) (auto split: if_splits)
  have inv4: "slot_inv d4"
    using inv2 same_slots_inv [OF enqueue_frame [OF outbox enq]] same_slots_inv [OF attach_provenance_frame [OF prov]]
    by simp
  have "slot_inv d5" using sup inv4 supersede_if_requested_inv [OF inv4] by (auto split: if_splits)
  then show ?thesis using same_slots_inv [OF insert_write_log_frame [OF log]] by simp
qed

lemma write_txn_inv:
  assumes inv: "slot_inv d" and uuid: "we_conflict_id env \<noteq> []" and outbox: "outbox_ok env"
    and cand: "valid_candidate (we_runtime env) cand" "validate_state_candidate req cand = Inr ()"
    and ok: "write_txn env fw ctx req cand d = Inr (out, d')"
  shows "slot_inv d'"
proof -
  from ok obtain d1 where d1: "register_client ctx (we_now env) d = Inr d1"
    by (auto simp: write_txn_def Let_def rbind_eq_Inr)
  have inv1: "slot_inv d1" using inv same_slots_inv [OF register_client_frame [OF d1]] by simp
  show ?thesis
  proof (cases "load_prior (cc_client_id ctx) (wr_idempotency_key req) d1")
    case (Some prior)
    then show ?thesis using ok d1 inv1 by (auto simp: write_txn_def Let_def rbind_eq_Inr split: if_splits)
  next
    case None
    with ok d1 obtain d2 dec eff dec' sd where
      d2: "register_session (we_runtime env) ctx (we_now env) d1 = Inr d2"
      and eff: "effective_candidate (we_runtime env) (we_now env) req cand = Inr eff"
      and sg: "slot_gate env req eff dec d2 = Inr (dec', sd)"
      and fin: "(case dec' of Some v \<Rightarrow> record_factless_decision env ctx req
                    (request_sha256 (we_runtime env) ctx req cand) v d2
          | None \<Rightarrow> commit_write env fw ctx req (request_sha256 (we_runtime env) ctx req cand)
                      (pair_typed eff sd) d2) = Inr (out, d')"
      by (auto simp: write_txn_def Let_def rbind_eq_Inr)
    have inv2: "slot_inv d2" using inv1 same_slots_inv [OF register_session_frame [OF d2]] by simp
    have typed: "typed_ok env d2 (pair_typed eff sd)"
    proof (cases eff)
      case (Some c)
      then show ?thesis
        using sg eff effective_candidate_clean [OF cand]
        by (auto simp: slot_gate_def rbind_eq_Inr pair_typed_def typed_ok_def split: option.splits)
    qed (simp add: pair_typed_def typed_ok_def)
    show ?thesis
    proof (cases dec')
      case None
      then show ?thesis using fin commit_write_inv [OF inv2 typed uuid outbox] by auto
    next
      case (Some v)
      then show ?thesis using fin inv2 same_slots_inv [OF record_factless_frame] by fastforce
    qed
  qed
qed

lemma memory_write_inv:
  assumes "slot_inv d" and "we_conflict_id env \<noteq> []" and "outbox_ok env"
    and "valid_candidate (we_runtime env) cand"
  shows "slot_inv (snd (memory_write env fw ctx req cand d))"
proof (cases "rbind (authorize_context (we_policy env) ctx) (\<lambda>ctx'.
           rbind (validate_state_candidate req cand) (\<lambda>_. write_txn env fw ctx' req cand d))")
  case (Inl e)
  then show ?thesis using assms(1) by (simp add: memory_write_def)
next
  case (Inr p)
  obtain out d' where p: "p = (out, d')" by fastforce
  from Inr p obtain ctx' u where "validate_state_candidate req cand = Inr u" "write_txn env fw ctx' req cand d = Inr (out, d')"
    by (auto simp: rbind_eq_Inr)
  with write_txn_inv [OF assms, of req ctx' out d'] Inr p show ?thesis by (simp add: memory_write_def)
qed

end

section \<open>The writer of the service\<close>

lemma service_fact_writer_inserts:
  assumes inv: "slot_inv d" and ok: "service_fact_writer clock req obs d = Inr (r, d')"
  shows "\<exists>f. sql_insert_fact f d = Inr (d', fw_fact_id r) \<and> is_current f \<and> f_memory_kind f = None
        \<and> f_conflict_group f = None \<and> f_scope f = py_strip (wr_scope req) \<and> f_content f = py_strip (wr_content req)"
proof -
  from ok obtain d1 i where ins: "insert_fact clock (wr_content req) (wr_category req) (wr_tags req) (wr_trust_score req)
              None None None None None (Some (wr_source_authority req)) (wr_scope req)
              (wr_sensitivity req) None d = Inr (d1, i)"
    and st: "(case wr_correction_status req of
              None \<Rightarrow> Inr d1
            | Some st \<Rightarrow>
                rbind (sql_update_facts (\<lambda>f. f_id f = i) (\<lambda>f. f\<lparr>f_correction_status := Some st\<rparr>) d1)
                  (\<lambda>(d2, n). Inr d2)) = Inr d'"
    and r: "fw_fact_id r = i"
    by (auto simp: service_fact_writer_def rbind_eq_Inr fact_write_result_init_def split: if_splits)
  show ?thesis
  proof (rule insert_fact_Inr [OF ins])
    fix f assume f: "sql_insert_fact f d = Inr (d1, i)" "f_content f = py_strip (wr_content req)"
      "f_scope f = py_strip (wr_scope req)" "f_invalid_at f = None" "f_superseded_by f = None"
      "f_conflict_group f = None" "f_memory_kind f = None"
    show ?thesis
    proof (cases "wr_correction_status req")
      case None
      then show ?thesis using st f r by (auto simp: is_current_def)
    next
      case (Some c)
      let ?g = "f\<lparr>f_correction_status := Some c\<rparr>"
      have new: "i \<notin> set (fact_ids d)" by (rule slot_inv_insert(3) [OF inv f(1)]) (simp_all add: f)
      then have "update_where (\<lambda>f. f_id f = i) (\<lambda>f. f\<lparr>f_correction_status := Some c\<rparr>) (db_facts d) = db_facts d"
        by (intro update_where_none) (auto simp: fact_ids_def)
      then have up: "(db_slot_index d \<longrightarrow> slot_unique (db_facts d @ [f\<lparr>f_id := i, f_correction_status := Some c\<rparr>]))
          \<and> superseded_fk (db_facts d @ [f\<lparr>f_id := i, f_correction_status := Some c\<rparr>])
          \<and> d' = d1\<lparr>db_facts := db_facts d @ [f\<lparr>f_id := i, f_correction_status := Some c\<rparr>]\<rparr>"
        and d1: "i = db_fact_seq d + 1 \<and> d1 = d\<lparr>db_facts := db_facts d @ [f\<lparr>f_id := i\<rparr>], db_fact_seq := i\<rparr>"
        using st Some f(1) by (auto simp: rbind_eq_Inr sql_update_facts_Inr sql_insert_fact_Inr)
      have comm: "?g\<lparr>f_id := i\<rparr> = f\<lparr>f_id := i, f_correction_status := Some c\<rparr>" by simp
      have "sql_insert_fact ?g d = Inr (d', i)"
        unfolding sql_insert_fact_Inr comm using up d1 by (cases d) auto
      then show ?thesis using f r by (intro exI [of _ ?g]) (simp add: is_current_def)
    qed
  qed
qed

interpretation svc: fact_writer "service_fact_writer clock" for clock
proof unfold_locales
  show "fw_existing_fact_id r = None \<and> fw_outcome r = ''inserted''"
    if "service_fact_writer clock req obs d = Inr (r, d')" for req obs d r d'
    using that by (auto simp: service_fact_writer_def rbind_eq_Inr fact_write_result_init_def split: if_splits)
qed (rule service_fact_writer_inserts)

section \<open>The claim\<close>

text \<open>C1: every write keeps the store well formed, whatever the request, the candidate and the policy
  decision, and whether it succeeds, is refused or raises: after it every slot is empty, or has one
  settled value, or is in exactly one open conflict whose members are its current facts.\<close>

theorem memory_write_slot_inv:
  assumes "slot_inv d" and "we_conflict_id env \<noteq> []" and "outbox_ok env"
    and "valid_candidate (we_runtime env) cand"
  shows "slot_inv (snd (memory_write env (service_fact_writer (we_clock env)) ctx req cand d))"
  using assms by (rule svc.memory_write_inv)

definition demo_env :: "string write_env" where
  "demo_env = \<lparr>we_runtime = demo_runtime, we_policy = demo_policy, we_now = ''now'', we_clock = ''clk'',
     we_write_id = ''w1'', we_conflict_id = ''c2'',
     we_near = \<lparr>ndc_enabled = True, ndc_cosine_threshold = 97/100, ndc_candidate_limit = 64,
                ndc_embedding_identity = Some ''m''\<rparr>,
     we_near_lib = demo_near_lib, we_query_embedder = None, we_embedding_enqueue = None\<rparr>"

definition demo_state_request :: write_request where
  "demo_state_request = demo_request\<lparr>wr_content := ''uses vim'', wr_source_authority := 9/10\<rparr>"

lemma demo_env_ok: "we_conflict_id demo_env \<noteq> []" "outbox_ok demo_env"
  by (simp_all add: demo_env_def outbox_ok_def)

lemma demo_candidate_valid: "valid_candidate demo_runtime (Some demo_candidate)"
  by code_simp

theorem memory_write_slot_inv_witness:
  "slot_inv (snd (memory_write demo_env (service_fact_writer (we_clock demo_env)) demo_context
     demo_state_request (Some demo_candidate) demo_db))"
  by (rule memory_write_slot_inv [OF demo_db_slot_inv demo_env_ok])
    (use demo_candidate_valid in \<open>simp add: demo_env_def\<close>)

end
