(* ===== verification/Write_Replay.thy ===== *)
theory Write_Replay
  imports Write_Invariant
begin

text \<open>
  Idempotency of the write envelope: a retried request returns the recorded outcome and changes
  nothing; the same key with another request is refused and changes nothing.
\<close>

section \<open>What the statements leave of clients and of the write log\<close>

definition same_ledger :: "db \<Rightarrow> db \<Rightarrow> bool" where
  "same_ledger d d' \<longleftrightarrow> db_clients d' = db_clients d \<and> db_write_log d' = db_write_log d
     \<and> db_fact_columns d' = db_fact_columns d"

lemma same_ledger_refl [simp]: "same_ledger d d"
  by (simp add: same_ledger_def)

lemma same_ledger_trans: "same_ledger a b \<Longrightarrow> same_ledger b c \<Longrightarrow> same_ledger a c"
  by (simp add: same_ledger_def)

lemma sql_update_ledger: "sql_update_facts P u d = Inr (d', n) \<Longrightarrow> same_ledger d d'"
  by (simp add: sql_update_facts_Inr same_ledger_def)

lemma register_session_ledger: "register_session rt ctx now d = Inr d' \<Longrightarrow> same_ledger d d'"
  by (auto simp: register_session_def insert_session_or_ignore_def same_ledger_def Let_def rbind_eq_Inr
      split: option.splits if_splits)

lemma record_observation_ledger: "record_observation rt ctx req now d = Inr (i, d') \<Longrightarrow> same_ledger d d'"
  by (auto simp: record_observation_def insert_observation_or_ignore_def same_ledger_def Let_def rbind_eq_Inr
      split: option.splits if_splits)

lemma attach_provenance_ledger: "attach_provenance f i req now d = Inr d' \<Longrightarrow> same_ledger d d'"
  by (auto simp: attach_provenance_def insert_provenance_or_ignore_def same_ledger_def split: if_splits)

lemma supersede_if_requested_ledger: "supersede_if_requested old new now d = Inr (b, d') \<Longrightarrow> same_ledger d d'"
  by (auto simp: supersede_if_requested_def rbind_eq_Inr split: option.splits if_splits dest: sql_update_ledger)

lemma merge_near_ledger: "merge_near_duplicate r c req now d = Inr (x, d') \<Longrightarrow> same_ledger d d'"
  by (auto simp: merge_near_duplicate_def supersede_near_duplicate_def rbind_eq_Inr
      split: if_splits dest: sql_update_ledger)

lemma open_conflict_ledger:
  assumes "open_state_conflict rt now uuid s p ids sc det detail d = Inr (r, d')"
  shows "same_ledger d d'"
  using assms by (rule open_state_conflict_Inr) (simp add: same_ledger_def)

lemma prepare_ledger: "prepare_state_mutation env sd d = Inr (cid, d') \<Longrightarrow> same_ledger d d'"
  by (auto simp: prepare_state_mutation_def rbind_eq_Inr split: if_splits option.splits list.splits
      dest: sql_update_ledger open_conflict_ledger)

lemma persist_ledger: "persist_state_candidate r c cid d = Inr d' \<Longrightarrow> same_ledger d d'"
  by (auto simp: persist_state_candidate_def rbind_eq_Inr dest: sql_update_ledger)

lemma finish_ledger: "finish_state_supersession old new d = Inr d' \<Longrightarrow> same_ledger d d'"
  by (auto simp: finish_state_supersession_def rbind_eq_Inr split: option.splits dest: sql_update_ledger)

lemma add_member_ledger: "add_conflict_member g i d = Inr d' \<Longrightarrow> same_ledger d d'"
  by (auto simp: same_ledger_def dest!: add_conflict_member_Inr)

lemma settle_typed_ledger:
  assumes "settle_typed typed r cid d = Inr (r', d')"
  shows "same_ledger d d'"
proof (cases typed)
  case None
  then show ?thesis using assms by (simp add: settle_typed_def)
next
  case (Some p)
  obtain c sd where p: "p = (c, sd)" by fastforce
  with assms Some obtain d1 where d1: "persist_state_candidate r c cid d = Inr d1"
    and fin: "(if sd_action sd = Supersede then finish_state_supersession (sd_target_fact_id sd) (fw_fact_id r) d1
                 else if sd_action sd = Conflict
                 then (case cid of None \<Rightarrow> Inl (RuntimeError ''state conflict group was not established'')
                       | Some g \<Rightarrow> add_conflict_member g (fw_fact_id r) d1)
                 else Inr d1) = Inr d'"
    by (auto simp: settle_typed_def rbind_eq_Inr)
  have "same_ledger d1 d'"
    using fin by (auto split: if_splits option.splits dest: finish_ledger add_member_ledger)
  then show ?thesis using persist_ledger [OF d1] by (rule same_ledger_trans [rotated])
qed

context embedding_outbox
begin

lemma ledger: "enq i d = Inr d' \<Longrightarrow> same_ledger d d'"
  using jobs_only by (fastforce simp: same_ledger_def)

end

lemma enqueue_ledger:
  assumes "outbox_ok env"
    and "(case (x, we_embedding_enqueue env) of (Some i, Some enq) \<Rightarrow> enq i d | _ \<Rightarrow> Inr d) = Inr d'"
  shows "same_ledger d d'"
  using assms embedding_outbox.ledger by (auto simp: outbox_ok_def split: option.splits)

text \<open>The invariant holds when the writer is called.\<close>

lemma prepare_inv:
  assumes inv: "slot_inv d" and uuid: "we_conflict_id env \<noteq> []" and ok: "prepare_state_mutation env sd d = Inr (cid, d')"
  shows "slot_inv d'"
proof -
  consider (same) "d' = d"
    | (retire) i n where "sql_update_facts (\<lambda>f. f_id f = i \<and> f_scope f = sd_scope sd \<and> is_current f \<and> f_conflict_group f = None)
                         (\<lambda>f. f\<lparr>f_invalid_at := Some (we_now env)\<rparr>) d = Inr (d', n)"
    | (opened) cr s p ids sc det det' where
        "open_state_conflict (we_runtime env) (we_now env) (we_conflict_id env) s p ids sc det det' d = Inr (cr, d')"
    using ok by (auto simp: prepare_state_mutation_def rbind_eq_Inr split: if_splits option.splits list.splits)
  then show ?thesis
  proof cases
    case retire
    then show ?thesis by (rule sql_retire_inv [OF inv]) (auto simp: is_current_def)
  next
    case opened
    then show ?thesis by (rule open_state_conflict_inv [OF inv uuid])
  qed (use inv in simp)
qed

context fact_writer
begin

lemma writer_ledger: "slot_inv d \<Longrightarrow> fw req obs d = Inr (r, d') \<Longrightarrow> same_ledger d d'"
  by (rule new_row) (auto simp: same_ledger_def)

lemma create_fact_ledger:
  assumes inv: "slot_inv d" and uuid: "we_conflict_id env \<noteq> []"
    and ok: "create_fact env fw req typed near obs d = Inr (r', cid, enq, d')"
  shows "same_ledger d d'"
proof -
  from ok obtain d1 r d2 x d3 where
    prep: "(case typed of None \<Rightarrow> Inr (None, d) | Some (c, sd) \<Rightarrow> prepare_state_mutation env sd d) = Inr (cid, d1)"
    and w: "fw req obs d1 = Inr (r, d2)"
    and near: "(case near of Some c \<Rightarrow> merge_near_duplicate r c req (we_now env) d2
            | None \<Rightarrow> Inr ((r, Some (fw_fact_id r)), d2)) = Inr (x, d3)"
    and rest: "settle_typed typed (fst x) cid d3 = Inr (r', d')"
    by (auto simp: create_fact_def rbind_eq_Inr)
  have "slot_inv d1 \<and> same_ledger d d1"
    using prep inv prepare_inv [OF inv uuid] by (auto split: option.splits dest: prepare_ledger)
  moreover have "same_ledger d2 d3" using near by (auto split: option.splits dest: merge_near_ledger)
  ultimately show ?thesis using writer_ledger [OF _ w] settle_typed_ledger [OF rest] by (meson same_ledger_trans)
qed

lemma place_fact_ledger:
  assumes "slot_inv d" and "we_conflict_id env \<noteq> []"
    and "place_fact env fw req typed dup near obs d = Inr (r, cid, enq, d')"
  shows "same_ledger d d'"
  using assms(3) create_fact_ledger [OF assms(1,2)]
  by (auto simp: place_fact_def rbind_eq_Inr split: option.splits prod.splits if_splits)

text \<open>A committed write adds one row to the log; read back, this row is the outcome.\<close>

lemma commit_write_log:
  assumes inv: "slot_inv d" and uuid: "we_conflict_id env \<noteq> []" and outbox: "outbox_ok env"
    and ok: "commit_write env fw ctx req h typed d = Inr (out, d')"
  shows "\<exists>row. db_clients d' = db_clients d \<and> db_write_log d' = db_write_log d @ [row]
    \<and> l_client_id row = cc_client_id ctx \<and> l_idempotency_key row = wr_idempotency_key req
    \<and> l_request_sha256 row = h \<and> outcome_from_row row True = Inr (out\<lparr>wo_replayed := True\<rparr>)"
proof -
  from ok obtain obs d1 dup near r cid enq d2 d3 d4 sup d5 detail where
    o: "record_observation (we_runtime env) ctx req (we_now env) d = Inr (obs, d1)"
    and place: "place_fact env fw req typed dup near obs d1 = Inr (r, cid, enq, d2)"
    and enq: "(case (enq, we_embedding_enqueue env) of
              (Some i, Some enq) \<Rightarrow> enq i d2 | _ \<Rightarrow> Inr d2) = Inr d3"
    and prov: "attach_provenance (fw_fact_id r) obs req (we_now env) d3 = Inr d4"
    and sup: "(if typed = None then supersede_if_requested (wr_supersede_fact_id req) (fw_fact_id r) (we_now env) d4
            else Inr (False, d4)) = Inr (sup, d5)"
    and log: "insert_write_log
              \<lparr>l_write_id = we_write_id env, l_idempotency_key = wr_idempotency_key req,
               l_client_id = cc_client_id ctx, l_session_id = Some (cc_session_id ctx),
               l_operation = wr_operation req, l_outcome = fw_outcome r, l_fact_id = Some (fw_fact_id r),
               l_existing_fact_id = fw_existing_fact_id r, l_observation_id = Some obs,
               l_recorded_at = we_now env, l_request_sha256 = h, l_detail_json = detail\<rparr> d5 = Inr d'"
    and out: "write_outcome_init \<lparr>wo_write_id = we_write_id env, wo_outcome = fw_outcome r,
              wo_fact_id = Some (fw_fact_id r), wo_existing_fact_id = fw_existing_fact_id r,
              wo_observation_id = Some obs, wo_replayed = False, wo_detail_json = detail\<rparr> = Inr out"
    unfolding commit_write_def rbind_eq_Inr Let_def by (auto simp: rbind_eq_Inr)
  have inv1: "slot_inv d1" using inv same_slots_inv [OF record_observation_frame [OF o]] by simp
  have "same_ledger d4 d5" using sup by (auto split: if_splits dest: supersede_if_requested_ledger)
  then have "same_ledger d d5"
    using record_observation_ledger [OF o] place_fact_ledger [OF inv1 uuid place]
      enqueue_ledger [OF outbox enq] attach_provenance_ledger [OF prov]
    by (meson same_ledger_trans)
  then show ?thesis
    using log out
    by (auto simp: same_ledger_def insert_write_log_def outcome_from_row_def write_outcome_init_def rbind_eq_Inr
        split: if_splits)
qed

lemma write_txn_log:
  assumes inv: "slot_inv d" and uuid: "we_conflict_id env \<noteq> []" and outbox: "outbox_ok env"
    and ok: "write_txn env fw ctx req cand d = Inr (out, d')" and new: "\<not> wo_replayed out"
  shows "\<exists>d1 row. register_client ctx (we_now env) d = Inr d1 \<and> db_clients d' = db_clients d1
    \<and> load_prior (cc_client_id ctx) (wr_idempotency_key req) d' = Some row
    \<and> l_request_sha256 row = request_sha256 (we_runtime env) ctx req cand
    \<and> outcome_from_row row True = Inr (out\<lparr>wo_replayed := True\<rparr>)"
proof -
  let ?h = "request_sha256 (we_runtime env) ctx req cand"
  from ok obtain d1 where d1: "register_client ctx (we_now env) d = Inr d1"
    by (auto simp: write_txn_def Let_def rbind_eq_Inr)
  have inv1: "slot_inv d1" using inv same_slots_inv [OF register_client_frame [OF d1]] by simp
  have none: "load_prior (cc_client_id ctx) (wr_idempotency_key req) d1 = None"
    using ok d1 new by (cases "load_prior (cc_client_id ctx) (wr_idempotency_key req) d1")
      (auto simp: write_txn_def Let_def rbind_eq_Inr outcome_from_row_def write_outcome_init_def split: if_splits)
  with ok d1 obtain d2 dec' eff sd where
    d2: "register_session (we_runtime env) ctx (we_now env) d1 = Inr d2"
    and fin: "(case dec' of Some v \<Rightarrow> record_factless_decision env ctx req ?h v d2
          | None \<Rightarrow> commit_write env fw ctx req ?h (pair_typed eff sd) d2) = Inr (out, d')"
    by (auto simp: write_txn_def Let_def rbind_eq_Inr)
  have inv2: "slot_inv d2" using inv1 same_slots_inv [OF register_session_frame [OF d2]] by simp
  have "\<exists>row. db_clients d' = db_clients d2 \<and> db_write_log d' = db_write_log d2 @ [row]
    \<and> l_client_id row = cc_client_id ctx \<and> l_idempotency_key row = wr_idempotency_key req
    \<and> l_request_sha256 row = ?h \<and> outcome_from_row row True = Inr (out\<lparr>wo_replayed := True\<rparr>)"
  proof (cases dec')
    case None
    then show ?thesis using fin commit_write_log [OF inv2 uuid outbox] by auto
  next
    case (Some v)
    then show ?thesis
      using fin by (auto simp: record_factless_decision_def rbind_eq_Inr Let_def insert_write_log_def
          outcome_from_row_def write_outcome_init_def split: if_splits)
  qed
  then obtain row where row: "db_clients d' = db_clients d2" "db_write_log d' = db_write_log d2 @ [row]"
    "l_client_id row = cc_client_id ctx" "l_idempotency_key row = wr_idempotency_key req"
    "l_request_sha256 row = ?h" "outcome_from_row row True = Inr (out\<lparr>wo_replayed := True\<rparr>)" by blast
  have ledger: "db_clients d2 = db_clients d1" "db_write_log d2 = db_write_log d1"
    using register_session_ledger [OF d2] by (simp_all add: same_ledger_def)
  have "load_prior (cc_client_id ctx) (wr_idempotency_key req) d' = Some row"
    using none row(2,3,4) ledger by (simp add: load_prior_def first_row_append)
  then show ?thesis using d1 row ledger by auto
qed

end

text \<open>A registered, enabled client of the same surface registers again without a change.\<close>

lemma register_client_again:
  assumes "register_client ctx now d = Inr d1" and "db_clients d' = db_clients d1"
  shows "register_client ctx now' d' = Inr d'"
proof -
  obtain c where c: "first_row (\<lambda>c. c_id c = cc_client_id ctx) (db_clients d1) = Some c"
    "c_surface c = cc_surface ctx" "c_disabled_at c = None"
    using assms(1) by (auto simp: register_client_def Let_def split: option.splits if_splits)
  have "cc_client_id ctx \<in> set (map c_id (db_clients d'))"
    using first_row_Some [OF c(1)] assms(2) by force
  then show ?thesis using c assms(2) by (simp add: register_client_def insert_client_or_ignore_def Let_def)
qed

lemma memory_write_Inr:
  "memory_write env fw ctx req cand d = (Inr out, d') \<longleftrightarrow>
    (\<exists>ctx'. authorize_context (we_policy env) ctx = Inr ctx' \<and> validate_state_candidate req cand = Inr ()
       \<and> write_txn env fw ctx' req cand d = Inr (out, d'))"
  by (auto simp: memory_write_def rbind_eq_Inr split: sum.splits prod.splits)

section \<open>The claims\<close>

text \<open>C6: writes are idempotent. When a write has succeeded, the same request by the same client returns
  the same outcome, marked as replayed, and leaves the database exactly as it is, at any later
  time and whatever the other settings of the service are then.\<close>

theorem write_replay:
  assumes inv: "slot_inv d" and uuid: "we_conflict_id env \<noteq> []" and outbox: "outbox_ok env"
    and ok: "memory_write env (service_fact_writer (we_clock env)) ctx req cand d = (Inr out, d')"
    and new: "\<not> wo_replayed out"
    and env': "we_policy env' = we_policy env" "we_runtime env' = we_runtime env"
  shows "memory_write env' fw' ctx req cand d' = (Inr (out\<lparr>wo_replayed := True\<rparr>), d')"
proof -
  obtain ctx' where a: "authorize_context (we_policy env) ctx = Inr ctx'" "validate_state_candidate req cand = Inr ()"
    and t: "write_txn env (service_fact_writer (we_clock env)) ctx' req cand d = Inr (out, d')"
    using ok unfolding memory_write_Inr by blast
  obtain d1 row where r: "register_client ctx' (we_now env) d = Inr d1" "db_clients d' = db_clients d1"
    "load_prior (cc_client_id ctx') (wr_idempotency_key req) d' = Some row"
    "l_request_sha256 row = request_sha256 (we_runtime env) ctx' req cand"
    "outcome_from_row row True = Inr (out\<lparr>wo_replayed := True\<rparr>)"
    using svc.write_txn_log [OF inv uuid outbox t new] by blast
  have "write_txn env' fw' ctx' req cand d' = Inr (out\<lparr>wo_replayed := True\<rparr>, d')"
    using register_client_again [OF r(1,2), of "we_now env'"] r(3-5) env' by (simp add: write_txn_def Let_def)
  then show ?thesis using a env' by (auto simp: memory_write_Inr)
qed

definition demo_written :: "write_outcome res \<times> db" where
  "demo_written = memory_write demo_env (service_fact_writer (we_clock demo_env)) demo_context
     demo_state_request (Some demo_candidate) demo_db"

definition demo_outcome :: write_outcome where
  "demo_outcome = \<lparr>wo_write_id = ''w1'', wo_outcome = ''supersede'', wo_fact_id = Some 5,
     wo_existing_fact_id = None, wo_observation_id = Some 1, wo_replayed = False,
     wo_detail_json = json_dumps (\<lambda>q. []) canonical_ascii
       (JObj [(''state_action'', JStr ''supersede''),
              (''state_slot'', JObj [(''predicate_key'', JStr ''editor''), (''scope'', JStr ''private''),
                                     (''subject_key'', JStr ''you'')]),
              (''superseded_fact_id'', JInt 4)])\<rparr>"

lemma demo_written_ok: "fst demo_written = Inr demo_outcome"
  by code_simp

lemma demo_outcome_new: "\<not> wo_replayed demo_outcome"
  by (simp add: demo_outcome_def)

theorem write_replay_witness:
  "memory_write demo_env (service_fact_writer ''other'') demo_context demo_state_request (Some demo_candidate)
     (snd demo_written) = (Inr (demo_outcome\<lparr>wo_replayed := True\<rparr>), snd demo_written)"
proof (rule write_replay [OF demo_db_slot_inv demo_env_ok _ demo_outcome_new])
  show "memory_write demo_env (service_fact_writer (we_clock demo_env)) demo_context demo_state_request
      (Some demo_candidate) demo_db = (Inr demo_outcome, snd demo_written)"
    using demo_written_ok by (simp add: demo_written_def prod_eq_iff)
qed simp_all

text \<open>an idempotency key is bound to its request. After a successful write, the same client using
  the key for a request with another digest gets \<open>IdempotencyConflict\<close>, and the database
  stays exactly as it is.\<close>

theorem write_key_reuse_refused:
  assumes inv: "slot_inv d" and uuid: "we_conflict_id env \<noteq> []" and outbox: "outbox_ok env"
    and ok: "memory_write env (service_fact_writer (we_clock env)) ctx req cand d = (Inr out, d')"
    and new: "\<not> wo_replayed out"
    and env': "we_policy env' = we_policy env" "we_runtime env' = we_runtime env"
    and auth: "authorize_context (we_policy env) ctx = Inr ctx'"
    and key: "wr_idempotency_key req' = wr_idempotency_key req" and cand': "validate_state_candidate req' cand' = Inr ()"
    and diff: "request_sha256 (we_runtime env) ctx' req' cand' \<noteq> request_sha256 (we_runtime env) ctx' req cand"
  shows "memory_write env' fw' ctx req' cand' d'
    = (Inl (IdempotencyConflict ''idempotency key was already used for a different request''), d')"
proof -
  have t: "write_txn env (service_fact_writer (we_clock env)) ctx' req cand d = Inr (out, d')"
    using ok auth by (auto simp: memory_write_Inr)
  obtain d1 row where r: "register_client ctx' (we_now env) d = Inr d1" "db_clients d' = db_clients d1"
    "load_prior (cc_client_id ctx') (wr_idempotency_key req) d' = Some row"
    "l_request_sha256 row = request_sha256 (we_runtime env) ctx' req cand"
    using svc.write_txn_log [OF inv uuid outbox t new] by blast
  show ?thesis
    using register_client_again [OF r(1,2), of "we_now env'"] r(3,4) env' auth key cand' diff
    by (simp add: memory_write_def write_txn_def Let_def)
qed

theorem write_key_reuse_refused_witness:
  "memory_write demo_env (service_fact_writer ''other'') demo_context
     (demo_state_request\<lparr>wr_content := ''uses ed''\<rparr>) None (snd demo_written)
   = (Inl (IdempotencyConflict ''idempotency key was already used for a different request''), snd demo_written)"
proof (rule write_key_reuse_refused [OF demo_db_slot_inv demo_env_ok _ demo_outcome_new refl refl])
  show "memory_write demo_env (service_fact_writer (we_clock demo_env)) demo_context demo_state_request
      (Some demo_candidate) demo_db = (Inr demo_outcome, snd demo_written)"
    using demo_written_ok by (simp add: demo_written_def prod_eq_iff)
  show "authorize_context (we_policy demo_env) demo_context = Inr (demo_context\<lparr>cc_access_scopes := [''private'']\<rparr>)"
    using demo_authorized by (simp add: demo_env_def)
  show "request_sha256 (we_runtime demo_env) (demo_context\<lparr>cc_access_scopes := [''private'']\<rparr>)
      (demo_state_request\<lparr>wr_content := ''uses ed''\<rparr>) None
    \<noteq> request_sha256 (we_runtime demo_env) (demo_context\<lparr>cc_access_scopes := [''private'']\<rparr>) demo_state_request
      (Some demo_candidate)"
    by code_simp
qed (simp_all add: validate_state_candidate_def)

end
