(* ===== verification/Write_Effects.thy ===== *)
theory Write_Effects
  imports Write_Replay
begin

text \<open>
  What a write can do to the facts that were there before it: nothing is deleted or reworded,
  other scopes are untouched, and only the targets of the write are retired.
\<close>

section \<open>What a statement keeps\<close>

text \<open>From \<open>d\<close> to \<open>d'\<close> every fact outside \<open>N\<close> stays with its content and scope; it may change only
  inside the scope \<open>sc\<close> or in \<open>R\<close>, and it stops being current only in \<open>R\<close>.\<close>

definition keeps :: "string \<Rightarrow> int set \<Rightarrow> int set \<Rightarrow> db \<Rightarrow> db \<Rightarrow> bool" where
  "keeps sc R N d d' \<longleftrightarrow> (\<forall>f \<in> set (db_facts d). f_id f \<notin> N \<longrightarrow>
     (\<exists>g \<in> set (db_facts d'). f_id g = f_id f \<and> f_content g = f_content f \<and> f_scope g = f_scope f
        \<and> (f_id f \<notin> R \<longrightarrow> f_scope f \<noteq> sc \<longrightarrow> g = f) \<and> (f_id f \<notin> R \<longrightarrow> is_current g = is_current f)))"

lemma keeps_same [simp]: "db_facts d' = db_facts d \<Longrightarrow> keeps sc R N d d'"
  by (auto simp: keeps_def)

lemma keeps_same_slots: "same_slots d d' \<Longrightarrow> keeps sc R N d d'"
  by (simp add: same_slots_def)

lemma keeps_append: "db_facts d' = db_facts d @ [g] \<Longrightarrow> keeps sc R N d d'"
  by (auto simp: keeps_def)

lemma keeps_trans:
  assumes 1: "keeps sc R N a b" and 2: "keeps sc R N b c"
  shows "keeps sc R N a c"
  unfolding keeps_def
proof (intro ballI impI)
  fix f assume f: "f \<in> set (db_facts a)" "f_id f \<notin> N"
  obtain g where g: "g \<in> set (db_facts b)" "f_id g = f_id f" "f_content g = f_content f" "f_scope g = f_scope f"
    "f_id f \<notin> R \<longrightarrow> f_scope f \<noteq> sc \<longrightarrow> g = f" "f_id f \<notin> R \<longrightarrow> is_current g = is_current f"
    using 1 f unfolding keeps_def by blast
  moreover obtain h where "h \<in> set (db_facts c)" "f_id h = f_id g" "f_content h = f_content g" "f_scope h = f_scope g"
    "f_id g \<notin> R \<longrightarrow> f_scope g \<noteq> sc \<longrightarrow> h = g" "f_id g \<notin> R \<longrightarrow> is_current h = is_current g"
    using 2 g f(2) unfolding keeps_def by metis
  ultimately show "\<exists>g \<in> set (db_facts c). f_id g = f_id f \<and> f_content g = f_content f \<and> f_scope g = f_scope f
        \<and> (f_id f \<notin> R \<longrightarrow> f_scope f \<noteq> sc \<longrightarrow> g = f) \<and> (f_id f \<notin> R \<longrightarrow> is_current g = is_current f)"
    by (intro bexI [of _ h]) auto
qed

lemma keeps_update:
  assumes ok: "sql_update_facts P u d = Inr (d', n)"
    and u: "\<And>f. f \<in> set (db_facts d) \<Longrightarrow> P f \<Longrightarrow> f_id f \<notin> N \<Longrightarrow>
      f_id (u f) = f_id f \<and> f_content (u f) = f_content f \<and> f_scope (u f) = f_scope f
      \<and> (f_id f \<in> R \<or> f_scope f = sc \<and> is_current (u f) = is_current f)"
  shows "keeps sc R N d d'"
  unfolding keeps_def
proof (intro ballI impI)
  fix f assume f: "f \<in> set (db_facts d)" "f_id f \<notin> N"
  have "(if P f then u f else f) \<in> set (db_facts d')"
    using ok f(1) by (auto simp: sql_update_facts_Inr in_update_where)
  then show "\<exists>g \<in> set (db_facts d'). f_id g = f_id f \<and> f_content g = f_content f \<and> f_scope g = f_scope f
        \<and> (f_id f \<notin> R \<longrightarrow> f_scope f \<noteq> sc \<longrightarrow> g = f) \<and> (f_id f \<notin> R \<longrightarrow> is_current g = is_current f)"
    using u [OF f(1) _ f(2)] by (cases "P f") (auto intro: bexI [of _ "u f"] bexI [of _ f])
qed

section \<open>The statements of the envelope\<close>

lemma supersede_near_keeps:
  assumes "supersede_near_duplicate loser survivor now d = Inr d'" and "loser \<in> R \<or> loser \<in> N"
  shows "keeps sc R N d d'"
proof -
  obtain n where "sql_update_facts (\<lambda>f. f_id f = loser \<and> is_current f)
              (\<lambda>f. f\<lparr>f_invalid_at := Some now, f_superseded_by := Some survivor\<rparr>) d = Inr (d', n)"
    using assms(1) by (auto simp: supersede_near_duplicate_def rbind_eq_Inr)
  then show ?thesis by (rule keeps_update) (use assms(2) in auto)
qed

lemma supersede_if_requested_keeps:
  assumes ok: "supersede_if_requested old new now d = Inr (b, d')" and "set_option old \<subseteq> R"
  shows "keeps sc R N d d'"
proof (cases old)
  case None
  then show ?thesis using ok by (simp add: supersede_if_requested_def)
next
  case (Some i)
  obtain s n where "sql_update_facts (\<lambda>f. f_id f = i \<and> f_scope f = s \<and> is_current f)
                           (\<lambda>f. f\<lparr>f_invalid_at := Some now, f_superseded_by := Some new\<rparr>) d = Inr (d', n)"
    using ok Some by (auto simp: supersede_if_requested_def rbind_eq_Inr split: if_splits option.splits)
  then show ?thesis by (rule keeps_update) (use assms(2) Some in auto)
qed

lemma persist_keeps:
  assumes "persist_state_candidate r c cid d = Inr d'" and "fw_fact_id r \<in> N"
  shows "keeps sc R N d d'"
proof -
  obtain n where "sql_update_facts (\<lambda>f. f_id f = fw_fact_id r \<and> is_current f)
              (\<lambda>f. f\<lparr>f_memory_kind := Some ''state'', f_subject_key := Some (sc_subject_key c),
                     f_predicate_key := Some (sc_predicate_key c), f_object_value := sc_object_value c,
                     f_source_authority := Some (sc_source_authority c), f_valid_from := sc_valid_from c,
                     f_scope := sc_scope c, f_conflict_group := cid\<rparr>) d = Inr (d', n)"
    using assms(1) by (auto simp: persist_state_candidate_def rbind_eq_Inr)
  then show ?thesis by (rule keeps_update) (use assms(2) in auto)
qed

lemma finish_keeps:
  assumes "finish_state_supersession (Some i) new d = Inr d'" and "i \<in> R"
  shows "keeps sc R N d d'"
proof -
  obtain n where "sql_update_facts (\<lambda>f. f_id f = i \<and> f_invalid_at f \<noteq> None \<and> f_superseded_by f = None)
                   (\<lambda>f. f\<lparr>f_superseded_by := Some new\<rparr>) d = Inr (d', n)"
    using assms(1) by (auto simp: finish_state_supersession_def rbind_eq_Inr)
  then show ?thesis by (rule keeps_update) (use assms(2) in auto)
qed

lemma open_conflict_keeps:
  assumes inv: "slot_inv d"
    and ok: "open_state_conflict rt now uuid subject predicate ids scope detected detail d = Inr (r, d')"
    and sc: "clean scope"
  shows "keeps scope R N d d'"
proof (rule open_state_conflict_Inr [OF ok])
  fix s p sc' dj stamp
  assume req: "py_required scope ''scope'' = Inr sc'"
    and each: "\<forall>i \<in> set ids. \<exists>f \<in> set (db_facts d). f_id f = i \<and> in_slot sc' s p f \<and> is_current f
        \<and> f_conflict_group f = None"
    and d': "d' = d\<lparr>db_facts := update_where (\<lambda>f. f_id f \<in> set ids)
              (\<lambda>f. f\<lparr>f_conflict_group := Some uuid\<rparr>) (db_facts d),
            db_conflicts := db_conflicts d @
              [\<lparr>k_id = uuid, k_scope = sc', k_subject_key = s, k_predicate_key = p,
                k_detected_at = stamp, k_resolved_at = None, k_resolution_fact_id = None,
                k_resolved_by = None, k_resolution_reason = None, k_detail_json = dj\<rparr>],
            db_conflict_members := db_conflict_members d @ map (Pair uuid) ids\<rparr>"
  have scope: "f_scope f = scope" if f: "f \<in> set (db_facts d)" "f_id f \<in> set ids" for f
  proof -
    obtain g where g: "g \<in> set (db_facts d)" "f_id g = f_id f" "in_slot sc' s p g" using each f(2) by blast
    then have "g = f" using slot_inv_same_id [OF inv g(1) f(1)] by blast
    then show ?thesis using g(3) req sc by (simp add: in_slot_def clean_required)
  qed
  let ?P = "\<lambda>f. f_id f \<in> set ids"
  let ?u = "\<lambda>f. f\<lparr>f_conflict_group := Some uuid\<rparr>"
  show ?thesis
    unfolding keeps_def
  proof (intro ballI impI)
    fix f assume f: "f \<in> set (db_facts d)"
    then have "(if ?P f then ?u f else f) \<in> set (db_facts d')" by (auto simp: d' in_update_where)
    then show "\<exists>g \<in> set (db_facts d'). f_id g = f_id f \<and> f_content g = f_content f \<and> f_scope g = f_scope f
        \<and> (f_id f \<notin> R \<longrightarrow> f_scope f \<noteq> scope \<longrightarrow> g = f) \<and> (f_id f \<notin> R \<longrightarrow> is_current g = is_current f)"
      using scope [OF f] by (cases "?P f") (auto intro: bexI [of _ "?u f"] bexI [of _ f])
  qed
qed

lemma prepare_keeps:
  assumes inv: "slot_inv d" and ok: "prepare_state_mutation env sd d = Inr (cid, d')"
    and R: "sd_action sd = Supersede \<Longrightarrow> set_option (sd_target_fact_id sd) \<subseteq> R" and sc: "clean (sd_scope sd)"
  shows "keeps (sd_scope sd) R N d d'"
proof -
  consider (same) "d' = d"
    | (retire) i n where "sd_action sd = Supersede" "sd_target_fact_id sd = Some i"
        "sql_update_facts (\<lambda>f. f_id f = i \<and> f_scope f = sd_scope sd \<and> is_current f \<and> f_conflict_group f = None)
                         (\<lambda>f. f\<lparr>f_invalid_at := Some (we_now env)\<rparr>) d = Inr (d', n)"
    | (opened) cr s p ids det det' where
        "open_state_conflict (we_runtime env) (we_now env) (we_conflict_id env) s p ids (sd_scope sd) det det' d = Inr (cr, d')"
    using ok by (auto simp: prepare_state_mutation_def rbind_eq_Inr split: if_splits option.splits list.splits)
  then show ?thesis
  proof cases
    case retire
    then show ?thesis by (intro keeps_update [OF retire(3)]) (use R in auto)
  next
    case opened
    then show ?thesis by (rule open_conflict_keeps [OF inv _ sc])
  qed simp
qed

section \<open>The envelope\<close>

text \<open>The facts that a write may retire: the one it names, the one its slot decision names, and the
  near duplicate it found.\<close>

definition write_targets ::
  "write_request \<Rightarrow> (state_candidate \<times> slot_decision) option \<Rightarrow> near_duplicate_candidate option \<Rightarrow> int set" where
  "write_targets req typed near =
     (if typed = None then set_option (wr_supersede_fact_id req) else {})
     \<union> (case typed of None \<Rightarrow> {}
        | Some (c, sd) \<Rightarrow> if sd_action sd = Supersede then set_option (sd_target_fact_id sd) else {})
     \<union> nd_fact_id ` set_option near"

lemma settle_typed_keeps:
  assumes ok: "settle_typed typed r cid d = Inr (r', d')" and new: "fw_fact_id r \<in> N"
    and R: "\<And>c sd. typed = Some (c, sd) \<Longrightarrow> sd_action sd = Supersede \<Longrightarrow> set_option (sd_target_fact_id sd) \<subseteq> R"
  shows "keeps sc R N d d'"
proof (cases typed)
  case None
  then show ?thesis using ok by (simp add: settle_typed_def)
next
  case (Some p)
  obtain c sd where p: "p = (c, sd)" by fastforce
  with ok Some obtain d1 where d1: "persist_state_candidate r c cid d = Inr d1"
    and fin: "(if sd_action sd = Supersede then finish_state_supersession (sd_target_fact_id sd) (fw_fact_id r) d1
                 else if sd_action sd = Conflict
                 then (case cid of None \<Rightarrow> Inl (RuntimeError ''state conflict group was not established'')
                       | Some g \<Rightarrow> add_conflict_member g (fw_fact_id r) d1)
                 else Inr d1) = Inr d'"
    by (auto simp: settle_typed_def rbind_eq_Inr)
  have "keeps sc R N d1 d'"
  proof (cases "sd_action sd = Supersede")
    case True
    then obtain i where i: "sd_target_fact_id sd = Some i"
      using fin by (cases "sd_target_fact_id sd") (simp_all add: finish_state_supersession_def)
    then show ?thesis using fin True R [of c sd] Some p finish_keeps [of i] by simp
  next
    case False
    then have "db_facts d' = db_facts d1"
      using fin by (auto split: if_splits option.splits dest!: add_conflict_member_Inr)
    then show ?thesis by simp
  qed
  then show ?thesis using persist_keeps [OF d1 new] keeps_trans by blast
qed

lemma merge_near_keeps:
  assumes ok: "merge_near_duplicate r c req now d = Inr ((r', enq), d')"
    and "fw_fact_id r \<in> N" "nd_fact_id c \<in> R"
  shows "keeps sc R N d d'"
  using assms supersede_near_keeps by (auto simp: merge_near_duplicate_def rbind_eq_Inr split: if_splits)

context fact_writer
begin

lemma create_fact_keeps:
  assumes inv: "slot_inv d" and uuid: "we_conflict_id env \<noteq> []"
    and sc: "clean (wr_scope req)" "\<And>c sd. typed = Some (c, sd) \<Longrightarrow> sd_scope sd = wr_scope req"
    and near: "near \<noteq> None \<longrightarrow> typed = None"
    and ok: "create_fact env fw req typed near obs d = Inr (r', cid, enq, d')"
  shows "keeps (wr_scope req) (write_targets req typed near) (- set (fact_ids d)) d d'"
proof -
  let ?R = "write_targets req typed near" and ?N = "- set (fact_ids d)"
  from ok obtain d1 r d2 r2 d3 where
    prep: "(case typed of None \<Rightarrow> Inr (None, d) | Some (c, sd) \<Rightarrow> prepare_state_mutation env sd d) = Inr (cid, d1)"
    and w: "fw req obs d1 = Inr (r, d2)"
    and m: "(case near of Some c \<Rightarrow> merge_near_duplicate r c req (we_now env) d2
            | None \<Rightarrow> Inr ((r, Some (fw_fact_id r)), d2)) = Inr ((r2, enq), d3)"
    and rest: "settle_typed typed r2 cid d3 = Inr (r', d')"
    by (auto simp: create_fact_def rbind_eq_Inr)
  have k1: "keeps (wr_scope req) ?R ?N d d1 \<and> slot_inv d1"
  proof (cases typed)
    case None
    then show ?thesis using prep inv by simp
  next
    case (Some p)
    obtain c sd where p: "p = (c, sd)" by fastforce
    have pr: "prepare_state_mutation env sd d = Inr (cid, d1)" using prep Some p by simp
    have "keeps (sd_scope sd) ?R ?N d d1"
      by (rule prepare_keeps [OF inv pr]) (use sc Some p in \<open>auto simp: write_targets_def\<close>)
    then show ?thesis using prepare_inv [OF inv uuid pr] sc(2) Some p by simp
  qed
  then have inv1: "slot_inv d1" by blast
  have sub: "set (fact_ids d) \<subseteq> set (fact_ids d1)"
    using k1 unfolding keeps_def fact_ids_def by (force simp: image_iff)
  show ?thesis
  proof (rule new_row [OF inv1 w])
    fix g assume g: "d2 = d1\<lparr>db_facts := db_facts d1 @ [g], db_fact_seq := fw_fact_id r\<rparr>"
      "fw_fact_id r \<notin> set (fact_ids d1)"
    have new: "fw_fact_id r \<in> ?N" using g(2) sub by blast
    have k2: "keeps (wr_scope req) ?R ?N d1 d2" by (rule keeps_append) (simp add: g(1))
    have k3: "keeps (wr_scope req) ?R ?N d2 d3"
    proof (cases near)
      case (Some c)
      then show ?thesis using m new by (auto simp: write_targets_def intro!: merge_near_keeps)
    qed (use m in simp)
    have "r2 = r" if "typed \<noteq> None" using near that m by (cases near) auto
    then have "keeps (wr_scope req) ?R ?N d3 d'"
      using rest new
      by (cases typed) (simp add: settle_typed_def, intro settle_typed_keeps [OF rest], auto simp: write_targets_def)
    with k1 k2 k3 show ?thesis by (meson keeps_trans)
  qed
qed

lemma place_fact_keeps:
  assumes "slot_inv d" "we_conflict_id env \<noteq> []" "clean (wr_scope req)"
    and "\<And>c sd. typed = Some (c, sd) \<Longrightarrow> sd_scope sd = wr_scope req" and "near \<noteq> None \<longrightarrow> typed = None"
    and ok: "place_fact env fw req typed dup near obs d = Inr (r, cid, enq, d')"
  shows "keeps (wr_scope req) (write_targets req typed near) (- set (fact_ids d)) d d'"
proof -
  have "d' = d \<or> create_fact env fw req typed near obs d = Inr (r, cid, enq, d')"
    using ok by (auto simp: place_fact_def rbind_eq_Inr split: option.splits prod.splits if_splits)
  then show ?thesis using create_fact_keeps [OF assms(1-5)] by auto
qed

text \<open>A committed write keeps every fact but its targets; the near duplicate is what the search on
  the same facts returned.\<close>

lemma commit_write_keeps:
  assumes inv: "slot_inv d" and uuid: "we_conflict_id env \<noteq> []" and outbox: "outbox_ok env"
    and sc: "clean (wr_scope req)" "\<And>c sd. typed = Some (c, sd) \<Longrightarrow> sd_scope sd = wr_scope req"
    and ok: "commit_write env fw ctx req h typed d = Inr (out, d')"
  shows "\<exists>near d1. keeps (wr_scope req) (write_targets req typed near) (- set (fact_ids d)) d d'
    \<and> same_slots d d1 \<and> (near \<noteq> None \<longrightarrow> find_untyped_near_duplicate env req d1 = Inr near)"
proof -
  from ok obtain obs d1 dup near r cid enq d2 d3 d4 sup d5 detail where
    o: "record_observation (we_runtime env) ctx req (we_now env) d = Inr (obs, d1)"
    and near: "(if typed = None \<and> wr_supersede_fact_id req = None \<and> dup = None
            then find_untyped_near_duplicate env req d1 else Inr None) = Inr near"
    and place: "place_fact env fw req typed dup near obs d1 = Inr (r, cid, enq, d2)"
    and enq: "(case (enq, we_embedding_enqueue env) of
              (Some i, Some enq) \<Rightarrow> enq i d2 | _ \<Rightarrow> Inr d2) = Inr d3"
    and prov: "attach_provenance (fw_fact_id r) obs req (we_now env) d3 = Inr d4"
    and sup: "(if typed = None then supersede_if_requested (wr_supersede_fact_id req) (fw_fact_id r) (we_now env) d4
            else Inr (False, d4)) = Inr (sup, d5)"
    and log: "insert_write_log
              \<lparr>l_write_id = we_write_id env, l_idempotency_key = wr_idempotency_key req,
               l_client_id = cc_client_id ctx, l_session_id = Some (cc_session_id ctx),
               l_operation = wr_operation req, l_outcome = fw_outcome r, l_fact_id = Some (fw_fact_id r),
               l_existing_fact_id = fw_existing_fact_id r, l_observation_id = Some obs,
               l_recorded_at = we_now env, l_request_sha256 = h, l_detail_json = detail\<rparr> d5 = Inr d'"
    unfolding commit_write_def rbind_eq_Inr Let_def by (auto simp: rbind_eq_Inr)
  let ?k = "keeps (wr_scope req) (write_targets req typed near) (- set (fact_ids d))"
  have ss: "same_slots d d1" by (rule record_observation_frame [OF o])
  have inv1: "slot_inv d1" using ss inv by (simp add: same_slots_inv)
  have ids: "fact_ids d1 = fact_ids d" using ss by (simp add: same_slots_def fact_ids_def)
  have nt: "near \<noteq> None \<longrightarrow> typed = None" using near by (auto split: if_splits)
  have "?k d1 d2" using place_fact_keeps [OF inv1 uuid sc nt place] by (simp add: ids)
  moreover have "?k d d1" "?k d2 d3" "?k d3 d4" "?k d5 d'"
    using ss enqueue_frame [OF outbox enq] attach_provenance_frame [OF prov] insert_write_log_frame [OF log]
    by (auto intro: keeps_same_slots)
  moreover have "?k d4 d5"
    using sup by (cases "typed = None") (auto simp: write_targets_def intro!: supersede_if_requested_keeps)
  ultimately have "?k d d'" by (meson keeps_trans)
  moreover have "near \<noteq> None \<longrightarrow> find_untyped_near_duplicate env req d1 = Inr near"
    using near by (auto split: if_splits)
  ultimately show ?thesis using ss by blast
qed

end

section \<open>The three ways a write succeeds\<close>

text \<open>Facts, conflicts, observations and provenance are as before.\<close>

definition stores_nothing :: "db \<Rightarrow> db \<Rightarrow> bool" where
  "stores_nothing d d' \<longleftrightarrow> same_slots d d' \<and> db_observations d' = db_observations d
     \<and> db_provenance d' = db_provenance d \<and> db_jobs d' = db_jobs d"

lemma stores_nothing_trans: "stores_nothing a b \<Longrightarrow> stores_nothing b c \<Longrightarrow> stores_nothing a c"
  by (auto simp: stores_nothing_def intro: same_slots_trans)

lemma register_client_stores: "register_client ctx now d = Inr d' \<Longrightarrow> stores_nothing d d'"
  by (auto simp: register_client_def insert_client_or_ignore_def stores_nothing_def same_slots_def Let_def
      split: option.splits if_splits)

lemma register_session_stores: "register_session rt ctx now d = Inr d' \<Longrightarrow> stores_nothing d d'"
  by (auto simp: register_session_def insert_session_or_ignore_def stores_nothing_def same_slots_def Let_def
      rbind_eq_Inr split: option.splits if_splits)

lemma outcome_text_strip: "py_strip (outcome_text oc) = outcome_text oc"
  by (cases oc) (simp, code_simp)+

lemma record_factless_stores:
  assumes "record_factless_decision env ctx req h dec d = Inr (out, d')"
  shows "stores_nothing d d' \<and> wo_fact_id out = None \<and> wo_observation_id out = None
    \<and> wo_outcome out = outcome_text (pd_outcome dec)"
  using assms
  by (auto simp: record_factless_decision_def rbind_eq_Inr Let_def insert_write_log_def stores_nothing_def
      same_slots_def write_outcome_init_def outcome_text_strip split: if_splits dest!: py_required_Inr)

lemma write_txn_cases:
  assumes ok: "write_txn env fw ctx req cand d = Inr (out, d')"
  obtains (Replay) "stores_nothing d d'" "wo_replayed out"
  | (Refused) v d2 where "stores_nothing d d2"
      "record_factless_decision env ctx req (request_sha256 (we_runtime env) ctx req cand) v d2 = Inr (out, d')"
  | (Commit) d2 eff sd where "stores_nothing d d2" "policy_gate env ctx req cand d2 = Inr None"
      "effective_candidate (we_runtime env) (we_now env) req cand = Inr eff"
      "slot_gate env req eff None d2 = Inr (None, sd)"
      "commit_write env fw ctx req (request_sha256 (we_runtime env) ctx req cand) (pair_typed eff sd) d2 = Inr (out, d')"
proof -
  let ?h = "request_sha256 (we_runtime env) ctx req cand"
  from ok obtain d1 where d1: "register_client ctx (we_now env) d = Inr d1"
    by (auto simp: write_txn_def Let_def rbind_eq_Inr)
  show thesis
  proof (cases "load_prior (cc_client_id ctx) (wr_idempotency_key req) d1")
    case (Some prior)
    then have "d' = d1" "wo_replayed out"
      using ok d1 by (auto simp: write_txn_def Let_def rbind_eq_Inr outcome_from_row_def write_outcome_init_def
          split: if_splits)
    then show thesis using Replay register_client_stores [OF d1] by blast
  next
    case None
    with ok d1 obtain d2 dec eff dec' sd where
      d2: "register_session (we_runtime env) ctx (we_now env) d1 = Inr d2"
      and pg: "policy_gate env ctx req cand d2 = Inr dec"
      and eff: "effective_candidate (we_runtime env) (we_now env) req cand = Inr eff"
      and sg: "slot_gate env req eff dec d2 = Inr (dec', sd)"
      and fin: "(case dec' of Some v \<Rightarrow> record_factless_decision env ctx req ?h v d2
          | None \<Rightarrow> commit_write env fw ctx req ?h (pair_typed eff sd) d2) = Inr (out, d')"
      by (auto simp: write_txn_def Let_def rbind_eq_Inr)
    have s2: "stores_nothing d d2"
      using register_client_stores [OF d1] register_session_stores [OF d2] by (rule stores_nothing_trans)
    show thesis
    proof (cases dec')
      case (Some v)
      then show thesis using Refused [OF s2] fin by simp
    next
      case N: None
      then have "dec = None" using sg by (auto simp: slot_gate_def split: option.splits)
      then show thesis using Commit [OF s2 _ eff] pg sg fin N by simp
    qed
  qed
qed

section \<open>Policy of the targets\<close>

lemma supersession_policy_None:
  assumes inv: "slot_inv d" and f: "f \<in> set (db_facts d)" and t: "supersession_target t req = Some (f_id f)"
    and ok: "supersession_policy req t a d = None"
  shows "f_scope f = wr_scope req
    \<and> coalesce_authority f \<le> (case a of None \<Rightarrow> wr_source_authority req | Some q \<Rightarrow> q)
    \<and> (f_correction_status f \<in> set human_statuses \<longrightarrow> candidate_is_human req)
    \<and> (wr_supersede_fact_id req \<noteq> None \<longrightarrow> f_memory_kind f \<noteq> Some ''state'' \<and> f_conflict_group f = None)"
proof -
  obtain g where g: "first_row (\<lambda>g. f_id g = f_id f \<and> f_scope g = wr_scope req) (db_facts d) = Some g"
    using ok t by (auto simp: supersession_policy_def split: option.splits)
  have "g = f" using first_row_Some [OF g] slot_inv_same_id [OF inv _ f] by blast
  with g ok t show ?thesis using first_row_Some [OF g]
    by (auto simp: supersession_policy_def split: if_splits option.splits)
qed

lemma decide_scope: "decide_state_write rt d c = Inr sd \<Longrightarrow> sd_scope sd = sc_scope c"
  by (auto simp: decide_state_write_def rbind_eq_Inr Let_def split: if_splits option.splits)

lemma effective_candidate_same:
  assumes "valid_candidate rt cand" and "validate_state_candidate req cand = Inr ()" and "clean (wr_scope req)"
    and "effective_candidate rt now req cand = Inr (Some c)"
  shows "sc_scope c = wr_scope req" and "sc_source_authority c = wr_source_authority req"
proof -
  obtain c0 where c0: "cand = Some c0" using assms(4) by (cases cand) (simp_all add: effective_candidate_def)
  have v: "sc_scope c0 = wr_scope req" "sc_source_authority c0 = wr_source_authority req"
    using assms(2) c0 by (simp_all add: validate_state_candidate_def split: if_splits)
  have "sc_scope c = wr_scope req \<and> sc_source_authority c = wr_source_authority req"
    using assms(3,4) v
    by (auto simp: effective_candidate_def c0 rbind_eq_Inr state_candidate_init_def clean_required split: if_splits)
  then show "sc_scope c = wr_scope req" and "sc_source_authority c = wr_source_authority req" by simp_all
qed

lemma near_duplicate_scope:
  assumes inv: "slot_inv d" and ok: "find_untyped_near_duplicate env req d = Inr (Some c)"
    and f: "f \<in> set (db_facts d)" "f_id f = nd_fact_id c"
  shows "f_scope f = wr_scope req"
proof -
  obtain v identity cs where "find_write_near_duplicates (we_near_lib env) (wr_content req) (wr_scope req) v
      (ndc_cosine_threshold (we_near env)) (ndc_candidate_limit (we_near env)) (Some identity) d = Inr cs" "c \<in> set cs"
    using ok py_max_mem [of near_key]
    by (auto simp: find_untyped_near_duplicate_def rbind_eq_Inr split: option.splits if_splits sum.splits list.splits)
  then show ?thesis
    by (rule find_write_near_duplicates_mem) (use slot_inv_same_id [OF inv f(1)] f(2) in metis)
qed

text \<open>Every fact that a write may retire passed the policy, or is its near duplicate.\<close>

lemma target_outranked:
  assumes inv: "slot_inv d" and cand: "valid_candidate (we_runtime env) cand" "validate_state_candidate req cand = Inr ()"
    and sc: "clean (wr_scope req)"
    and pg: "policy_gate env ctx req cand d = Inr None"
    and eff: "effective_candidate (we_runtime env) (we_now env) req cand = Inr eff"
    and sg: "slot_gate env req eff None d = Inr (None, sd)"
    and f: "f \<in> set (db_facts d)" "f_id f \<in> write_targets req (pair_typed eff sd) None"
  shows "f_scope f = wr_scope req \<and> coalesce_authority f \<le> wr_source_authority req
    \<and> (f_correction_status f \<in> set human_statuses \<longrightarrow> candidate_is_human req)"
proof (cases "pair_typed eff sd")
  case None
  have "wr_supersede_fact_id req = Some (f_id f)" using f(2) None by (auto simp: write_targets_def)
  moreover have "supersession_policy req None None d = None"
    using pg by (auto simp: policy_gate_def rbind_eq_Inr split: option.splits if_splits)
  ultimately show ?thesis
    using supersession_policy_None [OF inv f(1), of None req None] by (simp add: supersession_target_def)
next
  case (Some p)
  then obtain c s where es: "eff = Some c" "sd = Some s" by (auto simp: pair_typed_def split: option.splits)
  have s: "sd_action s = Supersede" "sd_target_fact_id s = Some (f_id f)"
    using f(2) es by (auto simp: write_targets_def pair_typed_def split: if_splits)
  have pol: "supersession_policy req (Some (f_id f)) (Some (sc_source_authority c)) d = None"
    using sg es s by (auto simp: slot_gate_def rbind_eq_Inr)
  have "0 < f_id f" using inv f(1) by (auto simp: slot_inv_defs fact_ids_def)
  then have "supersession_target (Some (f_id f)) req = Some (f_id f)" by (simp add: supersession_target_def)
  then show ?thesis
    using supersession_policy_None [OF inv f(1) _ pol] effective_candidate_same [OF cand sc] eff es by simp
qed

lemma pair_typed_scope:
  assumes cand: "valid_candidate rt cand" "validate_state_candidate req cand = Inr ()"
    and sc: "clean (wr_scope req)" and eff: "effective_candidate rt now req cand = Inr eff"
    and sg: "slot_gate env req eff None d = Inr (None, sd)" and p: "pair_typed eff sd = Some (c, s)"
  shows "sd_scope s = wr_scope req"
proof -
  have es: "eff = Some c" "sd = Some s" using p by (auto simp: pair_typed_def split: option.splits)
  then have "decide_state_write (we_runtime env) d c = Inr s" using sg by (auto simp: slot_gate_def rbind_eq_Inr)
  then show ?thesis using decide_scope effective_candidate_same(1) [OF cand sc] eff es by fastforce
qed

context fact_writer
begin

text \<open>The effect of a successful transaction on the facts that were there.\<close>

lemma write_txn_keeps:
  assumes inv: "slot_inv d" and uuid: "we_conflict_id env \<noteq> []" and outbox: "outbox_ok env"
    and cand: "valid_candidate (we_runtime env) cand" "validate_state_candidate req cand = Inr ()"
    and sc: "clean (wr_scope req)"
    and ok: "write_txn env fw ctx req cand d = Inr (out, d')"
  shows "\<exists>R. keeps (wr_scope req) R (- set (fact_ids d)) d d'
    \<and> (\<forall>f \<in> set (db_facts d). f_id f \<in> R \<longrightarrow> f_scope f = wr_scope req
         \<and> (we_query_embedder env = None \<longrightarrow> coalesce_authority f \<le> wr_source_authority req
              \<and> (f_correction_status f \<in> set human_statuses \<longrightarrow> candidate_is_human req)))"
  using ok
proof (cases rule: write_txn_cases)
  case Replay
  then show ?thesis by (intro exI [of _ "{}"]) (simp add: stores_nothing_def keeps_same_slots)
next
  case (Refused v d2)
  then have "same_slots d d'"
    using record_factless_stores by (metis stores_nothing_def same_slots_trans)
  then show ?thesis by (intro exI [of _ "{}"]) (simp add: keeps_same_slots)
next
  case (Commit d2 eff sd)
  have ss: "same_slots d d2" using Commit(1) by (simp add: stores_nothing_def)
  then have facts: "db_facts d2 = db_facts d" by (simp add: same_slots_def)
  have inv2: "slot_inv d2" using inv ss by (simp add: same_slots_inv)
  have typed: "sd_scope s = wr_scope req" if "pair_typed eff sd = Some (c, s)" for c s
    using pair_typed_scope [OF cand sc Commit(3,4) that] .
  obtain near d3 where k: "keeps (wr_scope req) (write_targets req (pair_typed eff sd) near) (- set (fact_ids d2)) d2 d'"
    and s3: "same_slots d2 d3" and n: "near \<noteq> None \<longrightarrow> find_untyped_near_duplicate env req d3 = Inr near"
    using commit_write_keeps [OF inv2 uuid outbox sc _ Commit(5)] typed by blast
  let ?R = "write_targets req (pair_typed eff sd) near"
  have near_off: "near = None" if "we_query_embedder env = None"
    using n that by (auto simp: find_untyped_near_duplicate_def)
  have "f_scope f = wr_scope req
         \<and> (we_query_embedder env = None \<longrightarrow> coalesce_authority f \<le> wr_source_authority req
              \<and> (f_correction_status f \<in> set human_statuses \<longrightarrow> candidate_is_human req))"
    if f: "f \<in> set (db_facts d)" "f_id f \<in> ?R" for f
  proof (cases "f_id f \<in> write_targets req (pair_typed eff sd) None")
    case True
    then show ?thesis using target_outranked [OF inv2 cand sc Commit(2,3,4)] f(1) facts by simp
  next
    case False
    then obtain c where c: "near = Some c" "nd_fact_id c = f_id f"
      using f(2) by (cases near) (auto simp: write_targets_def)
    have inv3: "slot_inv d3" using inv2 s3 by (simp add: same_slots_inv)
    have f3: "f \<in> set (db_facts d3)" using s3 f(1) facts by (simp add: same_slots_def)
    have "f_scope f = wr_scope req"
      by (rule near_duplicate_scope [OF inv3 _ f3]) (use n c in auto)
    then show ?thesis using near_off c by auto
  qed
  moreover have "keeps (wr_scope req) ?R (- set (fact_ids d)) d d'"
    using k facts by (simp add: keeps_def fact_ids_def)
  ultimately show ?thesis by blast
qed

end

section \<open>The claims\<close>

lemma memory_write_cases:
  assumes "memory_write env fw ctx req cand d = (res, d')"
  obtains (Raised) e where "res = Inl e" "d' = d"
  | (Done) ctx' out where "res = Inr out" "authorize_context (we_policy env) ctx = Inr ctx'"
      "validate_state_candidate req cand = Inr ()" "write_txn env fw ctx' req cand d = Inr (out, d')"
  using assms by (auto simp: memory_write_def rbind_eq_Inr split: sum.splits prod.splits)

lemma service_write_keeps:
  assumes inv: "slot_inv d" and uuid: "we_conflict_id env \<noteq> []" and outbox: "outbox_ok env"
    and cand: "valid_candidate (we_runtime env) cand" and sc: "clean (wr_scope req)"
    and ok: "memory_write env (service_fact_writer (we_clock env)) ctx req cand d = (res, d')"
  shows "\<exists>R. keeps (wr_scope req) R (- set (fact_ids d)) d d'
    \<and> (\<forall>f \<in> set (db_facts d). f_id f \<in> R \<longrightarrow> f_scope f = wr_scope req
         \<and> (we_query_embedder env = None \<longrightarrow> coalesce_authority f \<le> wr_source_authority req
              \<and> (f_correction_status f \<in> set human_statuses \<longrightarrow> candidate_is_human req)))"
  using ok
proof (cases rule: memory_write_cases)
  case (Raised e)
  then show ?thesis by (intro exI [of _ "{}"]) simp
next
  case (Done ctx' out)
  then show ?thesis by (intro svc.write_txn_keeps [OF inv uuid outbox cand _ sc])
qed

lemma keeps_at:
  assumes "keeps sc R (- set (fact_ids d)) d d'" and "f \<in> set (db_facts d)"
  obtains g where "g \<in> set (db_facts d')" "f_id g = f_id f" "f_content g = f_content f" "f_scope g = f_scope f"
    "f_id f \<notin> R \<longrightarrow> f_scope f \<noteq> sc \<longrightarrow> g = f" "f_id f \<notin> R \<longrightarrow> is_current g = is_current f"
  using assms unfolding keeps_def fact_ids_def by force

text \<open>C8: a write never deletes a fact and never changes the text or the scope of one, and it leaves
  every fact outside the scope it writes to exactly as it is, near-duplicate merging included.\<close>

theorem write_keeps_history:
  assumes "slot_inv d" "we_conflict_id env \<noteq> []" "outbox_ok env" "valid_candidate (we_runtime env) cand"
    and "clean (wr_scope req)" and f: "f \<in> set (db_facts d)"
    and "memory_write env (service_fact_writer (we_clock env)) ctx req cand d = (res, d')"
  shows "\<exists>g \<in> set (db_facts d'). f_id g = f_id f \<and> f_content g = f_content f \<and> f_scope g = f_scope f
    \<and> (f_scope f \<noteq> wr_scope req \<longrightarrow> g = f)"
proof -
  obtain R where k: "keeps (wr_scope req) R (- set (fact_ids d)) d d'"
    and R: "f_id f \<in> R \<longrightarrow> f_scope f = wr_scope req"
    using service_write_keeps [OF assms(1-5,7)] f by blast
  show ?thesis using k f by (rule keeps_at) (use R in blast)
qed

lemma demo_written_pair:
  "memory_write demo_env (service_fact_writer (we_clock demo_env)) demo_context demo_state_request
     (Some demo_candidate) demo_db = (Inr demo_outcome, snd demo_written)"
  using demo_written_ok by (simp add: demo_written_def prod_eq_iff)

lemma demo_write_ready:
  "valid_candidate (we_runtime demo_env) (Some demo_candidate)" "clean (wr_scope demo_state_request)"
  using demo_candidate_valid demo_clean(4) by (simp_all add: demo_env_def demo_state_request_def demo_request_def)

theorem write_keeps_history_witness:
  "\<exists>g \<in> set (db_facts (snd demo_written)). f_id g = 3 \<and> f_content g = ''likes tea'' \<and> f_scope g = ''private''"
  using write_keeps_history [OF demo_db_slot_inv demo_env_ok demo_write_ready _ demo_written_pair,
      of "demo_fact 3 ''likes tea''"]
  by (auto simp: demo_db_def demo_fact_def)

text \<open>C5: with near-duplicate merging off, a write retires a current fact only if the policy allows it: the
  fact is in the scope written to, its source authority is not above the request's, and if a human
  corrected or confirmed it the request is a human correction too.\<close>

theorem write_retires_only_outranked:
  assumes "slot_inv d" "we_conflict_id env \<noteq> []" "outbox_ok env" "valid_candidate (we_runtime env) cand"
    and "clean (wr_scope req)" and f: "f \<in> set (db_facts d)" "is_current f"
    and "memory_write env (service_fact_writer (we_clock env)) ctx req cand d = (res, d')"
    and off: "we_query_embedder env = None"
    and gone: "\<forall>g \<in> set (db_facts d'). f_id g = f_id f \<longrightarrow> \<not> is_current g"
  shows "f_scope f = wr_scope req \<and> coalesce_authority f \<le> wr_source_authority req
    \<and> (f_correction_status f \<in> set human_statuses \<longrightarrow> candidate_is_human req)"
proof -
  obtain R where k: "keeps (wr_scope req) R (- set (fact_ids d)) d d'"
    and R: "f_id f \<in> R \<longrightarrow> f_scope f = wr_scope req \<and> coalesce_authority f \<le> wr_source_authority req
              \<and> (f_correction_status f \<in> set human_statuses \<longrightarrow> candidate_is_human req)"
    using service_write_keeps [OF assms(1-5,8)] f(1) off by blast
  have "f_id f \<in> R" using k f(1) by (rule keeps_at) (use gone f(2) in blast)
  then show ?thesis using R by blast
qed

lemma demo_nano_retired:
  "\<forall>g \<in> set (db_facts (snd demo_written)). f_id g = 4 \<longrightarrow> \<not> is_current g"
  unfolding demo_written_def by code_simp

theorem write_retires_only_outranked_witness:
  "coalesce_authority (demo_state_fact 4 ''uses nano'' ''you'' None) \<le> wr_source_authority demo_state_request"
proof -
  let ?f = "demo_state_fact 4 ''uses nano'' ''you'' None"
  have f: "?f \<in> set (db_facts demo_db)" "is_current ?f" "f_id ?f = 4"
    by (simp_all add: demo_defs is_current_def)
  show ?thesis
    using write_retires_only_outranked [OF demo_db_slot_inv demo_env_ok demo_write_ready f(1,2) demo_written_pair]
      demo_nano_retired f(3) by (simp add: demo_env_def)
qed

text \<open>Near-duplicate merging does not ask this policy: an untyped request of low authority, close to
  a fact that a human corrected and whose authority is higher, retires that fact.\<close>

definition demo_protected_db :: db where
  "demo_protected_db = demo_embedded_db\<lparr>db_facts :=
     [(demo_fact 3 ''likes tea'')\<lparr>f_source_authority := Some 1, f_correction_status := Some ''human_corrected''\<rparr>],
     db_conflicts := [], db_conflict_members := []\<rparr>"

definition demo_near_env :: "string write_env" where
  "demo_near_env = demo_env\<lparr>we_query_embedder := Some (\<lambda>s. Inr ''vv'')\<rparr>"

definition demo_near_request :: write_request where
  "demo_near_request = demo_request\<lparr>wr_content := ''likes the tea'', wr_trust_score := 9/10,
     wr_source_authority := 1/10\<rparr>"

lemma near_dedup_retires_protected:
  "list_ex (\<lambda>f. f_id f = 3 \<and> f_correction_status f \<in> set human_statuses \<and> f_superseded_by f = Some 5)
     (db_facts (snd (memory_write demo_near_env (service_fact_writer (we_clock demo_near_env)) demo_context
        demo_near_request None demo_protected_db)))
   \<and> \<not> candidate_is_human demo_near_request
   \<and> wr_source_authority demo_near_request < 1"
  by (intro conjI) code_simp+

text \<open>C7: a write that the policy refuses, or that asks for a scope the client was not granted, stores
  nothing: no fact, conflict, observation, provenance link or embedding job changes, whatever the fact
  writer would do; and unless it is a replay its outcome is a refusal without a fact.\<close>

theorem refused_write_stores_nothing:
  assumes auth: "authorize_context (we_policy env) ctx = Inr ctx'"
    and refused: "(\<exists>v. evaluate_write (we_policy env) req (Some (cc_client_id ctx')) (sensitive_fields cand) = Inr (Some v))
      \<or> wr_scope req \<notin> set (cc_access_scopes ctx')"
    and ok: "memory_write env fw ctx req cand d = (res, d')"
  shows "stores_nothing d d' \<and> (\<forall>out. res = Inr out \<and> \<not> wo_replayed out \<longrightarrow>
    wo_fact_id out = None \<and> wo_outcome out \<in> {''rejected'', ''needs_review''})"
  using ok
proof (cases rule: memory_write_cases)
  case (Raised e)
  then show ?thesis by (simp add: stores_nothing_def)
next
  case (Done c out)
  have c: "c = ctx'" using Done(2) auth by simp
  show ?thesis
    using Done(4)
  proof (cases rule: write_txn_cases)
    case Replay
    then show ?thesis using Done(1) by simp
  next
    case (Refused v d2)
    have "outcome_text (pd_outcome v) \<in> {''rejected'', ''needs_review''}" by (cases "pd_outcome v") simp_all
    then show ?thesis
      using Done(1) record_factless_stores [OF Refused(2)] Refused(1) by (auto intro: stores_nothing_trans)
  next
    case (Commit d2 eff sd)
    have False
      using Commit(2) refused by (auto simp: policy_gate_def rbind_eq_Inr c split: option.splits if_splits)
    then show ?thesis ..
  qed
qed

definition fact_writer_down :: fact_writer_fn where
  "fact_writer_down req obs d = Inl (RuntimeError ''down'')"

theorem refused_write_stores_nothing_witness:
  "stores_nothing demo_db (snd (memory_write demo_env fact_writer_down demo_context
     (demo_request\<lparr>wr_scope := ''work''\<rparr>) None demo_db))"
proof -
  have a: "authorize_context (we_policy demo_env) demo_context = Inr (demo_context\<lparr>cc_access_scopes := [''private'']\<rparr>)"
    using demo_authorized by (simp add: demo_env_def)
  have "wr_scope (demo_request\<lparr>wr_scope := ''work''\<rparr>)
      \<notin> set (cc_access_scopes (demo_context\<lparr>cc_access_scopes := [''private'']\<rparr>))" by simp
  then show ?thesis using refused_write_stores_nothing [OF a _ prod.collapse [symmetric]] by blast
qed

end
