(* ===== verification/Write_Read.thy ===== *)
theory Write_Read
  imports Write_Effects
begin

text \<open>
  What a reader of the slot sees after a typed write: the value that was written, the equal value
  that was there, or nothing while the slot is in conflict. And what evidence a write leaves.
\<close>

section \<open>The candidate\<close>

lemma state_candidate_init_all_clean:
  "state_candidate_init rt c = Inr c' \<Longrightarrow> clean (sc_content c') \<and> clean (sc_scope c') \<and> clean (sc_subject_key c')
     \<and> clean (sc_predicate_key c') \<and> clean (sc_memory_kind c')"
  by (auto simp: state_candidate_init_def rbind_eq_Inr dest: required_clean)

lemma effective_candidate_fields:
  assumes "state_candidate_init rt c = Inr c" and "effective_candidate rt now req (Some c) = Inr (Some e)"
  shows "sc_subject_key e = sc_subject_key c \<and> sc_predicate_key e = sc_predicate_key c \<and> sc_scope e = sc_scope c
    \<and> sc_content e = sc_content c \<and> sc_object_value e = sc_object_value c
    \<and> sc_source_authority e = sc_source_authority c"
proof (cases "sc_valid_from c")
  case None
  then show ?thesis
    using assms(2) state_candidate_init_all_clean [OF assms(1)]
    by (auto simp: effective_candidate_def rbind_eq_Inr state_candidate_init_def clean_required)
next
  case (Some v)
  then show ?thesis using assms(2) by (simp add: effective_candidate_def)
qed

section \<open>Where a typed value ends up\<close>

text \<open>A settled fact of the candidate's slot, and a conflicted one.\<close>

definition settled_as :: "db \<Rightarrow> state_candidate \<Rightarrow> int \<Rightarrow> (fact \<Rightarrow> bool) \<Rightarrow> bool" where
  "settled_as d c i P \<longleftrightarrow> (\<exists>g \<in> set (db_facts d). f_id g = i \<and> is_current g \<and> f_conflict_group g = None
     \<and> in_slot (sc_scope c) (sc_subject_key c) (sc_predicate_key c) g \<and> P g)"

definition conflicted :: "db \<Rightarrow> state_candidate \<Rightarrow> bool" where
  "conflicted d c \<longleftrightarrow> (\<exists>g \<in> set (db_facts d). is_current g \<and> f_conflict_group g \<noteq> None
     \<and> in_slot (sc_scope c) (sc_subject_key c) (sc_predicate_key c) g)"

lemma settled_read:
  assumes "slot_inv d" "cand_clean c" "settled_as d c i P"
  shows "\<exists>g. read_current_state d (sc_subject_key c) (sc_predicate_key c) (sc_scope c) = Inr (Some (state_fact_of g))
    \<and> f_id g = i \<and> P g"
  using assms read_current_state_settled [OF assms(1)] by (auto simp: settled_as_def cand_clean_def)

lemma conflicted_read:
  assumes inv: "slot_inv d" and c: "cand_clean c" and k: "conflicted d c"
  shows "read_current_state d (sc_subject_key c) (sc_predicate_key c) (sc_scope c) = Inr None"
proof (rule read_current_state_unsettled [OF inv])
  obtain g where g: "g \<in> set (db_facts d)" "is_current g" "f_conflict_group g \<noteq> None"
    "in_slot (sc_scope c) (sc_subject_key c) (sc_predicate_key c) g"
    using k by (auto simp: conflicted_def)
  fix f assume "f \<in> set (db_facts d)" "in_slot (sc_scope c) (sc_subject_key c) (sc_predicate_key c) f" "is_current f"
  then have "f_conflict_group f = f_conflict_group g"
    using inv g unfolding slot_inv_def exclusive_ok_def by metis
  then show "f_conflict_group f \<noteq> None" using g(3) by simp
qed (use c in \<open>simp_all add: cand_clean_def\<close>)

lemma settled_same_slots: "same_slots d d' \<Longrightarrow> settled_as d' c i P = settled_as d c i P"
  by (simp add: settled_as_def same_slots_def)

lemma conflicted_same_slots: "same_slots d d' \<Longrightarrow> conflicted d' c = conflicted d c"
  by (simp add: conflicted_def same_slots_def)

lemma decide_dedup_settled:
  assumes inv: "slot_inv d" and t: "sc_memory_kind c = ''state''" "cand_clean c" "decide_state_write rt d c = Inr sd"
    and sd: "sd_action sd = Dedup" "sd_target_fact_id sd = Some i"
  shows "settled_as d c i (\<lambda>g. exact_match c (state_fact_of g))"
  using inv
proof (rule slot_rows_cases [of d "sc_scope c" "sc_subject_key c" "sc_predicate_key c"])
  assume "cand_rows d c = []"
  then show ?thesis using decide_empty [OF t(1,2), of d rt] t(3) sd by auto
next
  fix f assume f: "cand_rows d c = [f]" "f_conflict_group f = None"
  have mem: "f \<in> set (db_facts d)" "in_slot (sc_scope c) (sc_subject_key c) (sc_predicate_key c) f" "is_current f"
    using slot_rows_mem [of f d] f(1) by (metis list.set_intros(1))+
  show ?thesis
  proof (cases "exact_match c (state_fact_of f)")
    case True
    then have "i = f_id f" using decide_single_dedup [OF t(1,2) f True, of rt] t(3) sd by auto
    then show ?thesis using True mem f(2) by (auto simp: settled_as_def)
  next
    case False
    then obtain u v where "parse_timestamp rt (sc_valid_from c) = Inr u" "parse_timestamp rt (f_valid_from f) = Inr v"
      using t f by (auto simp: decide_state_write_def decide_rows truthy_def first_row_def rbind_eq_Inr Let_def)
    from decide_single_new [OF t(1,2) f False this] t(3) sd show ?thesis by (auto split: if_splits)
  qed
next
  fix k assume ne: "cand_rows d c \<noteq> []" and k: "k \<in> set (db_conflicts d)" "is_open k"
    and grp: "\<forall>f \<in> set (cand_rows d c). f_conflict_group f = Some (k_id k)"
  have "\<exists>f \<in> set (cand_rows d c). truthy (f_conflict_group f)"
    using ne grp truthy_open_group [OF inv k] by (metis list.set_sel(1))
  from decide_conflicted [OF t(1,2) ne this, of rt] t(3) sd show ?thesis by auto
qed

context fact_writer
begin

text \<open>The row that a typed creation leaves.\<close>

lemma create_typed_row:
  assumes inv: "slot_inv d" and uuid: "we_conflict_id env \<noteq> []"
    and ok: "create_fact env fw req (Some (c, sd)) None obs d = Inr (r', cid, enq, d')"
  shows "\<exists>g \<in> set (db_facts d'). f_id g = fw_fact_id r' \<and> is_current g \<and> f_conflict_group g = cid
    \<and> in_slot (sc_scope c) (sc_subject_key c) (sc_predicate_key c) g
    \<and> f_content g = py_strip (wr_content req) \<and> f_object_value g = sc_object_value c"
proof (rule create_typed_Inr [OF ok])
  fix d1 r d2 d4
  assume prep: "prepare_state_mutation env sd d = Inr (cid, d1)" and w: "fw req obs d1 = Inr (r, d2)"
    and p: "persist_state_candidate r c cid d2 = Inr d4" and id: "fw_fact_id r' = fw_fact_id r"
    and fin: "sd_action sd = Supersede \<Longrightarrow> finish_state_supersession (sd_target_fact_id sd) (fw_fact_id r) d4 = Inr d'"
    and add: "\<And>g. sd_action sd = Conflict \<Longrightarrow> cid = Some g \<Longrightarrow> add_conflict_member g (fw_fact_id r) d4 = Inr d'"
    and cid: "sd_action sd = Conflict \<Longrightarrow> cid \<noteq> None"
    and other: "sd_action sd \<noteq> Supersede \<Longrightarrow> sd_action sd \<noteq> Conflict \<Longrightarrow> d' = d4"
  let ?ok = "\<lambda>g. f_id g = fw_fact_id r' \<and> is_current g \<and> f_conflict_group g = cid
    \<and> in_slot (sc_scope c) (sc_subject_key c) (sc_predicate_key c) g
    \<and> f_content g = py_strip (wr_content req) \<and> f_object_value g = sc_object_value c"
  have row: "\<exists>g \<in> set (db_facts d4). ?ok g"
  proof (rule new_row [OF prepare_inv [OF inv uuid prep] w])
    fix g assume g: "d2 = d1\<lparr>db_facts := db_facts d1 @ [g], db_fact_seq := fw_fact_id r\<rparr>"
      "f_id g = fw_fact_id r" "is_current g" "f_content g = py_strip (wr_content req)"
    show ?thesis
      unfolding persist_Inr(1) [OF p] using g id by (simp add: is_current_def in_slot_def)
  qed
  consider (sup) "sd_action sd = Supersede" | (con) "sd_action sd = Conflict" | (same) "d' = d4"
    using other by blast
  then show "\<exists>g \<in> set (db_facts d'). ?ok g"
  proof cases
    case sup
    obtain g where g: "g \<in> set (db_facts d4)" "?ok g" using row by blast
    obtain i n where "sql_update_facts (\<lambda>f. f_id f = i \<and> f_invalid_at f \<noteq> None \<and> f_superseded_by f = None)
                   (\<lambda>f. f\<lparr>f_superseded_by := Some (fw_fact_id r)\<rparr>) d4 = Inr (d', n)"
      using fin [OF sup]
      by (auto simp: finish_state_supersession_def rbind_eq_Inr split: option.splits)
    then have "g \<in> set (db_facts d')" using g by (force simp: sql_update_facts_Inr in_update_where is_current_def)
    then show ?thesis using g(2) by blast
  next
    case con
    then have "db_facts d' = db_facts d4"
      using cid [OF con] add [OF con] by (auto dest!: add_conflict_member_Inr)
    then show ?thesis using row by simp
  next
    case same
    then show ?thesis using row by simp
  qed
qed

lemma place_typed:
  assumes inv: "slot_inv d" and typed: "typed_ok env d (Some (c, sd))" and uuid: "we_conflict_id env \<noteq> []"
    and ok: "place_fact env fw req (Some (c, sd)) dup None obs d = Inr (r, cid, enq, d')"
  shows "fw_outcome r = action_text (sd_action sd)
    \<and> (sd_action sd \<in> {AddFact, Supersede} \<longrightarrow> settled_as d' c (fw_fact_id r)
         (\<lambda>g. f_content g = py_strip (wr_content req) \<and> f_object_value g = sc_object_value c))
    \<and> (sd_action sd = Dedup \<longrightarrow> settled_as d' c (fw_fact_id r) (\<lambda>g. exact_match c (state_fact_of g)))
    \<and> (sd_action sd = Conflict \<longrightarrow> conflicted d' c)"
proof -
  have t: "sc_memory_kind c = ''state''" "cand_clean c" "decide_state_write (we_runtime env) d c = Inr sd"
    using typed by (simp_all add: typed_ok_def)
  show ?thesis
  proof (cases "sd_target_fact_id sd \<noteq> None \<and> (sd_action sd = Dedup \<or> sd_action sd = Conflict)")
    case True
    then obtain i where i: "sd_target_fact_id sd = Some i" by blast
    have r: "d' = d" "fw_fact_id r = i" "fw_outcome r = action_text (sd_action sd)"
      using ok True i by (auto simp: place_fact_def rbind_eq_Inr fact_write_result_init_def split: if_splits)
    from inv t show ?thesis
    proof (cases rule: decide_state_write_cases)
      case (Dup j)
      have "settled_as d c i (\<lambda>g. exact_match c (state_fact_of g))"
        using decide_dedup_settled [OF inv t Dup(1) i] by simp
      then show ?thesis using r Dup(1) by simp
    next
      case (Join k)
      obtain f where f: "f \<in> set (cand_rows d c)" using Join(4) by (meson list.set_sel(1))
      then have "conflicted d c"
        using Join(9) by (auto simp: conflicted_def slot_rows_mem intro!: bexI [of _ f])
      then show ?thesis using r Join(1) by simp
    qed (use True in auto)
  next
    case False
    have cr: "create_fact env fw req (Some (c, sd)) None obs d = Inr (r, cid, enq, d')"
      using ok False by (auto simp: place_fact_def split: option.splits if_splits)
    have oc: "fw_outcome r = action_text (sd_action sd)"
      using cr by (auto simp: create_fact_def settle_typed_def rbind_eq_Inr fact_write_result_init_def split: if_splits)
    have nd: "sd_action sd \<noteq> Dedup"
    proof
      assume d: "sd_action sd = Dedup"
      from inv t show False by (cases rule: decide_state_write_cases) (use d False in simp_all)
    qed
    have cid: "(sd_action sd = Conflict \<longrightarrow> cid \<noteq> None) \<and> (sd_action sd \<noteq> Conflict \<longrightarrow> cid = None)"
      by (rule create_typed_Inr [OF cr])
        (auto simp: prepare_state_mutation_def rbind_eq_Inr split: if_splits option.splits)
    show ?thesis
      using create_typed_row [OF inv uuid cr] oc nd cid by (auto simp: settled_as_def conflicted_def)
  qed
qed

lemma commit_typed:
  assumes inv: "slot_inv d" and typed: "typed_ok env d (Some (c, sd))" and uuid: "we_conflict_id env \<noteq> []"
    and outbox: "outbox_ok env"
    and ok: "commit_write env fw ctx req h (Some (c, sd)) d = Inr (out, d')"
  shows "\<exists>i. wo_fact_id out = Some i \<and> wo_outcome out = py_strip (action_text (sd_action sd))
    \<and> (sd_action sd \<in> {AddFact, Supersede} \<longrightarrow> settled_as d' c i
         (\<lambda>g. f_content g = py_strip (wr_content req) \<and> f_object_value g = sc_object_value c))
    \<and> (sd_action sd = Dedup \<longrightarrow> settled_as d' c i (\<lambda>g. exact_match c (state_fact_of g)))
    \<and> (sd_action sd = Conflict \<longrightarrow> conflicted d' c)"
proof -
  from ok obtain obs d1 r cid enq d2 d3 d4 l detail where
    o: "record_observation (we_runtime env) ctx req (we_now env) d = Inr (obs, d1)"
    and place: "place_fact env fw req (Some (c, sd)) None None obs d1 = Inr (r, cid, enq, d2)"
    and enq: "(case (enq, we_embedding_enqueue env) of
              (Some i, Some enq) \<Rightarrow> enq i d2 | _ \<Rightarrow> Inr d2) = Inr d3"
    and prov: "attach_provenance (fw_fact_id r) obs req (we_now env) d3 = Inr d4"
    and log: "insert_write_log l d4 = Inr d'"
    and out: "write_outcome_init \<lparr>wo_write_id = we_write_id env, wo_outcome = fw_outcome r,
              wo_fact_id = Some (fw_fact_id r), wo_existing_fact_id = fw_existing_fact_id r,
              wo_observation_id = Some obs, wo_replayed = False, wo_detail_json = detail\<rparr> = Inr out"
    unfolding commit_write_def rbind_eq_Inr Let_def by (auto simp: rbind_eq_Inr)
  have ss1: "same_slots d d1" by (rule record_observation_frame [OF o])
  have inv1: "slot_inv d1" using ss1 inv by (simp add: same_slots_inv)
  have t1: "typed_ok env d1 (Some (c, sd))" using typed by (simp add: typed_ok_same_slots [OF ss1])
  have ss2: "same_slots d2 d'"
    using enqueue_frame [OF outbox enq] attach_provenance_frame [OF prov] insert_write_log_frame [OF log]
    by (meson same_slots_trans)
  have o': "wo_fact_id out = Some (fw_fact_id r)" "wo_outcome out = py_strip (fw_outcome r)"
    using out by (auto simp: write_outcome_init_def rbind_eq_Inr dest!: py_required_Inr)
  show ?thesis
    using place_typed [OF inv1 t1 uuid place] o'
    by (simp add: settled_same_slots [OF ss2] conflicted_same_slots [OF ss2])
qed

end

lemma action_text_strip: "py_strip (action_text a) = action_text a"
  by (cases a) (simp, code_simp)+

section \<open>The claims\<close>

text \<open>C3: read your writes. After a typed write that was not a replay or a refusal, a read of the slot gives the
  written value if the outcome is \<open>add\<close> or \<open>supersede\<close>, an equal value if it is
  \<open>dedup\<close>, and no value if it is \<open>conflict\<close>.\<close>

theorem write_then_read:
  assumes inv: "slot_inv d" and uuid: "we_conflict_id env \<noteq> []" and outbox: "outbox_ok env"
    and cand: "valid_candidate (we_runtime env) (Some c)"
    and ok: "memory_write env (service_fact_writer (we_clock env)) ctx req (Some c) d = (Inr out, d')"
    and new: "\<not> wo_replayed out" "wo_fact_id out \<noteq> None"
  shows "(wo_outcome out \<in> {''add'', ''supersede''} \<longrightarrow>
      (\<exists>x. read_current_state d' (sc_subject_key c) (sc_predicate_key c) (sc_scope c) = Inr (Some x)
         \<and> Some (cs_fact_id x) = wo_fact_id out \<and> cs_content x = py_strip (wr_content req)
         \<and> cs_object_value x = sc_object_value c))
    \<and> (wo_outcome out = ''dedup'' \<longrightarrow>
      (\<exists>x. read_current_state d' (sc_subject_key c) (sc_predicate_key c) (sc_scope c) = Inr (Some x)
         \<and> Some (cs_fact_id x) = wo_fact_id out \<and> exact_match c x))
    \<and> (wo_outcome out = ''conflict'' \<longrightarrow>
      read_current_state d' (sc_subject_key c) (sc_predicate_key c) (sc_scope c) = Inr None)
    \<and> wo_outcome out \<in> {''add'', ''supersede'', ''dedup'', ''conflict''}"
proof -
  obtain ctx' where v: "validate_state_candidate req (Some c) = Inr ()"
    and txn: "write_txn env (service_fact_writer (we_clock env)) ctx' req (Some c) d = Inr (out, d')"
    using ok unfolding memory_write_Inr by blast
  have inv': "slot_inv d'" by (rule svc.write_txn_inv [OF inv uuid outbox cand v txn])
  from txn show ?thesis
  proof (cases rule: write_txn_cases)
    case Replay
    then show ?thesis using new(1) by simp
  next
    case (Refused w d2)
    then show ?thesis using record_factless_stores [OF Refused(2)] new(2) by simp
  next
    case (Commit d2 eff sd)
    obtain e where e: "eff = Some e" using Commit(3) effective_candidate_None [of "we_runtime env" "we_now env" req "Some c"]
      by (cases eff) auto
    have fields: "sc_subject_key e = sc_subject_key c \<and> sc_predicate_key e = sc_predicate_key c \<and> sc_scope e = sc_scope c
        \<and> sc_content e = sc_content c \<and> sc_object_value e = sc_object_value c"
      using effective_candidate_fields [of "we_runtime env" c "we_now env" req e] cand Commit(3) e
      by (simp add: valid_candidate_def)
    have clean: "cand_clean e \<and> sc_memory_kind e = ''state''"
      using effective_candidate_clean [OF cand v] Commit(3) e by simp
    obtain s where s: "sd = Some s" "decide_state_write (we_runtime env) d2 e = Inr s"
      using Commit(4) e by (auto simp: slot_gate_def rbind_eq_Inr)
    have inv2: "slot_inv d2" using inv Commit(1) by (auto simp: stores_nothing_def same_slots_inv)
    have t: "typed_ok env d2 (Some (e, s))" using clean s(2) by (simp add: typed_ok_def)
    have cw: "commit_write env (service_fact_writer (we_clock env)) ctx' req
        (request_sha256 (we_runtime env) ctx' req (Some c)) (Some (e, s)) d2 = Inr (out, d')"
      using Commit(5) e s(1) by (simp add: pair_typed_def)
    obtain i where i: "wo_fact_id out = Some i" "wo_outcome out = action_text (sd_action s)"
      and res: "sd_action s \<in> {AddFact, Supersede} \<longrightarrow> settled_as d' e i
         (\<lambda>g. f_content g = py_strip (wr_content req) \<and> f_object_value g = sc_object_value e)"
      "sd_action s = Dedup \<longrightarrow> settled_as d' e i (\<lambda>g. exact_match e (state_fact_of g))"
      "sd_action s = Conflict \<longrightarrow> conflicted d' e"
      using svc.commit_typed [OF inv2 t uuid outbox cw] by (auto simp: action_text_strip)
    have em: "exact_match c x = exact_match e x" for x using fields by (simp add: exact_match_def)
    show ?thesis
      using i res settled_read [OF inv' conjunct1 [OF clean]] conflicted_read [OF inv' conjunct1 [OF clean]] fields
      by (cases "sd_action s") (force simp: em)+
  qed
qed

theorem write_then_read_witness:
  "\<exists>x. read_current_state (snd demo_written) ''you'' ''editor'' ''private'' = Inr (Some x)
     \<and> Some (cs_fact_id x) = wo_fact_id demo_outcome \<and> cs_content x = py_strip (wr_content demo_state_request)
     \<and> cs_object_value x = sc_object_value demo_candidate"
  using write_then_read [OF demo_db_slot_inv demo_env_ok demo_write_ready(1) demo_written_pair demo_outcome_new]
  by (simp add: demo_outcome_def demo_candidate_def)

section \<open>Evidence\<close>

lemma supersede_if_requested_scope:
  assumes "supersede_if_requested old new now d = Inr (b, d')" and "f \<in> set (db_facts d)"
  shows "(\<exists>g \<in> set (db_facts d'). f_id g = f_id f \<and> f_scope g = f_scope f) \<and> db_provenance d' = db_provenance d"
proof (cases old)
  case None
  then show ?thesis using assms by (auto simp: supersede_if_requested_def)
next
  case (Some i)
  let ?u = "\<lambda>f. f\<lparr>f_invalid_at := Some now, f_superseded_by := Some new\<rparr>"
  obtain s n where up: "sql_update_facts (\<lambda>f. f_id f = i \<and> f_scope f = s \<and> is_current f) ?u d = Inr (d', n)"
    using assms(1) Some by (auto simp: supersede_if_requested_def rbind_eq_Inr split: if_splits option.splits)
  let ?P = "\<lambda>f. f_id f = i \<and> f_scope f = s \<and> is_current f"
  have "(if ?P f then ?u f else f) \<in> set (db_facts d')"
    using assms(2) up by (auto simp: sql_update_facts_Inr in_update_where)
  then have "\<exists>g \<in> set (db_facts d'). f_id g = f_id f \<and> f_scope g = f_scope f"
    by (rule rev_bexI) simp
  then show ?thesis using up by (simp add: sql_update_facts_Inr)
qed

context fact_writer
begin

lemma commit_write_evidence:
  assumes inv: "slot_inv d" and uuid: "we_conflict_id env \<noteq> []" and outbox: "outbox_ok env"
    and cols: "''scope'' \<in> set (db_fact_columns d)"
    and ok: "commit_write env fw ctx req h typed d = Inr (out, d')"
  shows "\<exists>i ob. wo_fact_id out = Some i \<and> wo_observation_id out = Some ob
    \<and> (i, ob, wr_relation req) \<in> set (map prov_key (db_provenance d'))
    \<and> (\<exists>f \<in> set (db_facts d'). f_id f = i \<and> f_scope f = wr_scope req)"
proof -
  from ok obtain obs d1 dup near r cid enq d2 d3 d4 sup d5 l detail where
    o: "record_observation (we_runtime env) ctx req (we_now env) d = Inr (obs, d1)"
    and place: "place_fact env fw req typed dup near obs d1 = Inr (r, cid, enq, d2)"
    and enq: "(case (enq, we_embedding_enqueue env) of
              (Some i, Some enq) \<Rightarrow> enq i d2 | _ \<Rightarrow> Inr d2) = Inr d3"
    and auth: "authorize_fact_scope (fw_fact_id r) (wr_scope req) d3 = Inr ()"
    and prov: "attach_provenance (fw_fact_id r) obs req (we_now env) d3 = Inr d4"
    and sup: "(if typed = None then supersede_if_requested (wr_supersede_fact_id req) (fw_fact_id r) (we_now env) d4
            else Inr (False, d4)) = Inr (sup, d5)"
    and log: "insert_write_log l d5 = Inr d'"
    and out: "write_outcome_init \<lparr>wo_write_id = we_write_id env, wo_outcome = fw_outcome r,
              wo_fact_id = Some (fw_fact_id r), wo_existing_fact_id = fw_existing_fact_id r,
              wo_observation_id = Some obs, wo_replayed = False, wo_detail_json = detail\<rparr> = Inr out"
    unfolding commit_write_def rbind_eq_Inr Let_def by (auto simp: rbind_eq_Inr)
  have inv1: "slot_inv d1" using inv same_slots_inv [OF record_observation_frame [OF o]] by simp
  have "same_ledger d d3"
    using record_observation_ledger [OF o] place_fact_ledger [OF inv1 uuid place] enqueue_ledger [OF outbox enq]
    by (meson same_ledger_trans)
  then have "''scope'' \<in> set (db_fact_columns d3)" using cols by (simp add: same_ledger_def)
  then obtain f where f: "fact_by_id d3 (fw_fact_id r) = Some f" "f_scope f = wr_scope req"
    using auth by (auto simp: authorize_fact_scope_def split: option.splits if_splits)
  have link: "(fw_fact_id r, obs, wr_relation req) \<in> set (map prov_key (db_provenance d4))"
    using prov by (auto simp: attach_provenance_def insert_provenance_or_ignore_def prov_key_def split: if_splits)
  have f4: "f \<in> set (db_facts d4)" "f_id f = fw_fact_id r"
    using fact_by_id_Some [OF f(1)] attach_provenance_frame [OF prov] by (simp_all add: same_slots_def)
  have "(\<exists>g \<in> set (db_facts d5). f_id g = f_id f \<and> f_scope g = f_scope f) \<and> db_provenance d5 = db_provenance d4"
    using sup supersede_if_requested_scope [OF _ f4(1)] f4(1) by (auto split: if_splits)
  moreover have "db_facts d' = db_facts d5" "db_provenance d' = db_provenance d5"
    using log by (auto simp: insert_write_log_def split: if_splits)
  moreover have "wo_fact_id out = Some (fw_fact_id r)" "wo_observation_id out = Some obs"
    using out by (auto simp: write_outcome_init_def rbind_eq_Inr)
  ultimately show ?thesis using link f(2) f4(2) by simp
qed

end

text \<open>C9: every stored write leaves its evidence and lands where it was authorised. A write that names a fact
  and is not a replay links that fact to the recorded observation with the request's relation, and
  the fact is in the requested scope, which is one of the scopes granted to the client.\<close>

theorem write_leaves_evidence:
  assumes inv: "slot_inv d" and uuid: "we_conflict_id env \<noteq> []" and outbox: "outbox_ok env"
    and cols: "db_fact_columns d = v1_fact_columns"
    and auth: "authorize_context (we_policy env) ctx = Inr ctx'"
    and ok: "memory_write env (service_fact_writer (we_clock env)) ctx req cand d = (Inr out, d')"
    and new: "\<not> wo_replayed out" "wo_fact_id out \<noteq> None"
  shows "\<exists>i ob. wo_fact_id out = Some i \<and> wo_observation_id out = Some ob
    \<and> (i, ob, wr_relation req) \<in> set (map prov_key (db_provenance d'))
    \<and> (\<exists>f \<in> set (db_facts d'). f_id f = i \<and> f_scope f = wr_scope req)
    \<and> wr_scope req \<in> set (cc_access_scopes ctx')"
proof -
  have txn: "write_txn env (service_fact_writer (we_clock env)) ctx' req cand d = Inr (out, d')"
    using ok auth by (auto simp: memory_write_Inr)
  from txn show ?thesis
  proof (cases rule: write_txn_cases)
    case Replay
    then show ?thesis using new(1) by simp
  next
    case (Refused w d2)
    then show ?thesis using record_factless_stores [OF Refused(2)] new(2) by simp
  next
    case (Commit d2 eff sd)
    have ss: "same_slots d d2" using Commit(1) by (simp add: stores_nothing_def)
    have inv2: "slot_inv d2" using inv ss by (simp add: same_slots_inv)
    have "''scope'' \<in> set (db_fact_columns d2)" using ss cols by (simp add: same_slots_def v1_fact_columns_def)
    moreover have "wr_scope req \<in> set (cc_access_scopes ctx')"
      using Commit(2) by (auto simp: policy_gate_def rbind_eq_Inr split: option.splits if_splits)
    ultimately show ?thesis using svc.commit_write_evidence [OF inv2 uuid outbox _ Commit(5)] by blast
  qed
qed

theorem write_leaves_evidence_witness:
  "\<exists>i ob. wo_fact_id demo_outcome = Some i \<and> wo_observation_id demo_outcome = Some ob
    \<and> (i, ob, wr_relation demo_state_request) \<in> set (map prov_key (db_provenance (snd demo_written)))"
proof -
  have a: "authorize_context (we_policy demo_env) demo_context = Inr (demo_context\<lparr>cc_access_scopes := [''private'']\<rparr>)"
    using demo_authorized by (simp add: demo_env_def)
  have cols: "db_fact_columns demo_db = v1_fact_columns" by (simp add: demo_defs)
  show ?thesis
    using write_leaves_evidence [OF demo_db_slot_inv demo_env_ok cols a demo_written_pair demo_outcome_new]
    by (auto simp: demo_outcome_def)
qed

end
