(* ===== verification/Embedding_Jobs.thy ===== *)
theory Embedding_Jobs
  imports Lease Write_Read
begin

text \<open>
  \<open>embedding_jobs.py\<close>: the durable embedding outbox (\<open>EmbeddingOutbox\<close>), its leased processor
  (\<open>EmbeddingJobProcessor\<close>) and the worker loop (\<open>SupervisedEmbeddingWorker\<close>), with the vector
  writer of \<open>hybrid_retrieval.py\<close> (\<open>SQLiteStoredEmbeddingWriter\<close>) they drive.

  Time stamps are instants in microseconds: \<open>_stamp\<close> writes every instant as a UTC text of
  fixed width, so comparing the texts is comparing the instants. The Boolean argument
  \<open>in_txn\<close> is \<open>conn.in_transaction\<close>. numpy and the embedding model are the record
  \<open>vector_lib\<close> and the field \<open>ew_embed\<close>; the optional \<open>sqlite-vec\<close> index is the field
  \<open>ew_index_upsert\<close>, of which only a raised error is visible in the canonical tables.
\<close>

section \<open>EmbeddingSpec\<close>

record embedding_spec =
  es_document_identity :: string
  es_embedding_version :: string
  es_dimensions :: int
  es_model_fingerprint :: string
  es_prefix_policy :: string
  es_query_prefix :: string
  es_document_prefix :: string

text \<open>\<open>s.count(p)\<close> for a non-empty \<open>p\<close>: occurrences that do not overlap.\<close>

function str_count :: "string \<Rightarrow> string \<Rightarrow> nat" where
  "str_count p [] = 0"
| "str_count p (c # s) =
     (if starts_with p (c # s) then Suc (str_count p (drop (length p - 1) s)) else str_count p s)"
  by pat_completeness auto

termination
  by (relation "measure (\<lambda>(p, s). length s)") auto

definition check_prefix_policy :: "runtime \<Rightarrow> string \<Rightarrow> string \<Rightarrow> string \<Rightarrow> string \<Rightarrow> unit res" where
  "check_prefix_policy rt policy query_prefix document_prefix mismatch =
     (if policy = ''none''
        then guard_res (query_prefix = [] \<and> document_prefix = [])
               (ValueError ''none prefix policy requires empty query/document prefixes'')
      else if starts_with ''sha256-'' policy
        then guard_res (policy = ''sha256-'' @ rt_sha256 rt (query_prefix @ [CHR 0x00] @ document_prefix))
               (ValueError mismatch)
      else Inl (ValueError ''prefix policy must be none or sha256-<full digest>''))"

definition embedding_spec_init :: "runtime \<Rightarrow> embedding_spec \<Rightarrow> embedding_spec res" where
  "embedding_spec_init rt s =
     (if str_count '':document:'' (es_document_identity s) \<noteq> 1
        then Inl (ValueError ''document identity must contain one document role'')
      else if py_strip (es_embedding_version s) = []
              \<or> \<not> ends_with ('':'' @ es_embedding_version s) (es_document_identity s)
        then Inl (ValueError ''embedding version must be the final identity component'')
      else if es_dimensions s < 1 then Inl (ValueError ''embedding dimensions must be positive'')
      else if es_model_fingerprint s \<noteq> es_embedding_version s
        then Inl (ValueError ''model fingerprint must equal the identity version component'')
      else rbind (check_prefix_policy rt (es_prefix_policy s) (es_query_prefix s) (es_document_prefix s)
                    ''document prefix does not match its fingerprint policy'') (\<lambda>_.
        if \<not> str_contains ('':document:'' @ es_prefix_policy s @ '':'' @ es_embedding_version s)
               (es_document_identity s)
        then Inl (ValueError ''document identity is not bound to prefix policy/version'')
        else Inr s))"

record claimed_job =
  cj_job_id :: int
  cj_fact_id :: int
  cj_content_sha256 :: string
  cj_attempts :: int
  cj_lease_token :: string

record process_result =
  pr_job_id :: int
  pr_fact_id :: int
  pr_outcome :: string

section \<open>EmbeddingOutbox\<close>

text \<open>A row of \<open>fact_embeddings\<close> that serves the fact under the spec.\<close>

definition has_vector :: "embedding_spec \<Rightarrow> int \<Rightarrow> db \<Rightarrow> bool" where
  "has_vector s i d \<longleftrightarrow>
     list_ex (\<lambda>e. e_fact_id e = i \<and> e_identity e = es_document_identity s \<and> e_dim e = es_dimensions s)
       (db_embeddings d)"

definition new_job :: "embedding_spec \<Rightarrow> int \<Rightarrow> string \<Rightarrow> int \<Rightarrow> int \<Rightarrow> job_row" where
  "new_job s i digest now jid =
     \<lparr>j_id = jid, j_fact_id = i, j_document_identity = es_document_identity s,
      j_embedding_version = es_embedding_version s, j_dimensions = es_dimensions s,
      j_content_sha256 = digest, j_status = JobPending, j_attempts = 0, j_available_at = now,
      j_lease_token = None, j_lease_owner = None, j_lease_expires_at = None, j_last_error = None,
      j_created_at = now, j_updated_at = now, j_completed_at = None\<rparr>"

text \<open>The \<open>DO UPDATE SET\<close> list of both enqueue statements.\<close>

definition requeue_job :: "embedding_spec \<Rightarrow> string \<Rightarrow> int \<Rightarrow> job_row \<Rightarrow> job_row" where
  "requeue_job s digest now r =
     r\<lparr>j_content_sha256 := digest, j_embedding_version := es_embedding_version s,
       j_dimensions := es_dimensions s, j_status := JobPending, j_attempts := 0,
       j_available_at := now, j_lease_token := None, j_lease_owner := None,
       j_lease_expires_at := None, j_last_error := None, j_completed_at := None,
       j_updated_at := now\<rparr>"

definition job_for :: "embedding_spec \<Rightarrow> int \<Rightarrow> job_row \<Rightarrow> bool" where
  "job_for s i r \<longleftrightarrow> j_fact_id r = i \<and> j_document_identity r = es_document_identity s"

text \<open>
  \<open>INSERT ... ON CONFLICT(fact_id, document_identity) DO UPDATE ... WHERE c\<close>: the new table and
  the row count.
\<close>

definition upsert_job ::
  "embedding_spec \<Rightarrow> int \<Rightarrow> string \<Rightarrow> int \<Rightarrow> (job_row \<Rightarrow> bool) \<Rightarrow> job_row list \<Rightarrow> job_row list \<times> nat" where
  "upsert_job s i digest now c js =
     (if list_ex (job_for s i) js
      then (update_where (\<lambda>r. job_for s i r \<and> c r) (requeue_job s digest now) js,
            rowcount (\<lambda>r. job_for s i r \<and> c r) js)
      else (js @ [new_job s i digest now (next_rowid (map j_id js))], 1))"

definition enqueue_in_transaction ::
  "runtime \<Rightarrow> embedding_spec \<Rightarrow> int \<Rightarrow> bool \<Rightarrow> int \<Rightarrow> db \<Rightarrow> (int \<times> db) res" where
  "enqueue_in_transaction rt s now in_txn i d =
     (if \<not> in_txn then Inl (RuntimeError ''embedding job enqueue must share the fact transaction'')
      else case fact_by_id d i of
        None \<Rightarrow> Inl (RuntimeError ''cannot enqueue an embedding for a missing fact'')
      | Some f \<Rightarrow>
          let js = fst (upsert_job s i (rt_sha256 rt (f_content f)) now
                     (\<lambda>r. j_status r = JobCompleted \<and> \<not> has_vector s i d) (db_jobs d))
          in case first_row (job_for s i) js of
               None \<Rightarrow> Inl (TypeError ''NoneType object is not subscriptable'')
             | Some r \<Rightarrow> Inr (j_id r, d\<lparr>db_jobs := js\<rparr>))"

text \<open>\<open>invalid_at\<close>, \<open>superseded_by\<close> and \<open>conflict_group\<close> are all \<open>NULL\<close>.\<close>

definition embeddable :: "fact \<Rightarrow> bool" where
  "embeddable f \<longleftrightarrow> is_current f \<and> f_conflict_group f = None"

definition backfill_rows :: "embedding_spec \<Rightarrow> db \<Rightarrow> fact list" where
  "backfill_rows s d =
     sort_key f_id (filter (\<lambda>f. embeddable f \<and> \<not> has_vector s (f_id f) d) (db_facts d))"

fun backfill_loop ::
  "runtime \<Rightarrow> embedding_spec \<Rightarrow> int \<Rightarrow> fact list \<Rightarrow> job_row list \<times> nat \<Rightarrow> job_row list \<times> nat" where
  "backfill_loop rt s now [] (js, changed) = (js, changed)"
| "backfill_loop rt s now (f # fs) (js, changed) =
     (case upsert_job s (f_id f) (rt_sha256 rt (f_content f)) now (\<lambda>r. j_status r = JobCompleted) js of
        (js', n) \<Rightarrow> backfill_loop rt s now fs (js', changed + (if 0 < n then 1 else 0)))"

definition enqueue_backfill ::
  "runtime \<Rightarrow> embedding_spec \<Rightarrow> int \<Rightarrow> bool \<Rightarrow> db \<Rightarrow> (nat \<times> db) res" where
  "enqueue_backfill rt s now in_txn d =
     (if in_txn then Inl (RuntimeError ''embedding backfill requires an idle connection'')
      else case backfill_loop rt s now (backfill_rows s d) (db_jobs d, 0) of
             (js, changed) \<Rightarrow> Inr (changed, d\<lparr>db_jobs := js\<rparr>))"

record embedding_health =
  eh_pending :: nat
  eh_processing :: nat
  eh_completed :: nat
  eh_dead_letter :: nat
  eh_uncovered_active :: nat
  eh_activation_safe :: bool
  eh_oldest_pending_age :: "rat option"

definition count_status :: "embedding_spec \<Rightarrow> job_status \<Rightarrow> db \<Rightarrow> nat" where
  "count_status s st d =
     rowcount (\<lambda>r. j_document_identity r = es_document_identity s \<and> j_status r = st) (db_jobs d)"

definition live_status :: "job_row \<Rightarrow> bool" where
  "live_status r \<longleftrightarrow> j_status r = JobPending \<or> j_status r = JobProcessing"

definition viable_job :: "embedding_spec \<Rightarrow> int \<Rightarrow> job_row \<Rightarrow> bool" where
  "viable_job s i r \<longleftrightarrow>
     job_for s i r \<and> j_embedding_version r = es_embedding_version s
     \<and> j_dimensions r = es_dimensions s \<and> live_status r"

definition uncovered :: "embedding_spec \<Rightarrow> db \<Rightarrow> fact \<Rightarrow> bool" where
  "uncovered s d f \<longleftrightarrow>
     embeddable f \<and> \<not> has_vector s (f_id f) d \<and> \<not> list_ex (viable_job s (f_id f)) (db_jobs d)"

fun min_instant :: "int list \<Rightarrow> int option" where
  "min_instant [] = None"
| "min_instant (x # xs) = (case min_instant xs of None \<Rightarrow> Some x | Some y \<Rightarrow> Some (min x y))"

definition outbox_health :: "embedding_spec \<Rightarrow> int \<Rightarrow> db \<Rightarrow> embedding_health" where
  "outbox_health s now d =
     (let oldest = min_instant (map j_created_at
            (filter (\<lambda>r. j_document_identity r = es_document_identity s \<and> live_status r) (db_jobs d)));
          missing = rowcount (uncovered s d) (db_facts d);
          dead = count_status s JobDeadLetter d
      in \<lparr>eh_pending = count_status s JobPending d, eh_processing = count_status s JobProcessing d,
          eh_completed = count_status s JobCompleted d, eh_dead_letter = dead,
          eh_uncovered_active = missing, eh_activation_safe = (missing = 0 \<and> dead = 0),
          eh_oldest_pending_age = map_option (\<lambda>t. max 0 (of_int (now - t) / 1000000)) oldest\<rparr>)"

section \<open>SQLiteStoredEmbeddingWriter\<close>

record 'v vector_lib =
  vl_len :: "'v \<Rightarrow> int"
  vl_finite :: "'v \<Rightarrow> bool"
  vl_to_bytes :: "'v \<Rightarrow> string"
  vl_frombuffer :: "string \<Rightarrow> 'v res"

record 'v embedding_writer =
  ew_lib :: "'v vector_lib"
  ew_embed :: "string \<Rightarrow> 'v option res"
  ew_index_upsert :: "(int \<Rightarrow> string \<Rightarrow> unit res) option"
  ew_document_identity :: string
  ew_embedding_version :: string
  ew_model_fingerprint :: string
  ew_prefix_policy :: string
  ew_dimensions :: int
  ew_document_prefix :: string
  ew_query_prefix :: string

definition embedding_writer_init :: "runtime \<Rightarrow> 'v embedding_writer \<Rightarrow> 'v embedding_writer res" where
  "embedding_writer_init rt w =
     (if str_count '':document:'' (ew_document_identity w) \<noteq> 1
        then Inl (ValueError ''document_identity must contain exactly one ':document:' role'')
      else if ew_dimensions w < 1 then Inl (ValueError ''dimensions must be positive'')
      else if ew_embedding_version w \<noteq> ew_model_fingerprint w
        then Inl (ValueError ''model fingerprint must equal embedding version'')
      else rbind (check_prefix_policy rt (ew_prefix_policy w) (ew_query_prefix w) (ew_document_prefix w)
                    ''document prefix does not match prefix policy'') (\<lambda>_.
        if \<not> ends_with ('':document:'' @ ew_prefix_policy w @ '':'' @ ew_embedding_version w)
               (ew_document_identity w)
        then Inl (ValueError ''document identity is not bound to writer configuration'')
        else Inr w))"

definition embed_document :: "'v embedding_writer \<Rightarrow> string \<Rightarrow> string res" where
  "embed_document w content =
     rbind (ew_embed w (ew_document_prefix w @ content)) (\<lambda>vector.
       case vector of
         None \<Rightarrow> Inl (StoredEmbeddingError ''production document embedding is unavailable'')
       | Some v \<Rightarrow>
           if vl_len (ew_lib w) v \<noteq> ew_dimensions w \<or> \<not> vl_finite (ew_lib w) v
           then Inl (StoredEmbeddingError ''production document embedding is invalid'')
           else Inr (vl_to_bytes (ew_lib w) v))"

text \<open>\<open>INSERT INTO fact_embeddings ... ON CONFLICT(fact_id, embedding_identity) DO UPDATE\<close>.\<close>

definition upsert_embedding :: "embedding_row \<Rightarrow> db \<Rightarrow> db res" where
  "upsert_embedding e d =
     (let same = (\<lambda>x. e_fact_id x = e_fact_id e \<and> e_identity x = e_identity e)
      in if list_ex same (db_embeddings d)
         then Inr (d\<lparr>db_embeddings :=
                update_where same (\<lambda>x. x\<lparr>e_embedding := e_embedding e, e_dim := e_dim e\<rparr>) (db_embeddings d)\<rparr>)
         else if e_fact_id e \<notin> set (fact_ids d) then Inl (IntegrityError ''FOREIGN KEY constraint failed'')
         else Inr (d\<lparr>db_embeddings := db_embeddings d @ [e]\<rparr>))"

definition upsert_in_transaction :: "'v embedding_writer \<Rightarrow> bool \<Rightarrow> int \<Rightarrow> string \<Rightarrow> db \<Rightarrow> db res" where
  "upsert_in_transaction w in_txn i blob d =
     (if \<not> in_txn then Inl (RuntimeError ''prepared embedding upsert requires a transaction'')
      else rbind (vl_frombuffer (ew_lib w) blob) (\<lambda>v.
        if vl_len (ew_lib w) v \<noteq> ew_dimensions w
        then Inl (StoredEmbeddingError ''prepared document embedding is invalid'')
        else rbind (upsert_embedding \<lparr>e_fact_id = i, e_embedding = blob, e_dim = ew_dimensions w,
                                       e_identity = ew_document_identity w\<rparr> d) (\<lambda>d'.
          case ew_index_upsert w of
            None \<Rightarrow> Inr d'
          | Some up \<Rightarrow> rbind (up i blob) (\<lambda>_. Inr d'))))"

text \<open>
  \<open>ensure_fact\<close>: the result and the committed database. \<open>others\<close> is what other connections
  commit while the model runs.
\<close>

definition ensure_fact ::
  "runtime \<Rightarrow> 'v embedding_writer \<Rightarrow> bool \<Rightarrow> bool \<Rightarrow> (db \<Rightarrow> db) \<Rightarrow> int \<Rightarrow> db \<Rightarrow> bool res \<times> db" where
  "ensure_fact rt w in_txn force others i d =
     (if in_txn then (Inl (RuntimeError ''stored embedding write-through must run after commit''), d)
      else case fact_by_id d i of
        None \<Rightarrow> (Inl (StoredEmbeddingError ''committed fact disappeared before embedding''), d)
      | Some f \<Rightarrow>
          (case first_row (\<lambda>e. e_fact_id e = i \<and> e_identity e = ew_document_identity w \<and> \<not> force)
                  (db_embeddings d) of
             Some e \<Rightarrow>
               (rbind (vl_frombuffer (ew_lib w) (e_embedding e)) (\<lambda>v.
                  if e_dim e \<noteq> ew_dimensions w \<or> vl_len (ew_lib w) v \<noteq> ew_dimensions w
                  then Inl (StoredEmbeddingError ''existing stored embedding has the wrong dimension'')
                  else Inr False), d)
           | None \<Rightarrow>
               (case embed_document w (f_content f) of
                  Inl e \<Rightarrow> (Inl e, others d)
                | Inr blob \<Rightarrow>
                    (let d2 = others d;
                         stored = (case fact_by_id d2 i of
                             None \<Rightarrow> Inl (StoredEmbeddingError ''fact became ineligible during embedding'')
                           | Some g \<Rightarrow>
                               if \<not> embeddable g
                               then Inl (StoredEmbeddingError ''fact became ineligible during embedding'')
                               else if rt_sha256 rt (f_content g) \<noteq> rt_sha256 rt (f_content f)
                               then Inl (StoredEmbeddingError ''fact content changed during embedding'')
                               else upsert_in_transaction w True i blob d2)
                     in case stored of Inl e \<Rightarrow> (Inl e, d2) | Inr d3 \<Rightarrow> (Inr True, d3)))))"

section \<open>EmbeddingJobProcessor\<close>

record job_processor =
  jp_spec :: embedding_spec
  jp_worker_id :: string
  jp_lease_seconds :: int
  jp_max_attempts :: int

definition job_processor_init :: "'v embedding_writer \<Rightarrow> job_processor \<Rightarrow> job_processor res" where
  "job_processor_init w p =
     (if py_strip (jp_worker_id p) = [] \<or> jp_lease_seconds p < 1 \<or> jp_max_attempts p < 1
        then Inl (ValueError ''worker id, lease, and max attempts must be valid'')
      else if ew_document_identity w \<noteq> es_document_identity (jp_spec p)
        then Inl (ValueError ''processor writer identity does not match its outbox'')
      else if ew_dimensions w \<noteq> es_dimensions (jp_spec p)
        then Inl (ValueError ''processor writer dimensions do not match its outbox'')
      else if ew_embedding_version w \<noteq> es_embedding_version (jp_spec p)
        then Inl (ValueError ''processor writer version does not match its outbox'')
      else if ew_model_fingerprint w \<noteq> es_model_fingerprint (jp_spec p)
        then Inl (ValueError ''processor writer model fingerprint does not match its outbox'')
      else if ew_prefix_policy w \<noteq> es_prefix_policy (jp_spec p)
        then Inl (ValueError ''processor writer prefix policy does not match its outbox'')
      else Inr p)"

definition spec_job :: "embedding_spec \<Rightarrow> job_row \<Rightarrow> bool" where
  "spec_job s r \<longleftrightarrow>
     j_document_identity r = es_document_identity s \<and> j_embedding_version r = es_embedding_version s
     \<and> j_dimensions r = es_dimensions s"

definition exhausted_job :: "job_processor \<Rightarrow> int \<Rightarrow> job_row \<Rightarrow> bool" where
  "exhausted_job p stamp r \<longleftrightarrow>
     spec_job (jp_spec p) r \<and> jp_max_attempts p \<le> j_attempts r
     \<and> (j_status r = JobPending
        \<or> j_status r = JobProcessing
          \<and> (case j_lease_expires_at r of None \<Rightarrow> True | Some u \<Rightarrow> u \<le> stamp))"

definition due_job :: "job_processor \<Rightarrow> int \<Rightarrow> job_row \<Rightarrow> bool" where
  "due_job p stamp r \<longleftrightarrow>
     spec_job (jp_spec p) r \<and> j_attempts r < jp_max_attempts p
     \<and> (j_status r = JobPending \<and> j_available_at r \<le> stamp
        \<or> j_status r = JobProcessing
          \<and> (case j_lease_expires_at r of None \<Rightarrow> False | Some u \<Rightarrow> u \<le> stamp))"

definition clear_lease :: "job_row \<Rightarrow> job_row" where
  "clear_lease r = r\<lparr>j_lease_token := None, j_lease_owner := None, j_lease_expires_at := None\<rparr>"

definition bury_exhausted :: "job_processor \<Rightarrow> int \<Rightarrow> job_row list \<Rightarrow> job_row list" where
  "bury_exhausted p stamp js =
     update_where (exhausted_job p stamp)
       (\<lambda>r. (clear_lease r)\<lparr>j_status := JobDeadLetter, j_last_error := Some ''attempts_exhausted'',
              j_updated_at := stamp\<rparr>) js"

definition lease_job :: "job_processor \<Rightarrow> int \<Rightarrow> string \<Rightarrow> int \<Rightarrow> job_row \<Rightarrow> job_row" where
  "lease_job p stamp token attempts r =
     r\<lparr>j_status := JobProcessing, j_attempts := attempts, j_lease_token := Some token,
       j_lease_owner := Some (jp_worker_id p),
       j_lease_expires_at := Some (stamp + jp_lease_seconds p * 1000000), j_updated_at := stamp\<rparr>"

definition claim ::
  "job_processor \<Rightarrow> bool \<Rightarrow> int \<Rightarrow> string \<Rightarrow> db \<Rightarrow> (claimed_job option \<times> db) res" where
  "claim p in_txn instant token d =
     (if in_txn then Inl (RuntimeError ''embedding claim requires an idle connection'')
      else
        let js = bury_exhausted p instant (db_jobs d)
        in case first_row (due_job p instant) (sort_key j_id js) of
             None \<Rightarrow> Inr (None, d\<lparr>db_jobs := js\<rparr>)
           | Some r \<Rightarrow>
               let attempts = j_attempts r + 1
               in Inr (Some \<lparr>cj_job_id = j_id r, cj_fact_id = j_fact_id r,
                             cj_content_sha256 = j_content_sha256 r, cj_attempts = attempts,
                             cj_lease_token = token\<rparr>,
                       d\<lparr>db_jobs := update_where (\<lambda>x. j_id x = j_id r)
                                      (lease_job p instant token attempts) js\<rparr>))"

text \<open>\<open>WHERE job_id = ? AND status = 'processing' AND lease_token = ?\<close>.\<close>

definition holds_lease :: "claimed_job \<Rightarrow> job_row \<Rightarrow> bool" where
  "holds_lease job r \<longleftrightarrow>
     j_id r = cj_job_id job \<and> j_status r = JobProcessing \<and> j_lease_token r = Some (cj_lease_token job)"

text \<open>\<open>UPDATE embedding_jobs ... WHERE job_id = ? AND ...\<close> that must hit exactly one row.\<close>

definition update_leased ::
  "claimed_job \<Rightarrow> (job_row \<Rightarrow> job_row) \<Rightarrow> string \<Rightarrow> db \<Rightarrow> db res" where
  "update_leased job u lost d =
     (if rowcount (holds_lease job) (db_jobs d) \<noteq> 1 then Inl (RuntimeError lost)
      else Inr (d\<lparr>db_jobs := update_where (holds_lease job) u (db_jobs d)\<rparr>))"

definition job_requeued :: "string \<Rightarrow> int \<Rightarrow> job_row \<Rightarrow> job_row" where
  "job_requeued digest now r =
     (clear_lease r)\<lparr>j_status := JobPending, j_content_sha256 := digest, j_available_at := now,
       j_updated_at := now\<rparr>"

definition job_completed :: "string \<Rightarrow> string option \<Rightarrow> int \<Rightarrow> job_row \<Rightarrow> job_row" where
  "job_completed digest err now r =
     (clear_lease r)\<lparr>j_status := JobCompleted, j_content_sha256 := digest, j_last_error := err,
       j_completed_at := Some now, j_updated_at := now\<rparr>"

definition settle_inactive :: "runtime \<Rightarrow> int \<Rightarrow> claimed_job \<Rightarrow> db \<Rightarrow> (string \<times> db) res" where
  "settle_inactive rt now job d =
     (let lost = ''embedding job lease was lost while settling'';
          skip = rbind (update_leased job
                   (\<lambda>r. job_completed (j_content_sha256 r) (Some ''skipped_inactive'') now r) lost d)
                   (\<lambda>d'. Inr (''skipped_inactive'', d'))
      in case fact_by_id d (cj_fact_id job) of
           None \<Rightarrow> skip
         | Some f \<Rightarrow>
             if embeddable f
             then rbind (update_leased job (job_requeued (rt_sha256 rt (f_content f)) now) lost d)
                    (\<lambda>d'. Inr (''requeued_active'', d'))
             else skip)"

definition set_job :: "claimed_job \<Rightarrow> (job_row \<Rightarrow> job_row) \<Rightarrow> db \<Rightarrow> db" where
  "set_job job u d = d\<lparr>db_jobs := update_where (\<lambda>r. j_id r = cj_job_id job) u (db_jobs d)\<rparr>"

definition commit_prepared ::
  "runtime \<Rightarrow> job_processor \<Rightarrow> 'v embedding_writer \<Rightarrow> int \<Rightarrow> claimed_job \<Rightarrow> string \<Rightarrow> string \<Rightarrow> db
    \<Rightarrow> (string \<times> db) res" where
  "commit_prepared rt p w now job expected_hash blob d =
     (if \<not> list_ex (\<lambda>r. holds_lease job r \<and> spec_job (jp_spec p) r) (db_jobs d)
        then Inl (RuntimeError ''embedding job lease was lost after model call'')
      else
        let stale = Inr (''skipped_stale'',
              set_job job (\<lambda>r. job_completed (j_content_sha256 r) (Some ''skipped_stale'') now r) d)
        in case fact_by_id d (cj_fact_id job) of
             None \<Rightarrow> stale
           | Some f \<Rightarrow>
               if \<not> embeddable f then stale
               else
                 let actual_hash = rt_sha256 rt (f_content f)
                 in if actual_hash \<noteq> expected_hash
                    then Inr (''requeued_changed'', set_job job (job_requeued actual_hash now) d)
                    else rbind (upsert_in_transaction w True (cj_fact_id job) blob d) (\<lambda>d'.
                      Inr (''embedded'', set_job job (job_completed actual_hash None now) d')))"

definition complete_job ::
  "int \<Rightarrow> claimed_job \<Rightarrow> string \<Rightarrow> string option \<Rightarrow> db \<Rightarrow> db res" where
  "complete_job now job oc sha d =
     update_leased job
       (\<lambda>r. job_completed (case sha of None \<Rightarrow> j_content_sha256 r | Some h \<Rightarrow> h) (Some oc) now r)
       ''embedding job lease was lost before completion'' d"

definition job_status_text :: "job_status \<Rightarrow> string" where
  "job_status_text st =
     (case st of JobPending \<Rightarrow> ''pending'' | JobProcessing \<Rightarrow> ''processing''
      | JobCompleted \<Rightarrow> ''completed'' | JobDeadLetter \<Rightarrow> ''dead_letter'')"

text \<open>\<open>min(300, 2 ** attempts)\<close> seconds, in microseconds.\<close>

definition backoff :: "int \<Rightarrow> int" where
  "backoff attempts = min 300 (2 ^ nat attempts) * 1000000"

definition fail_job ::
  "job_processor \<Rightarrow> int \<Rightarrow> claimed_job \<Rightarrow> string \<Rightarrow> db \<Rightarrow> (string \<times> db) res" where
  "fail_job p instant job error_type d =
     (let st = (if jp_max_attempts p \<le> cj_attempts job then JobDeadLetter else JobPending)
      in rbind (update_leased job
           (\<lambda>r. (clear_lease r)\<lparr>j_status := st, j_available_at := instant + backoff (cj_attempts job),
                  j_last_error := Some error_type, j_updated_at := instant\<rparr>)
           ''embedding job lease was lost before failure handling'' d)
           (\<lambda>d'. Inr (job_status_text st, d')))"

text \<open>\<open>type(exc).__name__\<close>.\<close>

definition exc_name :: "exc \<Rightarrow> string" where
  "exc_name e =
     (case e of ValueError _ \<Rightarrow> ''ValueError'' | TypeError _ \<Rightarrow> ''TypeError''
      | RuntimeError _ \<Rightarrow> ''RuntimeError'' | PermissionError _ \<Rightarrow> ''PermissionError''
      | UnknownMemoryClient _ \<Rightarrow> ''UnknownMemoryClient'' | IdempotencyConflict _ \<Rightarrow> ''IdempotencyConflict''
      | ClientIdentityConflict _ \<Rightarrow> ''ClientIdentityConflict''
      | SessionContextConflict _ \<Rightarrow> ''SessionContextConflict''
      | StateSlotInvariantError _ \<Rightarrow> ''StateSlotInvariantError'' | IntegrityError _ \<Rightarrow> ''IntegrityError''
      | ErasureError _ \<Rightarrow> ''ErasureError'' | StoredEmbeddingError _ \<Rightarrow> ''StoredEmbeddingError''
      | PermanentExtractionError _ _ \<Rightarrow> ''PermanentExtractionError''
      | IndexError _ \<Rightarrow> ''IndexError'' | KeyError _ \<Rightarrow> ''KeyError''
      | ServiceRequestError _ _ \<Rightarrow> ''ServiceRequestError''
      | ProtocolValidationError _ \<Rightarrow> ''ProtocolValidationError''
      | FrameTooLargeError _ \<Rightarrow> ''FrameTooLargeError''
      | ProtocolVersionMismatch _ \<Rightarrow> ''ProtocolVersionMismatch'')"

text \<open>
  What one call of \<open>process_one\<close> meets: the instants of the claim, of a settlement and of a
  failure (the \<open>now\<close> argument or what the clock shows then), the UUID of the lease,
  and what other connections commit between its own transactions (after the claim, and while the
  model runs). The result is the returned value or the exception, with the committed database.
\<close>

record process_env =
  pe_now :: int
  pe_settle_now :: int
  pe_fail_now :: int
  pe_token :: string
  pe_after_claim :: "db \<Rightarrow> db"
  pe_during_model :: "db \<Rightarrow> db"

definition settled ::
  "claimed_job \<Rightarrow> db \<Rightarrow> (string \<times> db) res \<Rightarrow> process_result option res \<times> db" where
  "settled job d r =
     (case r of
        Inl e \<Rightarrow> (Inl e, d)
      | Inr (oc, d') \<Rightarrow> (Inr (Some \<lparr>pr_job_id = cj_job_id job, pr_fact_id = cj_fact_id job,
                                     pr_outcome = oc\<rparr>), d'))"

definition process_one ::
  "runtime \<Rightarrow> job_processor \<Rightarrow> 'v embedding_writer \<Rightarrow> process_env \<Rightarrow> bool \<Rightarrow> db
    \<Rightarrow> process_result option res \<times> db" where
  "process_one rt p w env in_txn d =
     (case claim p in_txn (pe_now env) (pe_token env) d of
        Inl e \<Rightarrow> (Inl e, d)
      | Inr (None, d1) \<Rightarrow> (Inr None, d1)
      | Inr (Some job, d1) \<Rightarrow>
          let d2 = pe_after_claim env d1; d3 = pe_during_model env d2;
              inactive = settled job d3 (settle_inactive rt (pe_settle_now env) job d3)
          in case fact_by_id d2 (cj_fact_id job) of
               None \<Rightarrow> inactive
             | Some f \<Rightarrow>
                 if \<not> embeddable f then inactive
                 else case embed_document w (f_content f) of
                   Inl e \<Rightarrow> settled job d3 (fail_job p (pe_fail_now env) job (exc_name e) d3)
                 | Inr blob \<Rightarrow>
                     settled job d3 (commit_prepared rt p w (pe_settle_now env) job
                                       (rt_sha256 rt (f_content f)) blob d3))"

section \<open>SupervisedEmbeddingWorker\<close>

record worker_state =
  ws_last_success :: "int option"
  ws_last_error :: "string option"

text \<open>
  One pass of the loop body of \<open>_run\<close>: up to \<open>n\<close> calls of \<open>process_one\<close>, the head of the list
  being what the next call meets together with the state of the stop event before it.
\<close>

fun worker_drain ::
  "(process_env \<Rightarrow> db \<Rightarrow> process_result option res \<times> db) \<Rightarrow> (db \<Rightarrow> embedding_health) \<Rightarrow> nat
    \<Rightarrow> (process_env \<times> bool) list \<Rightarrow> worker_state \<Rightarrow> db \<Rightarrow> worker_state \<times> db" where
  "worker_drain step health 0 envs ws d = (ws, d)"
| "worker_drain step health (Suc n) [] ws d = (ws, d)"
| "worker_drain step health (Suc n) ((env, stop) # envs) ws d =
     (if stop then (ws, d)
      else case step env d of
        (Inl e, d') \<Rightarrow> (ws\<lparr>ws_last_error := Some (exc_name e)\<rparr>, d')
      | (Inr None, d') \<Rightarrow>
          let h = health d'
          in (if eh_pending h = 0 \<and> eh_processing h = 0 \<and> eh_dead_letter h = 0
              then ws\<lparr>ws_last_error := None\<rparr> else ws, d')
      | (Inr (Some r), d') \<Rightarrow>
          let ws' = (if pr_outcome r = ''embedded''
                       then ws\<lparr>ws_last_success := Some (pe_settle_now env), ws_last_error := None\<rparr>
                     else if pr_outcome r = ''pending'' \<or> pr_outcome r = ''dead_letter''
                       then ws\<lparr>ws_last_error := Some (''job_'' @ pr_outcome r)\<rparr>
                     else ws\<lparr>ws_last_error := None\<rparr>)
          in worker_drain step health n envs ws' d')"

end
