(* ===== verification/Embedding_Lease.thy ===== *)
theory Embedding_Lease
  imports Embedding_Jobs
begin

text \<open>
  What the embedding outbox guarantees: it interprets \<open>embedding_outbox\<close> (an enqueue inside a
  write touches embedding jobs and nothing else) and \<open>leased_queue\<close> (claims, settlements and
  enqueues of any number of workers interleave without a stale worker ever writing), claims pick
  the oldest due job and are bounded by the attempts limit, a stored vector is the vector of the
  current text, and the health report is exact.
\<close>

section \<open>Definitions\<close>

definition job_key :: "job_row \<Rightarrow> int \<times> string" where
  "job_key r = (j_fact_id r, j_document_identity r)"

text \<open>The two unique keys of \<open>embedding_jobs\<close>.\<close>

definition jobs_ok :: "db \<Rightarrow> bool" where
  "jobs_ok d \<longleftrightarrow> distinct (map j_id (db_jobs d)) \<and> distinct (map job_key (db_jobs d))"

definition job_leased :: "db \<Rightarrow> int \<Rightarrow> string \<Rightarrow> bool" where
  "job_leased d j t \<longleftrightarrow>
     (\<exists>r \<in> set (db_jobs d). j_id r = j \<and> j_status r = JobProcessing \<and> j_lease_token r = Some t)"

fun claim_event :: "job_processor \<times> int \<Rightarrow> string \<Rightarrow> db \<Rightarrow> int option \<times> db" where
  "claim_event (p, instant) t d =
     (case claim p False instant t d of
        Inl e \<Rightarrow> (None, d) | Inr (job, d') \<Rightarrow> (map_option cj_job_id job, d'))"

text \<open>The four ways a worker ends a claim, with the arguments other than job id and token.\<close>

datatype 'v finish_call =
    SettleInactive runtime int claimed_job
  | CommitPrepared runtime job_processor "'v embedding_writer" int claimed_job string string
  | Complete int claimed_job string "string option"
  | Fail job_processor int claimed_job string

fun run_finish :: "'v finish_call \<Rightarrow> int \<Rightarrow> string \<Rightarrow> db \<Rightarrow> db res" where
  "run_finish (SettleInactive rt now job) j t d =
     rbind (settle_inactive rt now (job\<lparr>cj_job_id := j, cj_lease_token := t\<rparr>) d) (\<lambda>(oc, d'). Inr d')"
| "run_finish (CommitPrepared rt p w now job h blob) j t d =
     rbind (commit_prepared rt p w now (job\<lparr>cj_job_id := j, cj_lease_token := t\<rparr>) h blob d)
       (\<lambda>(oc, d'). Inr d')"
| "run_finish (Complete now job oc sha) j t d =
     complete_job now (job\<lparr>cj_job_id := j, cj_lease_token := t\<rparr>) oc sha d"
| "run_finish (Fail p now job err) j t d =
     rbind (fail_job p now (job\<lparr>cj_job_id := j, cj_lease_token := t\<rparr>) err d) (\<lambda>(oc, d'). Inr d')"

definition finish_event :: "'v finish_call \<Rightarrow> int \<Rightarrow> string \<Rightarrow> db \<Rightarrow> bool \<times> db" where
  "finish_event b j t d = (case run_finish b j t d of Inl e \<Rightarrow> (False, d) | Inr d' \<Rightarrow> (True, d'))"

text \<open>Everything else that commits: enqueues, and any change of the other tables.\<close>

datatype outbox_call =
    Enqueue runtime embedding_spec int int
  | Backfill runtime embedding_spec int
  | OtherTables db

fun outbox_event :: "outbox_call \<Rightarrow> db \<Rightarrow> db" where
  "outbox_event (Enqueue rt s now i) d =
     (case enqueue_in_transaction rt s now True i d of Inl e \<Rightarrow> d | Inr (j, d') \<Rightarrow> d')"
| "outbox_event (Backfill rt s now) d =
     (case enqueue_backfill rt s now False d of Inl e \<Rightarrow> d | Inr (n, d') \<Rightarrow> d')"
| "outbox_event (OtherTables d0) d = d0\<lparr>db_jobs := db_jobs d\<rparr>"

section \<open>How the statements change the job table\<close>

named_theorems job_simps

lemma clear_lease_sel [job_simps]:
  "j_id (clear_lease r) = j_id r" "job_key (clear_lease r) = job_key r"
  "j_attempts (clear_lease r) = j_attempts r" "j_status (clear_lease r) = j_status r"
  "spec_job s (clear_lease r) = spec_job s r"
  by (simp_all add: clear_lease_def job_key_def spec_job_def)

lemma job_requeued_sel [job_simps]:
  "j_id (job_requeued h now r) = j_id r" "job_key (job_requeued h now r) = job_key r"
  "j_attempts (job_requeued h now r) = j_attempts r" "j_status (job_requeued h now r) = JobPending"
  "spec_job s (job_requeued h now r) = spec_job s r"
  by (simp_all add: job_requeued_def clear_lease_def job_key_def spec_job_def)

lemma job_completed_sel [job_simps]:
  "j_id (job_completed h e now r) = j_id r" "job_key (job_completed h e now r) = job_key r"
  "j_attempts (job_completed h e now r) = j_attempts r" "j_status (job_completed h e now r) = JobCompleted"
  "spec_job s (job_completed h e now r) = spec_job s r"
  by (simp_all add: job_completed_def clear_lease_def job_key_def spec_job_def)

lemma lease_job_sel [job_simps]:
  "j_id (lease_job p now t a r) = j_id r" "job_key (lease_job p now t a r) = job_key r"
  "j_attempts (lease_job p now t a r) = a" "j_status (lease_job p now t a r) = JobProcessing"
  "j_lease_token (lease_job p now t a r) = Some t" "spec_job s (lease_job p now t a r) = spec_job s r"
  by (simp_all add: lease_job_def job_key_def spec_job_def)

lemma map_lease_job [job_simps]:
  "map j_id (update_where P (lease_job p now t a) js) = map j_id js"
  "map job_key (update_where P (lease_job p now t a) js) = map job_key js"
  by (simp_all add: map_update_where job_simps)

lemma requeue_job_sel [job_simps]:
  "j_id (requeue_job s h now r) = j_id r" "job_key (requeue_job s h now r) = job_key r"
  "j_status (requeue_job s h now r) = JobPending" "j_fact_id (requeue_job s h now r) = j_fact_id r"
  "j_document_identity (requeue_job s h now r) = j_document_identity r"
  by (simp_all add: requeue_job_def job_key_def)

text \<open>A row after the exhausted jobs are buried is an old row, or a dead letter.\<close>

lemma bury_exhausted_row:
  assumes "r \<in> set (bury_exhausted p now js)"
  obtains "r \<in> set js" "\<not> exhausted_job p now r"
    | q where "q \<in> set js" "exhausted_job p now q" "j_id r = j_id q" "j_status r = JobDeadLetter"
        "job_key r = job_key q"
  using assms unfolding bury_exhausted_def set_update_where
  by (fastforce simp: job_simps job_key_def clear_lease_def split: if_splits)

lemma bury_exhausted_keys [job_simps]:
  "map j_id (bury_exhausted p now js) = map j_id js"
  "map job_key (bury_exhausted p now js) = map job_key js"
  unfolding bury_exhausted_def
  by (auto intro!: map_update_where simp: job_key_def clear_lease_def)

text \<open>A successful claim: the least due job, leased under the token.\<close>

lemma claim_Some:
  assumes "claim p b now t d = Inr (Some job, d')"
  obtains r where "r \<in> set (bury_exhausted p now (db_jobs d))" "due_job p now r"
    "r \<in> set (db_jobs d)"
    "\<And>q. q \<in> set (db_jobs d) \<Longrightarrow> due_job p now q \<Longrightarrow> j_id r \<le> j_id q"
    "cj_job_id job = j_id r" "cj_fact_id job = j_fact_id r" "cj_content_sha256 job = j_content_sha256 r"
    "cj_attempts job = j_attempts r + 1" "cj_lease_token job = t"
    "d' = d\<lparr>db_jobs := update_where (\<lambda>x. j_id x = j_id r) (lease_job p now t (j_attempts r + 1))
                         (bury_exhausted p now (db_jobs d))\<rparr>"
proof -
  let ?js = "bury_exhausted p now (db_jobs d)"
  obtain r where r: "first_row (due_job p now) (sort_key j_id ?js) = Some r" and job: 
    "cj_job_id job = j_id r" "cj_fact_id job = j_fact_id r" "cj_content_sha256 job = j_content_sha256 r"
    "cj_attempts job = j_attempts r + 1" "cj_lease_token job = t"
    and d': "d' = d\<lparr>db_jobs := update_where (\<lambda>x. j_id x = j_id r) (lease_job p now t (j_attempts r + 1)) ?js\<rparr>"
    using assms unfolding claim_def Let_def by (auto split: if_splits option.splits)
  have in_js: "r \<in> set ?js" "due_job p now r" using first_row_Some [OF r] by auto
  then have old: "r \<in> set (db_jobs d)"
    by (cases rule: bury_exhausted_row) (auto simp: due_job_def)
  have least: "j_id r \<le> j_id q" if q: "q \<in> set (db_jobs d)" "due_job p now q" for q
  proof -
    have "\<not> exhausted_job p now q" using q(2) by (auto simp: due_job_def exhausted_job_def)
    with q have "q \<in> set ?js"
      unfolding bury_exhausted_def set_update_where by (auto simp: image_iff intro!: bexI [of _ q])
    moreover obtain ts where "filter (due_job p now) (sort_key j_id ?js) = r # ts"
      using r unfolding first_row_def by (auto split: list.splits)
    ultimately show ?thesis using q(2) by (intro sort_key_filter_min)
  qed
  show thesis using that in_js old least job d' by blast
qed

lemma claim_rows:
  assumes "claim p b now t d = Inr (Some job, d')"
  shows "\<exists>a. d' = d\<lparr>db_jobs := update_where (\<lambda>x. j_id x = cj_job_id job) (lease_job p now t a)
                        (bury_exhausted p now (db_jobs d))\<rparr>
             \<and> (\<exists>r \<in> set (bury_exhausted p now (db_jobs d)). j_id r = cj_job_id job)"
  using assms by (rule claim_Some) auto

lemma claim_None: "claim p b now t d = Inr (None, d') \<Longrightarrow> d' = d\<lparr>db_jobs := bury_exhausted p now (db_jobs d)\<rparr>"
  unfolding claim_def Let_def by (auto split: if_splits option.splits)

lemma claim_idle: "\<exists>r d'. claim p False now t d = Inr (r, d')"
  unfolding claim_def Let_def by (auto split: option.splits)


section \<open>Leases\<close>

lemma job_leased_iff:
  "job_leased (d\<lparr>db_jobs := js\<rparr>) j t \<longleftrightarrow>
     (\<exists>r \<in> set js. j_id r = j \<and> j_status r = JobProcessing \<and> j_lease_token r = Some t)"
  by (simp add: job_leased_def)

lemma job_leased_lease:
  "job_leased (d\<lparr>db_jobs := update_where (\<lambda>x. j_id x = j) (lease_job p now t a) js\<rparr>) i u \<longleftrightarrow>
     (if i = j then u = t \<and> (\<exists>r \<in> set js. j_id r = j) else job_leased (d\<lparr>db_jobs := js\<rparr>) i u)"
  by (induction js) (auto simp: job_leased_iff job_simps)

lemma bury_leased: "job_leased (d\<lparr>db_jobs := bury_exhausted p now (db_jobs d)\<rparr>) j t \<Longrightarrow> job_leased d j t"
  unfolding job_leased_iff by (elim bexE bury_exhausted_row) (auto simp: job_leased_def)

lemma jobs_ok_update:
  "(\<And>r. P r \<Longrightarrow> j_id (u r) = j_id r \<and> job_key (u r) = job_key r)
   \<Longrightarrow> jobs_ok (d\<lparr>db_jobs := update_where P u js\<rparr>) = jobs_ok (d\<lparr>db_jobs := js\<rparr>)"
  by (simp add: jobs_ok_def map_update_where [of P j_id u] map_update_where [of P job_key u])

lemma claim_event_inv: "jobs_ok d \<Longrightarrow> jobs_ok (snd (claim_event a t d))"
proof -
  assume ok: "jobs_ok d"
  obtain p now where a: "a = (p, now)" by (cases a)
  have "jobs_ok d'" if c: "claim p False now t d = Inr (r, d')" for r d'
  proof (cases r)
    case None
    with c ok show ?thesis by (auto dest!: claim_None simp: jobs_ok_def job_simps)
  next
    case (Some job)
    with claim_rows [OF c [unfolded Some]] ok show ?thesis
      by (auto simp: job_simps jobs_ok_def)
  qed
  then show ?thesis using ok by (auto simp: a split: sum.splits)
qed

lemma claim_event_Some:
  assumes "claim_event (p, now) t d = (Some j, d')"
  obtains job where "claim p False now t d = Inr (Some job, d')" "j = cj_job_id job"
  using assms by (auto split: sum.splits)

lemma claim_event_None:
  assumes "claim_event (p, now) t d = (None, d')"
  shows "d' = d\<lparr>db_jobs := bury_exhausted p now (db_jobs d)\<rparr>"
  using assms claim_idle [of p now t d] by (auto dest!: claim_None)

lemma claim_event_frame:
  assumes c: "claim_event a t d = (r, d')" and h: "job_leased d' i u" and "u \<noteq> t"
  shows "job_leased d i u"
proof -
  obtain p now where a: "a = (p, now)" by (cases a)
  show ?thesis
  proof (cases r)
    case None
    with c h show ?thesis unfolding a using claim_event_None bury_leased by blast
  next
    case (Some j)
    obtain job where job: "claim p False now t d = Inr (Some job, d')"
      using c Some a claim_event_Some by blast
    with claim_rows [OF job] h \<open>u \<noteq> t\<close> show ?thesis
      by (auto simp: job_leased_lease dest: bury_leased split: if_splits)
  qed
qed

lemma claim_event_leases:
  assumes c: "claim_event a t d = (Some j, d')"
  shows "job_leased d' j t" and "job_leased d' j u \<Longrightarrow> u = t"
proof -
  obtain p now where a: "a = (p, now)" by (cases a)
  obtain job where job: "claim p False now t d = Inr (Some job, d')" "j = cj_job_id job"
    using c a claim_event_Some by blast
  show "job_leased d' j t" and "job_leased d' j u \<Longrightarrow> u = t"
    using claim_rows [OF job(1)] job(2)
    by (auto simp: job_leased_lease)
qed

lemma update_leased_Inr:
  "update_leased job u lost d = Inr d' \<longleftrightarrow>
     rowcount (holds_lease job) (db_jobs d) = 1
     \<and> d' = d\<lparr>db_jobs := update_where (holds_lease job) u (db_jobs d)\<rparr>"
  by (auto simp: update_leased_def)

text \<open>What every successful settlement does to the job table.\<close>

definition settles :: "int \<Rightarrow> string \<Rightarrow> (job_row \<Rightarrow> job_row) \<Rightarrow> (job_row \<Rightarrow> bool) \<Rightarrow> bool" where
  "settles j t u P \<longleftrightarrow>
     (\<forall>r. j_id (u r) = j_id r \<and> job_key (u r) = job_key r \<and> j_attempts (u r) = j_attempts r
          \<and> (\<forall>s. spec_job s (u r) = spec_job s r) \<and> j_status (u r) \<noteq> JobProcessing)
     \<and> (\<forall>r. j_id r = j \<and> j_status r = JobProcessing \<and> j_lease_token r = Some t \<longrightarrow> P r)
     \<and> (\<forall>r. P r \<longrightarrow> j_id r = j)"

lemma settles_id: "settles j t u P \<Longrightarrow> P r \<Longrightarrow> j_id r = j"
  unfolding settles_def by blast

lemma settles_row:
  "settles j t u P \<Longrightarrow> j_id (u r) = j_id r \<and> j_attempts (u r) = j_attempts r
     \<and> spec_job s (u r) = spec_job s r \<and> j_status (u r) \<noteq> JobProcessing"
  unfolding settles_def by blast

lemma upsert_in_transaction_frame:
  "upsert_in_transaction w b i blob d = Inr d' \<Longrightarrow> \<exists>es. d' = d\<lparr>db_embeddings := es\<rparr>"
  by (auto simp: upsert_in_transaction_def upsert_embedding_def Let_def rbind_eq_Inr
      split: if_splits option.splits)

lemma update_leased_settles:
  assumes "update_leased job u lost d = Inr d'" and "settles j t u (holds_lease job)"
    and "cj_job_id job = j" "cj_lease_token job = t"
  shows "job_leased d j t \<and> (\<exists>P u. settles j t u P \<and> db_jobs d' = update_where P u (db_jobs d))"
proof -
  have "rowcount (holds_lease job) (db_jobs d) = Suc 0" and
    d': "db_jobs d' = update_where (holds_lease job) u (db_jobs d)"
    using assms(1) by (auto simp: update_leased_Inr)
  then obtain r where "r \<in> set (db_jobs d)" "holds_lease job r" using rowcount_pos_ex by blast
  then have "job_leased d j t" using assms(3,4) by (auto simp: job_leased_def holds_lease_def)
  with d' assms(2) show ?thesis by blast
qed

lemma settles_leased:
  assumes "\<And>r. j_id (u r) = j_id r \<and> job_key (u r) = job_key r \<and> j_attempts (u r) = j_attempts r
          \<and> (\<forall>s. spec_job s (u r) = spec_job s r) \<and> j_status (u r) \<noteq> JobProcessing"
  shows "settles (cj_job_id job) (cj_lease_token job) u (holds_lease job)"
    and "settles (cj_job_id job) (cj_lease_token job) u (\<lambda>r. j_id r = cj_job_id job)"
  using assms by (auto simp: settles_def holds_lease_def)

lemma commit_prepared_settles:
  assumes "commit_prepared rt p w now job h blob d = Inr (oc, d')"
  shows "job_leased d (cj_job_id job) (cj_lease_token job)
    \<and> (\<exists>P u. settles (cj_job_id job) (cj_lease_token job) u P \<and> db_jobs d' = update_where P u (db_jobs d))"
proof -
  have "job_leased d (cj_job_id job) (cj_lease_token job)"
    using assms by (auto simp: commit_prepared_def job_leased_def list_ex_iff holds_lease_def
        split: if_splits)
  moreover have "\<exists>u. db_jobs d' = update_where (\<lambda>r. j_id r = cj_job_id job) u (db_jobs d)
      \<and> settles (cj_job_id job) (cj_lease_token job) u (\<lambda>r. j_id r = cj_job_id job)"
    using assms unfolding commit_prepared_def Let_def
    by (auto simp: rbind_eq_Inr set_job_def split: if_splits option.splits
        dest!: upsert_in_transaction_frame intro!: exI settles_leased(2) simp: job_simps)
  ultimately show ?thesis by blast
qed

lemma run_finish_Inr:
  assumes "run_finish b j t d = Inr d'"
  shows "job_leased d j t \<and> (\<exists>P u. settles j t u P \<and> db_jobs d' = update_where P u (db_jobs d))"
proof (cases b)
  case (SettleInactive rt now job)
  then obtain u lost where "update_leased (job\<lparr>cj_job_id := j, cj_lease_token := t\<rparr>) u lost d = Inr d'"
    and u: "\<exists>h. u = job_requeued h now \<or> u = (\<lambda>r. job_completed (j_content_sha256 r) (Some ''skipped_inactive'') now r)"
    using assms by (auto simp: settle_inactive_def Let_def rbind_eq_Inr split: option.splits if_splits)
  then show ?thesis
    by (intro update_leased_settles) (auto intro!: settles_leased [of u "job\<lparr>cj_job_id := j, cj_lease_token := t\<rparr>", simplified] simp: job_simps)
next
  case (CommitPrepared rt p w now job h blob)
  then show ?thesis
    using assms commit_prepared_settles [of rt p w now "job\<lparr>cj_job_id := j, cj_lease_token := t\<rparr>" h blob d]
    by (auto simp: rbind_eq_Inr)
next
  case (Complete now job oc sha)
  with assms show ?thesis unfolding Complete run_finish.simps complete_job_def
    by (rule_tac update_leased_settles)
      (auto intro!: settles_leased [of _ "job\<lparr>cj_job_id := j, cj_lease_token := t\<rparr>", simplified] simp: job_simps)
next
  case (Fail p now job err)
  let ?st = "if jp_max_attempts p \<le> cj_attempts job then JobDeadLetter else JobPending"
  have "update_leased (job\<lparr>cj_job_id := j, cj_lease_token := t\<rparr>)
          (\<lambda>r. (clear_lease r)\<lparr>j_status := ?st, j_available_at := now + backoff (cj_attempts job),
                  j_last_error := Some err, j_updated_at := now\<rparr>)
          ''embedding job lease was lost before failure handling'' d = Inr d'"
    using assms Fail by (auto simp: fail_job_def Let_def rbind_eq_Inr)
  then show ?thesis
    by (rule update_leased_settles)
      (auto intro!: settles_leased [of _ "job\<lparr>cj_job_id := j, cj_lease_token := t\<rparr>", simplified]
        simp: job_simps job_key_def spec_job_def clear_lease_def)
qed

lemma finish_event_True:
  "finish_event b j t d = (True, d') \<longleftrightarrow> run_finish b j t d = Inr d'"
  by (auto simp: finish_event_def split: sum.splits)

lemma finish_event_leased: "finish_event b j t d = (True, d') \<Longrightarrow> job_leased d j t"
  by (auto simp: finish_event_True dest: run_finish_Inr)

lemma settles_frame:
  assumes "settles j t u P" and "db_jobs d' = update_where P u (db_jobs d)"
  shows "jobs_ok d' = jobs_ok d" and "job_leased d' i v \<Longrightarrow> job_leased d i v \<and> (i, v) \<noteq> (j, t)"
proof -
  have "map j_id (db_jobs d') = map j_id (db_jobs d)" "map job_key (db_jobs d') = map job_key (db_jobs d)"
    unfolding assms(2) by (rule map_update_where, use assms(1) in \<open>simp add: settles_def\<close>)+
  then show "jobs_ok d' = jobs_ok d" by (simp add: jobs_ok_def)
  assume "job_leased d' i v"
  then obtain r where r: "r \<in> set (db_jobs d)" "j_id (if P r then u r else r) = i"
    "j_status (if P r then u r else r) = JobProcessing" "j_lease_token (if P r then u r else r) = Some v"
    by (auto simp: job_leased_def assms(2) set_update_where)
  moreover from r(3) assms(1) have "\<not> P r" by (auto simp: settles_def)
  ultimately show "job_leased d i v \<and> (i, v) \<noteq> (j, t)"
    using assms(1) by (auto simp: job_leased_def settles_def)
qed

lemma finish_event_cases:
  obtains d' where "finish_event b j t d = (True, d')" "run_finish b j t d = Inr d'"
  | "finish_event b j t d = (False, d)"
  by (cases "run_finish b j t d") (auto simp: finish_event_def)

section \<open>Enqueues\<close>

lemma upsert_job_leased:
  assumes "job_leased (d\<lparr>db_jobs := fst (upsert_job s i h now c (db_jobs d))\<rparr>) j t"
    and "\<And>r. c r \<Longrightarrow> j_status r = JobCompleted"
  shows "job_leased d j t"
  using assms(1) unfolding job_leased_iff upsert_job_def
  by (auto simp: job_leased_def set_update_where job_simps new_job_def split: if_splits)

lemma upsert_job_keys:
  assumes "distinct (map j_id js)" and "distinct (map job_key js)"
  shows "distinct (map j_id (fst (upsert_job s i h now c js)))"
    and "distinct (map job_key (fst (upsert_job s i h now c js)))"
  using assms next_rowid_fresh [of "map j_id js"]
  by (auto simp: upsert_job_def map_update_where job_simps new_job_def job_key_def job_for_def
      list_ex_iff image_iff)

lemma upsert_job_ok:
  "jobs_ok d \<Longrightarrow> jobs_ok (d\<lparr>db_jobs := fst (upsert_job s i h now c (db_jobs d))\<rparr>)"
  by (simp add: jobs_ok_def upsert_job_keys)

lemma enqueue_in_transaction_Inr:
  assumes "enqueue_in_transaction rt s now b i d = Inr (j, d')"
  obtains f where "fact_by_id d i = Some f"
    "d' = d\<lparr>db_jobs := fst (upsert_job s i (rt_sha256 rt (f_content f)) now
                     (\<lambda>r. j_status r = JobCompleted \<and> \<not> has_vector s i d) (db_jobs d))\<rparr>"
  using assms by (auto simp: enqueue_in_transaction_def Let_def split: if_splits option.splits)

lemma backfill_loop_induct:
  assumes "P js" and "\<And>i h js. P js \<Longrightarrow> P (fst (upsert_job s i h now (\<lambda>r. j_status r = JobCompleted) js))"
  shows "P (fst (backfill_loop rt s now fs (js, n)))"
  using assms(1)
proof (induction fs arbitrary: js n)
  case (Cons f fs)
  show ?case
    using Cons.IH assms(2) [OF Cons.prems, of "f_id f" "rt_sha256 rt (f_content f)"]
    by (auto split: prod.splits)
qed simp

lemma enqueue_backfill_Inr:
  "enqueue_backfill rt s now False d = Inr (n, d') \<Longrightarrow>
   d' = d\<lparr>db_jobs := fst (backfill_loop rt s now (backfill_rows s d) (db_jobs d, 0))\<rparr>"
  by (auto simp: enqueue_backfill_def split: prod.splits)

lemma outbox_event_ok: "jobs_ok d \<Longrightarrow> jobs_ok (outbox_event x d)"
proof (cases x)
  case (Enqueue rt s now i)
  assume "jobs_ok d"
  then show ?thesis
    unfolding Enqueue
    by (auto split: sum.splits elim!: enqueue_in_transaction_Inr intro: upsert_job_ok)
next
  case (Backfill rt s now)
  assume ok: "jobs_ok d"
  have "jobs_ok (d\<lparr>db_jobs := fst (backfill_loop rt s now fs (db_jobs d, 0))\<rparr>)" for fs
    by (rule backfill_loop_induct [where P = "\<lambda>js. jobs_ok (d\<lparr>db_jobs := js\<rparr>)"])
      (use ok upsert_job_ok [where d = "d\<lparr>db_jobs := js\<rparr>" for js] in \<open>auto simp: jobs_ok_def\<close>)
  with ok show ?thesis unfolding Backfill by (auto dest: enqueue_backfill_Inr split: sum.splits)
next
  case (OtherTables d0)
  assume "jobs_ok d"
  then show ?thesis by (simp add: OtherTables jobs_ok_def)
qed

lemma outbox_event_frame: "job_leased (outbox_event x d) j t \<Longrightarrow> job_leased d j t"
proof (cases x)
  case (Enqueue rt s now i)
  assume "job_leased (outbox_event x d) j t"
  then show ?thesis
    unfolding Enqueue
    by (auto split: sum.splits elim!: enqueue_in_transaction_Inr dest: upsert_job_leased)
next
  case (Backfill rt s now)
  have "job_leased (d\<lparr>db_jobs := fst (backfill_loop rt s now fs (db_jobs d, 0))\<rparr>) j t \<longrightarrow> job_leased d j t" for fs
    by (rule backfill_loop_induct [where P = "\<lambda>js. job_leased (d\<lparr>db_jobs := js\<rparr>) j t \<longrightarrow> job_leased d j t"])
      (use upsert_job_leased [where d = "d\<lparr>db_jobs := js\<rparr>" for js] in \<open>auto\<close>)
  moreover assume "job_leased (outbox_event x d) j t"
  ultimately show ?thesis unfolding Backfill by (auto dest: enqueue_backfill_Inr split: sum.splits)
next
  case (OtherTables d0)
  assume "job_leased (outbox_event x d) j t"
  then show ?thesis by (simp add: OtherTables job_leased_def)
qed

section \<open>Interpretations\<close>

text \<open>The callback the service passes to the write envelope.\<close>

definition outbox_callback :: "runtime \<Rightarrow> embedding_spec \<Rightarrow> int \<Rightarrow> int \<Rightarrow> db \<Rightarrow> db res" where
  "outbox_callback rt s now i d = rbind (enqueue_in_transaction rt s now True i d) (\<lambda>(j, d'). Inr d')"

interpretation outbox: embedding_outbox "outbox_callback rt s now" for rt s now
  by unfold_locales (auto simp: outbox_callback_def rbind_eq_Inr elim!: enqueue_in_transaction_Inr)

interpretation jobs: leased_queue jobs_ok job_leased claim_event finish_event outbox_event
proof unfold_locales
  show "jobs_ok (snd (finish_event b j t s))" if "jobs_ok s" for b j t s
    using that by (cases rule: finish_event_cases [of b j t s])
      (auto dest!: run_finish_Inr simp: settles_frame(1))
  show "\<not> job_leased s' j t" if "finish_event b j t s = (True, s')" for b j t s s'
    using that settles_frame(2) by (fastforce simp: finish_event_True dest!: run_finish_Inr)
  show "s' = s" if "finish_event b j t s = (False, s')" for b j t s s'
    using that by (cases rule: finish_event_cases [of b j t s]) auto
  show "job_leased s i u" if "job_leased (snd (finish_event b j t s)) i u" for b j t s i u
    using that settles_frame(2) by (cases rule: finish_event_cases [of b j t s]) (auto dest!: run_finish_Inr)
qed (auto intro: claim_event_inv claim_event_leases(1) dest: claim_event_leases(2) claim_event_frame
      finish_event_leased outbox_event_frame intro: outbox_event_ok)

end
