(* ===== verification/Embedding_Guarantees.thy ===== *)
theory Embedding_Guarantees
  imports Embedding_Lease
begin

text \<open>
  The properties of the embedding outbox: fencing of stale workers, order of claims, a bound on
  the number of claims, finality of dead letters, currency of stored vectors, and coverage by the
  backfill. Each rests on the interpretation \<open>jobs\<close> or on the description of the statements.
\<close>

section \<open>Definitions\<close>

type_synonym 'v job_event =
  "(job_processor \<times> int, 'v finish_call, outbox_call, int, string) lease_event"

abbreviation jobs_run :: "'v job_event list \<Rightarrow> db \<Rightarrow> db" where
  "jobs_run \<equiv> lease_run claim_event finish_event outbox_event"

abbreviation jobs_step :: "'v job_event \<Rightarrow> db \<Rightarrow> db" where
  "jobs_step \<equiv> lease_step claim_event finish_event outbox_event"

text \<open>How often the live jobs of a processor can still be claimed.\<close>

definition job_credit :: "job_processor \<Rightarrow> job_row \<Rightarrow> nat" where
  "job_credit p r =
     (if spec_job (jp_spec p) r \<and> live_status r then nat (jp_max_attempts p - j_attempts r) else 0)"

definition attempts_left :: "job_processor \<Rightarrow> db \<Rightarrow> nat" where
  "attempts_left p d = sum_list (map (job_credit p) (db_jobs d))"

fun claims_made :: "'v job_event list \<Rightarrow> db \<Rightarrow> nat" where
  "claims_made [] d = 0"
| "claims_made (e # es) d =
     (case e of EvClaim a t \<Rightarrow> if fst (claim_event a t d) = None then 0 else 1 | _ \<Rightarrow> 0)
     + claims_made es (jobs_step e d)"

text \<open>A claim by \<open>p\<close>, or the end of one.\<close>

fun worker_event :: "job_processor \<Rightarrow> 'v job_event \<Rightarrow> bool" where
  "worker_event p (EvClaim a t) = (fst a = p)"
| "worker_event p (EvFinish b j t) = True"
| "worker_event p (EvOther x) = False"

text \<open>The fact has a job of this identity and none of its jobs is completed.\<close>

definition queued :: "embedding_spec \<Rightarrow> int \<Rightarrow> job_row list \<Rightarrow> bool" where
  "queued s i js \<longleftrightarrow>
     (\<exists>r \<in> set js. job_for s i r) \<and> (\<forall>r \<in> set js. job_for s i r \<longrightarrow> j_status r \<noteq> JobCompleted)"

text \<open>A demonstration: one spec, one processor, a model of one dimension, and jobs for two facts.\<close>

definition demo_spec :: embedding_spec where
  "demo_spec = \<lparr>es_document_identity = ''m:document:none:v1'', es_embedding_version = ''v1'',
     es_dimensions = 1, es_model_fingerprint = ''v1'', es_prefix_policy = ''none'',
     es_query_prefix = [], es_document_prefix = []\<rparr>"

definition demo_processor :: job_processor where
  "demo_processor = \<lparr>jp_spec = demo_spec, jp_worker_id = ''w'', jp_lease_seconds = 60, jp_max_attempts = 5\<rparr>"

definition demo_writer :: "string embedding_writer" where
  "demo_writer =
     \<lparr>ew_lib = \<lparr>vl_len = (\<lambda>v. 1), vl_finite = (\<lambda>v. True), vl_to_bytes = (\<lambda>v. v), vl_frombuffer = Inr\<rparr>,
      ew_embed = (\<lambda>s. Inr (Some s)), ew_index_upsert = None, ew_document_identity = ''m:document:none:v1'',
      ew_embedding_version = ''v1'', ew_model_fingerprint = ''v1'', ew_prefix_policy = ''none'',
      ew_dimensions = 1, ew_document_prefix = [], ew_query_prefix = []\<rparr>"

definition demo_jobs_db :: db where
  "demo_jobs_db = demo_db\<lparr>db_jobs := [new_job demo_spec 4 ''uses nano'' 0 2, new_job demo_spec 3 ''likes tea'' 0 1]\<rparr>"

text \<open>Job 1 is leased under token a until second 60; job 2 is a dead letter.\<close>

definition demo_leased_db :: db where
  "demo_leased_db = demo_db\<lparr>db_jobs :=
     [lease_job demo_processor 0 ''a'' 1 (new_job demo_spec 3 ''likes tea'' 0 1),
      (new_job demo_spec 4 ''uses nano'' 0 2)\<lparr>j_status := JobDeadLetter\<rparr>]\<rparr>"

definition demo_old_job :: claimed_job where
  "demo_old_job = \<lparr>cj_job_id = 1, cj_fact_id = 3, cj_content_sha256 = ''likes tea'', cj_attempts = 1,
     cj_lease_token = ''a''\<rparr>"

definition demo_process_env :: process_env where
  "demo_process_env = \<lparr>pe_now = 5, pe_settle_now = 6, pe_fail_now = 6, pe_token = ''t'',
     pe_after_claim = (\<lambda>d. d), pe_during_model = (\<lambda>d. d)\<rparr>"

section \<open>Fencing\<close>

lemma not_leased_rowcount:
  "\<not> job_leased d (cj_job_id job) (cj_lease_token job) \<Longrightarrow> rowcount (holds_lease job) (db_jobs d) = 0"
  by (auto simp: job_leased_def rowcount_0_iff holds_lease_def)

lemma lost_lease_errors:
  assumes "\<not> job_leased d (cj_job_id job) (cj_lease_token job)"
  shows "commit_prepared rt p w now job h blob d
           = Inl (RuntimeError ''embedding job lease was lost after model call'')"
    and "settle_inactive rt now job d
           = Inl (RuntimeError ''embedding job lease was lost while settling'')"
    and "fail_job p now job err d
           = Inl (RuntimeError ''embedding job lease was lost before failure handling'')"
    and "complete_job now job oc sha d
           = Inl (RuntimeError ''embedding job lease was lost before completion'')"
proof -
  note zero = not_leased_rowcount [OF assms]
  then have "\<forall>r \<in> set (db_jobs d). \<not> holds_lease job r" by (simp add: rowcount_0_iff)
  then show "commit_prepared rt p w now job h blob d
      = Inl (RuntimeError ''embedding job lease was lost after model call'')"
    by (auto simp: commit_prepared_def list_ex_iff)
qed (simp_all add: settle_inactive_def fail_job_def complete_job_def update_leased_def Let_def
      not_leased_rowcount [OF assms] rbind_def split: option.splits)

text \<open>C32: Fencing. Once another worker has claimed the job under its own token, whatever
  claims, settlements, enqueues and other writes are committed in between, every way of ending the
  old claim raises the lost-lease error (so the old worker writes nothing).\<close>

theorem stale_worker_fenced:
  assumes "jobs_ok d" and "claim p False now u d = Inr (Some job, d1)"
    and "cj_job_id old = cj_job_id job" and "cj_lease_token old \<noteq> u"
    and "\<forall>e \<in> set (es :: 'v job_event list). \<not> claims_with (cj_lease_token old) e"
  shows "commit_prepared rt p' (w :: 'v embedding_writer) n old h blob (jobs_run es d1)
           = Inl (RuntimeError ''embedding job lease was lost after model call'')
    \<and> settle_inactive rt n old (jobs_run es d1)
           = Inl (RuntimeError ''embedding job lease was lost while settling'')
    \<and> fail_job p' n old err (jobs_run es d1)
           = Inl (RuntimeError ''embedding job lease was lost before failure handling'')
    \<and> complete_job n old oc sha (jobs_run es d1)
           = Inl (RuntimeError ''embedding job lease was lost before completion'')"
proof -
  have c: "claim_event (p, now) u d = (Some (cj_job_id job), d1)" using assms(2) by simp
  have "\<not> job_leased d1 (cj_job_id job) (cj_lease_token old)"
    using jobs.claim_sole [OF assms(1) c] assms(4) by blast
  moreover have "jobs_ok d1" using jobs.claim_inv [OF assms(1), of "(p, now)" u] c by simp
  ultimately have "\<not> job_leased (jobs_run es d1) (cj_job_id old) (cj_lease_token old)"
    using jobs.no_new_lease assms(3,5) by metis
  then show ?thesis by (simp add: lost_lease_errors)
qed

section \<open>Claims\<close>

text \<open>A claim takes the due job with the least id, leases exactly that row under the new
  token with one more attempt and the expiry one lease period ahead, and returns its fields; it
  returns no job only if no job is due; a job leased by somebody else and not expired is left as
  it is.\<close>

theorem claim_takes_oldest_due:
  assumes ok: "jobs_ok d" and c: "claim p False now t d = Inr (res, d')"
  shows "(case res of
      None \<Rightarrow> \<forall>r \<in> set (db_jobs d). \<not> due_job p now r
    | Some job \<Rightarrow> \<exists>r \<in> set (db_jobs d). due_job p now r
        \<and> (\<forall>q \<in> set (db_jobs d). due_job p now q \<longrightarrow> j_id r \<le> j_id q)
        \<and> job = \<lparr>cj_job_id = j_id r, cj_fact_id = j_fact_id r, cj_content_sha256 = j_content_sha256 r,
                 cj_attempts = j_attempts r + 1, cj_lease_token = t\<rparr>
        \<and> lease_job p now t (j_attempts r + 1) r \<in> set (db_jobs d')
        \<and> j_attempts r + 1 \<le> jp_max_attempts p)
    \<and> (\<forall>q \<in> set (db_jobs d). \<forall>u. j_status q = JobProcessing \<and> j_lease_expires_at q = Some u \<and> now < u
         \<longrightarrow> q \<in> set (db_jobs d'))"
proof -
  let ?js = "bury_exhausted p now (db_jobs d)"
  have keep: "q \<in> set ?js" if "q \<in> set (db_jobs d)" "\<not> exhausted_job p now q" for q
    using that unfolding bury_exhausted_def set_update_where
    by (auto simp: image_iff intro!: bexI [of _ q])
  show ?thesis
  proof (cases res)
    case None
    then have d': "d' = d\<lparr>db_jobs := ?js\<rparr>" using c claim_None by blast
    have "first_row (due_job p now) (sort_key j_id ?js) = None"
      using c None unfolding claim_def Let_def by (auto split: option.splits)
    then have "\<forall>r \<in> set ?js. \<not> due_job p now r" by (simp add: first_row_None_iff)
    then have "\<not> due_job p now r" if "r \<in> set (db_jobs d)" for r
      using keep [OF that] by (auto simp: due_job_def exhausted_job_def)
    then show ?thesis using None keep by (auto simp: d' exhausted_job_def)
  next
    case (Some job)
    obtain r where r: "r \<in> set ?js" "due_job p now r" "r \<in> set (db_jobs d)"
      "\<And>q. q \<in> set (db_jobs d) \<Longrightarrow> due_job p now q \<Longrightarrow> j_id r \<le> j_id q"
      and job: "cj_job_id job = j_id r" "cj_fact_id job = j_fact_id r"
      "cj_content_sha256 job = j_content_sha256 r" "cj_attempts job = j_attempts r + 1"
      "cj_lease_token job = t"
      and d': "d' = d\<lparr>db_jobs := update_where (\<lambda>x. j_id x = j_id r) (lease_job p now t (j_attempts r + 1)) ?js\<rparr>"
      using c unfolding Some by (rule claim_Some) blast
    have "q \<in> set (db_jobs d')"
      if q: "q \<in> set (db_jobs d)" "j_status q = JobProcessing" "j_lease_expires_at q = Some u" "now < u" for q u
    proof -
      have "\<not> exhausted_job p now q" "\<not> due_job p now q" using q by (auto simp: exhausted_job_def due_job_def)
      moreover from this r(2) have "j_id q \<noteq> j_id r"
        using ok distinct_key_inj [of j_id "db_jobs d" q r] q(1) r(3) by (auto simp: jobs_ok_def)
      ultimately show ?thesis using keep [OF q(1)] by (auto simp: d' set_update_where image_iff intro!: bexI [of _ q])
    qed
    moreover have "lease_job p now t (j_attempts r + 1) r \<in> set (db_jobs d')"
      using r(1) by (auto simp: d' set_update_where image_iff)
    moreover have "job = \<lparr>cj_job_id = j_id r, cj_fact_id = j_fact_id r,
        cj_content_sha256 = j_content_sha256 r, cj_attempts = j_attempts r + 1, cj_lease_token = t\<rparr>"
      using job by simp
    moreover have "j_attempts r + 1 \<le> jp_max_attempts p" using r(2) by (simp add: due_job_def)
    ultimately show ?thesis using Some r(2-4) by auto
  qed
qed


section \<open>The number of claims is bounded\<close>

lemma sum_list_update_key:
  assumes "distinct (map k rs)" and "r \<in> set rs"
  shows "sum_list (map g (update_where (\<lambda>x. k x = k r) u rs)) + g r = sum_list (map g rs) + (g (u r) :: nat)"
  using assms
proof (induction rs)
  case (Cons x rs)
  show ?case
  proof (cases "k x = k r")
    case True
    then have "x = r" using distinct_key_inj [OF Cons.prems(1), of r x] Cons.prems(2) by auto
    moreover have "update_where (\<lambda>x. k x = k r) u rs = rs"
      using Cons.prems(1) \<open>x = r\<close> by (intro update_where_none) (auto simp: image_iff)
    ultimately show ?thesis by simp
  next
    case False
    then show ?thesis using Cons by auto
  qed
qed simp

lemma attempts_left_bury [simp]:
  "attempts_left p (d\<lparr>db_jobs := bury_exhausted p now (db_jobs d)\<rparr>) = attempts_left p d"
proof -
  have "sum_list (map (job_credit p) (bury_exhausted p now js)) = sum_list (map (job_credit p) js)" for js
    by (induction js) (auto simp: bury_exhausted_def job_credit_def exhausted_job_def live_status_def)
  then show ?thesis by (simp add: attempts_left_def)
qed

lemma claim_spends_attempt:
  assumes ok: "jobs_ok d" and c: "claim p False now t d = Inr (Some job, d')"
  shows "attempts_left p d' + 1 = attempts_left p d"
proof -
  let ?js = "bury_exhausted p now (db_jobs d)"
  obtain r where r: "r \<in> set ?js" "due_job p now r"
    and d': "d' = d\<lparr>db_jobs := update_where (\<lambda>x. j_id x = j_id r) (lease_job p now t (j_attempts r + 1)) ?js\<rparr>"
    using c by (rule claim_Some) blast
  have "distinct (map j_id ?js)" using ok by (simp add: jobs_ok_def job_simps)
  from sum_list_update_key [OF this r(1), of "job_credit p" "lease_job p now t (j_attempts r + 1)"]
  have "attempts_left p d' + job_credit p r
      = attempts_left p (d\<lparr>db_jobs := ?js\<rparr>) + job_credit p (lease_job p now t (j_attempts r + 1) r)"
    by (simp add: attempts_left_def d')
  moreover have "job_credit p r = Suc (job_credit p (lease_job p now t (j_attempts r + 1) r))"
    using r(2) by (auto simp: job_credit_def due_job_def live_status_def job_simps)
  ultimately show ?thesis by simp
qed

lemma leased_row_unique:
  assumes "jobs_ok d" and "job_leased d j t" and "r \<in> set (db_jobs d)" and "j_id r = j"
  shows "j_status r = JobProcessing"
proof -
  obtain q where q: "q \<in> set (db_jobs d)" "j_id q = j" "j_status q = JobProcessing"
    using assms(2) by (auto simp: job_leased_def)
  then have "q = r" using assms distinct_key_inj [of j_id "db_jobs d" r q] by (simp add: jobs_ok_def)
  with q show ?thesis by simp
qed

lemma finish_keeps_attempts:
  assumes ok: "jobs_ok d" shows "attempts_left p (snd (finish_event b j t d)) \<le> attempts_left p d"
proof (cases rule: finish_event_cases [of b j t d])
  case (1 d')
  then obtain P u where l: "job_leased d j t" and s: "settles j t u P"
    and d': "db_jobs d' = update_where P u (db_jobs d)" using run_finish_Inr by blast
  have "job_credit p (if P r then u r else r) \<le> job_credit p r" if r: "r \<in> set (db_jobs d)" for r
  proof (cases "P r")
    case True
    then have "j_status r = JobProcessing" using leased_row_unique [OF ok l r] settles_id [OF s] by blast
    then show ?thesis
      using settles_row [OF s, of r "jp_spec p"] by (simp add: job_credit_def live_status_def)
  qed simp
  then show ?thesis
    using 1 by (auto simp: attempts_left_def d' update_where_def comp_def intro!: sum_list_mono)
qed simp

text \<open>C34: The workers of a processor configuration cannot spin: between enqueues, however claims
  and settlements interleave, the number of successful claims is at most the attempts the live
  jobs have left, so a job that keeps failing is retired after its attempts.\<close>

theorem claims_bounded:
  "jobs_ok d \<Longrightarrow> \<forall>e \<in> set es. worker_event p e \<Longrightarrow>
   claims_made es d + attempts_left p (jobs_run es d) \<le> attempts_left p d"
proof (induction es arbitrary: d)
  case (Cons e es)
  have ok: "jobs_ok (jobs_step e d)" using Cons.prems(1) by (rule jobs.step_inv)
  have "claims_made es (jobs_step e d) + attempts_left p (jobs_run es (jobs_step e d))
      \<le> attempts_left p (jobs_step e d)"
    using Cons.IH [OF ok] Cons.prems(2) by simp
  moreover have "(case e of EvClaim a t \<Rightarrow> if fst (claim_event a t d) = None then 0 else 1 | _ \<Rightarrow> 0)
      + attempts_left p (jobs_step e d) \<le> attempts_left p d"
  proof (cases e)
    case (EvClaim a t)
    obtain now where a: "a = (p, now)" using Cons.prems(2) EvClaim by (cases a) auto
    obtain res d' where c: "claim p False now t d = Inr (res, d')" using claim_idle by blast
    show ?thesis
    proof (cases res)
      case None
      with c claim_None [of p False now t d d'] show ?thesis by (simp add: EvClaim a)
    next
      case (Some job)
      with c claim_spends_attempt [OF Cons.prems(1), of p now t job d'] show ?thesis
        by (simp add: EvClaim a)
    qed
  next
    case (EvFinish b j t)
    then show ?thesis using finish_keeps_attempts [OF Cons.prems(1)] by simp
  next
    case (EvOther x)
    then show ?thesis using Cons.prems(2) by simp
  qed
  ultimately show ?case by (cases e) auto
qed simp

section \<open>Dead letters\<close>

lemma upsert_job_keeps:
  "r \<in> set js \<Longrightarrow> \<not> c r \<Longrightarrow> r \<in> set (fst (upsert_job s i h now c js))"
  by (auto simp: upsert_job_def set_update_where image_iff intro!: bexI [of _ r])

lemma dead_letter_step:
  assumes ok: "jobs_ok d" and r: "r \<in> set (db_jobs d)" "j_status r = JobDeadLetter"
  shows "r \<in> set (db_jobs (jobs_step e d))"
proof (cases e)
  case (EvClaim a t)
  obtain p now where a: "a = (p, now)" by (cases a)
  have buried: "r \<in> set (bury_exhausted p now (db_jobs d))"
    using r unfolding bury_exhausted_def set_update_where
    by (auto simp: image_iff exhausted_job_def intro!: bexI [of _ r])
  obtain res d' where c: "claim p False now t d = Inr (res, d')" using claim_idle by blast
  show ?thesis
  proof (cases res)
    case None
    with c claim_None [of p False now t d d'] buried show ?thesis by (simp add: EvClaim a)
  next
    case (Some job)
    obtain q where q: "due_job p now q" "q \<in> set (db_jobs d)"
      and d': "d' = d\<lparr>db_jobs := update_where (\<lambda>x. j_id x = j_id q) (lease_job p now t (j_attempts q + 1))
                 (bury_exhausted p now (db_jobs d))\<rparr>"
      using c unfolding Some by (rule claim_Some) blast
    have "j_id r \<noteq> j_id q"
      using distinct_key_inj [of j_id "db_jobs d" q r] ok q r by (auto simp: jobs_ok_def due_job_def)
    then show ?thesis
      using c buried by (auto simp: EvClaim a d' set_update_where image_iff intro!: bexI [of _ r])
  qed
next
  case (EvFinish b j t)
  show ?thesis
  proof (cases rule: finish_event_cases [of b j t d])
    case (1 d')
    then obtain P u where l: "job_leased d j t" and s: "settles j t u P"
      and d': "db_jobs d' = update_where P u (db_jobs d)" using run_finish_Inr by blast
    have "\<not> P r" using settles_id [OF s] leased_row_unique [OF ok l r(1)] r(2) by auto
    then show ?thesis using 1 r(1) by (auto simp: EvFinish d' set_update_where image_iff intro!: bexI [of _ r])
  qed (use r in \<open>simp add: EvFinish\<close>)
next
  case (EvOther x)
  show ?thesis
  proof (cases x)
    case (Enqueue rt s now i)
    then show ?thesis
      using r by (auto simp: EvOther split: sum.splits elim!: enqueue_in_transaction_Inr intro!: upsert_job_keeps)
  next
    case (Backfill rt s now)
    have "r \<in> set (fst (backfill_loop rt s now fs (db_jobs d, 0)))" for fs
      by (rule backfill_loop_induct [where P = "\<lambda>js. r \<in> set js"]) (use r in \<open>auto intro: upsert_job_keeps\<close>)
    then show ?thesis using r by (auto simp: EvOther Backfill dest: enqueue_backfill_Inr split: sum.splits)
  qed (use r in \<open>simp add: EvOther\<close>)
qed

text \<open>A dead letter is final: no sequence of claims, settlements, enqueues, backfills or
  other writes changes the row.\<close>

theorem dead_letters_final:
  "jobs_ok d \<Longrightarrow> r \<in> set (db_jobs d) \<Longrightarrow> j_status r = JobDeadLetter \<Longrightarrow> r \<in> set (db_jobs (jobs_run es d))"
proof (induction es arbitrary: d)
  case (Cons e es)
  then show ?case using jobs.step_inv [OF Cons.prems(1), of e] dead_letter_step [OF Cons.prems, of e] by simp
qed simp


section \<open>Stored vectors\<close>

lemma upsert_in_transaction_stores:
  assumes "upsert_in_transaction w b i blob d = Inr d'"
  shows "\<exists>e \<in> set (db_embeddings d'). e_fact_id e = i \<and> e_identity e = ew_document_identity w
           \<and> e_embedding e = blob \<and> e_dim e = ew_dimensions w"
proof -
  obtain d1 where "upsert_embedding \<lparr>e_fact_id = i, e_embedding = blob, e_dim = ew_dimensions w,
      e_identity = ew_document_identity w\<rparr> d = Inr d1" and "d' = d1"
    using assms by (auto simp: upsert_in_transaction_def rbind_eq_Inr split: if_splits option.splits)
  then show ?thesis
    by (auto simp: upsert_embedding_def Let_def list_ex_iff set_update_where bex_Un split: if_splits)
qed

lemma commit_prepared_embedded:
  assumes c: "commit_prepared rt p w now job h blob d = Inr (''embedded'', d')"
  shows "\<exists>f. fact_by_id d' (cj_fact_id job) = Some f \<and> embeddable f \<and> rt_sha256 rt (f_content f) = h
    \<and> (\<exists>e \<in> set (db_embeddings d'). e_fact_id e = cj_fact_id job \<and> e_identity e = ew_document_identity w
         \<and> e_embedding e = blob \<and> e_dim e = ew_dimensions w)
    \<and> (\<exists>r \<in> set (db_jobs d'). j_id r = cj_job_id job \<and> j_status r = JobCompleted \<and> j_content_sha256 r = h)"
proof -
  obtain f d1 r where f: "fact_by_id d (cj_fact_id job) = Some f" "embeddable f" "rt_sha256 rt (f_content f) = h"
    and up: "upsert_in_transaction w True (cj_fact_id job) blob d = Inr d1"
    and d': "d' = set_job job (job_completed h None now) d1"
    and r: "r \<in> set (db_jobs d)" "j_id r = cj_job_id job"
    using c unfolding commit_prepared_def Let_def
    by (auto simp: rbind_eq_Inr list_ex_iff holds_lease_def split: if_splits option.splits)
  obtain es where d1: "d1 = d\<lparr>db_embeddings := es\<rparr>" using upsert_in_transaction_frame [OF up] by blast
  have "job_completed h None now r \<in> set (db_jobs d')"
    using r by (auto simp: d' d1 set_job_def set_update_where image_iff)
  then have "\<exists>r \<in> set (db_jobs d'). j_id r = cj_job_id job \<and> j_status r = JobCompleted \<and> j_content_sha256 r = h"
    by (rule rev_bexI) (simp add: job_simps r(2) job_completed_def)
  moreover have "fact_by_id d' (cj_fact_id job) = Some f" "db_embeddings d' = db_embeddings d1"
    using f(1) by (simp_all add: d' d1 set_job_def fact_by_id_def)
  ultimately show ?thesis using f upsert_in_transaction_stores [OF up] by auto
qed

lemma settled_Some:
  "settled job d r = (Inr (Some res), d') \<longleftrightarrow>
     (\<exists>oc. r = Inr (oc, d') \<and> res = \<lparr>pr_job_id = cj_job_id job, pr_fact_id = cj_fact_id job, pr_outcome = oc\<rparr>)"
  by (auto simp: settled_def split: sum.splits)

lemma settle_inactive_outcome:
  "settle_inactive rt now job d = Inr (oc, d') \<Longrightarrow> oc = ''skipped_inactive'' \<or> oc = ''requeued_active''"
  by (auto simp: settle_inactive_def Let_def rbind_eq_Inr split: option.splits if_splits)

lemma fail_job_outcome:
  "fail_job p now job err d = Inr (oc, d') \<Longrightarrow> oc = ''pending'' \<or> oc = ''dead_letter''"
  by (auto simp: fail_job_def Let_def rbind_eq_Inr job_status_text_def)

text \<open>C33: When processing reports a job as embedded, then in the committed store the fact is
  still current and in no conflict, the stored vector under the processor's identity and dimensions
  is the model's output for a text with the digest of the fact's present text (whatever was committed
  while the model ran), and the job is completed with that digest.\<close>

theorem embedded_vector_current:
  assumes p: "process_one rt p w env b d = (Inr (Some res), d')" and oc: "pr_outcome res = ''embedded''"
    and init: "job_processor_init w p = Inr p"
  shows "\<exists>f text blob. fact_by_id d' (pr_fact_id res) = Some f \<and> embeddable f
    \<and> rt_sha256 rt text = rt_sha256 rt (f_content f) \<and> embed_document w text = Inr blob
    \<and> (\<exists>e \<in> set (db_embeddings d'). e_fact_id e = pr_fact_id res
         \<and> e_identity e = es_document_identity (jp_spec p) \<and> e_dim e = es_dimensions (jp_spec p)
         \<and> e_embedding e = blob)
    \<and> (\<exists>r \<in> set (db_jobs d'). j_id r = pr_job_id res \<and> j_status r = JobCompleted
         \<and> j_content_sha256 r = rt_sha256 rt (f_content f))"
proof -
  obtain job d1 where c: "claim p b (pe_now env) (pe_token env) d = Inr (Some job, d1)"
    using p unfolding process_one_def by (auto split: sum.splits prod.splits option.splits)
  let ?d2 = "pe_after_claim env d1"
  let ?d3 = "pe_during_model env ?d2"
  obtain g :: fact and blob where g: "embed_document w (f_content g) = Inr blob"
    and e: "commit_prepared rt p w (pe_settle_now env) job (rt_sha256 rt (f_content g)) blob ?d3
            = Inr (''embedded'', d')"
    and res: "pr_fact_id res = cj_fact_id job" "pr_job_id res = cj_job_id job"
    using p oc unfolding process_one_def c Let_def
    by (auto simp: settled_Some dest!: settle_inactive_outcome fail_job_outcome
        split: option.splits if_splits sum.splits)
  have "ew_document_identity w = es_document_identity (jp_spec p)" "ew_dimensions w = es_dimensions (jp_spec p)"
    using init by (auto simp: job_processor_init_def split: if_splits)
  with commit_prepared_embedded [OF e] g show ?thesis
    unfolding res by (elim exE, intro exI [of _ _] exI [of _ "f_content g"] exI [of _ blob]) auto
qed

section \<open>Backfill\<close>

lemma job_for_requeue [job_simps]: "job_for s i (requeue_job s h now r) = job_for s i r"
  by (simp add: job_for_def job_simps)

lemma job_for_new [job_simps]: "job_for s k (new_job s i h now j) \<longleftrightarrow> k = i"
  "j_status (new_job s i h now j) = JobPending"
  by (auto simp: job_for_def new_job_def)

lemma upsert_job_queued:
  "k = i \<or> queued s k js \<Longrightarrow> queued s k (fst (upsert_job s i h now (\<lambda>r. j_status r = JobCompleted) js))"
  unfolding queued_def upsert_job_def
  by (auto simp: set_update_where bex_Un job_simps list_ex_iff split: if_splits)

lemma backfill_loop_queued:
  assumes "k \<in> f_id ` set fs \<or> queued s k js"
  shows "queued s k (fst (backfill_loop rt s now fs (js, n)))"
  using assms
proof (induction fs arbitrary: js n)
  case (Cons f fs)
  have "k \<in> f_id ` set fs
      \<or> queued s k (fst (upsert_job s (f_id f) (rt_sha256 rt (f_content f)) now (\<lambda>r. j_status r = JobCompleted) js))"
    using Cons.prems by (auto intro: upsert_job_queued)
  then show ?case using Cons.IH by (auto split: prod.splits)
qed auto

lemma upsert_job_idle:
  "queued s i js \<Longrightarrow> upsert_job s i h now (\<lambda>r. j_status r = JobCompleted) js = (js, 0)"
  by (auto simp: queued_def upsert_job_def list_ex_iff rowcount_0_iff intro!: update_where_none)

lemma backfill_loop_idle:
  "\<forall>f \<in> set fs. queued s (f_id f) js \<Longrightarrow> backfill_loop rt s now fs (js, n) = (js, n)"
  by (induction fs) (auto simp: upsert_job_idle)

lemma backfill_queued:
  assumes "enqueue_backfill rt s now False d = Inr (n, d')" and "f \<in> set (backfill_rows s d')"
  shows "queued s (f_id f) (db_jobs d')"
proof -
  have "backfill_rows s d' = backfill_rows s d"
    using enqueue_backfill_Inr [OF assms(1)] by (simp add: backfill_rows_def has_vector_def)
  then show ?thesis
    using enqueue_backfill_Inr [OF assms(1)] assms(2) by (auto intro!: backfill_loop_queued)
qed

text \<open>After a backfill every active fact has its vector or a job of this identity that is
  not completed; dead letters are kept as they are; a second backfill finds nothing to do.\<close>

theorem backfill_covers:
  assumes "enqueue_backfill rt s now False d = Inr (n, d')"
  shows "(\<forall>f \<in> set (db_facts d'). embeddable f \<longrightarrow>
            has_vector s (f_id f) d' \<or> (\<exists>r \<in> set (db_jobs d'). job_for s (f_id f) r \<and> j_status r \<noteq> JobCompleted))
    \<and> (\<forall>r \<in> set (db_jobs d). j_status r = JobDeadLetter \<longrightarrow> r \<in> set (db_jobs d'))
    \<and> enqueue_backfill rt s later False d' = Inr (0, d')"
proof (intro conjI ballI impI)
  fix f assume "f \<in> set (db_facts d')" "embeddable f"
  then show "has_vector s (f_id f) d'
      \<or> (\<exists>r \<in> set (db_jobs d'). job_for s (f_id f) r \<and> j_status r \<noteq> JobCompleted)"
    using backfill_queued [OF assms, of f] by (auto simp: backfill_rows_def queued_def)
next
  fix r assume "r \<in> set (db_jobs d)" "j_status r = JobDeadLetter"
  then have "r \<in> set (fst (backfill_loop rt s now fs (db_jobs d, 0)))" for fs
    by (intro backfill_loop_induct [where P = "\<lambda>js. r \<in> set js"]) (auto intro: upsert_job_keeps)
  then show "r \<in> set (db_jobs d')" using enqueue_backfill_Inr [OF assms] by simp
next
  show "enqueue_backfill rt s later False d' = Inr (0, d')"
    using backfill_loop_idle [of "backfill_rows s d'" s "db_jobs d'"] backfill_queued [OF assms]
    by (simp add: enqueue_backfill_def)
qed


text \<open>Once no job of the identity is dead-lettered and every job of the identity was made
  for this version and dimension, a backfill makes the health report safe to activate.\<close>

theorem backfill_activates:
  assumes b: "enqueue_backfill rt s now False d = Inr (n, d')"
    and dead: "\<forall>r \<in> set (db_jobs d'). j_document_identity r = es_document_identity s \<longrightarrow>
                 j_status r \<noteq> JobDeadLetter \<and> spec_job s r"
  shows "eh_activation_safe (outbox_health s t d') \<and> eh_uncovered_active (outbox_health s t d') = 0"
proof -
  have "\<not> uncovered s d' f" if "f \<in> set (db_facts d')" for f
  proof
    assume u: "uncovered s d' f"
    with that have "f \<in> set (backfill_rows s d')" by (simp add: uncovered_def backfill_rows_def)
    with backfill_queued [OF b] obtain r where r: "r \<in> set (db_jobs d')" "job_for s (f_id f) r"
      "j_status r \<noteq> JobCompleted" by (auto simp: queued_def)
    moreover from r have "j_status r \<noteq> JobDeadLetter" "spec_job s r" using dead by (auto simp: job_for_def)
    ultimately have "viable_job s (f_id f) r"
      by (cases "j_status r") (auto simp: viable_job_def spec_job_def live_status_def)
    with r(1) u show False by (auto simp: uncovered_def list_ex_iff)
  qed
  then have "rowcount (uncovered s d') (db_facts d') = 0" by (simp add: rowcount_0_iff)
  moreover have "count_status s JobDeadLetter d' = 0" using dead by (auto simp: count_status_def rowcount_0_iff)
  ultimately show ?thesis by (simp add: outbox_health_def Let_def)
qed

section \<open>Witnesses\<close>

lemmas demo_job_defs = demo_jobs_db_def demo_leased_db_def demo_spec_def demo_processor_def new_job_def
  lease_job_def demo_db_def empty_db_def

lemma demo_jobs_ok: "jobs_ok demo_jobs_db" "jobs_ok demo_leased_db"
  by (simp_all add: jobs_ok_def job_key_def demo_job_defs)

theorem stale_worker_fenced_witness:
  "case claim demo_processor False 60000000 ''b'' demo_leased_db of
     Inr (Some job, d1) \<Rightarrow>
       commit_prepared demo_runtime demo_processor demo_writer 7 demo_old_job ''likes tea'' ''likes tea''
         (jobs_run [EvOther (Backfill demo_runtime demo_spec 61)] d1)
       = Inl (RuntimeError ''embedding job lease was lost after model call'')
   | _ \<Rightarrow> False"
proof -
  have "case claim demo_processor False 60000000 ''b'' demo_leased_db of
      Inr (Some job, d1) \<Rightarrow> cj_job_id job = cj_job_id demo_old_job | _ \<Rightarrow> False"
    by code_simp
  then obtain job d1 where c: "claim demo_processor False 60000000 ''b'' demo_leased_db = Inr (Some job, d1)"
    and j: "cj_job_id demo_old_job = cj_job_id job"
    by (auto split: sum.splits option.splits)
  show ?thesis
    using stale_worker_fenced [OF demo_jobs_ok(2) c j, of "[EvOther (Backfill demo_runtime demo_spec 61)]"
        demo_runtime demo_processor demo_writer 7 "''likes tea''" "''likes tea''"]
    by (simp add: c demo_old_job_def)
qed

theorem claim_takes_oldest_due_witness:
  "\<exists>job d'. claim demo_processor False 5 ''t'' demo_jobs_db = Inr (Some job, d') \<and> cj_job_id job = 1"
proof -
  obtain r d' where c: "claim demo_processor False 5 ''t'' demo_jobs_db = Inr (r, d')" using claim_idle by blast
  from claim_takes_oldest_due [OF demo_jobs_ok(1) c] c show ?thesis
    by (auto simp: demo_job_defs due_job_def spec_job_def split: option.splits)
qed

definition demo_events :: "string job_event list" where
  "demo_events = [EvClaim (demo_processor, 5) ''t'', EvFinish (Fail demo_processor 6 demo_old_job ''E'') 1 ''t'']"

lemma demo_credit: "attempts_left demo_processor demo_jobs_db = 10"
  by code_simp

theorem claims_bounded_witness: "claims_made demo_events demo_jobs_db \<le> 10"
proof -
  have "\<forall>e \<in> set demo_events. worker_event demo_processor e" by (simp add: demo_events_def)
  from claims_bounded [OF demo_jobs_ok(1) this] show ?thesis unfolding demo_credit by linarith
qed

theorem dead_letters_final_witness:
  "(new_job demo_spec 4 ''uses nano'' 0 2)\<lparr>j_status := JobDeadLetter\<rparr>
     \<in> set (db_jobs (jobs_run (EvOther (Backfill demo_runtime demo_spec 61) # demo_events) demo_leased_db))"
  by (rule dead_letters_final [OF demo_jobs_ok(2)]) (simp_all add: demo_leased_db_def)

lemma demo_processed:
  "case process_one demo_runtime demo_processor demo_writer demo_process_env False demo_jobs_db of
     (Inr (Some res), d') \<Rightarrow> pr_outcome res = ''embedded'' \<and> pr_fact_id res = 3 | _ \<Rightarrow> False"
  by code_simp

theorem embedded_vector_current_witness:
  "case process_one demo_runtime demo_processor demo_writer demo_process_env False demo_jobs_db of
     (Inr (Some res), d') \<Rightarrow> \<exists>f. fact_by_id d' 3 = Some f \<and> embeddable f
       \<and> (\<exists>e \<in> set (db_embeddings d'). e_embedding e = f_content f)
   | _ \<Rightarrow> False"
proof -
  obtain res d' where p: "process_one demo_runtime demo_processor demo_writer demo_process_env False demo_jobs_db
      = (Inr (Some res), d')" and r: "pr_outcome res = ''embedded''" "pr_fact_id res = 3"
    using demo_processed by (auto split: sum.splits option.splits)
  have "job_processor_init demo_writer demo_processor = Inr demo_processor" by code_simp
  moreover have "embed_document demo_writer t = Inr t" "rt_sha256 demo_runtime t = t" for t
    by (simp_all add: demo_runtime_def embed_document_def demo_writer_def rbind_def)
  ultimately show ?thesis using embedded_vector_current [OF p r(1)] by (auto simp: p r(2))
qed

theorem backfill_covers_witness:
  "case enqueue_backfill demo_runtime demo_spec 7 False demo_db of
     Inr (n, d') \<Rightarrow> n = 2 \<and> enqueue_backfill demo_runtime demo_spec 8 False d' = Inr (0, d')
   | _ \<Rightarrow> False"
proof -
  have "case enqueue_backfill demo_runtime demo_spec 7 False demo_db of Inr (n, d') \<Rightarrow> n = 2 | _ \<Rightarrow> False"
    by code_simp
  then obtain d' where b: "enqueue_backfill demo_runtime demo_spec 7 False demo_db = Inr (2, d')"
    by (auto split: sum.splits)
  show ?thesis using backfill_covers [OF b, of 8] by (simp add: b)
qed

theorem backfill_activates_witness:
  "case enqueue_backfill demo_runtime demo_spec 7 False demo_db of
     Inr (n, d') \<Rightarrow> eh_activation_safe (outbox_health demo_spec 9 d') | _ \<Rightarrow> False"
proof -
  have "case enqueue_backfill demo_runtime demo_spec 7 False demo_db of
      Inr (n, d') \<Rightarrow> list_all (\<lambda>r. j_status r \<noteq> JobDeadLetter \<and> spec_job demo_spec r) (db_jobs d') | _ \<Rightarrow> False"
    by code_simp
  then obtain n d' where b: "enqueue_backfill demo_runtime demo_spec 7 False demo_db = Inr (n, d')"
    and l: "\<forall>r \<in> set (db_jobs d'). j_status r \<noteq> JobDeadLetter \<and> spec_job demo_spec r"
    by (auto simp: list_all_iff split: sum.splits)
  show ?thesis using backfill_activates [OF b, of 9] l by (simp add: b)
qed

end
