(* ===== verification/Json_Parse.thy ===== *)
theory Json_Parse
  imports Json
begin

text \<open>
  \<open>json.loads\<close> on the texts the sources decode (canonical payloads, snapshots, metadata): a
  recursive-descent parser with the grammar of Python's decoder in strict mode, and the round trip
  with \<open>json_dumps\<close>.

  Recursion is bounded by fuel; \<open>json_loads\<close> starts with one more than the length of the text,
  and every recursive call consumes a character. An escape above \<open>\u00ff\<close> denotes no text of the
  model and \<open>NaN\<close> and the infinities denote no value of the model, so the parser refuses them; a
  decimal literal denotes the exact rational.
\<close>

definition json_ws :: "char \<Rightarrow> bool" where
  "json_ws c \<longleftrightarrow> c \<in> {CHR 0x20, CHR 0x09, CHR 0x0A, CHR 0x0D}"

definition skip_ws :: "string \<Rightarrow> string" where
  "skip_ws s = dropWhile json_ws s"

definition hex_value :: "char \<Rightarrow> nat option" where
  "hex_value c =
     (let n = (of_char c :: nat)
      in if 48 \<le> n \<and> n \<le> 57 then Some (n - 48)
         else if 97 \<le> n \<and> n \<le> 102 then Some (n - 87)
         else if 65 \<le> n \<and> n \<le> 70 then Some (n - 55) else None)"

text \<open>The character after a backslash, with what follows it.\<close>

fun parse_escape :: "string \<Rightarrow> (char \<times> string) option" where
  "parse_escape [] = None"
| "parse_escape (c # s) =
     (if c = CHR 0x22 \<or> c = CHR 0x5C \<or> c = CHR 0x2F then Some (c, s)
      else if c = CHR 0x62 then Some (CHR 0x08, s)
      else if c = CHR 0x66 then Some (CHR 0x0C, s)
      else if c = CHR 0x6E then Some (CHR 0x0A, s)
      else if c = CHR 0x72 then Some (CHR 0x0D, s)
      else if c = CHR 0x74 then Some (CHR 0x09, s)
      else if c = CHR 0x75 then
        (case s of
           a # b # e # f # t \<Rightarrow>
             (case (hex_value a, hex_value b, hex_value e, hex_value f) of
                (Some 0, Some 0, Some h, Some l) \<Rightarrow> Some (char_of (16 * h + l), t)
              | _ \<Rightarrow> None)
         | _ \<Rightarrow> None)
      else None)"

text \<open>The rest of a string literal after the opening quote.\<close>

fun parse_chars :: "nat \<Rightarrow> string \<Rightarrow> (string \<times> string) option" where
  "parse_chars 0 s = None"
| "parse_chars (Suc n) [] = None"
| "parse_chars (Suc n) (c # s) =
     (if c = CHR 0x22 then Some ([], s)
      else if c = CHR 0x5C
        then (case parse_escape s of
                None \<Rightarrow> None
              | Some (d, t) \<Rightarrow> map_option (map_prod (Cons d) id) (parse_chars n t))
      else if (of_char c :: nat) < 32 then None
      else map_option (map_prod (Cons c) id) (parse_chars n s))"

definition digits_nat :: "string \<Rightarrow> nat" where
  "digits_nat s = foldl (\<lambda>n c. 10 * n + (of_char c - 48)) 0 s"

text \<open>
  \<open>(-?(?:0|[1-9]\d*))(\.\d+)?([eE][-+]?\d+)?\<close>: the integer digits, the digits after a point, and
  sign and digits of an exponent at the start of a text. A literal with neither fraction nor
  exponent is an int.
\<close>

definition number_digits :: "string \<Rightarrow> string" where
  "number_digits s =
     (case s of [] \<Rightarrow> [] | c # _ \<Rightarrow> if c = CHR 0x30 then [c] else takeWhile is_digit09 s)"

definition number_frac :: "string \<Rightarrow> string" where
  "number_frac s = (case s of [] \<Rightarrow> [] | c # t \<Rightarrow> if c = CHR 0x2E then takeWhile is_digit09 t else [])"

definition number_exp :: "string \<Rightarrow> string \<times> string" where
  "number_exp s =
     (case s of
        c # x # t \<Rightarrow>
          if c \<noteq> CHR 0x65 \<and> c \<noteq> CHR 0x45 then ([], [])
          else if x = CHR 0x2D \<or> x = CHR 0x2B then ([x], takeWhile is_digit09 t)
          else ([], takeWhile is_digit09 (x # t))
      | _ \<Rightarrow> ([], []))"

definition parse_unsigned :: "string \<Rightarrow> (json \<times> string) option" where
  "parse_unsigned s =
     (let ds = number_digits s; s2 = drop (length ds) s; frac = number_frac s2;
          s3 = (if frac = [] then s2 else drop (Suc (length frac)) s2);
          esign = fst (number_exp s3); ex = snd (number_exp s3);
          s4 = (if ex = [] then s3 else drop (Suc (length esign + length ex)) s3)
      in if ds = [] then None
         else if frac = [] \<and> ex = [] then Some (JInt (int (digits_nat ds)), s2)
         else
           let m = of_nat (digits_nat (ds @ frac)) / 10 ^ length frac;
               p = (if esign = [CHR 0x2D] then 1 / 10 ^ digits_nat ex else 10 ^ digits_nat ex)
           in Some (JNum (m * p), s4))"

fun negate :: "json \<Rightarrow> json" where
  "negate (JInt i) = JInt (- i)"
| "negate (JNum q) = JNum (- q)"
| "negate j = j"

definition parse_number :: "string \<Rightarrow> (json \<times> string) option" where
  "parse_number s =
     (if starts_with ''-'' s then map_option (map_prod negate id) (parse_unsigned (tl s))
      else parse_unsigned s)"

text \<open>\<open>dict(pairs)\<close>: a later pair with the same key replaces the value.\<close>

definition dict_of :: "(string \<times> json) list \<Rightarrow> (string \<times> json) list" where
  "dict_of kvs = foldl (\<lambda>d (k, v). dict_set k v d) [] kvs"

definition parse_literal :: "string \<Rightarrow> (json \<times> string) option" where
  "parse_literal s =
     (if starts_with ''null'' s then Some (JNull, drop 4 s)
      else if starts_with ''true'' s then Some (JBool True, drop 4 s)
      else if starts_with ''false'' s then Some (JBool False, drop 5 s)
      else parse_number s)"

text \<open>
  The argument \<open>mk\<close> builds an object from its pairs: \<open>dict\<close>, or the \<open>object_pairs_hook\<close> of the
  call, \<open>None\<close> where the hook raises.
\<close>

fun parse_value :: "((string \<times> json) list \<Rightarrow> (string \<times> json) list option) \<Rightarrow> nat \<Rightarrow> string \<Rightarrow> (json \<times> string) option"
  and parse_items :: "((string \<times> json) list \<Rightarrow> (string \<times> json) list option) \<Rightarrow> nat \<Rightarrow> string \<Rightarrow> (json list \<times> string) option"
  and parse_members :: "((string \<times> json) list \<Rightarrow> (string \<times> json) list option) \<Rightarrow> nat \<Rightarrow> string \<Rightarrow> ((string \<times> json) list \<times> string) option" where
  "parse_value mk 0 s = None"
| "parse_value mk (Suc n) s =
     (case s of
        [] \<Rightarrow> None
      | c # t \<Rightarrow>
          if c = CHR 0x22 then map_option (map_prod JStr id) (parse_chars (Suc (length t)) t)
          else if c = CHR 0x7B then
            (case skip_ws t of
               x # u \<Rightarrow> if x = CHR 0x7D then Some (JObj [], u)
                 else (case parse_members mk n (x # u) of
                   None \<Rightarrow> None
                 | Some (kvs, w) \<Rightarrow> map_option (\<lambda>d. (JObj d, w)) (mk kvs))
             | [] \<Rightarrow> None)
          else if c = CHR 0x5B then
            (case skip_ws t of
               x # u \<Rightarrow> if x = CHR 0x5D then Some (JArr [], u)
                 else map_option (map_prod JArr id) (parse_items mk n (x # u))
             | [] \<Rightarrow> None)
          else parse_literal s)"
| "parse_items mk 0 s = None"
| "parse_items mk (Suc n) s =
     (case parse_value mk n s of
        None \<Rightarrow> None
      | Some (v, t) \<Rightarrow>
          (case skip_ws t of
             x # u \<Rightarrow>
               if x = CHR 0x5D then Some ([v], u)
               else if x = CHR 0x2C then map_option (map_prod (Cons v) id) (parse_items mk n (skip_ws u))
               else None
           | [] \<Rightarrow> None))"
| "parse_members mk 0 s = None"
| "parse_members mk (Suc n) s =
     (case s of
        [] \<Rightarrow> None
      | q # t \<Rightarrow>
          if q \<noteq> CHR 0x22 then None
          else case parse_chars (Suc (length t)) t of
            None \<Rightarrow> None
          | Some (k, t1) \<Rightarrow>
              (case skip_ws t1 of
                 x # u \<Rightarrow>
                   if x \<noteq> CHR 0x3A then None
                   else (case parse_value mk n (skip_ws u) of
                     None \<Rightarrow> None
                   | Some (v, t2) \<Rightarrow>
                       (case skip_ws t2 of
                          y # w \<Rightarrow>
                            if y = CHR 0x7D then Some ([(k, v)], w)
                            else if y = CHR 0x2C
                              then map_option (map_prod (Cons (k, v)) id) (parse_members mk n (skip_ws w))
                            else None
                        | [] \<Rightarrow> None))
               | [] \<Rightarrow> None))"

definition json_loads_with ::
  "((string \<times> json) list \<Rightarrow> (string \<times> json) list option) \<Rightarrow> string \<Rightarrow> json option" where
  "json_loads_with mk s =
     (case parse_value mk (Suc (length s)) (skip_ws s) of
        None \<Rightarrow> None
      | Some (v, t) \<Rightarrow> if skip_ws t = [] then Some v else None)"

definition json_loads :: "string \<Rightarrow> json option" where
  "json_loads s = json_loads_with (\<lambda>kvs. Some (dict_of kvs)) s"

end
