(* ===== verification/Erasure.thy ===== *)
theory Erasure
  imports Json_Parse Conflict_Lifecycle
begin

text \<open>
  \<open>erasure.py\<close>: \<open>erase_fact\<close>, the one transaction that scrubs a fact and its copies. One
  definition per block of the function, composed in its order by \<open>erase_txn\<close>.

  Arguments stand for what is outside the tables of the model: the schema version the file
  reports, the UUID and the clock, the row of the full-text index after the updates
  (\<open>fts\<close>, kept by SQLite's triggers), and the optional \<open>sqlite-vec\<close> index, of which only a raised
  error is visible.
\<close>

section \<open>Python text\<close>

text \<open>\<open>s.split(marker, 1)[1]\<close>, if the marker occurs.\<close>

fun after_marker :: "string \<Rightarrow> string \<Rightarrow> string option" where
  "after_marker m [] = (if m = [] then Some [] else None)"
| "after_marker m (c # s) =
     (if starts_with m (c # s) then Some (drop (length m) (c # s)) else after_marker m s)"

text \<open>\<open>s.split()[0]\<close>.\<close>

definition first_word :: "string \<Rightarrow> string res" where
  "first_word s =
     (let w = takeWhile (\<lambda>c. \<not> py_isspace c) (py_lstrip s)
      in if w = [] then Inl (IndexError ''list index out of range'') else Inr w)"

definition strip_commas :: "string \<Rightarrow> string" where
  "strip_commas s = rev (dropWhile (\<lambda>c. c = CHR 0x2C) (rev (dropWhile (\<lambda>c. c = CHR 0x2C) s)))"

text \<open>\<open>str.isdigit\<close> also accepts the superscripts, which \<open>int\<close> refuses.\<close>

definition py_isdigit :: "string \<Rightarrow> bool" where
  "py_isdigit s \<longleftrightarrow> s \<noteq> [] \<and> list_all (\<lambda>c. is_digit09 c \<or> c \<in> {CHR 0xB2, CHR 0xB3, CHR 0xB9}) s"

definition py_int :: "string \<Rightarrow> int res" where
  "py_int s =
     (if s \<noteq> [] \<and> list_all is_digit09 s then Inr (int (digits_nat s))
      else Inl (ValueError ''invalid literal for int() with base 10''))"

text \<open>The fact ids an insight cites in its tags.\<close>

definition cited_ids :: "string \<Rightarrow> int list res" where
  "cited_ids tags =
     (case after_marker ''source_facts:'' tags of
        None \<Rightarrow> Inr []
      | Some rest \<Rightarrow>
          rbind (first_word rest) (\<lambda>w.
            map_res py_int (filter py_isdigit (py_split CHR 0x2C (strip_commas w)))))"

section \<open>What the erased fact is linked to\<close>

definition fact_observations :: "int \<Rightarrow> db \<Rightarrow> int list" where
  "fact_observations i d =
     remdups (map p_observation_id (filter (\<lambda>p. p_fact_id p = i) (db_provenance d)))"

text \<open>\<open>isinstance(v, int) and v > 0\<close>; \<open>True\<close> is the integer 1.\<close>

definition positive_json_int :: "json option \<Rightarrow> int option" where
  "positive_json_int v =
     (case v of
        Some (JInt n) \<Rightarrow> if 0 < n then Some n else None
      | Some (JBool True) \<Rightarrow> Some 1
      | _ \<Rightarrow> None)"

definition metadata_links :: "string \<Rightarrow> int option \<times> string option" where
  "metadata_links txt =
     (case json_loads (if txt = [] then ''{}'' else txt) of
        Some (JObj kvs) \<Rightarrow>
          (positive_json_int (map_of kvs ''extraction_queue_id''),
           case map_of kvs ''extraction_payload_sha256'' of
             Some (JStr h) \<Rightarrow> if h = [] then None else Some h
           | _ \<Rightarrow> None)
      | _ \<Rightarrow> (None, None))"

definition linked_metadata :: "int \<Rightarrow> db \<Rightarrow> (int option \<times> string option) list" where
  "linked_metadata i d =
     map (\<lambda>ob. metadata_links (o_metadata_json ob))
       (filter (\<lambda>ob. o_id ob \<in> set (fact_observations i d)) (db_observations d))"

definition linked_queue_ids :: "int \<Rightarrow> db \<Rightarrow> int list" where
  "linked_queue_ids i d = List.map_filter fst (linked_metadata i d)"

definition linked_payload_hashes :: "int \<Rightarrow> db \<Rightarrow> string list" where
  "linked_payload_hashes i d = List.map_filter snd (linked_metadata i d)"

section \<open>The blocks of the transaction\<close>

definition erased_placeholder :: "int \<Rightarrow> string" where
  "erased_placeholder i = ''[PRIVACY ERASED fact:'' @ int_str i @ '']''"

definition erase_observations :: "string \<Rightarrow> string \<Rightarrow> int list \<Rightarrow> db \<Rightarrow> db" where
  "erase_observations eid now obs d = d\<lparr>db_observations :=
     update_where (\<lambda>ob. o_id ob \<in> set obs)
       (\<lambda>ob. ob\<lparr>o_source_uri := None, o_content := Some ''[PRIVACY ERASED]'',
               o_content_sha256 := ''erased:'' @ eid @ '':'' @ int_str (o_id ob),
               o_asserted_by := None, o_metadata_json := ''{}'', o_redacted_at := Some now\<rparr>)
       (db_observations d)\<rparr>"

definition erase_excerpts :: "int \<Rightarrow> db \<Rightarrow> db" where
  "erase_excerpts i d = d\<lparr>db_provenance :=
     update_where (\<lambda>p. p_fact_id p = i) (\<lambda>p. p\<lparr>p_evidence_excerpt := None\<rparr>) (db_provenance d)\<rparr>"

definition erased_fact :: "string \<Rightarrow> fact \<Rightarrow> fact" where
  "erased_fact now f =
     f\<lparr>f_content := erased_placeholder (f_id f), f_tags := [],
       f_invalid_at := (case f_invalid_at f of None \<Rightarrow> Some now | Some t \<Rightarrow> Some t),
       f_conflict_group := None, f_hrr_vector := None, f_object_value := None,
       f_object_entity_id := None, f_subject_key := None, f_predicate_key := None,
       f_memory_kind := Some ''fact''\<rparr>"

definition erase_row :: "string \<Rightarrow> int \<Rightarrow> db \<Rightarrow> db res" where
  "erase_row now i d =
     rbind (sql_update_facts (\<lambda>f. f_id f = i) (erased_fact now) d) (\<lambda>(d', n).
       Inr (d'\<lparr>db_fact_entities := delete_where (\<lambda>p. fst p = i) (db_fact_entities d')\<rparr>))"

definition erase_embeddings :: "int \<Rightarrow> db \<Rightarrow> nat \<times> db" where
  "erase_embeddings i d =
     (rowcount (\<lambda>e. e_fact_id e = i) (db_embeddings d),
      d\<lparr>db_embeddings := delete_where (\<lambda>e. e_fact_id e = i) (db_embeddings d)\<rparr>)"

text \<open>The stamps of the job table are instants, so the erasure instant is given for them too.\<close>

definition erase_jobs :: "string \<Rightarrow> int \<Rightarrow> int \<Rightarrow> db \<Rightarrow> db" where
  "erase_jobs eid instant i d = d\<lparr>db_jobs :=
     update_where (\<lambda>r. j_fact_id r = i)
       (\<lambda>r. r\<lparr>j_content_sha256 := ''erased:'' @ eid @ '':'' @ int_str i, j_status := JobCompleted,
              j_lease_token := None, j_lease_owner := None, j_lease_expires_at := None,
              j_last_error := Some ''privacy_erased'', j_completed_at := Some instant,
              j_updated_at := instant\<rparr>) (db_jobs d)\<rparr>"

definition erased_payload :: "int \<Rightarrow> string" where
  "erased_payload q =
     json_dumps (\<lambda>x. []) canonical_ascii (JObj [(''privacy_erased'', JBool True), (''queue_id'', JInt q)])"

definition queue_linked :: "runtime \<Rightarrow> int list \<Rightarrow> string list \<Rightarrow> string \<Rightarrow> queue_row \<Rightarrow> bool" where
  "queue_linked rt qids hashes original r \<longleftrightarrow>
     q_id r \<in> set qids \<or> rt_sha256 rt (q_payload r) \<in> set hashes
     \<or> (case q_payload_hash r of None \<Rightarrow> False | Some h \<Rightarrow> h \<noteq> [] \<and> h \<in> set hashes)
     \<or> original \<noteq> [] \<and> str_contains original (q_payload r)"

definition erase_queue :: "runtime \<Rightarrow> int list \<Rightarrow> string list \<Rightarrow> string \<Rightarrow> db \<Rightarrow> nat \<times> db" where
  "erase_queue rt qids hashes original d =
     (rowcount (queue_linked rt qids hashes original) (db_queue d),
      d\<lparr>db_queue := update_where (queue_linked rt qids hashes original)
          (\<lambda>r. r\<lparr>q_payload := erased_payload (q_id r),
                 q_payload_hash := Some (rt_sha256 rt (erased_payload (q_id r))),
                 q_last_error := None\<rparr>) (db_queue d)\<rparr>)"

text \<open>The live insights, in row order; the first whose tags do not parse aborts the erasure.\<close>

fun citing_insights :: "int \<Rightarrow> fact list \<Rightarrow> int list res" where
  "citing_insights i [] = Inr []"
| "citing_insights i (f # fs) =
     (if f_category f = ''insight'' \<and> f_invalid_at f = None
      then rbind (cited_ids (f_tags f)) (\<lambda>cited.
             rbind (citing_insights i fs) (\<lambda>rest. Inr (if i \<in> set cited then f_id f # rest else rest)))
      else citing_insights i fs)"

definition invalidate_insights :: "string \<Rightarrow> int \<Rightarrow> db \<Rightarrow> (nat \<times> db) res" where
  "invalidate_insights now i d =
     rbind (citing_insights i (db_facts d)) (\<lambda>ids.
       rbind (sql_update_facts (\<lambda>f. f_id f \<in> set ids) (\<lambda>f. f\<lparr>f_invalid_at := Some now\<rparr>) d) (\<lambda>(d', n).
         Inr (length ids, d')))"

definition members_of :: "string \<Rightarrow> db \<Rightarrow> int list" where
  "members_of c d = map snd (filter (\<lambda>m. fst m = c) (db_conflict_members d))"

text \<open>One conflict the erased fact was a member of, after its membership rows are gone.\<close>

definition leave_conflict :: "string \<Rightarrow> string \<Rightarrow> string \<Rightarrow> db \<Rightarrow> (nat \<times> db) res" where
  "leave_conflict now by_whom c d =
     (case members_of c d of
        x # y # _ \<Rightarrow> Inr (0, d)
      | remaining \<Rightarrow>
          let winner = (case remaining of [] \<Rightarrow> None | x # _ \<Rightarrow> Some x)
          in rbind (case winner of
                      None \<Rightarrow> Inr d
                    | Some x \<Rightarrow>
                        rbind (sql_update_facts (\<lambda>f. f_id f = x) (\<lambda>f. f\<lparr>f_conflict_group := None\<rparr>) d)
                          (\<lambda>(d', n). Inr d')) (\<lambda>d1.
             Inr (1, d1\<lparr>db_conflicts := update_where (\<lambda>k. k_id k = c \<and> k_resolved_at k = None)
               (\<lambda>k. k\<lparr>k_resolved_at := Some now, k_resolution_fact_id := winner,
                      k_resolved_by := Some by_whom,
                      k_resolution_reason := Some ''privacy erasure removed a conflict member''\<rparr>)
               (db_conflicts d1)\<rparr>)))"

fun leave_conflicts :: "string \<Rightarrow> string \<Rightarrow> string list \<Rightarrow> db \<Rightarrow> (nat \<times> db) res" where
  "leave_conflicts now by_whom [] d = Inr (0, d)"
| "leave_conflicts now by_whom (c # cs) d =
     rbind (leave_conflict now by_whom c d) (\<lambda>(n, d1).
       rbind (leave_conflicts now by_whom cs d1) (\<lambda>(m, d2). Inr (n + m, d2)))"

definition erase_membership :: "string \<Rightarrow> string \<Rightarrow> int \<Rightarrow> db \<Rightarrow> (nat \<times> db) res" where
  "erase_membership now by_whom i d =
     leave_conflicts now by_whom (map fst (filter (\<lambda>m. snd m = i) (db_conflict_members d)))
       (d\<lparr>db_conflict_members := delete_where (\<lambda>m. snd m = i) (db_conflict_members d)\<rparr>)"

definition erased_detail :: string where
  "erased_detail = [CHR 0x7B, CHR 0x22] @ ''privacy_erased'' @ [CHR 0x22] @ '':true}''"

definition erase_write_log :: "int \<Rightarrow> int list \<Rightarrow> string \<Rightarrow> db \<Rightarrow> db" where
  "erase_write_log i obs original d = d\<lparr>db_write_log :=
     update_where (\<lambda>l. original \<noteq> [] \<and> str_contains original (l_detail_json l))
       (\<lambda>l. l\<lparr>l_detail_json := erased_detail\<rparr>)
       (update_where (\<lambda>l. l_fact_id l = Some i \<or> (\<exists>x \<in> set obs. l_observation_id l = Some x))
          (\<lambda>l. l\<lparr>l_detail_json := erased_detail\<rparr>) (db_write_log d))\<rparr>"

text \<open>\<open>PRAGMA foreign_key_check\<close> on the tables that refer to facts and observations.\<close>

definition foreign_keys_ok :: "db \<Rightarrow> bool" where
  "foreign_keys_ok d \<longleftrightarrow>
     superseded_fk (db_facts d)
     \<and> list_all (\<lambda>m. fst m \<in> set (map k_id (db_conflicts d)) \<and> snd m \<in> set (fact_ids d)) (db_conflict_members d)
     \<and> list_all (\<lambda>k. opt_in (k_resolution_fact_id k) (fact_ids d)) (db_conflicts d)
     \<and> list_all (\<lambda>p. p_fact_id p \<in> set (fact_ids d) \<and> p_observation_id p \<in> set (map o_id (db_observations d)))
         (db_provenance d)
     \<and> list_all (\<lambda>j. j_fact_id j \<in> set (fact_ids d)) (db_jobs d)
     \<and> list_all (\<lambda>e. e_fact_id e \<in> set (fact_ids d)) (db_embeddings d)"

record erasure_report =
  rp_erasure_id :: string
  rp_fact_id :: int
  rp_observations :: nat
  rp_embeddings :: nat
  rp_queue_rows :: nat
  rp_insights :: nat
  rp_conflicts :: nat

record erasure_env =
  xe_runtime :: runtime
  xe_schema_version :: int
  xe_erasure_id :: string
  xe_now :: string
  xe_instant :: int
  xe_vec_delete :: "(int \<Rightarrow> unit res) option"
  xe_fts :: "db \<Rightarrow> int \<Rightarrow> string option"

definition erase_txn ::
  "erasure_env \<Rightarrow> int \<Rightarrow> string \<Rightarrow> string \<Rightarrow> string \<Rightarrow> db \<Rightarrow> (erasure_report \<times> db) res" where
  "erase_txn env i by_whom reason original d =
     (let now = xe_now env; eid = xe_erasure_id env; obs = fact_observations i d in
      rbind (erase_row now i (erase_excerpts i (erase_observations eid now obs d))) (\<lambda>d1.
      case erase_embeddings i d1 of (embeddings, d2) \<Rightarrow>
      rbind (case xe_vec_delete env of None \<Rightarrow> Inr () | Some del \<Rightarrow> del i) (\<lambda>_.
      case erase_queue (xe_runtime env) (linked_queue_ids i d) (linked_payload_hashes i d) original
             (erase_jobs eid (xe_instant env) i d2) of (queue_rows, d3) \<Rightarrow>
      rbind (invalidate_insights now i d3) (\<lambda>(insights, d4).
      rbind (erase_membership now by_whom i d4) (\<lambda>(conflicts, d5).
      let d6 = erase_write_log i obs original d5;
          row = \<lparr>x_erasure_id = eid, x_fact_id = i, x_requested_by = by_whom, x_reason = reason,
                 x_erased_at = now, x_affected_observations = length obs,
                 x_affected_embeddings = embeddings, x_affected_queue_rows = queue_rows\<rparr>;
          d7 = d6\<lparr>db_erasure_log := db_erasure_log d6 @ [row]\<rparr>
      in if eid \<in> set (map x_erasure_id (db_erasure_log d6))
           then Inl (IntegrityError ''UNIQUE constraint failed: privacy_erasure_log.erasure_id'')
         else if \<not> foreign_keys_ok d7 then Inl (ErasureError ''privacy erasure would violate foreign keys'')
         else if (case xe_fts env d7 i of None \<Rightarrow> False | Some t \<Rightarrow> t \<noteq> erased_placeholder i)
           then Inl (ErasureError ''FTS content did not follow privacy erasure'')
         else Inr (\<lparr>rp_erasure_id = eid, rp_fact_id = i, rp_observations = length obs,
                    rp_embeddings = embeddings, rp_queue_rows = queue_rows, rp_insights = insights,
                    rp_conflicts = conflicts\<rparr>, d7))))))"

definition erase_fact ::
  "erasure_env \<Rightarrow> bool \<Rightarrow> int \<Rightarrow> string \<Rightarrow> string \<Rightarrow> db \<Rightarrow> (erasure_report \<times> db) res" where
  "erase_fact env in_txn i requested_by reason d =
     (if in_txn then Inl (ErasureError ''privacy erasure requires an idle connection'')
      else if i \<le> 0 then Inl (ValueError ''fact_id must be a positive integer'')
      else if py_strip requested_by = [] \<or> py_strip reason = []
        then Inl (ValueError ''requested_by and reason must not be empty'')
      else if xe_schema_version env \<noteq> 1
        then Inl (ErasureError (''privacy erasure requires schema v1; found v'' @ int_str (xe_schema_version env)))
      else case fact_by_id d i of
        None \<Rightarrow> Inl (ErasureError ''fact was not found'')
      | Some f \<Rightarrow> erase_txn env i (py_strip requested_by) (py_strip reason) (f_content f) d)"

end
