(* ===== verification/Erasure_Guarantees.thy ===== *)
theory Erasure_Guarantees
  imports Erasure
begin

text \<open>
  What privacy erasure guarantees (every listed copy of the text is gone, all other facts keep
  theirs), and three ways in which it falls short of its documentation, each on a concrete store.
\<close>

section \<open>Definitions\<close>

text \<open>The blocks after \<open>erase_row\<close> keep every fact up to its conflict group and, once invalid, its validity.\<close>

definition text_kept :: "fact \<Rightarrow> fact \<Rightarrow> bool" where
  "text_kept f g \<longleftrightarrow>
     f_id g = f_id f \<and> f_content g = f_content f \<and> f_tags g = f_tags f \<and> f_hrr_vector g = f_hrr_vector f
     \<and> f_subject_key g = f_subject_key f \<and> f_predicate_key g = f_predicate_key f
     \<and> f_object_value g = f_object_value f \<and> f_scope g = f_scope f
     \<and> (f_invalid_at f \<noteq> None \<longrightarrow> f_invalid_at g \<noteq> None)"

definition erased_row :: "int \<Rightarrow> fact \<Rightarrow> bool" where
  "erased_row i g \<longleftrightarrow>
     f_content g = erased_placeholder i \<and> f_tags g = [] \<and> f_invalid_at g \<noteq> None
     \<and> f_subject_key g = None \<and> f_predicate_key g = None \<and> f_object_value g = None \<and> f_hrr_vector g = None"

text \<open>Demonstration stores: a fact with every kind of copy, and two ways to meet trouble.\<close>

definition demo_erasure_env :: erasure_env where
  "demo_erasure_env = \<lparr>xe_runtime = demo_runtime, xe_schema_version = 1, xe_erasure_id = ''e1'',
     xe_now = ''now'', xe_instant = 9, xe_vec_delete = None, xe_fts = (\<lambda>d i. None)\<rparr>"

definition demo_queue_row :: "int \<Rightarrow> string \<Rightarrow> string option \<Rightarrow> queue_row" where
  "demo_queue_row i payload proposal =
     \<lparr>q_id = i, q_payload = payload, q_created_epoch = Some 0, q_attempts = 1, q_last_error = None,
      q_status = QPending, q_not_before = None, q_lease_owner = None, q_lease_until = None,
      q_lease_token = None, q_payload_hash = None, q_proposal_json = proposal,
      q_proposal_hash = proposal\<rparr>"

text \<open>Fact 3 with a vector and a queued transcript whose stored proposal repeats the text.\<close>

definition demo_copies_db :: db where
  "demo_copies_db = demo_db\<lparr>
     db_embeddings := [\<lparr>e_fact_id = 3, e_embedding = ''v'', e_dim = 1, e_identity = ''m''\<rparr>],
     db_queue_seq := 1, db_queue := [demo_queue_row 1 ''user: likes tea'' (Some ''[likes tea]'')]\<rparr>"

text \<open>A live insight whose tags name no source.\<close>

definition demo_insight_db :: db where
  "demo_insight_db = demo_db\<lparr>db_facts := db_facts demo_db
     @ [(demo_fact 5 ''x'')\<lparr>f_category := ''insight'', f_tags := ''source_facts:''\<rparr>], db_fact_seq := 5\<rparr>"

text \<open>
  Fact 2 lost the resolved conflict \<open>c0\<close> against fact 1, which has since met fact 5 in the open
  conflict \<open>c1\<close>.
\<close>

definition demo_past_db :: db where
  "demo_past_db = empty_db\<lparr>db_fact_seq := 5,
     db_facts := [demo_state_fact 1 ''uses vim'' ''me'' (Some ''c1''),
                  (demo_state_fact 2 ''uses emacs'' ''me'' None)\<lparr>f_invalid_at := Some ''t'', f_superseded_by := Some 1\<rparr>,
                  demo_state_fact 5 ''uses nano'' ''me'' (Some ''c1'')],
     db_conflicts := [demo_conflict\<lparr>k_id := ''c0'', k_resolved_at := Some ''t'', k_resolution_fact_id := Some 1\<rparr>,
                      demo_conflict],
     db_conflict_members := [(''c0'', 1), (''c0'', 2), (''c1'', 1), (''c1'', 5)]\<rparr>"

section \<open>Facts through the blocks\<close>

lemma text_kept_refl [simp]: "text_kept f f"
  by (simp add: text_kept_def)

lemma text_kept_trans: "text_kept f g \<Longrightarrow> text_kept g h \<Longrightarrow> text_kept f h"
  by (simp add: text_kept_def)

lemma texts_kept_trans:
  "list_all2 text_kept fs gs \<Longrightarrow> list_all2 text_kept gs hs \<Longrightarrow> list_all2 text_kept fs hs"
  by (rule list_all2_trans [where ?P1.0 = text_kept and ?P2.0 = text_kept]) (auto intro: text_kept_trans)

lemma texts_kept_refl [simp]: "list_all2 text_kept fs fs"
  by (simp add: list_all2_refl)

lemma list_all2_partner:
  assumes "list_all2 R xs ys"
  shows "x \<in> set xs \<Longrightarrow> \<exists>y \<in> set ys. R x y" and "y \<in> set ys \<Longrightarrow> \<exists>x \<in> set xs. R x y"
  using assms by (induction rule: list_all2_induct) auto

lemma update_where_kept:
  "(\<And>f. P f \<Longrightarrow> text_kept f (u f)) \<Longrightarrow> list_all2 text_kept fs (update_where P u fs)"
  by (induction fs) auto

lemma sql_update_kept:
  assumes "sql_update_facts P u d = Inr (d', n)" and "\<And>f. P f \<Longrightarrow> text_kept f (u f)"
  shows "\<exists>fs. d' = d\<lparr>db_facts := fs\<rparr> \<and> list_all2 text_kept (db_facts d) fs"
  using assms update_where_kept [of P u "db_facts d"] by (auto simp: sql_update_facts_Inr)

lemma leave_conflict_kept:
  assumes "leave_conflict now who c d = Inr (n, d')"
  shows "\<exists>fs ks. d' = d\<lparr>db_facts := fs, db_conflicts := ks\<rparr> \<and> list_all2 text_kept (db_facts d) fs"
proof -
  have upd: "\<exists>fs. d1 = d\<lparr>db_facts := fs\<rparr> \<and> list_all2 text_kept (db_facts d) fs"
    if "sql_update_facts (\<lambda>f. f_id f = x) (\<lambda>f. f\<lparr>f_conflict_group := None\<rparr>) d = Inr (d1, m)" for x d1 m
    using that by (rule sql_update_kept) (simp add: text_kept_def)
  show ?thesis
  proof (cases "members_of c d")
    case Nil
    with assms show ?thesis
      by (auto simp: leave_conflict_def Let_def intro!: exI [of _ "db_facts d"])
  next
    case (Cons x xs)
    show ?thesis
    proof (cases xs)
      case Nil
      with assms Cons obtain d1 m where
        s: "sql_update_facts (\<lambda>f. f_id f = x) (\<lambda>f. f\<lparr>f_conflict_group := None\<rparr>) d = Inr (d1, m)"
        and d': "\<exists>ks. d' = d1\<lparr>db_conflicts := ks\<rparr>"
        by (auto simp: leave_conflict_def Let_def rbind_eq_Inr)
      from upd [OF s] d' show ?thesis by auto
    next
      case Cons': (Cons y ys)
      with assms Cons have "d' = d\<lparr>db_facts := db_facts d, db_conflicts := db_conflicts d\<rparr>"
        by (simp add: leave_conflict_def)
      then show ?thesis by (metis texts_kept_refl)
    qed
  qed
qed

lemma leave_conflicts_kept:
  "leave_conflicts now who cs d = Inr (n, d') \<Longrightarrow>
   \<exists>fs ks. d' = d\<lparr>db_facts := fs, db_conflicts := ks\<rparr> \<and> list_all2 text_kept (db_facts d) fs"
proof (induction cs arbitrary: d n)
  case Nil
  then have "d' = d\<lparr>db_facts := db_facts d, db_conflicts := db_conflicts d\<rparr>" by simp
  then show ?case by (metis texts_kept_refl)
next
  case (Cons c cs)
  then obtain m d1 k where c: "leave_conflict now who c d = Inr (m, d1)"
    and cs: "leave_conflicts now who cs d1 = Inr (k, d')" by (auto simp: rbind_eq_Inr)
  obtain fs ks where d1: "d1 = d\<lparr>db_facts := fs, db_conflicts := ks\<rparr>" "list_all2 text_kept (db_facts d) fs"
    using leave_conflict_kept [OF c] by blast
  obtain gs js where d': "d' = d1\<lparr>db_facts := gs, db_conflicts := js\<rparr>" "list_all2 text_kept (db_facts d1) gs"
    using Cons.IH [OF cs] by blast
  have "list_all2 text_kept (db_facts d) gs" using texts_kept_trans d1(2) d'(2) by (simp add: d1(1))
  then show ?case using d'(1) by (auto simp: d1(1))
qed

lemma erase_membership_kept:
  assumes "erase_membership now who i d = Inr (n, d')"
  shows "\<exists>fs ks. d' = d\<lparr>db_conflict_members := delete_where (\<lambda>m. snd m = i) (db_conflict_members d),
           db_facts := fs, db_conflicts := ks\<rparr> \<and> list_all2 text_kept (db_facts d) fs"
  using leave_conflicts_kept [OF assms [unfolded erase_membership_def]] by simp

lemma invalidate_insights_kept:
  assumes "invalidate_insights now i d = Inr (n, d')"
  shows "\<exists>fs. d' = d\<lparr>db_facts := fs\<rparr> \<and> list_all2 text_kept (db_facts d) fs"
proof -
  obtain ids m where "sql_update_facts (\<lambda>f. f_id f \<in> set ids) (\<lambda>f. f\<lparr>f_invalid_at := Some now\<rparr>) d = Inr (d', m)"
    using assms by (auto simp: invalidate_insights_def rbind_eq_Inr)
  then show ?thesis by (rule sql_update_kept) (simp add: text_kept_def)
qed

text \<open>The final database of a successful erasure, block by block.\<close>

lemma erase_txn_Inr:
  assumes "erase_txn env i who why original d = Inr (rep, d')"
  obtains fs ks where
    "list_all2 text_kept (update_where (\<lambda>f. f_id f = i) (erased_fact (xe_now env)) (db_facts d)) fs"
    "db_facts d' = fs" "db_conflicts d' = ks"
    "db_observations d' = db_observations (erase_observations (xe_erasure_id env) (xe_now env) (fact_observations i d) d)"
    "db_provenance d' = db_provenance (erase_excerpts i d)"
    "db_embeddings d' = delete_where (\<lambda>e. e_fact_id e = i) (db_embeddings d)"
    "db_jobs d' = db_jobs (erase_jobs (xe_erasure_id env) (xe_instant env) i d)"
    "db_queue d' = db_queue (snd (erase_queue (xe_runtime env) (linked_queue_ids i d) (linked_payload_hashes i d) original d))"
    "db_conflict_members d' = delete_where (\<lambda>m. snd m = i) (db_conflict_members d)"
    "db_write_log d' = db_write_log (erase_write_log i (fact_observations i d) original d)"
proof -
  let ?now = "xe_now env" and ?eid = "xe_erasure_id env" and ?obs = "fact_observations i d"
  obtain d1 d3 n4 d4 n5 d5 row where
    s1: "erase_row ?now i (erase_excerpts i (erase_observations ?eid ?now ?obs d)) = Inr d1"
    and d3: "d3 = snd (erase_queue (xe_runtime env) (linked_queue_ids i d) (linked_payload_hashes i d) original
             (erase_jobs ?eid (xe_instant env) i (snd (erase_embeddings i d1))))"
    and s4: "invalidate_insights ?now i d3 = Inr (n4, d4)"
    and s5: "erase_membership ?now who i d4 = Inr (n5, d5)"
    and d': "d' = (erase_write_log i ?obs original d5)\<lparr>db_erasure_log :=
               db_erasure_log (erase_write_log i ?obs original d5) @ [row]\<rparr>"
    using assms unfolding erase_txn_def Let_def
    by (auto simp: rbind_eq_Inr split_def split: if_splits)
  obtain m where u1: "sql_update_facts (\<lambda>f. f_id f = i) (erased_fact ?now)
      (erase_excerpts i (erase_observations ?eid ?now ?obs d)) = Inr m"
    and d1: "d1 = (fst m)\<lparr>db_fact_entities := delete_where (\<lambda>p. fst p = i) (db_fact_entities (fst m))\<rparr>"
    using s1 by (auto simp: erase_row_def rbind_eq_Inr split_def)
  have m: "fst m = (erase_excerpts i (erase_observations ?eid ?now ?obs d))
      \<lparr>db_facts := update_where (\<lambda>f. f_id f = i) (erased_fact ?now) (db_facts d)\<rparr>"
    using u1 by (cases m) (auto simp: sql_update_facts_Inr erase_excerpts_def erase_observations_def)
  obtain fs where d4: "d4 = d3\<lparr>db_facts := fs\<rparr>" "list_all2 text_kept (db_facts d3) fs"
    using invalidate_insights_kept [OF s4] by blast
  obtain gs ks where d5: "d5 = d4\<lparr>db_conflict_members := delete_where (\<lambda>m. snd m = i) (db_conflict_members d4),
      db_facts := gs, db_conflicts := ks\<rparr>" "list_all2 text_kept (db_facts d4) gs"
    using erase_membership_kept [OF s5] by blast
  have "list_all2 text_kept (update_where (\<lambda>f. f_id f = i) (erased_fact ?now) (db_facts d)) gs"
    using texts_kept_trans [OF d4(2)] d5(2)
    by (simp add: d3 d1 m d4(1) erase_queue_def erase_jobs_def erase_embeddings_def)
  then show thesis
    by (rule that) (simp_all add: d' d5(1) d4(1) d3 d1 m erase_queue_def erase_jobs_def erase_embeddings_def
        erase_write_log_def erase_excerpts_def erase_observations_def)
qed


section \<open>The guarantee\<close>

lemma erased_fact_row: "erased_row i (erased_fact now f) \<longleftrightarrow> f_id f = i \<or> erased_placeholder (f_id f) = erased_placeholder i"
  by (auto simp: erased_row_def erased_fact_def split: option.splits)

lemma erased_row_kept: "erased_row i f \<Longrightarrow> text_kept f g \<Longrightarrow> erased_row i g"
  by (auto simp: erased_row_def text_kept_def)

lemma erase_excerpts_row:
  assumes "p \<in> set (db_provenance (erase_excerpts i d))" and "p_fact_id p = i"
  shows "p_evidence_excerpt p = None \<and> p_observation_id p \<in> set (fact_observations i d)"
proof -
  obtain q where q: "q \<in> set (db_provenance d)"
    "p = (if p_fact_id q = i then q\<lparr>p_evidence_excerpt := None\<rparr> else q)"
    using assms(1) by (auto simp: erase_excerpts_def in_update_where)
  then have "p_fact_id q = i" using assms(2) by (simp split: if_splits)
  with q show ?thesis by (simp add: fact_observations_def image_iff) blast
qed

lemma erase_observations_row:
  assumes "ob \<in> set (db_observations (erase_observations eid now obs d))" and "o_id ob \<in> set obs"
  shows "o_content ob = Some ''[PRIVACY ERASED]'' \<and> o_source_uri ob = None \<and> o_asserted_by ob = None
    \<and> o_metadata_json ob = ''{}''"
  using assms by (auto simp: erase_observations_def set_update_where)

lemma str_contains_Nil [simp]: "str_contains [] s"
  by (cases s) simp_all

lemma erase_queue_row:
  assumes "q \<in> set (db_queue (snd (erase_queue rt ids hs txt d)))" and "str_contains txt (q_payload q)"
  shows "str_contains txt (erased_payload (q_id q))"
proof (cases "txt = []")
  case False
  obtain r where r: "q = (if queue_linked rt ids hs txt r
      then r\<lparr>q_payload := erased_payload (q_id r), q_payload_hash := Some (rt_sha256 rt (erased_payload (q_id r))),
             q_last_error := None\<rparr> else r)"
    using assms(1) by (auto simp: erase_queue_def in_update_where)
  have "\<not> queue_linked rt ids hs txt r \<Longrightarrow> \<not> str_contains txt (q_payload r)"
    using False by (simp add: queue_linked_def)
  with r assms(2) show ?thesis by (cases "queue_linked rt ids hs txt r") simp_all
qed simp

lemma erase_jobs_row:
  assumes "j \<in> set (db_jobs (erase_jobs eid t i d))" and "j_fact_id j = i"
  shows "j_status j = JobCompleted \<and> j_lease_token j = None"
proof -
  obtain r where "r \<in> set (db_jobs d)" "j_fact_id r = i \<longrightarrow> j_status j = JobCompleted \<and> j_lease_token j = None"
    "j_fact_id r \<noteq> i \<longrightarrow> j = r"
    using assms(1) by (auto simp: erase_jobs_def in_update_where)
  with assms(2) show ?thesis by blast
qed

lemma erase_write_log_row:
  assumes "l \<in> set (db_write_log (erase_write_log i obs txt d))" and "str_contains txt (l_detail_json l)"
  shows "str_contains txt erased_detail"
proof (cases "txt = []")
  case False
  obtain m where "l = (if txt \<noteq> [] \<and> str_contains txt (l_detail_json m) then m\<lparr>l_detail_json := erased_detail\<rparr> else m)"
    using assms(1) by (auto simp: erase_write_log_def in_update_where)
  with assms(2) False show ?thesis by (auto split: if_splits)
qed simp

text \<open>C10: After a successful erasure the fact is a retired placeholder without tags, slot or
  vector; its evidence is redacted and its excerpts, vectors and conflict memberships are gone; its
  jobs are closed; no queued payload and no write-log detail contains the erased text (unless the
  replacement text itself does); and every other fact keeps its identity, scope and text.\<close>

theorem erase_scrubs:
  assumes e: "erase_fact env b i who why d = Inr (rep, d')"
  shows "\<exists>f. fact_by_id d i = Some f
    \<and> (\<forall>g \<in> set (db_facts d'). f_id g = i \<longrightarrow> erased_row i g)
    \<and> (\<forall>g \<in> set (db_facts d). f_id g \<noteq> i \<longrightarrow> (\<exists>h \<in> set (db_facts d'). text_kept g h))
    \<and> (\<forall>p \<in> set (db_provenance d'). p_fact_id p = i \<longrightarrow> p_evidence_excerpt p = None
         \<and> (\<forall>ob \<in> set (db_observations d'). o_id ob = p_observation_id p \<longrightarrow>
              o_content ob = Some ''[PRIVACY ERASED]'' \<and> o_source_uri ob = None \<and> o_asserted_by ob = None
              \<and> o_metadata_json ob = ''{}''))
    \<and> (\<forall>x \<in> set (db_embeddings d'). e_fact_id x \<noteq> i)
    \<and> (\<forall>m \<in> set (db_conflict_members d'). snd m \<noteq> i)
    \<and> (\<forall>j \<in> set (db_jobs d'). j_fact_id j = i \<longrightarrow> j_status j = JobCompleted \<and> j_lease_token j = None)
    \<and> (\<forall>q \<in> set (db_queue d'). str_contains (f_content f) (q_payload q)
         \<longrightarrow> str_contains (f_content f) (erased_payload (q_id q)))
    \<and> (\<forall>l \<in> set (db_write_log d'). str_contains (f_content f) (l_detail_json l)
         \<longrightarrow> str_contains (f_content f) erased_detail)"
proof -
  obtain f where f: "fact_by_id d i = Some f"
    and t: "erase_txn env i (py_strip who) (py_strip why) (f_content f) d = Inr (rep, d')"
    using e by (auto simp: erase_fact_def split: if_splits option.splits)
  let ?u = "update_where (\<lambda>f. f_id f = i) (erased_fact (xe_now env)) (db_facts d)"
  obtain fs where k: "list_all2 text_kept ?u fs" "db_facts d' = fs"
    and obs: "db_observations d' = db_observations (erase_observations (xe_erasure_id env) (xe_now env) (fact_observations i d) d)"
    and prov: "db_provenance d' = db_provenance (erase_excerpts i d)"
    and emb: "db_embeddings d' = delete_where (\<lambda>e. e_fact_id e = i) (db_embeddings d)"
    and jobs: "db_jobs d' = db_jobs (erase_jobs (xe_erasure_id env) (xe_instant env) i d)"
    and que: "db_queue d' = db_queue (snd (erase_queue (xe_runtime env) (linked_queue_ids i d)
                (linked_payload_hashes i d) (f_content f) d))"
    and mem: "db_conflict_members d' = delete_where (\<lambda>m. snd m = i) (db_conflict_members d)"
    and wlog: "db_write_log d' = db_write_log (erase_write_log i (fact_observations i d) (f_content f) d)"
    using t by (rule erase_txn_Inr) blast
  have "erased_row i g" if g: "g \<in> set (db_facts d')" "f_id g = i" for g
  proof -
    obtain h where h: "h \<in> set ?u" "text_kept h g"
      using list_all2_partner(2) [OF k(1), of g] k(2) g(1) by auto
    then have "f_id h = i" using g(2) by (simp add: text_kept_def)
    with h(1) have "erased_row i h" by (auto simp: set_update_where erased_fact_row)
    then show ?thesis using h(2) by (rule erased_row_kept)
  qed
  moreover have "\<exists>h \<in> set (db_facts d'). text_kept g h" if g: "g \<in> set (db_facts d)" "f_id g \<noteq> i" for g
  proof -
    have "g \<in> set ?u" using g by (simp add: set_update_where)
    then show ?thesis using list_all2_partner(1) [OF k(1), of g] k(2) by auto
  qed
  moreover have "\<forall>x \<in> set (db_embeddings d'). e_fact_id x \<noteq> i" "\<forall>m \<in> set (db_conflict_members d'). snd m \<noteq> i"
    by (auto simp: emb mem delete_where_def)
  moreover have "j_status j = JobCompleted \<and> j_lease_token j = None" if "j \<in> set (db_jobs d')" "j_fact_id j = i" for j
    using erase_jobs_row that unfolding jobs by blast
  moreover have "p_evidence_excerpt p = None \<and> p_observation_id p \<in> set (fact_observations i d)"
    if "p \<in> set (db_provenance d')" "p_fact_id p = i" for p
    using erase_excerpts_row that unfolding prov by blast
  moreover have "str_contains (f_content f) (erased_payload (q_id q))"
    if "q \<in> set (db_queue d')" "str_contains (f_content f) (q_payload q)" for q
    using erase_queue_row that unfolding que by blast
  moreover have "str_contains (f_content f) erased_detail"
    if "l \<in> set (db_write_log d')" "str_contains (f_content f) (l_detail_json l)" for l
    using erase_write_log_row that unfolding wlog by blast
  moreover have "o_content ob = Some ''[PRIVACY ERASED]'' \<and> o_source_uri ob = None \<and> o_asserted_by ob = None
      \<and> o_metadata_json ob = ''{}''" if "ob \<in> set (db_observations d')" "o_id ob \<in> set (fact_observations i d)" for ob
    using erase_observations_row that unfolding obs by blast
  ultimately show ?thesis using f by (intro exI [of _ f]) simp
qed

lemma demo_erased:
  "case erase_fact demo_erasure_env False 3 ''me'' ''privacy'' demo_copies_db of
     Inr (rep, d') \<Rightarrow> rp_embeddings rep = 1 \<and> rp_queue_rows rep = 1 | _ \<Rightarrow> False"
  by code_simp

theorem erase_scrubs_witness:
  "case erase_fact demo_erasure_env False 3 ''me'' ''privacy'' demo_copies_db of
     Inr (rep, d') \<Rightarrow> db_embeddings d' = []
       \<and> (\<forall>q \<in> set (db_queue d'). \<not> str_contains ''likes tea'' (q_payload q) \<or> str_contains ''likes tea'' (erased_payload (q_id q)))
   | _ \<Rightarrow> False"
proof -
  obtain rep d' where e: "erase_fact demo_erasure_env False 3 ''me'' ''privacy'' demo_copies_db = Inr (rep, d')"
    using demo_erased by (auto split: sum.splits)
  have "case erase_fact demo_erasure_env False 3 ''me'' ''privacy'' demo_copies_db of
      Inr (rep, d') \<Rightarrow> list_all (\<lambda>x. e_fact_id x = 3) (db_embeddings d') | _ \<Rightarrow> False" by code_simp
  then have "\<forall>x \<in> set (db_embeddings d'). e_fact_id x = 3" by (simp add: e list_all_iff)
  moreover have "fact_by_id demo_copies_db 3 = Some (demo_fact 3 ''likes tea'')" by code_simp
  moreover have "f_content (demo_fact 3 ''likes tea'') = ''likes tea''" by (simp add: demo_fact_def)
  moreover note erase_scrubs [OF e]
  ultimately have "\<forall>x \<in> set (db_embeddings d'). False"
    "\<forall>q \<in> set (db_queue d'). str_contains ''likes tea'' (q_payload q) \<longrightarrow> str_contains ''likes tea'' (erased_payload (q_id q))"
    by auto
  then show ?thesis by (auto simp: e)
qed

section \<open>Where the code falls short\<close>

text \<open>The proposal snapshot of a queued transcript keeps the erased text.\<close>

lemma erase_leaves_proposal:
  "case erase_fact demo_erasure_env False 3 ''me'' ''privacy'' demo_copies_db of
     Inr (rep, d') \<Rightarrow> map q_proposal_json (db_queue d') = [Some ''[likes tea]''] | _ \<Rightarrow> False"
  by code_simp

text \<open>One live insight with an empty source list makes every erasure fail.\<close>

lemma citing_insights_fails:
  assumes "f \<in> set fs" "f_category f = ''insight''" "f_invalid_at f = None" "cited_ids (f_tags f) = Inl e"
  shows "\<exists>e'. citing_insights i fs = Inl e'"
  using assms(1)
proof (induction fs)
  case (Cons g fs)
  show ?case
  proof (cases "g = f")
    case True
    then show ?thesis using assms by simp
  next
    case False
    then obtain e' where "citing_insights i fs = Inl e'" using Cons by auto
    then show ?thesis by (cases "cited_ids (f_tags g)") auto
  qed
qed simp

lemma erase_blocked_by_tag:
  "erase_fact demo_erasure_env False 3 ''me'' ''privacy'' demo_insight_db
     = Inl (IndexError ''list index out of range'')"
  by code_simp

text \<open>
  Erasing the loser of a resolved conflict takes its winner out of another, open conflict, which
  then can be resolved to neither of its members.
\<close>

lemma demo_past_slot_inv: "slot_inv demo_past_db"
  unfolding slot_inv_def
proof (intro conjI)
  show "ids_ok demo_past_db" by (simp add: ids_ok_def demo_past_db_def demo_defs fact_ids_def)
  show "keys_ok demo_past_db"
    by (simp add: keys_ok_def demo_past_db_def demo_defs slot_unique_def slot_key_def superseded_fk_def)
  show "groups_ok demo_past_db"
    by (simp add: groups_ok_def demo_past_db_def demo_defs is_current_def is_open_def in_conflict_slot_def in_slot_def)
  show "members_ok demo_past_db"
    by (auto simp: members_ok_def conflict_ok_def demo_past_db_def demo_defs is_current_def is_open_def
        in_conflict_slot_def in_slot_def demo_clean)
  show "member_rows_ok demo_past_db" by (simp add: member_rows_ok_def demo_past_db_def demo_defs)
  show "exclusive_ok demo_past_db" by (simp add: exclusive_ok_def demo_past_db_def demo_defs is_current_def in_slot_def)
qed

lemma erase_strands_conflict:
  "slot_inv demo_past_db
   \<and> (case erase_fact demo_erasure_env False 2 ''me'' ''privacy'' demo_past_db of
        Inr (rep, d') \<Rightarrow>
          conflict_members d' ''c1'' = [1, 5]
          \<and> \<not> isl (resolve_state_conflict demo_runtime ''now'' ''c1'' 1 ''me'' ''why'' None None None None demo_past_db)
          \<and> isl (resolve_state_conflict demo_runtime ''now'' ''c1'' 1 ''me'' ''why'' None None None None d')
          \<and> isl (resolve_state_conflict demo_runtime ''now'' ''c1'' 5 ''me'' ''why'' None None None None d')
      | _ \<Rightarrow> False)"
proof (rule conjI)
  show "slot_inv demo_past_db" by (rule demo_past_slot_inv)
qed code_simp

end
