(* ===== verification/Context_Pack.thy ===== *)
theory Context_Pack
  imports Near_Dedup Json
begin

text \<open>
  The prompt-context packer of \<open>context.py\<close>.

  A search row is a Python \<open>dict\<close> of JSON values, here an association list. Binary floating
  point is a parameter (\<open>float_lib\<close>): the rounding of an exact result, the square root, the
  summation of \<open>sum\<close>, the conversion \<open>float(x)\<close>, the text of a number to three decimals and the text
  \<open>str\<close> gives a float, list or dict. Values are finite. The ellipsis U+2026 lies outside the
  Latin-1 range of the model's texts; it is written as the substitute character 0x1A, which
  is, as U+2026 is, one code point that is neither space nor letter nor digit.
\<close>

record float_lib =
  fl_round :: "rat \<Rightarrow> rat"
  fl_sqrt :: "rat \<Rightarrow> rat"
  fl_sum :: "rat list \<Rightarrow> rat"
  fl_float :: "json \<Rightarrow> rat option"
  fl_fixed3 :: "rat \<Rightarrow> string"
  fl_str :: "json \<Rightarrow> string"

section \<open>Constants and token estimate\<close>

definition header :: string where
  "header = ''## Enfold Memory'' @ [CHR 0x0A]"

definition ellipsis :: string where
  "ellipsis = [CHR 0x1A]"

definition truncation_marker :: string where
  "truncation_marker = ellipsis @ '' [truncated]''"

definition estimate_tokens :: "string \<Rightarrow> nat" where
  "estimate_tokens s = (length s + 3) div 4"

record context_pack =
  cp_markdown :: string
  cp_facts :: "row list"
  cp_abstained :: bool
  cp_token_budget :: int
  cp_token_estimate :: nat
  cp_omitted :: nat
  cp_unsafe :: nat

definition as_dict :: "context_pack \<Rightarrow> row" where
  "as_dict p =
     [(''markdown'', JStr (cp_markdown p)),
      (''facts'', JArr (map JObj (cp_facts p))),
      (''abstained'', JBool (cp_abstained p)),
      (''token_estimate'', JObj
         [(''method'', JStr ''unicode_chars_divided_by_four''),
          (''budget'', JInt (cp_token_budget p)),
          (''used'', JInt (int (cp_token_estimate p)))]),
      (''omitted_fact_count'', JInt (int (cp_omitted p))),
      (''unsafe_fact_count'', JInt (int (cp_unsafe p)))]"

section \<open>Similarity and diversified selection\<close>

text \<open>\<open>_text\<close>\<close>

definition text_of :: "json \<Rightarrow> string" where
  "text_of v = (case v of JStr s \<Rightarrow> s | _ \<Rightarrow> [])"

definition jaccard_similarity :: "float_lib \<Rightarrow> string \<Rightarrow> string \<Rightarrow> rat" where
  "jaccard_similarity fl left right =
     (let l = set (find_tokens [] (py_lower left));
          r = set (find_tokens [] (py_lower right))
      in if l \<union> r = {} then 0
         else fl_round fl (of_nat (card (l \<inter> r)) / of_nat (card (l \<union> r))))"

text \<open>
  \<open>tuple(float(v) for v in x)\<close>: a list, or a \<open>dict\<close>, whose iteration gives its keys; any
  other value is not iterable. \<open>None\<close> is the \<open>TypeError\<close> or \<open>ValueError\<close> the caller catches.
\<close>

definition float_values :: "float_lib \<Rightarrow> json \<Rightarrow> rat list option" where
  "float_values fl v =
     (case v of
        JArr vs \<Rightarrow> those (map (fl_float fl) vs)
      | JObj kvs \<Rightarrow> those (map (\<lambda>kv. fl_float fl (JStr (fst kv))) kvs)
      | _ \<Rightarrow> None)"

definition embedding_similarity :: "float_lib \<Rightarrow> json \<Rightarrow> json \<Rightarrow> rat option" where
  "embedding_similarity fl left right =
     (case (float_values fl left, float_values fl right) of
        (Some ls, Some rs) \<Rightarrow>
          if ls = [] \<or> length ls \<noteq> length rs then None
          else
            let left_norm = fl_sqrt fl (fl_sum fl (map (\<lambda>x. fl_round fl (x * x)) ls));
                right_norm = fl_sqrt fl (fl_sum fl (map (\<lambda>x. fl_round fl (x * x)) rs))
            in if left_norm = 0 \<or> right_norm = 0 then None
               else Some (max (- 1) (min 1
                 (fl_round fl (fl_sum fl (map (\<lambda>(x, y). fl_round fl (x * y)) (zip ls rs))
                    / fl_round fl (left_norm * right_norm)))))
      | _ \<Rightarrow> None)"

definition similarity :: "float_lib \<Rightarrow> row \<Rightarrow> row \<Rightarrow> rat" where
  "similarity fl left right =
     (case embedding_similarity fl (dict_get left ''_mmr_embedding'') (dict_get right ''_mmr_embedding'') of
        Some d \<Rightarrow> d
      | None \<Rightarrow> jaccard_similarity fl (text_of (dict_get left ''content'')) (text_of (dict_get right ''content'')))"

definition relevance :: "float_lib \<Rightarrow> row \<Rightarrow> rat" where
  "relevance fl f =
     (case fl_float fl (case map_of f ''score'' of None \<Rightarrow> JNum 0 | Some v \<Rightarrow> v) of
        None \<Rightarrow> 0 | Some r \<Rightarrow> r)"

definition redundancy :: "float_lib \<Rightarrow> row list \<Rightarrow> row \<Rightarrow> rat" where
  "redundancy fl selected f =
     (case map (similarity fl f) selected of [] \<Rightarrow> 0 | s # ss \<Rightarrow> fold max ss s)"

definition mmr_objective :: "float_lib \<Rightarrow> rat \<Rightarrow> row list \<Rightarrow> nat \<times> row \<Rightarrow> rat \<times> int" where
  "mmr_objective fl lam selected = (\<lambda>(index, f).
     (fl_round fl (fl_round fl (lam * relevance fl f)
        - fl_round fl (fl_round fl (1 - lam) * redundancy fl selected f)), - int index))"

text \<open>\<open>max(xs, key=k)\<close>: the first element with the largest key, on tuples of two.\<close>

definition key_less :: "rat \<times> int \<Rightarrow> rat \<times> int \<Rightarrow> bool" where
  "key_less a b \<longleftrightarrow> fst a < fst b \<or> fst a = fst b \<and> snd a < snd b"

fun max_by :: "('a \<Rightarrow> rat \<times> int) \<Rightarrow> 'a \<Rightarrow> 'a list \<Rightarrow> 'a" where
  "max_by k best [] = best"
| "max_by k best (x # xs) = max_by k (if key_less (k best) (k x) then x else best) xs"

text \<open>The \<open>while\<close> loop of \<open>_mmr_select\<close>; \<open>selected\<close> grows at its end.\<close>

function mmr_loop :: "float_lib \<Rightarrow> rat \<Rightarrow> nat \<Rightarrow> (nat \<times> row) list \<Rightarrow> row list \<Rightarrow> row list" where
  "mmr_loop fl lam limit remaining selected =
     (case remaining of
        [] \<Rightarrow> selected
      | x # xs \<Rightarrow>
          if length selected < limit
          then let best = max_by (mmr_objective fl lam selected) x xs
               in mmr_loop fl lam limit (remove1 best remaining) (selected @ [snd best])
          else selected)"
  by pat_completeness auto
termination
  by (relation "measure (\<lambda>(fl, lam, limit, remaining, selected). limit - length selected)") auto

declare mmr_loop.simps [simp del]

definition mmr_select :: "float_lib \<Rightarrow> row list \<Rightarrow> int option \<Rightarrow> rat \<Rightarrow> row list" where
  "mmr_select fl fs max_facts lam =
     (case max_facts of
        None \<Rightarrow> fs
      | Some m \<Rightarrow> if int (length fs) \<le> m then fs
                   else mmr_loop fl lam (nat m) (enumerate 0 fs) [])"

section \<open>One line of the pack\<close>

definition safe_candidate :: "row \<Rightarrow> bool" where
  "safe_candidate f \<longleftrightarrow>
     dict_get f ''invalid_at'' = JNull \<and> dict_get f ''superseded_by'' = JNull
     \<and> dict_get f ''conflict_group'' = JNull"

definition state_slot :: "row \<Rightarrow> (string \<times> string \<times> string) option" where
  "state_slot f =
     (if dict_get f ''memory_kind'' \<noteq> JStr ''state'' then None
      else
        let subject = text_of (dict_get f ''subject_key'');
            predicate = text_of (dict_get f ''predicate_key'');
            scope = text_of (dict_get f ''scope'')
        in if subject = [] \<or> predicate = [] then None else Some (scope, subject, predicate))"

definition compact_source :: "json \<Rightarrow> string" where
  "compact_source attribution =
     (case attribution of
        JObj a \<Rightarrow>
          (case filter (\<lambda>v. v \<noteq> []) (map (\<lambda>k. text_of (dict_get a k)) [''performed_by'', ''agent_id'', ''source_type'']) of
             [] \<Rightarrow> ''unknown''
           | v # _ \<Rightarrow> take 64 v @ (if 64 < length v then ellipsis else []))
      | _ \<Rightarrow> ''unknown'')"

text \<open>\<open>str(v)\<close> as an f-string prints it.\<close>

definition py_str :: "float_lib \<Rightarrow> json \<Rightarrow> string" where
  "py_str fl v =
     (case v of
        JNull \<Rightarrow> ''None''
      | JBool b \<Rightarrow> (if b then ''True'' else ''False'')
      | JInt i \<Rightarrow> int_str i
      | JStr s \<Rightarrow> s
      | _ \<Rightarrow> fl_str fl v)"

definition line_prefix :: "float_lib \<Rightarrow> row \<Rightarrow> string" where
  "line_prefix fl f =
     (let score_text = (case fl_float fl (dict_get f ''score'') of None \<Rightarrow> ''n/a'' | Some q \<Rightarrow> fl_fixed3 fl q);
          attribution = dict_get f ''attribution'';
          evidence_count = (case attribution of JObj a \<Rightarrow> dict_get a ''evidence_count'' | _ \<Rightarrow> JNull);
          evidence = (case evidence_count of
                        JInt _ \<Rightarrow> '' evidence:'' @ py_str fl evidence_count
                      | JBool _ \<Rightarrow> '' evidence:'' @ py_str fl evidence_count
                      | _ \<Rightarrow> [])
      in ''- [fact:'' @ py_str fl (dict_get f ''fact_id'') @ '' score:'' @ score_text
           @ '' by:'' @ compact_source attribution @ evidence @ ''] '')"

section \<open>Truncation\<close>

text \<open>
  The binary search of \<open>_truncate_to_budget\<close> over the prefix length; \<open>low\<close> and \<open>high\<close> are
  Python integers, so \<open>high\<close> can reach \<open>-1\<close>.
\<close>

function truncate_search :: "string \<Rightarrow> int \<Rightarrow> int \<Rightarrow> int \<Rightarrow> string \<Rightarrow> string" where
  "truncate_search s budget low high best =
     (if low \<le> high
      then let midpoint = (low + high) div 2;
               candidate = py_rstrip (take (nat midpoint) s) @ ellipsis
           in if int (estimate_tokens candidate) \<le> budget
              then truncate_search s budget (midpoint + 1) high candidate
              else truncate_search s budget low (midpoint - 1) best
      else best)"
  by pat_completeness auto
termination
  by (relation "measure (\<lambda>(s, budget, low, high, best). nat (high + 1 - low))") auto

declare truncate_search.simps [simp del]

definition truncate_to_budget :: "string \<Rightarrow> int \<Rightarrow> string \<times> bool" where
  "truncate_to_budget s budget =
     (if budget \<le> 0 then ([], s \<noteq> [])
      else if int (estimate_tokens s) \<le> budget then (s, False)
      else if int (estimate_tokens ellipsis) > budget then ([], True)
      else (truncate_search s budget 0 (int (length s)) [], True))"

definition truncate_to_chars :: "string \<Rightarrow> int \<Rightarrow> string \<times> bool" where
  "truncate_to_chars s maximum =
     (if int (length s) \<le> maximum then (s, False)
      else (py_rstrip (take (nat (maximum - int (length truncation_marker))) s) @ truncation_marker, True))"

section \<open>Packing\<close>

record pack_state =
  pk_markdown :: string
  pk_selected :: "row list"
  pk_slots :: "(string \<times> string \<times> string) list"
  pk_omitted :: nat
  pk_unsafe :: nat

text \<open>\<open>s.rstrip(chars)\<close> for a set of one character.\<close>

definition rstrip_char :: "char \<Rightarrow> string \<Rightarrow> string" where
  "rstrip_char c s = rev (dropWhile (\<lambda>x. x = c) (rev s))"

text \<open>One pass of the loop over the ranked facts.\<close>

definition pack_fact :: "float_lib \<Rightarrow> int \<Rightarrow> int option \<Rightarrow> row \<Rightarrow> pack_state \<Rightarrow> pack_state" where
  "pack_fact fl token_budget max_fact_chars raw_fact st =
     (let f = dict_pop ''_mmr_embedding'' raw_fact
      in if \<not> safe_candidate f then st\<lparr>pk_unsafe := pk_unsafe st + 1\<rparr>
         else
           let slot = state_slot f
           in if (case slot of None \<Rightarrow> False | Some sl \<Rightarrow> sl \<in> set (pk_slots st))
              then st\<lparr>pk_omitted := pk_omitted st + 1\<rparr>
              else
                let prefix = line_prefix fl f;
                    available = token_budget - int (estimate_tokens (pk_markdown st)) - int (estimate_tokens prefix) - 1;
                    content0 = text_of (dict_get f ''content'');
                    (content1, content_truncated) =
                      (case max_fact_chars of None \<Rightarrow> (content0, False) | Some m \<Rightarrow> truncate_to_chars content0 m);
                    (content, budget_truncated) = truncate_to_budget content1 available;
                    truncated = (content_truncated \<or> budget_truncated);
                    line = prefix @ content @ [CHR 0x0A]
                in if budget_truncated \<and> length (py_rstrip (rstrip_char (hd ellipsis) content)) < 8
                   then st\<lparr>pk_omitted := pk_omitted st + 1\<rparr>
                   else if content = [] then st\<lparr>pk_omitted := pk_omitted st + 1\<rparr>
                   else if int (estimate_tokens (pk_markdown st @ line)) > token_budget
                   then st\<lparr>pk_omitted := pk_omitted st + 1\<rparr>
                   else
                     let f1 = dict_set ''context_truncated'' (JBool truncated) (dict_set ''content'' (JStr content) f);
                         f2 = (if content_truncated then dict_set ''content_truncated'' (JBool True) f1 else f1)
                     in st\<lparr>pk_selected := pk_selected st @ [f2],
                           pk_slots := (case slot of None \<Rightarrow> pk_slots st | Some sl \<Rightarrow> sl # pk_slots st),
                           pk_markdown := pk_markdown st @ line\<rparr>)"

definition pack_start :: "nat \<Rightarrow> pack_state" where
  "pack_start omitted =
     \<lparr>pk_markdown = header, pk_selected = [], pk_slots = [], pk_omitted = omitted, pk_unsafe = 0\<rparr>"

definition pack_result :: "int \<Rightarrow> pack_state \<Rightarrow> context_pack" where
  "pack_result token_budget st =
     (if pk_selected st = []
      then \<lparr>cp_markdown = [], cp_facts = [], cp_abstained = True, cp_token_budget = token_budget,
            cp_token_estimate = 0, cp_omitted = pk_omitted st, cp_unsafe = pk_unsafe st\<rparr>
      else \<lparr>cp_markdown = pk_markdown st, cp_facts = pk_selected st, cp_abstained = False,
            cp_token_budget = token_budget, cp_token_estimate = estimate_tokens (pk_markdown st),
            cp_omitted = pk_omitted st, cp_unsafe = pk_unsafe st\<rparr>)"

definition positive_int :: "json \<Rightarrow> bool" where
  "positive_int v = (case v of JInt n \<Rightarrow> 1 \<le> n | _ \<Rightarrow> False)"

definition unit_number :: "json \<Rightarrow> rat option" where
  "unit_number v =
     (case v of JInt n \<Rightarrow> (if 0 \<le> n \<and> n \<le> 1 then Some (of_int n) else None)
      | JNum q \<Rightarrow> (if 0 \<le> q \<and> q \<le> 1 then Some q else None)
      | _ \<Rightarrow> None)"

text \<open>
  The arguments \<open>token_budget\<close>, \<open>max_facts\<close> and \<open>mmr_lambda\<close> are dynamic values, since the code
  tests their types (a \<open>bool\<close> is refused); \<open>max_facts=None\<close> is \<open>JNull\<close>.
\<close>

definition pack_context ::
  "float_lib \<Rightarrow> row list \<Rightarrow> json \<Rightarrow> int option \<Rightarrow> json \<Rightarrow> json \<Rightarrow> context_pack res" where
  "pack_context fl fs token_budget max_fact_chars max_facts mmr_lambda =
     (case token_budget of
        JInt budget \<Rightarrow>
          if budget \<le> 0 then Inl (ValueError ''token_budget must be positive'')
          else if (case max_fact_chars of None \<Rightarrow> False | Some m \<Rightarrow> m < int (length truncation_marker))
          then Inl (ValueError ''max_fact_chars is too small for the truncation marker'')
          else if max_facts \<noteq> JNull \<and> \<not> positive_int max_facts
          then Inl (ValueError ''max_facts must be a positive integer'')
          else (case unit_number mmr_lambda of
             None \<Rightarrow> Inl (ValueError ''mmr_lambda must be between 0 and 1'')
           | Some lam \<Rightarrow>
               if int (estimate_tokens header) > budget
               then Inr \<lparr>cp_markdown = [], cp_facts = [], cp_abstained = True, cp_token_budget = budget,
                         cp_token_estimate = 0, cp_omitted = length fs, cp_unsafe = 0\<rparr>
               else
                 let ranked = mmr_select fl fs (case max_facts of JInt m \<Rightarrow> Some m | _ \<Rightarrow> None) lam
                 in Inr (pack_result budget
                      (fold (pack_fact fl budget max_fact_chars) ranked (pack_start (length fs - length ranked)))))
      | _ \<Rightarrow> Inl (ValueError ''token_budget must be an integer''))"

end
