(* ===== verification/Projections.thy ===== *)
theory Projections
  imports Core_Store "HOL-Library.Product_Lexorder" "HOL-Library.List_Lexorder" "HOL-Library.Char_ord"
begin

text \<open>
  \<open>projections.py\<close>: the changes of a time window, timelines, entity rankings and dossiers, each
  bounded in items and in characters of its JSON text. \<open>julianday\<close>, the text of a float,
  \<open>datetime.fromisoformat\<close> and the UTC text of an instant (\<open>None\<close> where the conversion leaves
  the range of years) are arguments.
\<close>

section \<open>Arguments and fields\<close>

definition projection_limit_max :: int where "projection_limit_max = 200"
definition max_output_chars :: nat where "max_output_chars = 60000"
definition max_query_chars :: nat where "max_query_chars = 16000"
definition max_entity_chars :: nat where "max_entity_chars = 2000"
definition projection_scan_limit :: nat where "projection_scan_limit = 10000"
definition items_char_budget :: nat where "items_char_budget = max_output_chars - 256"

record projection_lib =
  pl_float_repr :: "rat \<Rightarrow> string"
  pl_julianday :: "string \<Rightarrow> rat option"
  pl_fromisoformat :: "string \<Rightarrow> (int \<times> int option) option"
  pl_utc_isoformat :: "int \<Rightarrow> string option"

definition clean_scopes :: "string list \<Rightarrow> string list res" where
  "clean_scopes values =
     (let cleaned = dict_fromkeys (map py_strip (filter (\<lambda>v. py_strip v \<noteq> []) values))
      in if cleaned = [] then Inl (ValueError ''scope must not be empty'') else Inr cleaned)"

definition projection_limit :: "int \<Rightarrow> int res" where
  "projection_limit value =
     (if \<not> (1 \<le> value \<and> value \<le> projection_limit_max)
      then Inl (ValueError ''limit must be between 1 and 200'') else Inr value)"

definition replace_z :: "string \<Rightarrow> string" where
  "replace_z s = concat (map (\<lambda>c. if c = CHR ''Z'' then ''+00:00'' else [c]) s)"

definition projection_timestamp :: "projection_lib \<Rightarrow> string \<Rightarrow> string \<Rightarrow> string res" where
  "projection_timestamp lib value name =
     (let candidate = py_strip value in
      if candidate = [] then Inl (ValueError (name @ '' must be a non-empty ISO-8601 timestamp''))
      else
        case pl_fromisoformat lib (replace_z candidate) of
          None \<Rightarrow> Inl (ValueError (name @ '' must be an ISO-8601 timestamp''))
        | Some (wall, offset) \<Rightarrow>
            (case pl_utc_isoformat lib (case offset of None \<Rightarrow> wall | Some off \<Rightarrow> wall - off) of
               None \<Rightarrow> Inl (OverflowError ''date value out of range'')
             | Some t \<Rightarrow> Inr t))"

definition jint_opt :: "int option \<Rightarrow> json" where
  "jint_opt x = (case x of None \<Rightarrow> JNull | Some i \<Rightarrow> JInt i)"

definition jnum_opt :: "rat option \<Rightarrow> json" where
  "jnum_opt x = (case x of None \<Rightarrow> JNull | Some q \<Rightarrow> JNum q)"

definition projection_fact :: "fact \<Rightarrow> row" where
  "projection_fact f =
     [(''fact_id'', JInt (f_id f)), (''content'', JStr (f_content f)), (''category'', JStr (f_category f)),
      (''tags'', JStr (f_tags f)), (''trust_score'', JNum (f_trust_score f)),
      (''created_at'', JStr (f_created_at f)), (''updated_at'', JStr (f_updated_at f)),
      (''valid_from'', jopt (f_valid_from f)), (''invalid_at'', jopt (f_invalid_at f)),
      (''superseded_by'', jint_opt (f_superseded_by f)), (''memory_kind'', jopt (f_memory_kind f)),
      (''subject_key'', jopt (f_subject_key f)), (''predicate_key'', jopt (f_predicate_key f)),
      (''object_value'', jopt (f_object_value f)), (''confidence'', jnum_opt (f_confidence f)),
      (''source_authority'', jnum_opt (f_source_authority f)), (''scope'', JStr (f_scope f)),
      (''sensitivity'', JStr (f_sensitivity f)), (''correction_status'', jopt (f_correction_status f)),
      (''schema_version'', jint_opt (f_schema_version f)), (''conflict_group'', jopt (f_conflict_group f))]"

section \<open>Bounded output\<close>

definition compact_unicode :: dump_opts where
  "compact_unicode = \<lparr>do_sort_keys = False, do_item_sep = '','', do_key_sep = '':'', do_ensure_ascii = False\<rparr>"

definition json_chars :: "projection_lib \<Rightarrow> json \<Rightarrow> nat" where
  "json_chars lib v = length (json_dumps (pl_float_repr lib) compact_unicode v)"

text \<open>The loop of \<open>_bounded\<close>: the items left, the result so far and the characters used.\<close>

fun bounded_loop :: "projection_lib \<Rightarrow> int \<Rightarrow> json list \<Rightarrow> json list \<Rightarrow> nat \<Rightarrow> json list \<times> bool" where
  "bounded_loop lib limit [] result used = (result, False)"
| "bounded_loop lib limit (item # items) result used =
     (if limit \<le> int (length result) then (result, True)
      else
        let item_size = json_chars lib item + (if result \<noteq> [] then 1 else 0) in
        if items_char_budget < used + item_size then (result, True)
        else bounded_loop lib limit items (result @ [item]) (used + item_size))"

definition bounded :: "projection_lib \<Rightarrow> json list \<Rightarrow> int \<Rightarrow> json list \<times> bool" where
  "bounded lib items limit = bounded_loop lib limit items [] 2"

section \<open>Events\<close>

definition kind_name :: "event_kind \<Rightarrow> string" where
  "kind_name k = (case k of Created \<Rightarrow> ''created'' | Superseded \<Rightarrow> ''superseded'' | Resolved \<Rightarrow> ''resolved'')"

definition event_json :: "fact_event \<Rightarrow> json" where
  "event_json e =
     JObj [(''kind'', JStr (kind_name (ev_kind e))), (''changed_at'', JStr (ev_changed_at e)),
           (''fact'', JObj (projection_fact (ev_fact e)))]"

text \<open>The newest events in descending order, cut at the scan limit and sorted in ascending order.\<close>

definition event_rows ::
  "projection_lib \<Rightarrow> string list \<Rightarrow> string option \<Rightarrow> string option \<Rightarrow> db \<Rightarrow> fact_event list \<times> bool" where
  "event_rows lib scopes since until d =
     (let newest = take projection_scan_limit (rev (sort_key (event_key (pl_julianday lib))
            (filter (\<lambda>e. in_window (pl_julianday lib) since until (ev_changed_at e))
              (fact_events (\<lambda>s. s \<in> set scopes) d))));
          rows = sort_key (event_key (pl_julianday lib)) newest
      in (rows, length rows = projection_scan_limit))"

definition changes ::
  "projection_lib \<Rightarrow> string \<Rightarrow> string \<Rightarrow> string list \<Rightarrow> int \<Rightarrow> db \<Rightarrow> row res" where
  "changes lib since until scope limit d =
     rbind (projection_timestamp lib since ''since'') (\<lambda>since_value.
     rbind (projection_timestamp lib until ''until'') (\<lambda>until_value.
     rbind (guard_res (since_value < until_value) (ValueError ''since must be earlier than until'')) (\<lambda>_.
     rbind (clean_scopes scope) (\<lambda>scopes.
     case event_rows lib scopes (Some since_value) (Some until_value) d of (scanned, scan_truncated) \<Rightarrow>
     rbind (projection_limit limit) (\<lambda>cap.
     case bounded lib (map event_json scanned) cap of (events, output_truncated) \<Rightarrow>
     Inr [(''changes'', JArr events), (''truncated'', JBool (scan_truncated \<or> output_truncated))])))))"

definition take_last :: "int \<Rightarrow> 'a list \<Rightarrow> 'a list" where
  "take_last n xs = drop (length xs - nat n) xs"

definition or_empty :: "string option \<Rightarrow> string" where
  "or_empty x = (case x of None \<Rightarrow> [] | Some s \<Rightarrow> s)"

definition timeline_text :: "fact \<Rightarrow> string" where
  "timeline_text f =
     py_casefold (py_join '' '' [f_content f, or_empty (f_subject_key f), or_empty (f_predicate_key f),
       or_empty (f_object_value f), f_tags f])"

definition timeline ::
  "projection_lib \<Rightarrow> string \<Rightarrow> string list \<Rightarrow> int \<Rightarrow> db \<Rightarrow> row res" where
  "timeline lib subject_or_query scope limit d =
     rbind (guard_res (py_strip subject_or_query \<noteq> []) (ValueError ''subject_or_query must not be empty'')) (\<lambda>_.
     rbind (guard_res (length subject_or_query \<le> max_query_chars)
              (ValueError ''subject_or_query must not exceed 16000 characters'')) (\<lambda>_.
     rbind (projection_limit limit) (\<lambda>cap.
     rbind (clean_scopes scope) (\<lambda>scopes.
     let query = py_casefold (py_strip subject_or_query) in
     case event_rows lib scopes None None d of (scanned, scan_truncated) \<Rightarrow>
     let matched = filter (\<lambda>e. str_contains query (timeline_text (ev_fact e))) scanned in
     case bounded lib (map event_json (take_last cap matched)) cap of (events, chars_truncated) \<Rightarrow>
     Inr [(''events'', JArr events),
          (''truncated'', JBool (scan_truncated \<or> cap < int (length matched) \<or> chars_truncated))]))))"

section \<open>Entities\<close>

definition dict_setdefault :: "string \<Rightarrow> 'v \<Rightarrow> (string \<times> 'v) list \<Rightarrow> (string \<times> 'v) list" where
  "dict_setdefault k v d = (case map_of d k of None \<Rightarrow> d @ [(k, v)] | Some _ \<Rightarrow> d)"

definition tag_names :: "fact \<Rightarrow> string list" where
  "tag_names f = filter (\<lambda>t. t \<noteq> []) (map py_strip (py_split (CHR '','') (f_tags f)))"

definition subject_names :: "fact \<Rightarrow> string list" where
  "subject_names f = filter (\<lambda>t. t \<noteq> []) [py_strip (or_empty (f_subject_key f))]"

definition entity_names :: "fact \<Rightarrow> (string \<times> string) list" where
  "entity_names f =
     fold (\<lambda>t names. dict_setdefault (py_casefold t) t names) (tag_names f)
       (map (\<lambda>s. (py_casefold s, s)) (subject_names f))"

definition matches_entity :: "fact \<Rightarrow> string \<Rightarrow> bool" where
  "matches_entity f name \<longleftrightarrow> py_casefold name \<in> set (map fst (entity_names f))"

definition entity_events ::
  "projection_lib \<Rightarrow> string \<Rightarrow> string list \<Rightarrow> int \<Rightarrow> db \<Rightarrow> json list \<times> bool" where
  "entity_events lib entity scopes limit d =
     (case event_rows lib scopes None None d of (scanned, scan_truncated) \<Rightarrow>
      let matched = filter (\<lambda>e. matches_entity (ev_fact e) entity) scanned in
      case bounded lib (map event_json (take_last limit matched)) limit of (events, chars_truncated) \<Rightarrow>
      (events, scan_truncated \<or> limit < int (length matched) \<or> chars_truncated))"

text \<open>The dicts \<open>display\<close>, \<open>counts\<close> and \<open>sources\<close> under one key.\<close>

record entity_entry =
  en_display :: string
  en_ids :: "int list"
  en_sources :: "string list"

definition set_add :: "'a \<Rightarrow> 'a list \<Rightarrow> 'a list" where
  "set_add x xs = (if x \<in> set xs then xs else xs @ [x])"

definition note_entity ::
  "int \<Rightarrow> string \<Rightarrow> string \<Rightarrow> (string \<times> entity_entry) list \<Rightarrow> (string \<times> entity_entry) list" where
  "note_entity fact_id source name idx =
     (let key = py_casefold name;
          entry = (case map_of idx key of
                     None \<Rightarrow> \<lparr>en_display = name, en_ids = [], en_sources = []\<rparr> | Some e \<Rightarrow> e)
      in dict_set key (entry\<lparr>en_ids := set_add fact_id (en_ids entry),
           en_sources := set_add source (en_sources entry)\<rparr>) idx)"

definition note_fact :: "fact \<Rightarrow> (string \<times> entity_entry) list \<Rightarrow> (string \<times> entity_entry) list" where
  "note_fact f idx =
     fold (note_entity (f_id f) ''tag'') (tag_names f)
       (fold (note_entity (f_id f) ''subject'') (subject_names f) idx)"

definition rank_key :: "entity_entry \<Rightarrow> int \<times> string \<times> string" where
  "rank_key e = (- int (length (en_ids e)), py_casefold (en_display e), en_display e)"

definition entity_json :: "entity_entry \<Rightarrow> json" where
  "entity_json e =
     JObj [(''name'', JStr (en_display e)), (''fact_count'', JInt (int (length (en_ids e)))),
           (''derived_from'', JArr (map JStr (sort (en_sources e))))]"

definition entities ::
  "projection_lib \<Rightarrow> string list \<Rightarrow> int \<Rightarrow> int \<Rightarrow> db \<Rightarrow> row res" where
  "entities lib scope min_facts limit d =
     rbind (guard_res (1 \<le> min_facts) (ValueError ''min_facts must be a positive integer'')) (\<lambda>_.
     rbind (clean_scopes scope) (\<lambda>scopes.
     rbind (active_facts (Some scopes) None (int projection_scan_limit) d) (\<lambda>scanned.
     let ranked = sort_key rank_key (filter (\<lambda>e. min_facts \<le> int (length (en_ids e)))
           (map snd (fold note_fact scanned []))) in
     rbind (projection_limit limit) (\<lambda>cap.
     case bounded lib (map entity_json ranked) cap of (result, output_truncated) \<Rightarrow>
     Inr [(''entities'', JArr result),
          (''truncated'', JBool (length scanned = projection_scan_limit \<or> output_truncated))]))))"

section \<open>Dossiers\<close>

definition conflict_json :: "conflict_record \<Rightarrow> fact list \<Rightarrow> json" where
  "conflict_json c members =
     JObj [(''conflict_id'', JStr (cr_conflict_id c)), (''scope'', JStr (cr_scope c)),
           (''subject_key'', JStr (cr_subject_key c)), (''predicate_key'', JStr (cr_predicate_key c)),
           (''detected_at'', JStr (cr_detected_at c)),
           (''members'', JArr (map (\<lambda>f. JObj (projection_fact f)) members))]"

definition dossier_conflict :: "db \<Rightarrow> string \<Rightarrow> string \<Rightarrow> conflict_record \<Rightarrow> json list res" where
  "dossier_conflict d entity one_scope c =
     rbind (historical_facts_by_id (cr_member_fact_ids c) (Some [one_scope]) d) (\<lambda>members.
     Inr (if py_casefold (cr_subject_key c) \<noteq> py_casefold entity
             \<and> \<not> list_ex (\<lambda>f. matches_entity f entity) members
          then [] else [conflict_json c members]))"

definition dossier_conflicts :: "db \<Rightarrow> string \<Rightarrow> string list \<Rightarrow> json list res" where
  "dossier_conflicts d entity scopes =
     rbind (map_res (\<lambda>one_scope.
              rbind (list_state_conflicts d one_scope True) (\<lambda>records.
              rbind (map_res (dossier_conflict d entity one_scope) records) (\<lambda>found.
              Inr (concat found)))) scopes) (\<lambda>per_scope.
     Inr (concat per_scope))"

record dossier =
  ds_entity :: string
  ds_current :: "json list"
  ds_recent :: "json list"
  ds_conflicts :: "json list"
  ds_truncated :: bool

definition dossier_json :: "dossier \<Rightarrow> row" where
  "dossier_json r =
     [(''entity'', JStr (ds_entity r)), (''current_facts'', JArr (ds_current r)),
      (''recent_changes'', JArr (ds_recent r)), (''open_conflicts'', JArr (ds_conflicts r)),
      (''truncated'', JBool (ds_truncated r))]"

text \<open>One pass of the inner loop pops the last item of the first non-empty section.\<close>

definition pop_section :: "dossier \<Rightarrow> dossier option" where
  "pop_section r =
     (if ds_recent r \<noteq> [] then Some (r\<lparr>ds_recent := butlast (ds_recent r), ds_truncated := True\<rparr>)
      else if ds_current r \<noteq> [] then Some (r\<lparr>ds_current := butlast (ds_current r), ds_truncated := True\<rparr>)
      else if ds_conflicts r \<noteq> []
        then Some (r\<lparr>ds_conflicts := butlast (ds_conflicts r), ds_truncated := True\<rparr>)
      else None)"

function shrink_dossier :: "projection_lib \<Rightarrow> dossier \<Rightarrow> dossier" where
  "shrink_dossier lib r =
     (if json_chars lib (JObj (dossier_json r)) \<le> max_output_chars then r
      else case pop_section r of None \<Rightarrow> r | Some r' \<Rightarrow> shrink_dossier lib r')"
  by auto
termination
  by (relation "measure (\<lambda>(lib, r). length (ds_recent r) + length (ds_current r) + length (ds_conflicts r))")
    (auto simp: pop_section_def split: if_splits)

declare shrink_dossier.simps [simp del]

definition entity_dossier ::
  "projection_lib \<Rightarrow> string \<Rightarrow> string list \<Rightarrow> int \<Rightarrow> db \<Rightarrow> row res" where
  "entity_dossier lib name scope limit d =
     rbind (guard_res (py_strip name \<noteq> []) (ValueError ''name must not be empty'')) (\<lambda>_.
     rbind (guard_res (length name \<le> max_entity_chars)
              (ValueError ''name must not exceed 2000 characters'')) (\<lambda>_.
     let entity = py_strip name in
     rbind (clean_scopes scope) (\<lambda>scopes.
     rbind (projection_limit limit) (\<lambda>cap.
     rbind (active_facts (Some scopes) None (int projection_scan_limit) d) (\<lambda>scanned_current.
     let all_current = filter (\<lambda>f. matches_entity f entity) scanned_current;
         current = take (nat cap) all_current in
     case entity_events lib entity scopes cap d of (recent, recent_truncated) \<Rightarrow>
     rbind (dossier_conflicts d entity scopes) (\<lambda>all_conflicts.
     Inr (dossier_json (shrink_dossier lib
       \<lparr>ds_entity = entity, ds_current = map (\<lambda>f. JObj (projection_fact f)) current, ds_recent = recent,
        ds_conflicts = take (nat cap) all_conflicts,
        ds_truncated = cap < int (length all_current) \<or> length scanned_current = projection_scan_limit
          \<or> cap < int (length all_conflicts) \<or> recent_truncated\<rparr>))))))))"

end
