(* ===== verification/Temporal.thy ===== *)
theory Temporal
  imports Near_Dedup Slot_Invariant "HOL-Library.Product_Lexorder" "HOL-Library.List_Lexorder" "HOL-Library.Char_ord"
begin

text \<open>
  \<open>temporal.py\<close>: when a text is a value update of another one, supersession that keeps the old
  fact, and the walk over the \<open>superseded_by\<close> links that returns the history of a fact. SQLite's
  bound on the number of placeholders in one statement is not modelled.
\<close>

section \<open>Tokens\<close>

text \<open>The word expression and \<open>lower()\<close> are those of \<open>Near_Dedup.tokens\<close>.\<close>

definition norm_token_sequence :: "string \<Rightarrow> string list" where
  "norm_token_sequence content = tokens content"

definition norm_tokens :: "string \<Rightarrow> string set" where
  "norm_tokens content = set (norm_token_sequence content)"

definition stopwords :: "string list" where
  "stopwords =
     [''a'', ''an'', ''the'', ''is'', ''are'', ''was'', ''were'', ''be'', ''been'', ''being'', ''am'', ''of'', ''to'',
      ''in'', ''on'', ''at'', ''for'', ''and'', ''or'', ''with'', ''by'', ''as'', ''it'', ''its'', ''this'', ''that'',
      ''these'', ''those'', ''from'', ''into'', ''over'', ''under'', ''has'', ''have'', ''had'', ''do'', ''does'',
      ''did'', ''will'', ''would'', ''can'', ''could'', ''should'', ''may'', ''might'', ''must'', ''not'', ''no'']"

definition state_word_groups :: "string list list" where
  "state_word_groups =
     [[''enabled'', ''disabled''], [''active'', ''inactive'', ''archived''], [''on'', ''off''],
      [''open'', ''closed''], [''paused'', ''resumed''], [''up'', ''down''], [''alive'', ''dead''],
      [''started'', ''stopped'']]"

definition temporal_value_tokens :: "string \<Rightarrow> string list" where
  "temporal_value_tokens content = filter (list_ex is_digit09) (norm_token_sequence content)"

definition content_tokens :: "string \<Rightarrow> string set" where
  "content_tokens content = norm_tokens content - set stopwords"

definition state_words_of :: "string \<Rightarrow> string set" where
  "state_words_of content = content_tokens content \<inter> set (concat state_word_groups)"

definition negation_words_of :: "string \<Rightarrow> string set" where
  "negation_words_of content = norm_tokens content \<inter> set negation_words"

definition stem_suffixes :: "string list" where
  "stem_suffixes = [''ation'', ''ing'', ''ed'', ''ic'', ''ion'', ''s'']"

definition stems :: "string \<Rightarrow> string list" where
  "stems token =
     map (\<lambda>suffix. take (length token - length suffix) token)
       (filter (\<lambda>suffix. ends_with suffix token \<and> length suffix + 2 < length token) stem_suffixes)"

definition subjectish_tokens :: "string \<Rightarrow> string set" where
  "subjectish_tokens content =
     (let toks = content_tokens content - set (concat state_word_groups)
      in toks \<union> (\<Union>t\<in>toks. set (stems t)))"

definition has_subjectish_overlap :: "string \<Rightarrow> string \<Rightarrow> bool" where
  "has_subjectish_overlap content other \<longleftrightarrow>
     subjectish_tokens content \<inter> subjectish_tokens other \<noteq> {}"

definition has_opposing_state_words :: "bool \<Rightarrow> string \<Rightarrow> string \<Rightarrow> bool" where
  "has_opposing_state_words require_context content other \<longleftrightarrow>
     (if require_context \<and> \<not> has_subjectish_overlap content other then False
      else
        let a_states = state_words_of content; b_states = state_words_of other in
        if a_states = {} \<or> b_states = {} then False
        else list_ex (\<lambda>group. a_states \<inter> set group \<noteq> {} \<and> b_states \<inter> set group \<noteq> {}
               \<and> a_states \<inter> set group \<noteq> b_states \<inter> set group) state_word_groups)"

definition has_negation_mismatch :: "bool \<Rightarrow> string \<Rightarrow> string \<Rightarrow> bool" where
  "has_negation_mismatch require_context content other \<longleftrightarrow>
     (if require_context \<and> \<not> has_subjectish_overlap content other then False
      else (negation_words_of content \<noteq> {}) \<noteq> (negation_words_of other \<noteq> {}))"

section \<open>Schema\<close>

text \<open>\<open>ALTER TABLE facts ADD COLUMN\<close> for the three nullable columns that are missing: rows read
  \<open>NULL\<close> there. An \<open>ALTER\<close> that another process ran first is the case of a present column. A store
  without a \<open>facts\<close> table (no columns) raises on the first \<open>ALTER\<close>.\<close>

definition add_temporal_column :: "string \<Rightarrow> db \<Rightarrow> db" where
  "add_temporal_column name d =
     (if name \<in> set (db_fact_columns d) then d
      else d\<lparr>db_fact_columns := db_fact_columns d @ [name],
             db_facts := map (\<lambda>f. if name = ''valid_from'' then f\<lparr>f_valid_from := None\<rparr>
                else if name = ''invalid_at'' then f\<lparr>f_invalid_at := None\<rparr>
                else f\<lparr>f_superseded_by := None\<rparr>) (db_facts d)\<rparr>)"

definition ensure_temporal_schema :: "db \<Rightarrow> db res" where
  "ensure_temporal_schema d =
     (if db_fact_columns d = [] then Inl (OperationalError ''no such table: facts'')
      else Inr (fold add_temporal_column [''valid_from'', ''invalid_at'', ''superseded_by''] d))"

section \<open>Value updates\<close>

definition is_value_update :: "string \<Rightarrow> string \<Rightarrow> bool" where
  "is_value_update content other \<longleftrightarrow>
     (let a_values = temporal_value_tokens content; b_values = temporal_value_tokens other in
      if a_values = b_values \<or> a_values = [] \<or> b_values = []
      then has_opposing_state_words True content other \<or> has_negation_mismatch True content other
      else content_tokens content - set a_values - state_words_of content
           = content_tokens other - set b_values - state_words_of other)"

text \<open>A candidate of the hybrid search: its text and its \<open>superseded_by\<close>, where it has one.\<close>

record update_candidate =
  uc_content :: string
  uc_superseded_by :: "int option"

definition truthy_id :: "int option \<Rightarrow> bool" where
  "truthy_id x = (case x of None \<Rightarrow> False | Some i \<Rightarrow> i \<noteq> 0)"

fun find_value_update_target ::
  "string \<Rightarrow> update_candidate list \<Rightarrow> update_candidate option" where
  "find_value_update_target content [] = None"
| "find_value_update_target content (c # cs) =
     (if truthy_id (uc_superseded_by c) then find_value_update_target content cs
      else if is_value_update content (uc_content c) then Some c
      else find_value_update_target content cs)"

section \<open>Supersession and history\<close>

definition supersede :: "string \<Rightarrow> int \<Rightarrow> int \<Rightarrow> db \<Rightarrow> (db \<times> bool) res" where
  "supersede clock old_fact_id new_fact_id d =
     rbind (sql_update_facts (\<lambda>f. f_id f = old_fact_id \<and> f_invalid_at f = None)
              (\<lambda>f. f\<lparr>f_invalid_at := Some clock, f_superseded_by := Some new_fact_id\<rparr>) d)
       (\<lambda>(d', n). Inr (d', n = 1))"

text \<open>The loop that puts the selected rows into the dict \<open>chain\<close>, here its values in order.\<close>

definition add_rows :: "fact list \<Rightarrow> fact list \<Rightarrow> fact list" where
  "add_rows rows chain = fold (\<lambda>r c. if f_id r \<in> f_id ` set c then c else c @ [r]) rows chain"

definition predecessors :: "db \<Rightarrow> fact list \<Rightarrow> fact list" where
  "predecessors d chain =
     filter (\<lambda>r. case f_superseded_by r of None \<Rightarrow> False | Some s \<Rightarrow> s \<in> f_id ` set chain) (db_facts d)"

definition next_ids :: "fact list \<Rightarrow> int list" where
  "next_ids chain =
     filter (\<lambda>i. i \<notin> f_id ` set chain)
       (concat (map (\<lambda>f. case f_superseded_by f of
            None \<Rightarrow> [] | Some s \<Rightarrow> if s \<noteq> 0 then [s] else []) chain))"

definition successors :: "db \<Rightarrow> fact list \<Rightarrow> fact list" where
  "successors d chain = filter (\<lambda>f. f_id f \<in> set (next_ids chain)) (db_facts d)"

lemma set_add_rows_sub: "set chain \<subseteq> set (add_rows rows chain)"
  by (induction rows arbitrary: chain) (fastforce simp: add_rows_def)+

lemma ids_add_rows: "f_id ` set (add_rows rows chain) = f_id ` set chain \<union> f_id ` set rows"
  by (induction rows arbitrary: chain) (auto simp: add_rows_def)

lemma length_add_rows: "length chain \<le> length (add_rows rows chain)"
proof (induction rows arbitrary: chain)
  case (Cons r rows)
  show ?case
    using Cons.IH [of chain] Cons.IH [of "chain @ [r]"] by (simp add: add_rows_def)
qed (simp add: add_rows_def)

lemma add_rows_same:
  "length (add_rows rows chain) = length chain \<longleftrightarrow> f_id ` set rows \<subseteq> f_id ` set chain"
proof (induction rows arbitrary: chain)
  case (Cons r rows)
  have "length chain < length (add_rows rows (chain @ [r]))"
    using length_add_rows [of "chain @ [r]" rows] by simp
  then show ?case using Cons.IH [of chain] by (auto simp: add_rows_def)
qed (simp add: add_rows_def)

lemma walk_decreases:
  assumes "length (add_rows rows chain) \<noteq> length chain" and "set rows \<subseteq> set (db_facts d)"
  shows "card (f_id ` set (db_facts d) - f_id ` set (add_rows rows chain))
           < card (f_id ` set (db_facts d) - f_id ` set chain)"
proof (rule psubset_card_mono)
  obtain r where "r \<in> set rows" "f_id r \<notin> f_id ` set chain"
    using assms(1) by (auto simp: add_rows_same)
  then have "f_id r \<in> f_id ` set (db_facts d) - f_id ` set chain"
    and "f_id r \<notin> f_id ` set (db_facts d) - f_id ` set (add_rows rows chain)"
    using assms(2) by (auto simp: ids_add_rows)
  then show "f_id ` set (db_facts d) - f_id ` set (add_rows rows chain)
               \<subset> f_id ` set (db_facts d) - f_id ` set chain"
    by (auto simp: ids_add_rows)
qed simp

function walk_backward :: "db \<Rightarrow> fact list \<Rightarrow> fact list" where
  "walk_backward d chain =
     (let chain' = add_rows (predecessors d chain) chain in
      if length chain' \<noteq> length chain then walk_backward d chain' else chain')"
  by auto
termination
  by (relation "measure (\<lambda>(d, chain). card (f_id ` set (db_facts d) - f_id ` set chain))")
    (auto intro!: walk_decreases simp: predecessors_def)

function walk_forward :: "db \<Rightarrow> fact list \<Rightarrow> fact list" where
  "walk_forward d chain =
     (if next_ids chain = [] then chain
      else
        let chain' = add_rows (successors d chain) chain in
        if length chain' \<noteq> length chain then walk_forward d chain' else chain')"
  by auto
termination
  by (relation "measure (\<lambda>(d, chain). card (f_id ` set (db_facts d) - f_id ` set chain))")
    (auto intro!: walk_decreases simp: successors_def)

declare walk_backward.simps [simp del] walk_forward.simps [simp del]

definition fact_history :: "db \<Rightarrow> int \<Rightarrow> fact list" where
  "fact_history d fact_id =
     (case fact_by_id d fact_id of
        None \<Rightarrow> []
      | Some row \<Rightarrow>
          sort_key (\<lambda>f. (f_created_at f, f_id f)) (walk_forward d (walk_backward d [row])))"

section \<open>What the walks collect\<close>

definition sup_edges :: "db \<Rightarrow> (int \<times> int) set" where
  "sup_edges d = {(f_id f, s) | f s. f \<in> set (db_facts d) \<and> f_superseded_by f = Some s}"

lemma sup_edges_source: "(x, y) \<in> sup_edges d \<Longrightarrow> x \<in> set (fact_ids d)"
  by (auto simp: sup_edges_def fact_ids_def)

lemma ids_predecessors:
  "f_id ` set (predecessors d chain) = {x. \<exists>c \<in> f_id ` set chain. (x, c) \<in> sup_edges d}"
  by (force simp: predecessors_def sup_edges_def split: option.splits)

lemma set_predecessors: "set (predecessors d chain) \<subseteq> set (db_facts d)"
  by (auto simp: predecessors_def)

lemma add_rows_Cons:
  "add_rows (r # rows) chain =
     (if f_id r \<in> f_id ` set chain then add_rows rows chain else add_rows rows (chain @ [r]))"
  by (simp add: add_rows_def)

lemma set_add_rows: "set (add_rows rows chain) \<subseteq> set chain \<union> set rows"
proof (induction rows arbitrary: chain)
  case (Cons r rows)
  show ?case using Cons.IH [of chain] Cons.IH [of "chain @ [r]"] by (auto simp: add_rows_Cons)
qed (simp add: add_rows_def)

lemma distinct_add_rows: "distinct (map f_id chain) \<Longrightarrow> distinct (map f_id (add_rows rows chain))"
  by (induction rows arbitrary: chain) (auto simp: add_rows_def)

lemma walk_backward_rows: "set (walk_backward d chain) \<subseteq> set chain \<union> set (db_facts d)"
proof (induction d chain rule: walk_backward.induct)
  case (1 d chain)
  show ?case
    using 1 [OF refl] set_add_rows [of "predecessors d chain" chain] set_predecessors [of d chain]
    by (subst walk_backward.simps) (auto simp: Let_def)
qed

lemma walk_backward_distinct:
  "distinct (map f_id chain) \<Longrightarrow> distinct (map f_id (walk_backward d chain))"
proof (induction d chain rule: walk_backward.induct)
  case (1 d chain)
  show ?case
    using 1(1) [OF refl] distinct_add_rows [OF 1(2)]
    by (subst walk_backward.simps) (auto simp: Let_def)
qed

lemma walk_backward_ids:
  "f_id ` set (walk_backward d chain) = {x. \<exists>c \<in> f_id ` set chain. (x, c) \<in> (sup_edges d)\<^sup>*}"
proof (induction d chain rule: walk_backward.induct)
  case (1 d chain)
  let ?P = "predecessors d chain"
  have ids: "f_id ` set (add_rows ?P chain)
      = f_id ` set chain \<union> {x. \<exists>c \<in> f_id ` set chain. (x, c) \<in> sup_edges d}"
    by (simp add: ids_add_rows ids_predecessors)
  show ?case
  proof (cases "length (add_rows ?P chain) = length chain")
    case True
    then have closed: "x \<in> f_id ` set chain" if "(x, c) \<in> sup_edges d" "c \<in> f_id ` set chain" for x c
      using that by (auto simp: add_rows_same ids_predecessors)
    have "x \<in> f_id ` set chain" if "(x, c) \<in> (sup_edges d)\<^sup>*" "c \<in> f_id ` set chain" for x c
      using that by (induction rule: converse_rtrancl_induct) (auto dest: closed)
    moreover have "f_id ` set (walk_backward d chain) = f_id ` set chain"
      using True ids closed by (subst walk_backward.simps) (auto simp: Let_def)
    ultimately show ?thesis by blast
  next
    case False
    then have "f_id ` set (walk_backward d chain)
        = {x. \<exists>c \<in> f_id ` set (add_rows ?P chain). (x, c) \<in> (sup_edges d)\<^sup>*}"
      using 1 [OF refl] by (subst walk_backward.simps) (simp add: Let_def)
    also have "\<dots> = {x. \<exists>c \<in> f_id ` set chain. (x, c) \<in> (sup_edges d)\<^sup>*}"
      unfolding ids by (auto intro: rtrancl_into_rtrancl)
    finally show ?thesis .
  qed
qed

lemma set_next_ids:
  "set (next_ids chain) = {s. s \<noteq> 0 \<and> s \<notin> f_id ` set chain \<and> (\<exists>f \<in> set chain. f_superseded_by f = Some s)}"
  by (force simp: next_ids_def split: option.splits if_splits)

lemma walk_forward_unfold:
  "walk_forward d chain =
     (if length (add_rows (successors d chain) chain) = length chain then add_rows (successors d chain) chain
      else walk_forward d (add_rows (successors d chain) chain))"
  by (subst walk_forward.simps) (auto simp: Let_def successors_def add_rows_def)

lemma walk_forward_step [consumes 0, case_names step]:
  assumes "\<And>chain. (length (add_rows (successors d chain) chain) \<noteq> length chain
      \<Longrightarrow> P (add_rows (successors d chain) chain)) \<Longrightarrow> P chain"
  shows "P chain"
proof (induction "card (f_id ` set (db_facts d) - f_id ` set chain)" arbitrary: chain rule: less_induct)
  case less
  show ?case
  proof (rule assms)
    assume "length (add_rows (successors d chain) chain) \<noteq> length chain"
    then show "P (add_rows (successors d chain) chain)"
      by (intro less walk_decreases) (auto simp: successors_def)
  qed
qed

lemma walk_forward_rows: "set (walk_forward d chain) \<subseteq> set chain \<union> set (db_facts d)"
proof (induction chain rule: walk_forward_step [of d])
  case (step chain)
  have "set (successors d chain) \<subseteq> set (db_facts d)" by (auto simp: successors_def)
  then have "set (add_rows (successors d chain) chain) \<subseteq> set chain \<union> set (db_facts d)"
    using set_add_rows [of "successors d chain" chain] by blast
  then show ?case
    using step by (subst walk_forward_unfold) auto
qed

lemma walk_forward_distinct:
  "distinct (map f_id chain) \<Longrightarrow> distinct (map f_id (walk_forward d chain))"
proof (induction chain rule: walk_forward_step [of d])
  case (step chain)
  then show ?case
    using distinct_add_rows [OF step(2)] by (subst walk_forward_unfold) auto
qed

lemma ids_successors:
  assumes "set chain \<subseteq> set (db_facts d)" and "0 \<notin> set (fact_ids d)" and "distinct (fact_ids d)"
  shows "f_id ` set (successors d chain) =
     {y \<in> set (fact_ids d) - f_id ` set chain. \<exists>c \<in> f_id ` set chain. (c, y) \<in> sup_edges d}"
proof -
  have uniq: "f = g" if "f_id f = f_id g" "f \<in> set (db_facts d)" "g \<in> set (db_facts d)" for f g
    using that assms(3) by (auto simp: fact_ids_def distinct_map inj_on_def)
  have edge: "(\<exists>c \<in> f_id ` set chain. (c, y) \<in> sup_edges d)
      \<longleftrightarrow> (\<exists>f \<in> set chain. f_superseded_by f = Some y)" for y
  proof
    assume "\<exists>c \<in> f_id ` set chain. (c, y) \<in> sup_edges d"
    then obtain f g where "f \<in> set chain" "g \<in> set (db_facts d)" "f_id f = f_id g" "f_superseded_by g = Some y"
      by (auto simp: sup_edges_def)
    then show "\<exists>f \<in> set chain. f_superseded_by f = Some y"
      using uniq [of f g] assms(1) by auto
  qed (use assms(1) in \<open>auto simp: sup_edges_def\<close>)
  have "f_id ` set (successors d chain) = {y \<in> set (fact_ids d). y \<in> set (next_ids chain)}"
    by (auto simp: successors_def fact_ids_def)
  then show ?thesis
    using assms(2) by (auto simp: edge set_next_ids simp del: bex_simps)
qed

lemma walk_forward_ids:
  assumes "set chain \<subseteq> set (db_facts d)" and nz: "0 \<notin> set (fact_ids d)" and di: "distinct (fact_ids d)"
  shows "f_id ` set (walk_forward d chain) =
     {y \<in> set (fact_ids d). \<exists>c \<in> f_id ` set chain. (c, y) \<in> (sup_edges d)\<^sup>*}"
  using assms(1)
proof (induction chain rule: walk_forward_step [of d])
  case (step chain)
  let ?S = "successors d chain"
  have sub: "set (add_rows ?S chain) \<subseteq> set (db_facts d)"
    using set_add_rows [of ?S chain] step(2) by (auto simp: successors_def)
  have ids: "f_id ` set (add_rows ?S chain) = f_id ` set chain
      \<union> {y \<in> set (fact_ids d). \<exists>c \<in> f_id ` set chain. (c, y) \<in> sup_edges d}"
    using ids_successors [OF step(2) nz di] by (auto simp: ids_add_rows)
  have inch: "f_id ` set chain \<subseteq> set (fact_ids d)" using step(2) by (auto simp: fact_ids_def)
  show ?case
  proof (cases "length (add_rows ?S chain) = length chain")
    case True
    then have same: "f_id ` set (add_rows ?S chain) = f_id ` set chain"
      by (auto simp: add_rows_same ids_add_rows)
    have "y \<in> set (fact_ids d) \<longrightarrow> y \<in> f_id ` set chain"
      if "(c, y) \<in> (sup_edges d)\<^sup>*" "c \<in> f_id ` set chain" for c y
      using that
    proof (induction rule: rtrancl_induct)
      case (step y z)
      have "y \<in> set (fact_ids d)" using step(2) by (rule sup_edges_source)
      then show ?case using step ids same by blast
    qed simp
    then show ?thesis
      using True same inch by (subst walk_forward_unfold) auto
  next
    case False
    then have "f_id ` set (walk_forward d chain)
        = {y \<in> set (fact_ids d). \<exists>c \<in> f_id ` set (add_rows ?S chain). (c, y) \<in> (sup_edges d)\<^sup>*}"
      using step(1) [OF False sub] by (subst walk_forward_unfold) simp
    also have "\<dots> = {y \<in> set (fact_ids d). \<exists>c \<in> f_id ` set chain. (c, y) \<in> (sup_edges d)\<^sup>*}"
      unfolding ids by (auto intro: converse_rtrancl_into_rtrancl)
    finally show ?thesis .
  qed
qed

section \<open>Guarantees\<close>

definition history_key :: "fact \<Rightarrow> string \<times> int" where
  "history_key f = (f_created_at f, f_id f)"

lemma ids_ok_distinct: "ids_ok d \<Longrightarrow> distinct (fact_ids d)"
  by (simp add: ids_ok_def)

lemma ids_ok_nonzero: "ids_ok d \<Longrightarrow> 0 \<notin> set (fact_ids d)"
  by (auto simp: ids_ok_def)

lemma fact_history_rows:
  assumes di: "distinct (fact_ids d)" and nz: "0 \<notin> set (fact_ids d)" and mem: "fid \<in> set (fact_ids d)"
  shows "set (fact_history d fid) =
      {f \<in> set (db_facts d). \<exists>x. (x, fid) \<in> (sup_edges d)\<^sup>* \<and> (x, f_id f) \<in> (sup_edges d)\<^sup>*}"
    and "distinct (map f_id (fact_history d fid))"
    and "sorted (map history_key (fact_history d fid))"
proof -
  obtain row where row: "fact_by_id d fid = Some row"
    using mem by (cases "fact_by_id d fid") (auto simp: fact_by_id_None)
  then have r: "row \<in> set (db_facts d)" "f_id row = fid" by (auto dest: fact_by_id_Some)
  let ?B = "walk_backward d [row]" and ?R = "walk_forward d (walk_backward d [row])"
  have B: "set ?B \<subseteq> set (db_facts d)" using walk_backward_rows [of d "[row]"] r by auto
  have R: "set ?R \<subseteq> set (db_facts d)" using walk_forward_rows [of d ?B] B by blast
  have ids: "f_id ` set ?R = {y \<in> set (fact_ids d). \<exists>x. (x, fid) \<in> (sup_edges d)\<^sup>* \<and> (x, y) \<in> (sup_edges d)\<^sup>*}"
    unfolding walk_forward_ids [OF B nz di] walk_backward_ids using r by auto
  have "f \<in> set ?R \<longleftrightarrow> f_id f \<in> f_id ` set ?R" if "f \<in> set (db_facts d)" for f
    using that R di by (auto simp: fact_ids_def distinct_map inj_on_def)
  then show "set (fact_history d fid) =
      {f \<in> set (db_facts d). \<exists>x. (x, fid) \<in> (sup_edges d)\<^sup>* \<and> (x, f_id f) \<in> (sup_edges d)\<^sup>*}"
    using R ids by (auto simp: fact_history_def row fact_ids_def)
  show "distinct (map f_id (fact_history d fid))"
    using walk_forward_distinct [OF walk_backward_distinct, of "[row]" d]
    by (simp add: fact_history_def row distinct_map)
  show "sorted (map history_key (fact_history d fid))"
    by (simp add: fact_history_def row history_key_def [abs_def])
qed

lemma is_value_update_sym: "is_value_update a b \<longleftrightarrow> is_value_update b a"
  by (auto simp: is_value_update_def has_opposing_state_words_def has_negation_mismatch_def
      has_subjectish_overlap_def Let_def list_ex_iff Int_commute)

lemma is_value_update_irrefl: "\<not> is_value_update a a"
  by (auto simp: is_value_update_def has_opposing_state_words_def has_negation_mismatch_def
      Let_def list_ex_iff)

lemma find_value_update_target_find:
  "find_value_update_target content cs =
     find (\<lambda>c. \<not> truthy_id (uc_superseded_by c) \<and> is_value_update content (uc_content c)) cs"
  by (induction cs) auto

text \<open>The links form a chain when no two facts have the same successor.\<close>

definition unmerged :: "db \<Rightarrow> bool" where
  "unmerged d \<longleftrightarrow> distinct (map f_superseded_by (filter (\<lambda>f. f_superseded_by f \<noteq> None) (db_facts d)))"

lemma unmerged_converse: "unmerged d \<Longrightarrow> single_valued ((sup_edges d)\<inverse>)"
  unfolding single_valued_def sup_edges_def unmerged_def distinct_map inj_on_def by (auto, metis)

lemma sup_edges_single_valued: "distinct (fact_ids d) \<Longrightarrow> single_valued (sup_edges d)"
  by (auto simp: single_valued_def sup_edges_def fact_ids_def distinct_map inj_on_def)

lemma single_valued_confluent:
  assumes "single_valued R" and "(x, y) \<in> R\<^sup>*" and "(x, z) \<in> R\<^sup>*"
  shows "(y, z) \<in> R\<^sup>* \<or> (z, y) \<in> R\<^sup>*"
  using assms(2)
proof (induction rule: rtrancl_induct)
  case base
  then show ?case using assms(3) by blast
next
  case (step y w)
  then show ?case
  proof (elim disjE)
    assume "(y, z) \<in> R\<^sup>*"
    then show ?thesis
    proof (cases rule: converse_rtranclE)
      case base
      then show ?thesis using step(2) by blast
    next
      case (step v)
      then show ?thesis using \<open>(y, w) \<in> R\<close> assms(1) by (auto simp: single_valued_def)
    qed
  qed (auto intro: rtrancl_into_rtrancl)
qed

text \<open>C26: \<open>fact_history\<close> returns exactly the facts that share an ancestor with the given fact along the
  \<open>superseded_by\<close> links (the fact itself among them), each once, in the order of creation time and id.\<close>

theorem fact_history_exact:
  assumes "ids_ok d" and "fid \<in> set (fact_ids d)"
  shows "set (fact_history d fid) =
      {f \<in> set (db_facts d). \<exists>x. (x, fid) \<in> (sup_edges d)\<^sup>* \<and> (x, f_id f) \<in> (sup_edges d)\<^sup>*}
    \<and> distinct (map f_id (fact_history d fid)) \<and> sorted (map history_key (fact_history d fid))"
  using fact_history_rows [OF ids_ok_distinct ids_ok_nonzero assms(2)] assms(1) by blast

lemma comparable_chain:
  assumes "distinct (fact_ids d)" and "unmerged d"
  shows "(\<exists>x. (x, a) \<in> (sup_edges d)\<^sup>* \<and> (x, b) \<in> (sup_edges d)\<^sup>*)
     \<longleftrightarrow> (a, b) \<in> (sup_edges d)\<^sup>* \<or> (b, a) \<in> (sup_edges d)\<^sup>*"
  using single_valued_confluent [OF sup_edges_single_valued [OF assms(1)]] by blast

lemma comparable_trans:
  assumes "distinct (fact_ids d)" and "unmerged d"
    and ab: "(a, b) \<in> (sup_edges d)\<^sup>* \<or> (b, a) \<in> (sup_edges d)\<^sup>*"
    and bc: "(b, c) \<in> (sup_edges d)\<^sup>* \<or> (c, b) \<in> (sup_edges d)\<^sup>*"
  shows "(a, c) \<in> (sup_edges d)\<^sup>* \<or> (c, a) \<in> (sup_edges d)\<^sup>*"
proof -
  have "(y, z) \<in> (sup_edges d)\<^sup>* \<or> (z, y) \<in> (sup_edges d)\<^sup>*"
    if "(y, x) \<in> (sup_edges d)\<^sup>*" "(z, x) \<in> (sup_edges d)\<^sup>*" for x y z
    using single_valued_confluent [OF unmerged_converse [OF assms(2)], of x y z] that
    by (auto simp: rtrancl_converse)
  moreover note single_valued_confluent [OF sup_edges_single_valued [OF assms(1)]]
  ultimately show ?thesis using ab bc by (meson rtrancl_trans)
qed

text \<open>Where no two facts share a successor, every member of a chain gives the same history.\<close>

lemma fact_history_member:
  assumes di: "distinct (fact_ids d)" and nz: "0 \<notin> set (fact_ids d)" and un: "unmerged d"
    and g: "g \<in> set (fact_history d fid)"
  shows "fact_history d (f_id g) = fact_history d fid"
proof -
  have fid: "fid \<in> set (fact_ids d)"
    using g fact_by_id_None [of d fid] by (cases "fact_by_id d fid") (auto simp: fact_history_def)
  note exact = fact_history_rows [OF di nz]
  have gm: "f_id g \<in> set (fact_ids d)" and gf: "(fid, f_id g) \<in> (sup_edges d)\<^sup>* \<or> (f_id g, fid) \<in> (sup_edges d)\<^sup>*"
    using g unfolding exact(1) [OF fid] comparable_chain [OF di un] by (auto simp: fact_ids_def)
  have "set (fact_history d (f_id g)) = set (fact_history d fid)"
    unfolding exact(1) [OF fid] exact(1) [OF gm] comparable_chain [OF di un]
    using comparable_trans [OF di un] gf by blast
  moreover have inj: "inj_on history_key (set (fact_history d i))" if "i \<in> set (fact_ids d)" for i
    using exact(2) [OF that] by (auto simp: inj_on_def history_key_def distinct_map)
  moreover have "distinct (map history_key (fact_history d i))" if "i \<in> set (fact_ids d)" for i
    using exact(2) [OF that] inj [OF that] by (simp add: distinct_map)
  ultimately show ?thesis
    using exact(3) [OF fid] exact(3) [OF gm] fid gm
    by (intro map_sorted_distinct_set_unique [of history_key]) simp_all
qed

lemma add_temporal_column_columns:
  "set (db_fact_columns (add_temporal_column n d)) = insert n (set (db_fact_columns d))"
  by (auto simp: add_temporal_column_def)

lemma add_temporal_column_present: "n \<in> set (db_fact_columns d) \<Longrightarrow> add_temporal_column n d = d"
  by (simp add: add_temporal_column_def)

lemma ensure_temporal_schema_idempotent:
  assumes "ensure_temporal_schema d = Inr d'"
  shows "ensure_temporal_schema d' = Inr d'" and "has_columns d' [''valid_from'', ''invalid_at'', ''superseded_by'']"
proof -
  have d': "d' = fold add_temporal_column [''valid_from'', ''invalid_at'', ''superseded_by''] d"
    using assms by (simp add: ensure_temporal_schema_def split: if_splits)
  then have cols: "{''valid_from'', ''invalid_at'', ''superseded_by''} \<subseteq> set (db_fact_columns d')"
    by (simp add: add_temporal_column_columns)
  then show "ensure_temporal_schema d' = Inr d'"
    by (auto simp: ensure_temporal_schema_def add_temporal_column_present)
  show "has_columns d' [''valid_from'', ''invalid_at'', ''superseded_by'']"
    using cols by (simp add: has_columns_def)
qed

section \<open>Examples\<close>

text \<open>Facts 1 and 2 were both retired in favour of fact 3, as the losers of one conflict are.\<close>

definition demo_merged_db :: db where
  "demo_merged_db = demo_db\<lparr>db_facts :=
     [(demo_fact 1 ''port 1'')\<lparr>f_superseded_by := Some 3\<rparr>,
      (demo_fact 2 ''port 2'')\<lparr>f_superseded_by := Some 3\<rparr>, demo_fact 3 ''port 3'']\<rparr>"

theorem fact_history_exact_witness:
  "map f_id (fact_history demo_merged_db 3) = [1, 2, 3] \<and> distinct (map f_id (fact_history demo_merged_db 3))"
proof -
  have ok: "ids_ok demo_merged_db" "3 \<in> set (fact_ids demo_merged_db)" by code_simp+
  have "map f_id (fact_history demo_merged_db 3) = [1, 2, 3]" by code_simp
  then show ?thesis using fact_history_exact [OF ok] by blast
qed

text \<open>The history of one loser does not mention the other one: the backward walk is not repeated once
  the forward walk has reached the common successor.\<close>

lemma history_depends_on_start:
  "map f_id (fact_history demo_merged_db 1) = [1, 3] \<and> map f_id (fact_history demo_merged_db 3) = [1, 2, 3]"
  by code_simp

lemma demo_value_updates:
  "is_value_update ''the port is 3200'' ''port 3100''" "\<not> is_value_update ''the port is 3200'' ''likes tea''"
  "is_value_update ''backup is enabled'' ''backups are disabled''"
  by code_simp+

text \<open>Superseding retires exactly the still valid row of the old fact, and reports whether there was one.\<close>

lemma supersede_rows:
  assumes "supersede clock old new d = Inr (d', b)" and "ids_ok d"
  shows "db_facts d' = map (\<lambda>f. if f_id f = old \<and> f_invalid_at f = None
       then f\<lparr>f_invalid_at := Some clock, f_superseded_by := Some new\<rparr> else f) (db_facts d)"
    and "b \<longleftrightarrow> (\<exists>f \<in> set (db_facts d). f_id f = old \<and> f_invalid_at f = None)"
proof -
  show "db_facts d' = map (\<lambda>f. if f_id f = old \<and> f_invalid_at f = None
       then f\<lparr>f_invalid_at := Some clock, f_superseded_by := Some new\<rparr> else f) (db_facts d)"
    using assms(1) by (auto simp: supersede_def rbind_eq_Inr sql_update_facts_Inr update_where_def)
  let ?m = "filter (\<lambda>f. f_id f = old \<and> f_invalid_at f = None) (db_facts d)"
  have "distinct (map f_id ?m)"
    using assms(2) by (simp add: ids_ok_def fact_ids_def distinct_map_filter)
  then have "length ?m = card (f_id ` set ?m)"
    using distinct_card [of "map f_id ?m"] by simp
  moreover have "f_id ` set ?m = (if ?m = [] then {} else {old})"
    by (auto simp: filter_empty_conv)
  ultimately have "length ?m = (if ?m = [] then 0 else 1)" by simp
  then show "b \<longleftrightarrow> (\<exists>f \<in> set (db_facts d). f_id f = old \<and> f_invalid_at f = None)"
    using assms(1)
    by (auto simp: supersede_def rbind_eq_Inr sql_update_facts_Inr rowcount_def filter_empty_conv
        split: if_splits)
qed

end
