(* ===== verification/Utf8.thy ===== *)
theory Utf8
  imports Prelude
begin

text \<open>
  UTF-8 on the texts of the model (code points below 256) as lists of byte values: \<open>str.encode\<close>,
  strict \<open>bytes.decode\<close> and \<open>bytes.decode\<close> with \<open>errors='ignore'\<close>.
\<close>

text \<open>\<open>str.encode('utf-8')\<close> of a text of code points below 256.\<close>

definition utf8_char :: "char \<Rightarrow> nat list" where
  "utf8_char c = (let n = (of_char c :: nat) in if n < 128 then [n] else [192 + n div 64, 128 + n mod 64])"

definition utf8_encode :: "string \<Rightarrow> nat list" where
  "utf8_encode s = concat (map utf8_char s)"

text \<open>
  \<open>bytes.decode('utf-8', errors='ignore')\<close> on bytes that encode such texts, or a tail of them:
  a byte that starts no complete sequence is dropped.
\<close>

fun utf8_decode_ignore :: "nat list \<Rightarrow> string" where
  "utf8_decode_ignore [] = []"
| "utf8_decode_ignore [b] = (if b < 128 then [char_of b] else [])"
| "utf8_decode_ignore (b # b' # bs) =
     (if b < 128 then char_of b # utf8_decode_ignore (b' # bs)
      else if (b = 194 \<or> b = 195) \<and> 128 \<le> b' \<and> b' < 192
        then char_of ((b - 192) * 64 + (b' - 128)) # utf8_decode_ignore bs
      else utf8_decode_ignore (b' # bs))"

text \<open>
  Strict \<open>bytes.decode('utf-8')\<close>: \<open>None\<close> is the \<open>UnicodeDecodeError\<close>. A sequence for a code point
  above 255 denotes no text of the model and is refused too.
\<close>

fun utf8_decode :: "nat list \<Rightarrow> string option" where
  "utf8_decode [] = Some []"
| "utf8_decode [b] = (if b < 128 then Some [char_of b] else None)"
| "utf8_decode (b # b' # bs) =
     (if b < 128 then map_option (Cons (char_of b)) (utf8_decode (b' # bs))
      else if (b = 194 \<or> b = 195) \<and> 128 \<le> b' \<and> b' < 192
        then map_option (Cons (char_of ((b - 192) * 64 + (b' - 128)))) (utf8_decode bs)
      else None)"

lemma utf8_char_cases:
  obtains n where "utf8_char c = [n]" "n < 128" "char_of n = c"
  | b b' where "utf8_char c = [b, b']" "b = 194 \<or> b = 195" "128 \<le> b'" "b' < 192"
      "char_of ((b - 192) * 64 + (b' - 128)) = c"
proof (cases "of_char c < (128::nat)")
  case True
  then show ?thesis using that(1) [of "of_char c"] by (simp add: utf8_char_def)
next
  case False
  define n where "n = (of_char c :: nat)"
  have n: "128 \<le> n" "n < 256" using False by (simp_all add: n_def)
  have "2 \<le> n div 64" using div_le_mono [OF n(1), of 64] by simp
  moreover have "n div 64 < 4" using n(2) by (simp add: less_mult_imp_div_less)
  ultimately have "192 + n div 64 = 194 \<or> 192 + n div 64 = 195" by auto
  moreover have "char_of ((192 + n div 64 - 192) * 64 + (128 + n mod 64 - 128)) = c"
    by (simp add: n_def)
  ultimately show ?thesis
    using that(2) [of "192 + n div 64" "128 + n mod 64"] False n_def
    by (simp add: utf8_char_def Let_def)
qed

lemma utf8_decode_char:
  "utf8_decode_ignore (utf8_char c @ bs) = c # utf8_decode_ignore bs"
proof (cases c rule: utf8_char_cases)
  case (1 n)
  then show ?thesis by (cases bs) simp_all
next
  case (2 b b')
  then show ?thesis by auto
qed

lemma utf8_encode_Cons: "utf8_encode (c # s) = utf8_char c @ utf8_encode s"
  by (simp add: utf8_encode_def)

lemma utf8_encode_append: "utf8_encode (s @ t) = utf8_encode s @ utf8_encode t"
  by (simp add: utf8_encode_def)

lemma utf8_decode_full: "utf8_decode_ignore (utf8_encode s) = s"
  by (induction s) (simp_all add: utf8_encode_Cons utf8_decode_char, simp add: utf8_encode_def)

lemma utf8_strict_char: "utf8_decode (utf8_char c @ bs) = map_option (Cons c) (utf8_decode bs)"
proof (cases c rule: utf8_char_cases)
  case (1 n)
  then show ?thesis by (cases bs) simp_all
next
  case (2 b b')
  then show ?thesis by auto
qed

lemma utf8_strict_roundtrip: "utf8_decode (utf8_encode s) = Some s"
  by (induction s) (simp_all add: utf8_encode_Cons utf8_strict_char, simp add: utf8_encode_def)

end
