(* ===== verification/Protocol.thy ===== *)
theory Protocol
  imports Policy Json_Parse Utf8
begin

text \<open>
  The JSON-lines contract of \<open>protocol.py\<close>: validators, the frame classes with their constructors,
  \<open>to_dict\<close> and \<open>from_dict\<close>, the handshake negotiation, and the frame codec.

  A constructor call is an \<open>_init\<close> function; an argument whose type the class checks is a \<open>json\<close>
  value. Texts are Latin-1 and numbers finite, so \<open>allow_nan\<close> and \<open>parse_constant\<close> have nothing to
  refuse. The diagnostic that \<open>json\<close> adds to an invalid frame is not part of the model's message, nor is the
  \<open>repr\<close> of a frame type that is no text. The codec takes bytes; a text argument is encoded first.
\<close>

definition protocol_major :: int where "protocol_major = 1"
definition protocol_minor :: int where "protocol_minor = 0"
definition max_frame_size :: int where "max_frame_size = 1024 * 1024"
definition max_json_depth :: nat where "max_json_depth = 32"
definition supported_schema_version :: int where "supported_schema_version = 1"

definition supported_capabilities :: "string list" where
  "supported_capabilities =
     [''health'', ''memory.write'', ''memory.search'', ''memory.context'', ''memory.evidence'',
      ''memory.history'', ''memory.conflicts'', ''memory.resolve_conflict'', ''memory.extraction.enqueue'']"

definition method_capabilities :: "(string \<times> string) list" where
  "method_capabilities =
     [(''health'', ''health''), (''memory.write'', ''memory.write''), (''memory.search'', ''memory.search''),
      (''memory.context'', ''memory.context''), (''memory.evidence'', ''memory.evidence''),
      (''memory.history'', ''memory.history''), (''memory.changes'', ''memory.search''),
      (''memory.timeline'', ''memory.search''), (''memory.entities'', ''memory.search''),
      (''memory.entity'', ''memory.search''), (''memory.conflicts'', ''memory.conflicts''),
      (''memory.resolve_conflict'', ''memory.resolve_conflict''),
      (''memory.extraction.enqueue'', ''memory.extraction.enqueue'')]"

definition immutable_context_fields :: "string list" where
  "immutable_context_fields =
     [''client_id'', ''surface'', ''agent_id'', ''session_id'', ''parent_agent_id'', ''project_root'',
      ''repository'', ''branch'', ''commit_sha'', ''access_scopes'']"

text \<open>\<open>^[A-Za-z0-9][A-Za-z0-9._:/-]{0,127}$\<close>, used with \<open>fullmatch\<close>.\<close>

definition token_rx :: rx where
  "token_rx = RSeq [RCls alnum, RRep (\<lambda>c. alnum c \<or> c \<in> set ''._:/-'') 0 (Some 127)]"

section \<open>Exceptions\<close>

text \<open>\<open>except ProtocolValidationError\<close>: the class and its two subclasses.\<close>

definition protocol_exc :: "exc \<Rightarrow> bool" where
  "protocol_exc e = (case e of ProtocolValidationError _ \<Rightarrow> True | FrameTooLargeError _ \<Rightarrow> True
     | ProtocolVersionMismatch _ \<Rightarrow> True | _ \<Rightarrow> False)"

lemma protocol_exc_simps [simp]:
  "protocol_exc (ProtocolValidationError m)" "protocol_exc (FrameTooLargeError m)"
  "protocol_exc (ProtocolVersionMismatch m)" "\<not> protocol_exc (TypeError m)"
  by (simp_all add: protocol_exc_def)

section \<open>Text of a list of strings\<close>

text \<open>\<open>repr\<close> of a text and of a list of texts, as f-strings print a list.\<close>

definition repr_char :: "char \<Rightarrow> char \<Rightarrow> string" where
  "repr_char q c =
     (let n = (of_char c :: nat)
      in if c = q \<or> c = CHR 0x5C then [CHR 0x5C, c]
         else if c = CHR 0x09 then [CHR 0x5C, CHR 0x74]
         else if c = CHR 0x0A then [CHR 0x5C, CHR 0x6E]
         else if c = CHR 0x0D then [CHR 0x5C, CHR 0x72]
         else if n < 32 \<or> 127 \<le> n \<and> n < 161 \<or> n = 173
           then [CHR 0x5C, CHR 0x78, hex_digit (n div 16), hex_digit (n mod 16)]
         else [c])"

definition py_repr :: "string \<Rightarrow> string" where
  "py_repr s =
     (let q = (if CHR 0x27 \<in> set s \<and> CHR 0x22 \<notin> set s then CHR 0x22 else CHR 0x27)
      in q # concat (map (repr_char q) s) @ [q])"

definition repr_list :: "string list \<Rightarrow> string" where
  "repr_list xs = ''['' @ py_join '', '' (map py_repr xs) @ '']''"

section \<open>Validators\<close>

definition required_string :: "json \<Rightarrow> string \<Rightarrow> bool \<Rightarrow> string res" where
  "required_string v name tok =
     (case v of
        JStr s \<Rightarrow>
          let t = py_strip s
          in if t = [] then Inl (ProtocolValidationError (name @ '' must be a non-empty string''))
             else if tok \<and> \<not> rx_fullmatch token_rx t
             then Inl (ProtocolValidationError (name @ '' is not a valid protocol token''))
             else Inr t
      | _ \<Rightarrow> Inl (ProtocolValidationError (name @ '' must be a non-empty string'')))"

definition optional_string :: "json \<Rightarrow> string \<Rightarrow> string option res" where
  "optional_string v name =
     (if v = JNull then Inr None else rbind (required_string v name False) (\<lambda>s. Inr (Some s)))"

definition strict_int :: "json \<Rightarrow> string \<Rightarrow> int \<Rightarrow> int res" where
  "strict_int v name minimum =
     (case v of
        JInt i \<Rightarrow>
          if i < minimum
          then Inl (ProtocolValidationError (name @ '' must be an integer >= '' @ int_str minimum)) else Inr i
      | _ \<Rightarrow> Inl (ProtocolValidationError (name @ '' must be an integer >= '' @ int_str minimum)))"

definition string_tuple :: "json \<Rightarrow> string \<Rightarrow> bool \<Rightarrow> string list res" where
  "string_tuple v name allow_empty =
     (case v of
        JArr vs \<Rightarrow>
          rbind (map_res (\<lambda>x. required_string x name True) vs) (\<lambda>xs.
            if \<not> allow_empty \<and> xs = [] then Inl (ProtocolValidationError (name @ '' must not be empty''))
            else if \<not> distinct xs then Inl (ProtocolValidationError (name @ '' must not contain duplicates''))
            else Inr xs)
      | _ \<Rightarrow> Inl (ProtocolValidationError (name @ '' must be an array of strings'')))"

text \<open>\<open>_validate_json\<close>, on values that are JSON already: only the depth can be refused.\<close>

definition depth_checked :: "string \<Rightarrow> nat \<Rightarrow> json res \<Rightarrow> json res" where
  "depth_checked name depth r =
     (if max_json_depth < depth then Inl (ProtocolValidationError (name @ '' exceeds maximum JSON depth'')) else r)"

primrec validate_json :: "string \<Rightarrow> json \<Rightarrow> nat \<Rightarrow> json res" where
  "validate_json name JNull = (\<lambda>depth. depth_checked name depth (Inr JNull))"
| "validate_json name (JBool b) = (\<lambda>depth. depth_checked name depth (Inr (JBool b)))"
| "validate_json name (JInt i) = (\<lambda>depth. depth_checked name depth (Inr (JInt i)))"
| "validate_json name (JNum q) = (\<lambda>depth. depth_checked name depth (Inr (JNum q)))"
| "validate_json name (JStr s) = (\<lambda>depth. depth_checked name depth (Inr (JStr s)))"
| "validate_json name (JArr vs) = (\<lambda>depth. depth_checked name depth
     (rbind (map_res (\<lambda>item. item (depth + 1)) (map (validate_json name) vs)) (\<lambda>xs. Inr (JArr xs))))"
| "validate_json name (JObj kvs) = (\<lambda>depth. depth_checked name depth
     (rbind (map_res (\<lambda>(key, item). rbind (item (depth + 1)) (\<lambda>x. Inr (key, x)))
               (map (map_prod id (validate_json name)) kvs)) (\<lambda>xs. Inr (JObj xs))))"

definition mapping_of :: "json \<Rightarrow> string \<Rightarrow> row res" where
  "mapping_of v name =
     (case v of JObj d \<Rightarrow> Inr d | _ \<Rightarrow> Inl (ProtocolValidationError (name @ '' must be an object'')))"

definition missing_keys :: "row \<Rightarrow> string list \<Rightarrow> string list" where
  "missing_keys data required = sort (filter (\<lambda>k. k \<notin> fst ` set data) required)"

definition unknown_keys :: "row \<Rightarrow> string list \<Rightarrow> string list" where
  "unknown_keys data allowed = sort (filter (\<lambda>k. k \<notin> set allowed) (map fst data))"

definition check_keys :: "row \<Rightarrow> string list \<Rightarrow> string list \<Rightarrow> unit res" where
  "check_keys data required optional =
     (let missing = missing_keys data required; unknown = unknown_keys data (required @ optional)
      in if missing \<noteq> [] then Inl (ProtocolValidationError (''missing frame fields: '' @ repr_list missing))
         else if unknown \<noteq> [] then Inl (ProtocolValidationError (''unknown frame fields: '' @ repr_list unknown))
         else Inr ())"

section \<open>Frame classes\<close>

record protocol_version =
  pv_major :: int
  pv_minor :: int

definition protocol_version_init :: "json \<Rightarrow> json \<Rightarrow> protocol_version res" where
  "protocol_version_init major minor =
     rbind (strict_int major ''protocol.major'' 0) (\<lambda>ma.
     rbind (strict_int minor ''protocol.minor'' 0) (\<lambda>mi.
     Inr \<lparr>pv_major = ma, pv_minor = mi\<rparr>))"

definition current_protocol :: protocol_version where
  "current_protocol = \<lparr>pv_major = protocol_major, pv_minor = protocol_minor\<rparr>"

definition protocol_version_dict :: "protocol_version \<Rightarrow> row" where
  "protocol_version_dict v = [(''major'', JInt (pv_major v)), (''minor'', JInt (pv_minor v))]"

definition protocol_version_from :: "json \<Rightarrow> protocol_version res" where
  "protocol_version_from v =
     rbind (mapping_of v ''protocol'') (\<lambda>data.
     rbind (check_keys data [''major'', ''minor''] []) (\<lambda>_.
     protocol_version_init (dict_get data ''major'') (dict_get data ''minor'')))"

record client_context =
  px_client_id :: string
  px_surface :: string
  px_agent_id :: string
  px_session_id :: string
  px_parent_agent_id :: "string option"
  px_project_root :: "string option"
  px_repository :: "string option"
  px_branch :: "string option"
  px_commit_sha :: "string option"
  px_access_scopes :: "string list"

text \<open>The constructor takes its fields by name: \<open>v k\<close> is the argument for the field \<open>k\<close>.\<close>

definition client_context_init :: "(string \<Rightarrow> json) \<Rightarrow> client_context res" where
  "client_context_init v =
     rbind (required_string (v ''client_id'') ''client_id'' True) (\<lambda>client_id.
     rbind (required_string (v ''surface'') ''surface'' True) (\<lambda>surface.
     rbind (required_string (v ''agent_id'') ''agent_id'' True) (\<lambda>agent_id.
     rbind (required_string (v ''session_id'') ''session_id'' True) (\<lambda>session_id.
     rbind (optional_string (v ''parent_agent_id'') ''parent_agent_id'') (\<lambda>parent.
     rbind (optional_string (v ''project_root'') ''project_root'') (\<lambda>root.
     rbind (optional_string (v ''repository'') ''repository'') (\<lambda>repository.
     rbind (optional_string (v ''branch'') ''branch'') (\<lambda>branch.
     rbind (optional_string (v ''commit_sha'') ''commit_sha'') (\<lambda>commit_sha.
     rbind (string_tuple (v ''access_scopes'') ''access_scopes'' False) (\<lambda>scopes.
     Inr \<lparr>px_client_id = client_id, px_surface = surface, px_agent_id = agent_id,
          px_session_id = session_id, px_parent_agent_id = parent, px_project_root = root,
          px_repository = repository, px_branch = branch, px_commit_sha = commit_sha,
          px_access_scopes = scopes\<rparr>))))))))))"

definition json_strings :: "string list \<Rightarrow> json" where
  "json_strings xs = JArr (map JStr xs)"

definition client_context_dict :: "client_context \<Rightarrow> row" where
  "client_context_dict c =
     [(''client_id'', JStr (px_client_id c)), (''surface'', JStr (px_surface c)),
      (''agent_id'', JStr (px_agent_id c)), (''session_id'', JStr (px_session_id c)),
      (''parent_agent_id'', jopt (px_parent_agent_id c)), (''project_root'', jopt (px_project_root c)),
      (''repository'', jopt (px_repository c)), (''branch'', jopt (px_branch c)),
      (''commit_sha'', jopt (px_commit_sha c)), (''access_scopes'', json_strings (px_access_scopes c))]"

definition client_context_from :: "json \<Rightarrow> client_context res" where
  "client_context_from v =
     rbind (mapping_of v ''context'') (\<lambda>data.
     rbind (check_keys data [''client_id'', ''surface'', ''agent_id'', ''session_id'', ''access_scopes'']
              [''parent_agent_id'', ''project_root'', ''repository'', ''branch'', ''commit_sha'']) (\<lambda>_.
     rbind (string_tuple (dict_get data ''access_scopes'') ''access_scopes'' False) (\<lambda>scopes.
     client_context_init (\<lambda>k. if k = ''access_scopes'' then json_strings scopes else dict_get data k))))"

record protocol_error =
  perr_code :: string
  perr_message :: string
  perr_retryable :: bool
  perr_details :: row

definition protocol_error_init :: "json \<Rightarrow> json \<Rightarrow> json \<Rightarrow> json \<Rightarrow> protocol_error res" where
  "protocol_error_init code message retryable details =
     rbind (required_string code ''error.code'' True) (\<lambda>c.
     rbind (required_string message ''error.message'' False) (\<lambda>m.
     (case retryable of
        JBool r \<Rightarrow>
          rbind (validate_json ''error.details'' details 0) (\<lambda>dv.
          rbind (mapping_of dv ''error.details'') (\<lambda>d.
          Inr \<lparr>perr_code = c, perr_message = m, perr_retryable = r, perr_details = d\<rparr>))
      | _ \<Rightarrow> Inl (ProtocolValidationError ''error.retryable must be a boolean''))))"

definition protocol_error_dict :: "protocol_error \<Rightarrow> row" where
  "protocol_error_dict e =
     [(''code'', JStr (perr_code e)), (''message'', JStr (perr_message e)),
      (''retryable'', JBool (perr_retryable e)), (''details'', JObj (perr_details e))]"

definition protocol_error_from :: "json \<Rightarrow> protocol_error res" where
  "protocol_error_from v =
     rbind (mapping_of v ''error'') (\<lambda>data.
     rbind (check_keys data [''code'', ''message'', ''retryable'', ''details''] []) (\<lambda>_.
     protocol_error_init (dict_get data ''code'') (dict_get data ''message'')
       (dict_get data ''retryable'') (dict_get data ''details'')))"

text \<open>\<open>None if data["error"] is None else ProtocolError.from_dict(data["error"])\<close>\<close>

definition optional_error_from :: "json \<Rightarrow> protocol_error option res" where
  "optional_error_from v =
     (if v = JNull then Inr None else rbind (protocol_error_from v) (\<lambda>e. Inr (Some e)))"

definition optional_error_dict :: "protocol_error option \<Rightarrow> json" where
  "optional_error_dict e = (case e of None \<Rightarrow> JNull | Some x \<Rightarrow> JObj (protocol_error_dict x))"

record handshake =
  hs_context :: client_context
  hs_capabilities :: "string list"
  hs_protocol :: protocol_version
  hs_schema_version :: int

definition handshake_init ::
  "client_context \<Rightarrow> json \<Rightarrow> protocol_version \<Rightarrow> json \<Rightarrow> handshake res" where
  "handshake_init ctx capabilities protocol schema =
     rbind (string_tuple capabilities ''capabilities'' True) (\<lambda>caps.
     rbind (strict_int schema ''schema_version'' 0) (\<lambda>sv.
     Inr \<lparr>hs_context = ctx, hs_capabilities = caps, hs_protocol = protocol, hs_schema_version = sv\<rparr>))"

definition handshake_dict :: "handshake \<Rightarrow> row" where
  "handshake_dict h =
     [(''type'', JStr ''handshake''), (''protocol'', JObj (protocol_version_dict (hs_protocol h))),
      (''schema_version'', JInt (hs_schema_version h)),
      (''capabilities'', json_strings (hs_capabilities h)),
      (''context'', JObj (client_context_dict (hs_context h)))]"

definition handshake_from :: "row \<Rightarrow> handshake res" where
  "handshake_from data =
     rbind (check_keys data [''type'', ''protocol'', ''schema_version'', ''capabilities'', ''context''] []) (\<lambda>_.
     rbind (guard_res (dict_get data ''type'' = JStr ''handshake'')
              (ProtocolValidationError ''frame type must be handshake'')) (\<lambda>_.
     rbind (client_context_from (dict_get data ''context'')) (\<lambda>ctx.
     rbind (string_tuple (dict_get data ''capabilities'') ''capabilities'' True) (\<lambda>caps.
     rbind (protocol_version_from (dict_get data ''protocol'')) (\<lambda>pv.
     rbind (strict_int (dict_get data ''schema_version'') ''schema_version'' 0) (\<lambda>sv.
     handshake_init ctx (json_strings caps) pv (JInt sv)))))))"

record handshake_response =
  hr_accepted :: bool
  hr_capabilities :: "string list"
  hr_service_version :: string
  hr_error :: "protocol_error option"
  hr_protocol :: protocol_version
  hr_schema_version :: int

definition handshake_response_init ::
  "json \<Rightarrow> json \<Rightarrow> json \<Rightarrow> protocol_error option \<Rightarrow> protocol_version \<Rightarrow> json \<Rightarrow> handshake_response res" where
  "handshake_response_init accepted capabilities service_version err protocol schema =
     (case accepted of
        JBool ok \<Rightarrow>
          rbind (string_tuple capabilities ''capabilities'' True) (\<lambda>caps.
          rbind (required_string service_version ''service_version'' False) (\<lambda>version.
          rbind (strict_int schema ''schema_version'' 0) (\<lambda>sv.
          if ok \<and> err \<noteq> None then Inl (ProtocolValidationError ''accepted handshake cannot include an error'')
          else if \<not> ok \<and> err = None
          then Inl (ProtocolValidationError ''refused handshake must include a typed error'')
          else Inr \<lparr>hr_accepted = ok, hr_capabilities = caps, hr_service_version = version, hr_error = err,
                    hr_protocol = protocol, hr_schema_version = sv\<rparr>)))
      | _ \<Rightarrow> Inl (ProtocolValidationError ''accepted must be a boolean''))"

definition handshake_response_dict :: "handshake_response \<Rightarrow> row" where
  "handshake_response_dict h =
     [(''type'', JStr ''handshake_response''), (''protocol'', JObj (protocol_version_dict (hr_protocol h))),
      (''schema_version'', JInt (hr_schema_version h)),
      (''capabilities'', json_strings (hr_capabilities h)),
      (''service_version'', JStr (hr_service_version h)), (''accepted'', JBool (hr_accepted h)),
      (''error'', optional_error_dict (hr_error h))]"

definition handshake_response_from :: "row \<Rightarrow> handshake_response res" where
  "handshake_response_from data =
     rbind (check_keys data [''type'', ''protocol'', ''schema_version'', ''capabilities'', ''service_version'',
              ''accepted'', ''error''] []) (\<lambda>_.
     rbind (guard_res (dict_get data ''type'' = JStr ''handshake_response'')
              (ProtocolValidationError ''frame type must be handshake_response'')) (\<lambda>_.
     rbind (optional_error_from (dict_get data ''error'')) (\<lambda>err.
     rbind (string_tuple (dict_get data ''capabilities'') ''capabilities'' True) (\<lambda>caps.
     rbind (protocol_version_from (dict_get data ''protocol'')) (\<lambda>pv.
     rbind (strict_int (dict_get data ''schema_version'') ''schema_version'' 0) (\<lambda>sv.
     handshake_response_init (dict_get data ''accepted'') (json_strings caps)
       (dict_get data ''service_version'') err pv (JInt sv)))))))"

record request =
  rq_request_id :: string
  rq_method :: string
  rq_params :: row
  rq_protocol :: protocol_version
  rq_schema_version :: int

definition request_init :: "json \<Rightarrow> json \<Rightarrow> json \<Rightarrow> protocol_version \<Rightarrow> json \<Rightarrow> request res" where
  "request_init request_id meth params protocol schema =
     rbind (required_string request_id ''request_id'' True) (\<lambda>rid.
     rbind (required_string meth ''method'' True) (\<lambda>m.
     rbind (guard_res (m \<in> fst ` set method_capabilities)
              (ProtocolValidationError (''unsupported method: '' @ m))) (\<lambda>_.
     rbind (validate_json ''params'' params 0) (\<lambda>pv.
     rbind (mapping_of pv ''params'') (\<lambda>ps.
     let spoofed = sort (filter (\<lambda>k. k \<in> fst ` set ps) immutable_context_fields)
     in rbind (guard_res (spoofed = [])
          (ProtocolValidationError (''request params cannot override immutable connection context: '' @ repr_list spoofed)))
          (\<lambda>_.
        rbind (strict_int schema ''schema_version'' 0) (\<lambda>sv.
        Inr \<lparr>rq_request_id = rid, rq_method = m, rq_params = ps, rq_protocol = protocol,
             rq_schema_version = sv\<rparr>)))))))"

definition request_dict :: "request \<Rightarrow> row" where
  "request_dict r =
     [(''type'', JStr ''request''), (''protocol'', JObj (protocol_version_dict (rq_protocol r))),
      (''schema_version'', JInt (rq_schema_version r)), (''request_id'', JStr (rq_request_id r)),
      (''method'', JStr (rq_method r)), (''params'', JObj (rq_params r))]"

definition request_from :: "row \<Rightarrow> request res" where
  "request_from data =
     rbind (check_keys data [''type'', ''protocol'', ''schema_version'', ''request_id'', ''method'', ''params''] []) (\<lambda>_.
     rbind (guard_res (dict_get data ''type'' = JStr ''request'')
              (ProtocolValidationError ''frame type must be request'')) (\<lambda>_.
     rbind (protocol_version_from (dict_get data ''protocol'')) (\<lambda>pv.
     rbind (strict_int (dict_get data ''schema_version'') ''schema_version'' 0) (\<lambda>sv.
     request_init (dict_get data ''request_id'') (dict_get data ''method'') (dict_get data ''params'')
       pv (JInt sv)))))"

record response =
  rs_request_id :: string
  rs_ok :: bool
  rs_result :: json
  rs_error :: "protocol_error option"
  rs_protocol :: protocol_version
  rs_schema_version :: int

definition response_init ::
  "json \<Rightarrow> json \<Rightarrow> json \<Rightarrow> protocol_error option \<Rightarrow> protocol_version \<Rightarrow> json \<Rightarrow> response res" where
  "response_init request_id okv result err protocol schema =
     rbind (required_string request_id ''request_id'' True) (\<lambda>rid.
     (case okv of
        JBool ok \<Rightarrow>
          rbind (validate_json ''result'' result 0) (\<lambda>value.
          rbind (strict_int schema ''schema_version'' 0) (\<lambda>sv.
          if ok \<and> err \<noteq> None then Inl (ProtocolValidationError ''successful response cannot include an error'')
          else if \<not> ok \<and> err = None
          then Inl (ProtocolValidationError ''failed response must include a typed error'')
          else if \<not> ok \<and> value \<noteq> JNull
          then Inl (ProtocolValidationError ''failed response cannot include a result'')
          else Inr \<lparr>rs_request_id = rid, rs_ok = ok, rs_result = value, rs_error = err,
                    rs_protocol = protocol, rs_schema_version = sv\<rparr>))
      | _ \<Rightarrow> Inl (ProtocolValidationError ''ok must be a boolean'')))"

definition response_dict :: "response \<Rightarrow> row" where
  "response_dict r =
     [(''type'', JStr ''response''), (''protocol'', JObj (protocol_version_dict (rs_protocol r))),
      (''schema_version'', JInt (rs_schema_version r)), (''request_id'', JStr (rs_request_id r)),
      (''ok'', JBool (rs_ok r)), (''result'', rs_result r), (''error'', optional_error_dict (rs_error r))]"

definition response_from :: "row \<Rightarrow> response res" where
  "response_from data =
     rbind (check_keys data [''type'', ''protocol'', ''schema_version'', ''request_id'', ''ok'', ''result'', ''error''] []) (\<lambda>_.
     rbind (guard_res (dict_get data ''type'' = JStr ''response'')
              (ProtocolValidationError ''frame type must be response'')) (\<lambda>_.
     rbind (optional_error_from (dict_get data ''error'')) (\<lambda>err.
     rbind (protocol_version_from (dict_get data ''protocol'')) (\<lambda>pv.
     rbind (strict_int (dict_get data ''schema_version'') ''schema_version'' 0) (\<lambda>sv.
     response_init (dict_get data ''request_id'') (dict_get data ''ok'') (dict_get data ''result'')
       err pv (JInt sv))))))"

datatype frame =
    Handshake handshake
  | HandshakeResponse handshake_response
  | Request request
  | Response response

section \<open>Negotiation\<close>

definition required_capability :: "json \<Rightarrow> string res" where
  "required_capability meth =
     rbind (required_string meth ''method'' True) (\<lambda>m.
       case map_of method_capabilities m of
         None \<Rightarrow> Inl (ProtocolValidationError (''unsupported method: '' @ m))
       | Some c \<Rightarrow> Inr c)"

definition require_compatible_major :: "protocol_version \<Rightarrow> int \<Rightarrow> unit res" where
  "require_compatible_major v supported =
     guard_res (pv_major v = supported)
       (ProtocolVersionMismatch (''protocol major '' @ int_str (pv_major v)
          @ '' is incompatible with supported major '' @ int_str supported))"

definition negotiate_handshake ::
  "handshake \<Rightarrow> string \<Rightarrow> string list \<Rightarrow> int \<Rightarrow> handshake_response res" where
  "negotiate_handshake h service_version server_capabilities schema =
     rbind (required_string (JStr service_version) ''service_version'' False) (\<lambda>version.
     rbind (string_tuple (json_strings server_capabilities) ''server_capabilities'' True) (\<lambda>caps.
     rbind (strict_int (JInt schema) ''schema_version'' 0) (\<lambda>sv.
     if pv_major (hs_protocol h) \<noteq> protocol_major
     then rbind (protocol_error_init (JStr ''incompatible_protocol_major'')
            (JStr (''client major '' @ int_str (pv_major (hs_protocol h)) @ ''; server major '' @ int_str protocol_major))
            (JBool False) (JObj [])) (\<lambda>e.
          handshake_response_init (JBool False) (JArr []) (JStr version) (Some e) current_protocol (JInt sv))
     else handshake_response_init (JBool True)
            (json_strings (filter (\<lambda>c. c \<in> set (hs_capabilities h)) caps))
            (JStr version) None current_protocol (JInt sv))))"

section \<open>The codec\<close>

definition frame_dict :: "frame \<Rightarrow> row" where
  "frame_dict f =
     (case f of Handshake h \<Rightarrow> handshake_dict h | HandshakeResponse h \<Rightarrow> handshake_response_dict h
      | Request r \<Rightarrow> request_dict r | Response r \<Rightarrow> response_dict r)"

definition frame_too_large :: "nat \<Rightarrow> int \<Rightarrow> exc" where
  "frame_too_large n limit =
     FrameTooLargeError (''frame is '' @ int_str (int n) @ '' bytes; maximum is '' @ int_str limit)"

definition encode_frame :: "(rat \<Rightarrow> string) \<Rightarrow> frame \<Rightarrow> int \<Rightarrow> nat list res" where
  "encode_frame fr f limit =
     (if limit \<le> 0 then Inl (ProtocolValidationError ''max_frame_size must be positive'')
      else let encoded = utf8_encode (json_dumps fr canonical_unicode (JObj (frame_dict f))) @ [10]
           in if limit < int (length encoded) then Inl (frame_too_large (length encoded) limit)
              else Inr encoded)"

text \<open>\<open>_unique_object\<close>, as the \<open>object_pairs_hook\<close> of the decoder.\<close>

definition unique_object :: "(string \<times> json) list \<Rightarrow> (string \<times> json) list option" where
  "unique_object kvs = (if distinct (map fst kvs) then Some kvs else None)"

text \<open>The line without its end, if it has one.\<close>

definition strip_newline :: "string \<Rightarrow> string" where
  "strip_newline s =
     (if ends_with [CHR 0x0D, CHR 0x0A] s then take (length s - 2) s
      else if ends_with [CHR 0x0A] s then take (length s - 1) s else s)"

definition frame_protocol :: "frame \<Rightarrow> protocol_version" where
  "frame_protocol f =
     (case f of Handshake h \<Rightarrow> hs_protocol h | HandshakeResponse h \<Rightarrow> hr_protocol h
      | Request r \<Rightarrow> rq_protocol r | Response r \<Rightarrow> rs_protocol r)"

text \<open>
  \<open>factories.get(frame_type)\<close> and the call of the factory. A list or a \<open>dict\<close> is unhashable, so
  the lookup itself raises \<open>TypeError\<close>.
\<close>

definition frame_from :: "row \<Rightarrow> frame res" where
  "frame_from data =
     (case dict_get data ''type'' of
        JArr _ \<Rightarrow> Inl (TypeError ''unhashable type: list'')
      | JObj _ \<Rightarrow> Inl (TypeError ''unhashable type: dict'')
      | JStr t \<Rightarrow>
          if t = ''handshake'' then rbind (handshake_from data) (\<lambda>h. Inr (Handshake h))
          else if t = ''handshake_response'' then rbind (handshake_response_from data) (\<lambda>h. Inr (HandshakeResponse h))
          else if t = ''request'' then rbind (request_from data) (\<lambda>r. Inr (Request r))
          else if t = ''response'' then rbind (response_from data) (\<lambda>r. Inr (Response r))
          else Inl (ProtocolValidationError (''unknown frame type: '' @ py_repr t))
      | _ \<Rightarrow> Inl (ProtocolValidationError ''unknown frame type''))"

definition decode_frame :: "nat list \<Rightarrow> int \<Rightarrow> bool \<Rightarrow> frame res" where
  "decode_frame raw limit refuse_major_mismatch =
     (if limit \<le> 0 then Inl (ProtocolValidationError ''max_frame_size must be positive'')
      else if limit < int (length raw) then Inl (frame_too_large (length raw) limit)
      else case utf8_decode raw of
        None \<Rightarrow> Inl (ProtocolValidationError ''frame is not valid UTF-8'')
      | Some s \<Rightarrow>
          let line = strip_newline s
          in if line = [] \<or> CHR 0x0A \<in> set line \<or> CHR 0x0D \<in> set line
             then Inl (ProtocolValidationError ''input must contain exactly one JSON-lines frame'')
             else case json_loads_with unique_object line of
               None \<Rightarrow> Inl (ProtocolValidationError ''invalid JSON frame'')
             | Some v \<Rightarrow>
                 rbind (validate_json ''frame'' v 0) (\<lambda>value.
                 rbind (mapping_of value ''frame'') (\<lambda>data.
                 rbind (frame_from data) (\<lambda>f.
                 rbind (if refuse_major_mismatch
                        then require_compatible_major (frame_protocol f) protocol_major else Inr ()) (\<lambda>_.
                 Inr f)))))"

end
