(* ===== verification/Extract_Queue.thy ===== *)
theory Extract_Queue
  imports Lease Conflict_Lifecycle Policy Utf8
begin

text \<open>
  \<open>extract_queue.py\<close> (the persistent queue of transcripts, \<open>ExtractQueue\<close>, with its quota
  classification) and \<open>extraction_enqueue.py\<close> (\<open>ExtractionEnqueuer\<close>).

  The table is \<open>db_queue\<close>. \<open>created_at\<close> is the whole second that \<open>strftime('%s', ...)\<close> reads
  from it; the other times are epoch seconds. \<open>time.time()\<close>, the UUID of a claim and the drawn
  jitter are arguments. Floats are exact rationals.
\<close>

section \<open>Payload limit\<close>

definition max_payload_bytes :: nat where
  "max_payload_bytes = 12 * 1024"

text \<open>The last \<open>n\<close> bytes of a text, as text.\<close>

definition utf8_tail :: "nat \<Rightarrow> string \<Rightarrow> string" where
  "utf8_tail n s =
     (let encoded = utf8_encode s
      in if n < length encoded then utf8_decode_ignore (drop (length encoded - n) encoded) else s)"

section \<open>Quota errors\<close>

definition quota_error_patterns :: "string list" where
  "quota_error_patterns = [''429'', ''usage_limit_reached'', ''usage_limit'', ''rate limit'', ''quota'']"

definition is_quota_error :: "string option \<Rightarrow> bool" where
  "is_quota_error err =
     (let txt = py_lower (case err of None \<Rightarrow> [] | Some e \<Rightarrow> e)
      in list_ex (\<lambda>p. str_contains p txt) quota_error_patterns)"

text \<open>
  One attempt of \<open>key\D{0,12}(\d{lo,hi})\<close> at the start of a text, without regard to case. Digits
  and non-digits exclude each other, so the gap is the maximal run of non-digits and the group the
  maximal run of digits, cut at \<open>hi\<close>.
\<close>

definition match_reset :: "string \<Rightarrow> nat \<Rightarrow> nat option \<Rightarrow> string \<Rightarrow> string option" where
  "match_reset key lo hi s =
     (if starts_with key (py_lower s)
      then
        let after = drop (length key) s;
            gap = takeWhile (\<lambda>c. \<not> is_digit09 c) after;
            run = takeWhile is_digit09 (drop (length gap) after);
            grp = (case hi of None \<Rightarrow> run | Some n \<Rightarrow> take n run)
        in if length gap \<le> 12 \<and> lo \<le> length grp then Some grp else None
      else None)"

fun search_reset :: "string \<Rightarrow> nat \<Rightarrow> nat option \<Rightarrow> string \<Rightarrow> string option" where
  "search_reset key lo hi [] = match_reset key lo hi []"
| "search_reset key lo hi (c # s) =
     (case match_reset key lo hi (c # s) of Some g \<Rightarrow> Some g | None \<Rightarrow> search_reset key lo hi s)"

definition digits_value :: "string \<Rightarrow> nat" where
  "digits_value s = foldl (\<lambda>n c. 10 * n + (of_char c - 48)) 0 s"

definition quota_retry_delay :: "rat \<Rightarrow> rat \<Rightarrow> string option \<Rightarrow> rat" where
  "quota_retry_delay now jitter err =
     (let txt = (case err of None \<Rightarrow> [] | Some e \<Rightarrow> e)
      in case search_reset ''resets_in_seconds'' 1 None txt of
           Some g \<Rightarrow> of_nat (digits_value g) + jitter
         | None \<Rightarrow>
             (case search_reset ''resets_at'' 9 (Some 12) txt of
                Some g \<Rightarrow> max 0 (of_nat (digits_value g) - now) + jitter
              | None \<Rightarrow> 1800))"

section \<open>The table\<close>

definition queue_active :: "queue_row \<Rightarrow> bool" where
  "queue_active r \<longleftrightarrow> q_status r = QPending \<or> q_status r = QProcessing"

text \<open>The keys of the partial index \<open>uq_extract_queue_active_payload_hash\<close>.\<close>

definition active_hash :: "queue_row \<Rightarrow> string option" where
  "active_hash r = (if queue_active r then q_payload_hash r else None)"

definition active_hashes :: "queue_row list \<Rightarrow> string list" where
  "active_hashes rs = List.map_filter active_hash rs"

definition queue_unique :: "queue_row list \<Rightarrow> bool" where
  "queue_unique rs \<longleftrightarrow> distinct (active_hashes rs)"

text \<open>A statement that may make a row active is checked against the index.\<close>

definition store_queue :: "queue_row list \<Rightarrow> db \<Rightarrow> db res" where
  "store_queue rs d =
     (if \<not> queue_unique rs
        then Inl (IntegrityError ''UNIQUE constraint failed: uq_extract_queue_active_payload_hash'')
      else Inr (d\<lparr>db_queue := rs\<rparr>))"

definition queue_order :: "db \<Rightarrow> queue_row list" where
  "queue_order d = sort_key q_id (db_queue d)"

definition queue_row_by_id :: "int \<Rightarrow> db \<Rightarrow> queue_row option" where
  "queue_row_by_id i d = first_row (\<lambda>r. q_id r = i) (db_queue d)"

definition update_queue :: "(queue_row \<Rightarrow> bool) \<Rightarrow> (queue_row \<Rightarrow> queue_row) \<Rightarrow> db \<Rightarrow> db" where
  "update_queue P u d = d\<lparr>db_queue := update_where P u (db_queue d)\<rparr>"

text \<open>
  The loop of \<open>_ensure_columns\<close> over all rows in id order: the oldest active copy of a payload
  gets the hash, a later active copy keeps what it has.
\<close>

fun hash_rows :: "runtime \<Rightarrow> string list \<Rightarrow> queue_row list \<Rightarrow> queue_row list" where
  "hash_rows rt seen [] = []"
| "hash_rows rt seen (r # rs) =
     (let digest = rt_sha256 rt (q_payload r)
      in if queue_active r \<and> digest \<in> set seen then r # hash_rows rt seen rs
         else r\<lparr>q_payload_hash := Some digest\<rparr>
              # hash_rows rt (if queue_active r then digest # seen else seen) rs)"

definition ensure_payload_index :: "runtime \<Rightarrow> bool \<Rightarrow> db \<Rightarrow> db res" where
  "ensure_payload_index rt has_index d =
     (if has_index then Inr d else store_queue (hash_rows rt [] (queue_order d)) d)"

definition new_queue_row :: "rat \<Rightarrow> int \<Rightarrow> string \<Rightarrow> string \<Rightarrow> queue_row" where
  "new_queue_row now i payload h =
     \<lparr>q_id = i, q_payload = payload, q_created_epoch = Some (of_int \<lfloor>now\<rfloor>), q_attempts = 0,
      q_last_error = None, q_status = QPending, q_not_before = None, q_lease_owner = None,
      q_lease_until = None, q_lease_token = None, q_payload_hash = Some h,
      q_proposal_json = None, q_proposal_hash = None\<rparr>"

text \<open>\<open>INSERT INTO extract_queue\<close> with an \<open>AUTOINCREMENT\<close> id.\<close>

definition insert_queue_row :: "rat \<Rightarrow> string \<Rightarrow> string \<Rightarrow> db \<Rightarrow> (int \<times> db) res" where
  "insert_queue_row now payload h d =
     (let i = db_queue_seq d + 1
      in rbind (store_queue (db_queue d @ [new_queue_row now i payload h]) d)
           (\<lambda>d'. Inr (i, d'\<lparr>db_queue_seq := i\<rparr>)))"

section \<open>ExtractQueue\<close>

definition enqueue :: "runtime \<Rightarrow> rat \<Rightarrow> string \<Rightarrow> db \<Rightarrow> (int \<times> db) res" where
  "enqueue rt now payload0 d =
     (let payload = utf8_tail max_payload_bytes payload0; h = rt_sha256 rt payload
      in case first_row (\<lambda>r. queue_active r
                \<and> (q_payload_hash r = Some h \<or> q_payload_hash r = None \<and> q_payload r = payload))
               (queue_order d) of
           Some r \<Rightarrow> Inr (q_id r, d)
         | None \<Rightarrow>
             (case insert_queue_row now payload h d of
                Inr (i, d') \<Rightarrow> Inr (i, d')
              | Inl e \<Rightarrow>
                  (case first_row (\<lambda>r. q_payload_hash r = Some h \<and> queue_active r) (queue_order d) of
                     None \<Rightarrow> Inl (IntegrityError ''extract queue idempotency conflict had no active row'')
                   | Some r \<Rightarrow> Inr (q_id r, d))))"

text \<open>The row is processing under this owner; \<open>NULL\<close> equals nothing in SQL.\<close>

definition claimed_by :: "int \<Rightarrow> string option \<Rightarrow> queue_row \<Rightarrow> bool" where
  "claimed_by i owner r \<longleftrightarrow>
     q_id r = i \<and> q_status r = QProcessing \<and> owner \<noteq> None \<and> q_lease_owner r = owner"

definition mark_done :: "int \<Rightarrow> string option \<Rightarrow> db \<Rightarrow> bool \<times> db" where
  "mark_done i owner d =
     (rowcount (claimed_by i owner) (db_queue d) = 1,
      d\<lparr>db_queue := delete_where (claimed_by i owner) (db_queue d)\<rparr>)"

definition age_exceeded :: "rat \<Rightarrow> rat option \<Rightarrow> bool" where
  "age_exceeded now created =
     (case created of None \<Rightarrow> False | Some c \<Rightarrow> 48 * 3600 \<le> now - c)"

definition unlease :: "queue_row \<Rightarrow> queue_row" where
  "unlease r = r\<lparr>q_lease_owner := None, q_lease_until := None\<rparr>"

definition age_cap_note :: string where
  "age_cap_note = '' (dead: 48h age cap)''"

definition mark_failed :: "rat \<Rightarrow> int \<Rightarrow> string \<Rightarrow> int \<Rightarrow> string option \<Rightarrow> db \<Rightarrow> int \<times> db" where
  "mark_failed now i err max_attempts owner d =
     (case queue_row_by_id i d of
        None \<Rightarrow> (0, d)
      | Some r \<Rightarrow>
          if q_status r \<noteq> QProcessing \<or> q_lease_owner r \<noteq> owner then (0, d)
          else
            let attempts = q_attempts r + 1; aged = age_exceeded now (q_created_epoch r);
                message = take 500 err @ (if aged then age_cap_note else []);
                st = (if aged \<or> max_attempts \<le> attempts then QDead else QPending)
            in (attempts, update_queue (\<lambda>x. q_id x = i)
                  (\<lambda>x. (unlease x)\<lparr>q_attempts := attempts, q_last_error := Some message, q_status := st\<rparr>) d))"

definition mark_quota_failed ::
  "rat \<Rightarrow> int \<Rightarrow> string \<Rightarrow> rat \<Rightarrow> string option \<Rightarrow> db \<Rightarrow> bool \<times> db" where
  "mark_quota_failed now i err not_before owner d =
     (case queue_row_by_id i d of
        None \<Rightarrow> (False, d)
      | Some r \<Rightarrow>
          if q_status r \<noteq> QProcessing \<or> q_lease_owner r \<noteq> owner then (False, d)
          else if age_exceeded now (q_created_epoch r)
          then (False, update_queue (\<lambda>x. q_id x = i)
                  (\<lambda>x. (unlease x)\<lparr>q_last_error := Some (take 500 err @ age_cap_note),
                         q_status := QDead, q_not_before := None\<rparr>) d)
          else (True, update_queue (\<lambda>x. q_id x = i)
                  (\<lambda>x. (unlease x)\<lparr>q_last_error := Some (take 500 err), q_not_before := Some not_before,
                         q_status := QPending\<rparr>) d))"

definition release_claim :: "int \<Rightarrow> string \<Rightarrow> db \<Rightarrow> bool \<times> db" where
  "release_claim i owner d =
     (rowcount (claimed_by i (Some owner)) (db_queue d) = 1,
      update_queue (claimed_by i (Some owner)) (\<lambda>x. (unlease x)\<lparr>q_status := QPending\<rparr>) d)"

text \<open>
  The \<open>WHERE\<close> clause of \<open>revive_dead\<close>: a dead row without hash, or the oldest dead row of its
  hash when no active row has the hash.
\<close>

definition revivable :: "int list option \<Rightarrow> db \<Rightarrow> queue_row \<Rightarrow> bool" where
  "revivable ids d r \<longleftrightarrow>
     q_status r = QDead
     \<and> (case q_payload_hash r of
          None \<Rightarrow> True
        | Some h \<Rightarrow>
            list_all (\<lambda>p. q_status p = QDead \<and> q_payload_hash p = Some h \<longrightarrow> q_id r \<le> q_id p) (db_queue d)
            \<and> \<not> list_ex (\<lambda>a. q_payload_hash a = Some h \<and> queue_active a) (db_queue d))
     \<and> (case ids of None \<Rightarrow> True | Some is \<Rightarrow> q_id r \<in> set is)"

definition revive_dead :: "int list option \<Rightarrow> db \<Rightarrow> (nat \<times> db) res" where
  "revive_dead ids d =
     (if ids = Some [] then Inr (0, d)
      else rbind (store_queue (update_where (revivable ids d)
               (\<lambda>r. (unlease r)\<lparr>q_status := QPending, q_attempts := 0, q_not_before := None,
                      q_last_error := Some ((case q_last_error r of None \<Rightarrow> [] | Some e \<Rightarrow> e) @ '' (revived)'')\<rparr>)
               (db_queue d)) d)
        (\<lambda>d'. Inr (rowcount (revivable ids d) (db_queue d), d')))"

definition recent_quota_dead :: "rat \<Rightarrow> queue_row \<Rightarrow> bool" where
  "recent_quota_dead now r \<longleftrightarrow>
     q_status r = QDead
     \<and> (case q_created_epoch r of None \<Rightarrow> False | Some c \<Rightarrow> of_int \<lfloor>now\<rfloor> - c < 48 * 3600)
     \<and> is_quota_error (q_last_error r)"

definition revive_recent_quota_dead :: "rat \<Rightarrow> db \<Rightarrow> (nat \<times> db) res" where
  "revive_recent_quota_dead now d =
     (let ids = map q_id (filter (recent_quota_dead now) (db_queue d))
      in if ids = [] then Inr (0, d) else revive_dead (Some ids) d)"

definition queue_due :: "int \<Rightarrow> rat \<Rightarrow> queue_row \<Rightarrow> bool" where
  "queue_due max_attempts now r \<longleftrightarrow>
     q_attempts r < max_attempts
     \<and> (case q_not_before r of None \<Rightarrow> True | Some t \<Rightarrow> t \<le> now)
     \<and> (q_status r = QPending
        \<or> q_status r = QProcessing \<and> (case q_lease_until r of None \<Rightarrow> False | Some t \<Rightarrow> t \<le> now))"

record claimed_row =
  cr_id :: int
  cr_payload :: string
  cr_attempts :: int
  cr_lease_owner :: string
  cr_lease_until :: rat

definition lease_row :: "string \<Rightarrow> rat \<Rightarrow> queue_row \<Rightarrow> queue_row" where
  "lease_row owner until x =
     x\<lparr>q_status := QProcessing, q_lease_owner := Some owner, q_lease_until := Some until\<rparr>"

text \<open>\<open>owner\<close> is the given lease owner, or the text the code makes from the thread and a UUID.\<close>

definition next_pending ::
  "int \<Rightarrow> int list \<Rightarrow> rat \<Rightarrow> rat \<Rightarrow> string \<Rightarrow> db \<Rightarrow> claimed_row option \<times> db" where
  "next_pending max_attempts exclude lease_seconds now owner d =
     (case first_row (\<lambda>r. queue_due max_attempts now r \<and> q_id r \<notin> set exclude) (queue_order d) of
        None \<Rightarrow> (None, d)
      | Some r \<Rightarrow>
          let P = (\<lambda>x. q_id x = q_id r \<and> queue_due max_attempts now x);
              d' = update_queue P (lease_row owner (now + lease_seconds)) d
          in if rowcount P (db_queue d) \<noteq> 1 then (None, d)
             else case queue_row_by_id (q_id r) d' of
               None \<Rightarrow> (None, d')
             | Some c \<Rightarrow> (Some \<lparr>cr_id = q_id c, cr_payload = q_payload c, cr_attempts = q_attempts c,
                                  cr_lease_owner = owner, cr_lease_until = now + lease_seconds\<rparr>, d'))"

definition pending_count :: "db \<Rightarrow> nat" where
  "pending_count d = rowcount queue_active (db_queue d)"

definition dead_count :: "db \<Rightarrow> nat" where
  "dead_count d = rowcount (\<lambda>r. q_status r = QDead) (db_queue d)"

section \<open>ExtractionEnqueuer\<close>

definition extraction_envelope ::
  "connection_context \<Rightarrow> string \<Rightarrow> string \<Rightarrow> string \<Rightarrow> (string \<times> json) list \<Rightarrow> json" where
  "extraction_envelope ctx transcript source scope metadata = JObj
     [(''version'', JInt 1), (''transcript'', JStr transcript), (''source'', JStr source),
      (''scope'', JStr scope),
      (''provenance'', JObj
         [(''client_id'', JStr (cc_client_id ctx)), (''surface'', JStr (cc_surface ctx)),
          (''agent_id'', JStr (cc_agent_id ctx)), (''session_id'', JStr (cc_session_id ctx)),
          (''parent_agent_id'', jopt (cc_parent_agent_id ctx)), (''project_root'', jopt (cc_project_root ctx)),
          (''repository'', jopt (cc_repository ctx)), (''branch'', jopt (cc_branch ctx)),
          (''commit_sha'', jopt (cc_commit_sha ctx)),
          (''access_scopes'', JArr (map JStr (cc_access_scopes ctx)))]),
      (''metadata'', JObj metadata)]"

record enqueue_result =
  er_queue_id :: int
  er_payload_sha256 :: string
  er_replayed :: bool

definition enqueue_after_commit ::
  "runtime \<Rightarrow> rat \<Rightarrow> bool \<Rightarrow> connection_context \<Rightarrow> string \<Rightarrow> string \<Rightarrow> string \<Rightarrow> (string \<times> json) list
    \<Rightarrow> db \<Rightarrow> (enqueue_result \<times> db) res" where
  "enqueue_after_commit rt now in_txn ctx transcript0 source0 scope0 metadata d =
     (if in_txn then Inl (RuntimeError ''extraction enqueue must run after commit'')
      else
        let transcript = py_strip transcript0; source = py_strip source0; scope = py_strip scope0
        in if transcript = [] \<or> source = [] \<or> scope = []
             then Inl (ValueError ''transcript, source, and scope must be non-empty'')
           else if scope \<notin> set (cc_access_scopes ctx)
             then Inl (ValueError ''extraction scope must be present in context access scopes'')
           else
             let payload = json_dumps (rt_float_repr rt) canonical_unicode
                             (extraction_envelope ctx transcript source scope metadata);
                 digest = rt_sha256 rt payload
             in if max_payload_bytes < length (utf8_encode payload)
                  then Inl (ValueError ''canonical extraction payload exceeds size limit'')
                else case first_row (\<lambda>r. q_payload_hash r = Some digest \<and> queue_active r) (queue_order d) of
                  Some r \<Rightarrow> Inr (\<lparr>er_queue_id = q_id r, er_payload_sha256 = digest, er_replayed = True\<rparr>, d)
                | None \<Rightarrow>
                    rbind (insert_queue_row now payload digest d) (\<lambda>(i, d').
                      Inr (\<lparr>er_queue_id = i, er_payload_sha256 = digest, er_replayed = False\<rparr>, d')))"

end
