(* ===== verification/Service.thy ===== *)
theory Service
  imports Write_Service Context_Pack Projections Temporal Protocol Extract_Queue Json_Parse
begin

text \<open>
  \<open>service.py\<close>: the request service behind the transport. A request is checked, its connection is
  narrowed to the scopes the policy grants, and one of twelve handlers serves it on the database. The
  injected collaborators are arguments: the retriever, the embedding outbox (in \<open>write_env\<close>), the
  extraction enqueuer (its clock reading, where one is configured), clocks and float texts.
\<close>

section \<open>Exceptions\<close>

text \<open>\<open>except ValueError\<close>, \<open>except PermissionError\<close> and \<open>except RuntimeError\<close>: the classes they catch.\<close>

fun is_value_error :: "exc \<Rightarrow> bool" where
  "is_value_error (ValueError m) = True"
| "is_value_error (IdempotencyConflict m) = True"
| "is_value_error (ClientIdentityConflict m) = True"
| "is_value_error (SessionContextConflict m) = True"
| "is_value_error (PermanentExtractionError m c) = True"
| "is_value_error (ServiceRequestError c m) = True"
| "is_value_error (ProtocolValidationError m) = True"
| "is_value_error (FrameTooLargeError m) = True"
| "is_value_error (ProtocolVersionMismatch m) = True"
| "is_value_error e = False"

fun is_permission_error :: "exc \<Rightarrow> bool" where
  "is_permission_error (PermissionError m) = True"
| "is_permission_error (UnknownMemoryClient m) = True"
| "is_permission_error e = False"

fun is_runtime_error :: "exc \<Rightarrow> bool" where
  "is_runtime_error (RuntimeError m) = True"
| "is_runtime_error (StateSlotInvariantError m) = True"
| "is_runtime_error (ErasureError m) = True"
| "is_runtime_error (StoredEmbeddingError m) = True"
| "is_runtime_error e = False"

text \<open>\<open>str(exc)\<close>\<close>

fun exc_text :: "exc \<Rightarrow> string" where
  "exc_text (ValueError m) = m"
| "exc_text (RuntimeError m) = m"
| "exc_text (PermissionError m) = m"
| "exc_text (UnknownMemoryClient m) = m"
| "exc_text (IdempotencyConflict m) = m"
| "exc_text (ClientIdentityConflict m) = m"
| "exc_text (SessionContextConflict m) = m"
| "exc_text (StateSlotInvariantError m) = m"
| "exc_text (ErasureError m) = m"
| "exc_text (StoredEmbeddingError m) = m"
| "exc_text (PermanentExtractionError m c) = m"
| "exc_text (ServiceRequestError c m) = m"
| "exc_text (ProtocolValidationError m) = m"
| "exc_text (FrameTooLargeError m) = m"
| "exc_text (ProtocolVersionMismatch m) = m"
| "exc_text e = []"

text \<open>The constructor of \<open>RequestHandlingError\<close>, on a message that is not a literal.\<close>

definition service_error :: "string \<Rightarrow> string \<Rightarrow> exc" where
  "service_error code message =
     (if py_strip message = [] then ValueError ''request error message must not be empty''
      else ServiceRequestError code (py_strip message))"

definition invalid :: "string \<Rightarrow> 'a res" where
  "invalid message = Inl (ServiceRequestError ''invalid_params'' message)"

text \<open>\<open>try: ... except ValueError as exc: raise ServiceRequestError("invalid_params", str(exc))\<close>\<close>

definition value_error_as_invalid :: "'a res \<Rightarrow> 'a res" where
  "value_error_as_invalid r =
     (case r of
        Inr x \<Rightarrow> Inr x
      | Inl e \<Rightarrow> Inl (if is_value_error e then service_error ''invalid_params'' (exc_text e) else e))"

section \<open>Output bounds\<close>

record output_bounds =
  ob_default_min_trust :: rat
  ob_search_max_results :: int
  ob_context_max_results :: int
  ob_max_fact_chars :: int
  ob_search_max_total_chars :: int
  ob_context_max_total_chars :: int
  ob_context_mmr_lambda :: rat

definition default_output_bounds :: output_bounds where
  "default_output_bounds =
     \<lparr>ob_default_min_trust = 3/10, ob_search_max_results = 20, ob_context_max_results = 12,
      ob_max_fact_chars = 2000, ob_search_max_total_chars = 12000, ob_context_max_total_chars = 16000,
      ob_context_mmr_lambda = 7/10\<rparr>"

definition output_bounds_init :: "output_bounds \<Rightarrow> output_bounds res" where
  "output_bounds_init b =
     rbind (guard_res (in_unit (ob_default_min_trust b))
              (ValueError ''default_min_trust must be between 0 and 1'')) (\<lambda>_.
     rbind (guard_res (1 \<le> ob_search_max_results b \<and> 1 \<le> ob_context_max_results b)
              (ValueError ''result caps must be positive'')) (\<lambda>_.
     rbind (guard_res (int (length truncation_marker) \<le> ob_max_fact_chars b)
              (ValueError ''max_fact_chars is too small for the truncation marker'')) (\<lambda>_.
     rbind (guard_res (512 \<le> ob_search_max_total_chars b \<and> 512 \<le> ob_context_max_total_chars b)
              (ValueError ''total character caps must be at least 512'')) (\<lambda>_.
     rbind (guard_res (in_unit (ob_context_mmr_lambda b))
              (ValueError ''context_mmr_lambda must be between 0 and 1'')) (\<lambda>_.
     Inr b)))))"

section \<open>Parameters\<close>

definition check_params :: "row \<Rightarrow> string list \<Rightarrow> string list \<Rightarrow> unit res" where
  "check_params params required optional =
     (let missing = missing_keys params required; unknown = unknown_keys params (required @ optional)
      in if missing \<noteq> [] then invalid (''missing parameters: '' @ repr_list missing)
         else if unknown \<noteq> [] then invalid (''unknown parameters: '' @ repr_list unknown)
         else Inr ())"

text \<open>Connection identity is refused at every depth of the parameters.\<close>

fun reject_nested_identity :: "string \<Rightarrow> json \<Rightarrow> unit res"
  and reject_members :: "string \<Rightarrow> row \<Rightarrow> unit res"
  and reject_items :: "string \<Rightarrow> nat \<Rightarrow> json list \<Rightarrow> unit res" where
  "reject_nested_identity path (JObj kvs) =
     (let forbidden = sort (filter (\<lambda>k. k \<in> fst ` set kvs) immutable_context_fields)
      in if forbidden \<noteq> []
         then invalid (path @ '' cannot contain connection identity fields: '' @ repr_list forbidden)
         else reject_members path kvs)"
| "reject_nested_identity path (JArr vs) = reject_items path 0 vs"
| "reject_nested_identity path v = Inr ()"
| "reject_members path [] = Inr ()"
| "reject_members path ((k, v) # kvs) =
     rbind (reject_nested_identity (path @ ''.'' @ k) v) (\<lambda>_. reject_members path kvs)"
| "reject_items path i [] = Inr ()"
| "reject_items path i (v # vs) =
     rbind (reject_nested_identity (path @ ''['' @ nat_str i @ '']'') v) (\<lambda>_. reject_items path (i + 1) vs)"

definition param_text :: "json \<Rightarrow> string \<Rightarrow> string res" where
  "param_text v name =
     (case v of
        JStr s \<Rightarrow> if py_strip s = [] then invalid (name @ '' must be a non-empty string'') else Inr (py_strip s)
      | _ \<Rightarrow> invalid (name @ '' must be a non-empty string''))"

definition param_optional_text :: "json \<Rightarrow> string \<Rightarrow> string option res" where
  "param_optional_text v name =
     (if v = JNull then Inr None else rbind (param_text v name) (\<lambda>s. Inr (Some s)))"

text \<open>\<open>float(value)\<close> of an integer that rounds beyond the largest double raises \<open>OverflowError\<close>.\<close>

definition float_overflows :: "int \<Rightarrow> bool" where
  "float_overflows i \<longleftrightarrow> 2 ^ 1024 - 2 ^ 970 \<le> \<bar>i\<bar>"

definition unit_param :: "rat \<Rightarrow> string \<Rightarrow> rat res" where
  "unit_param q name = (if in_unit q then Inr q else invalid (name @ '' must be between 0 and 1''))"

definition param_number :: "json \<Rightarrow> string \<Rightarrow> rat \<Rightarrow> rat res" where
  "param_number v name dflt =
     (case v of
        JNull \<Rightarrow> Inr dflt
      | JInt i \<Rightarrow> if float_overflows i then Inl (OverflowError ''int too large to convert to float'')
                   else unit_param (of_int i) name
      | JNum q \<Rightarrow> unit_param q name
      | _ \<Rightarrow> invalid (name @ '' must be a number''))"

definition param_positive_int :: "json \<Rightarrow> string \<Rightarrow> int res" where
  "param_positive_int v name =
     (case v of
        JInt i \<Rightarrow> if i \<le> 0 then invalid (name @ '' must be a positive integer'') else Inr i
      | _ \<Rightarrow> invalid (name @ '' must be a positive integer''))"

definition param_limit :: "json \<Rightarrow> int \<Rightarrow> int \<Rightarrow> int res" where
  "param_limit v dflt maximum =
     (if v = JNull then Inr dflt
      else rbind (param_positive_int v ''limit'') (\<lambda>i.
        if maximum < i then invalid (''limit must not exceed '' @ int_str maximum) else Inr i))"

definition param_token_budget :: "json \<Rightarrow> int res" where
  "param_token_budget v =
     (case v of
        JNull \<Rightarrow> Inr 256
      | JInt i \<Rightarrow> if \<not> (16 \<le> i \<and> i \<le> 4096) then invalid ''token_budget must be between 16 and 4096'' else Inr i
      | _ \<Rightarrow> invalid ''token_budget must be an integer'')"

definition param_boolean :: "json \<Rightarrow> string \<Rightarrow> bool \<Rightarrow> bool res" where
  "param_boolean v name dflt =
     (case v of JNull \<Rightarrow> Inr dflt | JBool b \<Rightarrow> Inr b | _ \<Rightarrow> invalid (name @ '' must be a boolean''))"

definition param_json_object :: "(rat \<Rightarrow> string) \<Rightarrow> json \<Rightarrow> string \<Rightarrow> string res" where
  "param_json_object fr v name =
     (case v of
        JNull \<Rightarrow> Inr ''{}''
      | JObj kvs \<Rightarrow> Inr (json_dumps fr canonical_ascii (JObj kvs))
      | _ \<Rightarrow> invalid (name @ '' must be an object''))"

text \<open>\<open>params.get(k, default)\<close>\<close>

definition dict_get_or :: "row \<Rightarrow> string \<Rightarrow> json \<Rightarrow> json" where
  "dict_get_or d k dflt = (case map_of d k of None \<Rightarrow> dflt | Some v \<Rightarrow> v)"

text \<open>
  The length of a serialised response. The ellipsis of the truncation marker is one character of the
  output; \<open>CHR 0x1A\<close> stands for it in the model and would be escaped.
\<close>

primrec show_ellipsis :: "json \<Rightarrow> json" where
  "show_ellipsis JNull = JNull"
| "show_ellipsis (JBool b) = JBool b"
| "show_ellipsis (JInt i) = JInt i"
| "show_ellipsis (JNum q) = JNum q"
| "show_ellipsis (JStr s) = JStr (map (\<lambda>c. if [c] = ellipsis then CHR 0xB7 else c) s)"
| "show_ellipsis (JArr vs) = JArr (map show_ellipsis vs)"
| "show_ellipsis (JObj kvs) = JObj (map (map_prod id show_ellipsis) kvs)"

definition serialized_chars :: "(rat \<Rightarrow> string) \<Rightarrow> row \<Rightarrow> int" where
  "serialized_chars fr r = int (length (json_dumps fr compact_unicode (show_ellipsis (JObj r))))"

definition truncate_fact_content :: "int \<Rightarrow> row \<Rightarrow> row \<times> bool" where
  "truncate_fact_content maximum f =
     (case dict_get f ''content'' of
        JStr s \<Rightarrow>
          if int (length s) \<le> maximum then (f, False)
          else (dict_set ''content_truncated'' (JBool True)
                  (dict_set ''content'' (JStr (fst (truncate_to_chars s maximum))) f), True)
      | _ \<Rightarrow> (f, False))"

section \<open>The service\<close>

record retriever =
  rv_search :: "string \<Rightarrow> string option \<Rightarrow> rat \<Rightarrow> int \<Rightarrow> row list res"
  rv_metadata :: row

record 'v service_env =
  sv_write :: "'v write_env"
  sv_bounds :: output_bounds
  sv_retriever :: "db \<Rightarrow> string list \<Rightarrow> retriever"
  sv_enqueuer :: "rat option"
  sv_processing_mode :: string
  sv_projection :: projection_lib
  sv_float :: float_lib

text \<open>The constructor: the connection must be idle and of the supported schema.\<close>

definition service_init :: "bool \<Rightarrow> int \<Rightarrow> 'v service_env \<Rightarrow> 'v service_env res" where
  "service_init in_transaction version env =
     rbind (guard_res (\<not> in_transaction) (RuntimeError ''EnfoldService requires an idle connection'')) (\<lambda>_.
     rbind (guard_res (version = supported_schema_version)
              (RuntimeError (''EnfoldService requires schema v'' @ int_str supported_schema_version @ ''; found v''
                 @ int_str version))) (\<lambda>_.
     rbind (guard_res (sv_processing_mode env \<in> set [''deferred'', ''disabled'', ''daemon-supervised''])
              (ValueError ''extraction_processing_mode is invalid'')) (\<lambda>_.
     Inr env)))"

definition retrieval_metadata :: "'v service_env \<Rightarrow> db \<Rightarrow> row" where
  "retrieval_metadata env d = rv_metadata (sv_retriever env d [''private''])"

definition protocol_context :: "client_context \<Rightarrow> connection_context res" where
  "protocol_context c =
     connection_context_init
       \<lparr>cc_client_id = px_client_id c, cc_surface = px_surface c, cc_agent_id = px_agent_id c,
        cc_session_id = px_session_id c, cc_display_name = None, cc_parent_agent_id = px_parent_agent_id c,
        cc_project_root = px_project_root c, cc_repository = px_repository c, cc_branch = px_branch c,
        cc_commit_sha = px_commit_sha c, cc_capabilities = [], cc_access_scopes = px_access_scopes c,
        cc_started_at = None\<rparr>"

definition authorize :: "memory_policy \<Rightarrow> client_context \<Rightarrow> connection_context res" where
  "authorize mp c =
     (case rbind (protocol_context c) (authorize_context mp) of
        Inr ctx \<Rightarrow> Inr ctx
      | Inl (UnknownMemoryClient m) \<Rightarrow>
          Inl (ServiceRequestError ''access_denied'' ''memory client is not authorized'')
      | Inl (PermissionError m) \<Rightarrow>
          Inl (ServiceRequestError ''access_denied'' ''no requested memory scope is authorized'')
      | Inl e \<Rightarrow> Inl (if is_value_error e then service_error ''invalid_context'' (exc_text e) else e))"

definition requested_scopes :: "connection_context \<Rightarrow> json \<Rightarrow> string list res" where
  "requested_scopes ctx requested =
     (if requested = JNull then Inr (cc_access_scopes ctx)
      else
        rbind (value_error_as_invalid (rbind (param_text requested ''scope'') validate_scope)) (\<lambda>scope.
        if scope \<notin> set (cc_access_scopes ctx)
        then Inl (ServiceRequestError ''access_denied'' ''requested memory scope is not authorized'')
        else Inr [scope]))"

section \<open>Writing\<close>

definition service_state_candidate :: "runtime \<Rightarrow> write_request \<Rightarrow> json \<Rightarrow> state_candidate option res" where
  "service_state_candidate rt w v =
     (case v of
        JNull \<Rightarrow> Inr None
      | JObj st \<Rightarrow>
          rbind (check_params st [''subject_key'', ''predicate_key''] [''object_value'', ''valid_from'']) (\<lambda>_.
          rbind (param_text (dict_get st ''subject_key'') ''state.subject_key'') (\<lambda>subject.
          rbind (param_text (dict_get st ''predicate_key'') ''state.predicate_key'') (\<lambda>predicate.
          rbind (param_optional_text (dict_get st ''object_value'') ''state.object_value'') (\<lambda>object.
          rbind (param_optional_text (dict_get st ''valid_from'') ''state.valid_from'') (\<lambda>valid_from.
          rbind (state_candidate_init rt
                   \<lparr>sc_content = wr_content w, sc_subject_key = subject, sc_predicate_key = predicate,
                    sc_object_value = object, sc_source_authority = wr_source_authority w,
                    sc_valid_from = valid_from, sc_memory_kind = ''state'', sc_scope = wr_scope w\<rparr>) (\<lambda>c.
          Inr (Some c)))))))
      | _ \<Rightarrow> invalid ''state must be an object'')"

definition service_write_request :: "runtime \<Rightarrow> connection_context \<Rightarrow> row \<Rightarrow> string \<Rightarrow> write_request res" where
  "service_write_request rt ctx params metadata =
     rbind (param_text (dict_get params ''idempotency_key'') ''idempotency_key'') (\<lambda>key.
     rbind (param_text (dict_get params ''content'') ''content'') (\<lambda>content.
     rbind (param_text (dict_get params ''source_type'') ''source_type'') (\<lambda>source_type.
     rbind (param_text (dict_get_or params ''category'' (JStr ''general'')) ''category'') (\<lambda>category.
     rbind (case dict_get_or params ''tags'' (JStr []) of JStr t \<Rightarrow> Inr t | _ \<Rightarrow> invalid ''tags must be a string'') (\<lambda>tags.
     rbind (param_number (dict_get params ''trust_score'') ''trust_score'' (1/2)) (\<lambda>trust.
     rbind (param_number (dict_get params ''source_authority'') ''source_authority'' (1/2)) (\<lambda>authority.
     rbind (param_optional_text (dict_get params ''source_uri'') ''source_uri'') (\<lambda>source_uri.
     rbind (param_optional_text (dict_get params ''observation_content'') ''observation_content'') (\<lambda>observation.
     rbind (param_optional_text (dict_get params ''asserted_by'') ''asserted_by'') (\<lambda>asserted_by.
     rbind (param_optional_text (dict_get params ''observed_at'') ''observed_at'') (\<lambda>observed_at.
     rbind (param_text (dict_get_or params ''scope'' (JStr ''private'')) ''scope'') (\<lambda>scope.
     rbind (param_text (dict_get_or params ''sensitivity'' (JStr ''normal'')) ''sensitivity'') (\<lambda>sensitivity.
     rbind (param_optional_text (dict_get params ''correction_status'') ''correction_status'') (\<lambda>correction.
     rbind (param_optional_text (dict_get params ''evidence_excerpt'') ''evidence_excerpt'') (\<lambda>excerpt.
     rbind (param_text (dict_get_or params ''relation'' (JStr ''supports'')) ''relation'') (\<lambda>relation.
     rbind (if dict_get params ''supersede_fact_id'' = JNull then Inr None
            else rbind (param_positive_int (dict_get params ''supersede_fact_id'') ''supersede_fact_id'')
                   (\<lambda>i. Inr (Some i))) (\<lambda>target.
     write_request_init rt
       \<lparr>wr_idempotency_key = key, wr_content = content, wr_source_type = source_type, wr_category = category,
        wr_tags = tags, wr_trust_score = trust, wr_source_authority = authority, wr_source_uri = source_uri,
        wr_observation_content = observation, wr_asserted_by = asserted_by,
        wr_performed_by = Some (cc_agent_id ctx), wr_observed_at = observed_at, wr_scope = scope,
        wr_sensitivity = sensitivity, wr_correction_status = correction, wr_evidence_excerpt = excerpt,
        wr_relation = relation, wr_metadata_json = metadata, wr_supersede_fact_id = target,
        wr_operation = ''add_fact''\<rparr> (json_loads metadata))))))))))))))))))"

text \<open>The \<open>except\<close> clauses of \<open>_write\<close>.\<close>

definition write_failure :: "exc \<Rightarrow> exc" where
  "write_failure e =
     (case e of
        ServiceRequestError code m \<Rightarrow> e
      | IdempotencyConflict m \<Rightarrow> service_error ''idempotency_conflict'' m
      | _ \<Rightarrow> if is_permission_error e \<or> is_value_error e
             then service_error ''invalid_params'' (exc_text e) else e)"

definition outcome_row :: "write_outcome \<Rightarrow> json \<Rightarrow> row" where
  "outcome_row w detail =
     [(''write_id'', JStr (wo_write_id w)), (''outcome'', JStr (wo_outcome w)),
      (''fact_id'', jint_opt (wo_fact_id w)), (''existing_fact_id'', jint_opt (wo_existing_fact_id w)),
      (''observation_id'', jint_opt (wo_observation_id w)), (''replayed'', JBool (wo_replayed w)),
      (''detail'', detail)]"

definition write_required :: "string list" where
  "write_required = [''idempotency_key'', ''content'', ''source_type'']"

definition write_optional :: "string list" where
  "write_optional =
     [''category'', ''tags'', ''trust_score'', ''source_authority'', ''source_uri'', ''observation_content'',
      ''asserted_by'', ''observed_at'', ''scope'', ''sensitivity'', ''correction_status'', ''evidence_excerpt'',
      ''relation'', ''metadata'', ''supersede_fact_id'', ''state'']"

definition service_write :: "'v service_env \<Rightarrow> connection_context \<Rightarrow> row \<Rightarrow> db \<Rightarrow> row res \<times> db" where
  "service_write env ctx params d =
     (let rt = we_runtime (sv_write env) in
      case rbind (check_params params write_required write_optional) (\<lambda>_.
           param_json_object (rt_float_repr rt) (dict_get params ''metadata'') ''metadata'') of
        Inl e \<Rightarrow> (Inl e, d)
      | Inr metadata \<Rightarrow>
          (case rbind (service_write_request rt ctx params metadata) (\<lambda>w.
                rbind (service_state_candidate rt w (dict_get params ''state'')) (\<lambda>c. Inr (w, c))) of
             Inl e \<Rightarrow> (Inl (write_failure e), d)
           | Inr (w, c) \<Rightarrow>
               (case memory_write (sv_write env) (service_fact_writer (we_clock (sv_write env))) ctx w c d of
                  (Inl e, d') \<Rightarrow> (Inl (write_failure e), d')
                | (Inr out, d') \<Rightarrow>
                    (case json_loads (wo_detail_json out) of
                       None \<Rightarrow> (Inl (ValueError ''Expecting value''), d')
                     | Some detail \<Rightarrow> (Inr (outcome_row out detail), d')))))"

section \<open>Rows of the store\<close>

definition fact_fields :: "string list" where
  "fact_fields =
     [''fact_id'', ''content'', ''category'', ''tags'', ''trust_score'', ''retrieval_count'', ''helpful_count'',
      ''created_at'', ''updated_at'', ''valid_from'', ''invalid_at'', ''superseded_by'', ''memory_kind'',
      ''subject_key'', ''predicate_key'', ''object_value'', ''object_entity_id'', ''confidence'',
      ''source_authority'', ''scope'', ''sensitivity'', ''correction_status'', ''schema_version'', ''conflict_group'']"

text \<open>\<open>dict(zip(_FACT_FIELDS, row))\<close> for a row of \<open>facts\<close>.\<close>

definition fact_row :: "fact \<Rightarrow> row" where
  "fact_row f = zip fact_fields
     [JInt (f_id f), JStr (f_content f), JStr (f_category f), JStr (f_tags f), JNum (f_trust_score f),
      JInt (f_retrieval_count f), JInt (f_helpful_count f), JStr (f_created_at f), JStr (f_updated_at f),
      jopt (f_valid_from f), jopt (f_invalid_at f), jint_opt (f_superseded_by f), jopt (f_memory_kind f),
      jopt (f_subject_key f), jopt (f_predicate_key f), jopt (f_object_value f), jint_opt (f_object_entity_id f),
      jnum_opt (f_confidence f), jnum_opt (f_source_authority f), JStr (f_scope f), JStr (f_sensitivity f),
      jopt (f_correction_status f), jint_opt (f_schema_version f), jopt (f_conflict_group f)]"

text \<open>
  A row of \<open>SELECT *\<close>: it also has the blob \<open>hrr_vector\<close>. Bytes are no JSON value, the reply that holds
  them fails when its frame is validated; the model fails here.
\<close>

definition full_fact_row :: "fact \<Rightarrow> row res" where
  "full_fact_row f =
     (case f_hrr_vector f of
        None \<Rightarrow> Inr (take 9 (fact_row f) @ (''hrr_vector'', JNull) # drop 9 (fact_row f))
      | Some b \<Rightarrow> Inl (TypeError ''bytes are not a JSON value''))"

definition historical_fact :: "db \<Rightarrow> int \<Rightarrow> string list \<Rightarrow> fact option" where
  "historical_fact d i scopes = first_row (\<lambda>f. f_id f = i \<and> f_scope f \<in> set scopes) (db_facts d)"

definition coalesce :: "string option \<Rightarrow> string \<Rightarrow> string" where
  "coalesce x y = (case x of None \<Rightarrow> y | Some s \<Rightarrow> s)"

definition slot_history :: "db \<Rightarrow> string list \<Rightarrow> string \<Rightarrow> string \<Rightarrow> int \<Rightarrow> fact list" where
  "slot_history d scopes subject predicate limit =
     take (nat limit) (sort_key (\<lambda>f. (coalesce (f_valid_from f) (f_created_at f), f_id f))
       (filter (\<lambda>f. f_scope f \<in> set scopes \<and> f_subject_key f = Some subject
                  \<and> f_predicate_key f = Some predicate) (db_facts d)))"

text \<open>Provenance rows of a fact joined with their observations in the given scopes.\<close>

definition evidence_join :: "db \<Rightarrow> int \<Rightarrow> string list \<Rightarrow> (provenance_row \<times> observation_row) list" where
  "evidence_join d i scopes =
     concat (map (\<lambda>p. map (\<lambda>ob. (p, ob))
         (filter (\<lambda>ob. o_id ob = p_observation_id p \<and> o_scope ob \<in> set scopes) (db_observations d)))
       (filter (\<lambda>p. p_fact_id p = i) (db_provenance d)))"

definition attribution_join :: "db \<Rightarrow> int \<Rightarrow> string list \<Rightarrow> (observation_row \<times> session_row) list" where
  "attribution_join d i scopes =
     concat (map (\<lambda>(p, ob). map (\<lambda>s. (ob, s))
         (filter (\<lambda>s. s_client_id s = o_client_id ob \<and> s_id s = o_session_id ob) (db_sessions d)))
       (evidence_join d i scopes))"

definition authorized_attribution :: "db \<Rightarrow> int \<Rightarrow> string list \<Rightarrow> json" where
  "authorized_attribution d i scopes =
     (case rev (sort_key (\<lambda>(ob, s). (o_recorded_at ob, o_id ob)) (attribution_join d i scopes)) of
        [] \<Rightarrow> JNull
      | (ob, s) # rest \<Rightarrow> JObj
          [(''performed_by'', jopt (o_performed_by ob)), (''agent_id'', JStr (s_agent_id s)),
           (''session_id'', JStr (o_session_id ob)), (''source_type'', JStr (o_source_type ob)),
           (''repository'', jopt (o_repository ob)), (''branch'', jopt (o_branch ob)),
           (''commit_sha'', jopt (o_commit_sha ob)), (''evidence_count'', JInt (int (length rest) + 1))])"

section \<open>Searching\<close>

definition score_fields :: "string list" where
  "score_fields = [''score'', ''fts_score'', ''jaccard_score'', ''dense_score'', ''trust_score_component'',
     ''memory_kind_score'', ''recency_score'']"

definition safe_fact :: "row \<Rightarrow> row" where
  "safe_fact r = concat (map (\<lambda>k. case map_of r k of None \<Rightarrow> [] | Some v \<Rightarrow> [(k, v)]) (fact_fields @ score_fields))"

text \<open>\<open>int(fact["fact_id"])\<close>; a retriever row has an integer there.\<close>

definition with_attribution :: "db \<Rightarrow> string list \<Rightarrow> row \<Rightarrow> row res" where
  "with_attribution d scopes f =
     (case map_of f ''fact_id'' of
        Some (JInt i) \<Rightarrow> Inr (dict_set ''attribution'' (authorized_attribution d i scopes) f)
      | _ \<Rightarrow> Inl (KeyError ''fact_id''))"

definition search_response :: "row list \<Rightarrow> row \<Rightarrow> bool \<Rightarrow> row" where
  "search_response fs retrieval truncated =
     [(''facts'', JArr (map JObj fs)), (''retrieval'', JObj retrieval), (''output_truncated'', JBool truncated)]"

text \<open>The loop that pops facts until the response fits.\<close>

function pop_facts :: "(rat \<Rightarrow> string) \<Rightarrow> int \<Rightarrow> row list \<Rightarrow> row \<Rightarrow> bool \<Rightarrow> row list \<times> bool" where
  "pop_facts fr cap fs retrieval truncated =
     (if fs \<noteq> [] \<and> cap < serialized_chars fr (search_response fs retrieval truncated)
      then pop_facts fr cap (butlast fs) retrieval True else (fs, truncated))"
  by auto
termination by (relation "measure (\<lambda>(fr, cap, fs, retrieval, truncated). length fs)") auto

declare pop_facts.simps [simp del]

definition bounded_search_response :: "(rat \<Rightarrow> string) \<Rightarrow> int \<Rightarrow> row list \<Rightarrow> row \<Rightarrow> bool \<Rightarrow> row" where
  "bounded_search_response fr cap fs0 retrieval truncated0 =
     (case pop_facts fr cap fs0 retrieval truncated0 of (fs, truncated) \<Rightarrow>
      let r1 = search_response fs retrieval truncated;
          r2 = (if cap < serialized_chars fr r1
                then search_response fs [(''output_truncated'', JBool True)] truncated else r1)
      in if cap < serialized_chars fr r2 then search_response fs [] truncated else r2)"

definition service_search :: "'v service_env \<Rightarrow> connection_context \<Rightarrow> row \<Rightarrow> db \<Rightarrow> row res" where
  "service_search env ctx params d =
     (let bounds = sv_bounds env in
      rbind (check_params params [''query''] [''category'', ''min_trust'', ''limit'']) (\<lambda>_.
      rbind (param_text (dict_get params ''query'') ''query'') (\<lambda>query.
      rbind (param_optional_text (dict_get params ''category'') ''category'') (\<lambda>category.
      rbind (param_number (dict_get params ''min_trust'') ''min_trust'' (ob_default_min_trust bounds)) (\<lambda>min_trust.
      rbind (param_limit (dict_get params ''limit'') 20 200) (\<lambda>requested_limit.
      let limit = min requested_limit (ob_search_max_results bounds);
          retriever = sv_retriever env d (cc_access_scopes ctx) in
      rbind (rv_search retriever query category min_trust (limit + 1)) (\<lambda>rows.
      rbind (map_res (\<lambda>r. with_attribution d (cc_access_scopes ctx) (safe_fact r)) (take (nat limit) rows)) (\<lambda>fs.
      let cut = map (truncate_fact_content (ob_max_fact_chars bounds)) fs in
      Inr (bounded_search_response (rt_float_repr (we_runtime (sv_write env))) (ob_search_max_total_chars bounds)
             (map fst cut) (rv_metadata retriever)
             (list_ex snd cut \<or> limit < requested_limit \<or> limit < int (length rows)))))))))))"

section \<open>Context packs\<close>

definition context_response :: "context_pack \<Rightarrow> row \<Rightarrow> bool \<Rightarrow> row" where
  "context_response p retrieval truncated =
     as_dict p @ [(''retrieval'', JObj retrieval), (''output_truncated'', JBool truncated)]"

definition pack_truncated :: "context_pack \<Rightarrow> bool" where
  "pack_truncated p = list_ex (\<lambda>f. case dict_get f ''context_truncated'' of
     JBool b \<Rightarrow> b | _ \<Rightarrow> False) (cp_facts p)"

definition service_pack :: "'v service_env \<Rightarrow> int \<Rightarrow> row list \<Rightarrow> context_pack res" where
  "service_pack env token_budget candidates =
     pack_context (sv_float env) candidates (JInt token_budget) (Some (ob_max_fact_chars (sv_bounds env)))
       (JInt (ob_context_max_results (sv_bounds env))) (JNum (ob_context_mmr_lambda (sv_bounds env)))"

function context_loop :: "'v service_env \<Rightarrow> int \<Rightarrow> row \<Rightarrow> row list \<Rightarrow> bool \<Rightarrow> row res" where
  "context_loop env token_budget metadata candidates truncated =
     (let fr = rt_float_repr (we_runtime (sv_write env)); cap = ob_context_max_total_chars (sv_bounds env) in
      case service_pack env token_budget candidates of
        Inl e \<Rightarrow> Inl e
      | Inr packed \<Rightarrow>
          let truncated' = truncated \<or> pack_truncated packed;
              r = context_response packed metadata truncated' in
          if serialized_chars fr r \<le> cap then Inr r
          else if candidates \<noteq> [] then context_loop env token_budget metadata (butlast candidates) True
          else
            let r2 = context_response packed [(''output_truncated'', JBool True)] truncated' in
            if serialized_chars fr r2 \<le> cap then Inr r2 else Inr (context_response packed [] truncated'))"
  by auto
termination by (relation "measure (\<lambda>(env, b, m, cs, t). length cs)") auto

declare context_loop.simps [simp del]

definition service_context :: "'v service_env \<Rightarrow> connection_context \<Rightarrow> row \<Rightarrow> db \<Rightarrow> row res" where
  "service_context env ctx params d =
     (let bounds = sv_bounds env in
      rbind (check_params params [''query'', ''token_budget''] [''scope'', ''min_trust'']) (\<lambda>_.
      rbind (param_text (dict_get params ''query'') ''query'') (\<lambda>query.
      rbind (param_token_budget (dict_get params ''token_budget'')) (\<lambda>token_budget.
      rbind (param_number (dict_get params ''min_trust'') ''min_trust'' (ob_default_min_trust bounds)) (\<lambda>min_trust.
      rbind (requested_scopes ctx (dict_get params ''scope'')) (\<lambda>scopes.
      let retriever = sv_retriever env d scopes; candidate_cap = ob_context_max_results bounds * 4 in
      rbind (rv_search retriever query None min_trust (candidate_cap + 1)) (\<lambda>rows.
      rbind (map_res (\<lambda>r. with_attribution d scopes
               (case map_of r ''_mmr_embedding'' of
                  None \<Rightarrow> safe_fact r
                | Some v \<Rightarrow> dict_set ''_mmr_embedding'' v (safe_fact r))) (take (nat candidate_cap) rows)) (\<lambda>candidates.
      context_loop env token_budget (rv_metadata retriever) candidates (candidate_cap < int (length rows))))))))))"

section \<open>Evidence, history and conflicts\<close>

definition evidence_row :: "provenance_row \<times> observation_row \<Rightarrow> row res" where
  "evidence_row = (\<lambda>(p, ob).
     case json_loads (o_metadata_json ob) of
       None \<Rightarrow> Inl (ValueError ''Expecting value'')
     | Some metadata \<Rightarrow> Inr
         [(''observation_id'', JInt (o_id ob)), (''client_id'', JStr (o_client_id ob)),
          (''session_id'', JStr (o_session_id ob)), (''source_type'', JStr (o_source_type ob)),
          (''source_uri'', jopt (o_source_uri ob)), (''project_root'', jopt (o_project_root ob)),
          (''repository'', jopt (o_repository ob)), (''branch'', jopt (o_branch ob)),
          (''commit_sha'', jopt (o_commit_sha ob)), (''content'', jopt (o_content ob)),
          (''asserted_by'', jopt (o_asserted_by ob)), (''performed_by'', jopt (o_performed_by ob)),
          (''observed_at'', jopt (o_observed_at ob)), (''recorded_at'', JStr (o_recorded_at ob)),
          (''scope'', JStr (o_scope ob)), (''sensitivity'', JStr (o_sensitivity ob)),
          (''redacted_at'', jopt (o_redacted_at ob)), (''metadata'', metadata),
          (''relation'', JStr (p_relation p)), (''evidence_excerpt'', jopt (p_evidence_excerpt p)),
          (''provenance_created_at'', JStr (p_created_at p))])"

definition not_found :: "string \<Rightarrow> 'a res" where
  "not_found message = Inl (ServiceRequestError ''not_found'' message)"

definition service_evidence :: "connection_context \<Rightarrow> row \<Rightarrow> db \<Rightarrow> row res" where
  "service_evidence ctx params d =
     rbind (check_params params [''fact_id''] [''limit'']) (\<lambda>_.
     rbind (param_positive_int (dict_get params ''fact_id'') ''fact_id'') (\<lambda>i.
     rbind (param_limit (dict_get params ''limit'') 100 200) (\<lambda>limit.
     case historical_fact d i (cc_access_scopes ctx) of
       None \<Rightarrow> not_found ''fact was not found''
     | Some f \<Rightarrow>
         rbind (map_res evidence_row (take (nat limit)
                  (sort_key (\<lambda>(p, ob). (p_created_at p, o_id ob)) (evidence_join d i (cc_access_scopes ctx))))) (\<lambda>ev.
         Inr [(''fact'', JObj (fact_row f)), (''evidence'', JArr (map JObj ev))]))))"

definition has_key :: "row \<Rightarrow> string \<Rightarrow> bool" where
  "has_key r k \<longleftrightarrow> k \<in> fst ` set r"

definition facts_response :: "row list \<Rightarrow> row" where
  "facts_response rows = [(''facts'', JArr (map JObj rows))]"

definition history_by_id :: "connection_context \<Rightarrow> int \<Rightarrow> int \<Rightarrow> db \<Rightarrow> row res" where
  "history_by_id ctx i limit d =
     (case historical_fact d i (cc_access_scopes ctx) of
        None \<Rightarrow> not_found ''fact was not found''
      | Some anchor \<Rightarrow>
          if truthy (f_subject_key anchor) \<and> truthy (f_predicate_key anchor)
          then Inr (facts_response (map fact_row (slot_history d [f_scope anchor]
                 (or_empty (f_subject_key anchor)) (or_empty (f_predicate_key anchor)) limit)))
          else rbind (map_res full_fact_row (take (nat limit)
                   (filter (\<lambda>f. f_scope f \<in> set (cc_access_scopes ctx)) (fact_history d i)))) (\<lambda>rows.
               Inr (facts_response rows)))"

definition history_by_slot :: "connection_context \<Rightarrow> row \<Rightarrow> int \<Rightarrow> db \<Rightarrow> row res" where
  "history_by_slot ctx params limit d =
     (if \<not> has_key params ''subject_key'' \<or> \<not> has_key params ''predicate_key''
      then invalid ''subject_key and predicate_key are both required''
      else
        rbind (requested_scopes ctx (dict_get params ''scope'')) (\<lambda>scopes.
        rbind (param_text (dict_get params ''subject_key'') ''subject_key'') (\<lambda>subject.
        rbind (param_text (dict_get params ''predicate_key'') ''predicate_key'') (\<lambda>predicate.
        Inr (facts_response (map fact_row (slot_history d scopes subject predicate limit)))))))"

definition service_history :: "connection_context \<Rightarrow> row \<Rightarrow> db \<Rightarrow> row res" where
  "service_history ctx params d =
     rbind (check_params params [] [''fact_id'', ''subject_key'', ''predicate_key'', ''scope'', ''limit'']) (\<lambda>_.
     let by_id = has_key params ''fact_id'';
         by_slot = has_key params ''subject_key'' \<or> has_key params ''predicate_key'' \<or> has_key params ''scope'' in
     if by_id = by_slot then invalid ''history requires either fact_id or subject_key and predicate_key''
     else
       rbind (param_limit (dict_get params ''limit'') 100 200) (\<lambda>limit.
       if by_id
       then rbind (param_positive_int (dict_get params ''fact_id'') ''fact_id'') (\<lambda>i. history_by_id ctx i limit d)
       else history_by_slot ctx params limit d))"

definition conflict_item :: "db \<Rightarrow> string \<Rightarrow> conflict_record \<Rightarrow> row" where
  "conflict_item d scope c =
     [(''conflict_id'', JStr (cr_conflict_id c)), (''scope'', JStr (cr_scope c)),
      (''subject_key'', JStr (cr_subject_key c)), (''predicate_key'', JStr (cr_predicate_key c)),
      (''member_fact_ids'', JArr (map JInt (cr_member_fact_ids c))), (''detected_at'', JStr (cr_detected_at c)),
      (''members'', JArr (concat (map (\<lambda>i. case historical_fact d i [scope] of
           None \<Rightarrow> [] | Some f \<Rightarrow> [JObj (fact_row f)]) (cr_member_fact_ids c))))]"

definition scope_conflicts :: "db \<Rightarrow> bool \<Rightarrow> string \<Rightarrow> row list res" where
  "scope_conflicts d unresolved scope =
     rbind (list_state_conflicts d scope unresolved) (\<lambda>records. Inr (map (conflict_item d scope) records))"

definition service_conflicts :: "connection_context \<Rightarrow> row \<Rightarrow> db \<Rightarrow> row res" where
  "service_conflicts ctx params d =
     rbind (check_params params [] [''scope'', ''unresolved_only'']) (\<lambda>_.
     rbind (requested_scopes ctx (dict_get params ''scope'')) (\<lambda>scopes.
     rbind (param_boolean (dict_get params ''unresolved_only'') ''unresolved_only'' True) (\<lambda>unresolved.
     rbind (map_res (scope_conflicts d unresolved) scopes) (\<lambda>per_scope.
     Inr [(''conflicts'', JArr (map JObj (concat per_scope)))]))))"

section \<open>Projections\<close>

definition service_changes :: "'v service_env \<Rightarrow> connection_context \<Rightarrow> row \<Rightarrow> db \<Rightarrow> row res" where
  "service_changes env ctx params d =
     rbind (check_params params [''since'', ''until''] [''scope'', ''limit'']) (\<lambda>_.
     rbind (requested_scopes ctx (dict_get params ''scope'')) (\<lambda>scopes.
     value_error_as_invalid (
       rbind (param_text (dict_get params ''since'') ''since'') (\<lambda>since.
       rbind (param_text (dict_get params ''until'') ''until'') (\<lambda>until.
       rbind (param_limit (dict_get params ''limit'') 100 200) (\<lambda>limit.
       changes (sv_projection env) since until scopes limit d))))))"

definition service_timeline :: "'v service_env \<Rightarrow> connection_context \<Rightarrow> row \<Rightarrow> db \<Rightarrow> row res" where
  "service_timeline env ctx params d =
     rbind (check_params params [''subject_or_query''] [''scope'', ''limit'']) (\<lambda>_.
     rbind (requested_scopes ctx (dict_get params ''scope'')) (\<lambda>scopes.
     value_error_as_invalid (
       rbind (param_text (dict_get params ''subject_or_query'') ''subject_or_query'') (\<lambda>query.
       rbind (param_limit (dict_get params ''limit'') 100 200) (\<lambda>limit.
       timeline (sv_projection env) query scopes limit d)))))"

definition service_entities :: "'v service_env \<Rightarrow> connection_context \<Rightarrow> row \<Rightarrow> db \<Rightarrow> row res" where
  "service_entities env ctx params d =
     rbind (check_params params [] [''scope'', ''min_facts'', ''limit'']) (\<lambda>_.
     rbind (requested_scopes ctx (dict_get params ''scope'')) (\<lambda>scopes.
     rbind (param_positive_int (dict_get_or params ''min_facts'' (JInt 1)) ''min_facts'') (\<lambda>min_facts.
     value_error_as_invalid (
       rbind (param_limit (dict_get params ''limit'') 100 200) (\<lambda>limit.
       entities (sv_projection env) scopes min_facts limit d)))))"

definition service_entity :: "'v service_env \<Rightarrow> connection_context \<Rightarrow> row \<Rightarrow> db \<Rightarrow> row res" where
  "service_entity env ctx params d =
     rbind (check_params params [''name''] [''scope'', ''limit'']) (\<lambda>_.
     rbind (requested_scopes ctx (dict_get params ''scope'')) (\<lambda>scopes.
     value_error_as_invalid (
       rbind (param_text (dict_get params ''name'') ''name'') (\<lambda>name.
       rbind (param_limit (dict_get params ''limit'') 100 200) (\<lambda>limit.
       entity_dossier (sv_projection env) name scopes limit d)))))"

section \<open>Resolving a conflict\<close>

definition resolution_row_json :: "conflict_resolution \<Rightarrow> string \<Rightarrow> row" where
  "resolution_row_json r scope =
     [(''resolution'', JObj
        [(''conflict_id'', JStr (cx_conflict_id r)), (''resolution_fact_id'', JInt (cx_resolution_fact_id r)),
         (''superseded_fact_ids'', JArr (map JInt (cx_superseded_fact_ids r))),
         (''resolved_by'', JStr (cx_resolved_by r)), (''reason'', JStr (cx_reason r)),
         (''resolved_at'', JStr (cx_resolved_at r)), (''scope'', JStr scope)])]"

text \<open>The transaction of \<open>_resolve_conflict\<close>; an exception rolls it back.\<close>

definition resolve_txn ::
  "'v write_env \<Rightarrow> connection_context \<Rightarrow> string \<Rightarrow> int \<Rightarrow> string \<Rightarrow> db \<Rightarrow> (row \<times> db) res" where
  "resolve_txn we ctx cid rid reason d =
     (let stamp = we_now we in
      case first_row (\<lambda>k. k_id k = cid \<and> k_scope k \<in> set (cc_access_scopes ctx) \<and> k_resolved_at k = None)
             (db_conflicts d) of
        None \<Rightarrow> not_found ''conflict was not found''
      | Some k \<Rightarrow>
          rbind (register_client ctx stamp d) (\<lambda>d1.
          rbind (register_session (we_runtime we) ctx stamp d1) (\<lambda>d2.
          rbind (resolve_state_conflict (we_runtime we) stamp cid rid (cc_agent_id ctx) reason (Some stamp)
                   (Some (cc_client_id ctx)) (Some (cc_session_id ctx)) (Some (cc_agent_id ctx)) d2) (\<lambda>(r, d3).
          rbind (case we_embedding_enqueue we of None \<Rightarrow> Inr d3 | Some enq \<Rightarrow> enq rid d3) (\<lambda>d4.
          Inr (resolution_row_json r (k_scope k), d4))))))"

definition resolve_failure :: "exc \<Rightarrow> exc" where
  "resolve_failure e =
     (case e of
        ServiceRequestError code m \<Rightarrow> e
      | _ \<Rightarrow> if is_value_error e \<or> is_runtime_error e
             then service_error ''invalid_resolution'' (exc_text e) else e)"

definition service_resolve_conflict ::
  "'v service_env \<Rightarrow> connection_context \<Rightarrow> row \<Rightarrow> db \<Rightarrow> row res \<times> db" where
  "service_resolve_conflict env ctx params d =
     (case rbind (check_params params [''conflict_id'', ''resolution_fact_id'', ''reason''] []) (\<lambda>_.
           rbind (guard_res (can_resolve_conflicts (we_policy (sv_write env)) (cc_client_id ctx))
                    (ServiceRequestError ''access_denied'' ''memory client is not authorized to resolve conflicts'')) (\<lambda>_.
           rbind (param_text (dict_get params ''conflict_id'') ''conflict_id'') (\<lambda>cid.
           rbind (param_positive_int (dict_get params ''resolution_fact_id'') ''resolution_fact_id'') (\<lambda>rid.
           rbind (param_text (dict_get params ''reason'') ''reason'') (\<lambda>reason.
           Inr (cid, rid, reason)))))) of
        Inl e \<Rightarrow> (Inl e, d)
      | Inr (cid, rid, reason) \<Rightarrow>
          (case resolve_txn (sv_write env) ctx cid rid reason d of
             Inl e \<Rightarrow> (Inl (resolve_failure e), d)
           | Inr (r, d') \<Rightarrow> (Inr r, d')))"

section \<open>Queueing a transcript\<close>

definition rejection_row :: "string \<Rightarrow> row" where
  "rejection_row reason = [(''outcome'', JStr ''rejected''), (''reason'', JStr reason), (''queue_id'', JNull)]"

definition queued_row :: "enqueue_result \<Rightarrow> string \<Rightarrow> row" where
  "queued_row r mode =
     [(''outcome'', JStr ''queued''), (''queue_id'', JInt (er_queue_id r)),
      (''payload_sha256'', JStr (er_payload_sha256 r)), (''replayed'', JBool (er_replayed r)),
      (''automatic_llm_extraction'', JStr mode)]"

definition extraction_screen :: "runtime \<Rightarrow> string \<Rightarrow> string \<Rightarrow> string \<Rightarrow> policy_decision option res" where
  "extraction_screen rt transcript scope metadata =
     rbind (write_request_init rt
       \<lparr>wr_idempotency_key = ''extraction-screen'', wr_content = transcript,
        wr_source_type = ''conversation_transcript'', wr_category = ''general'', wr_tags = [],
        wr_trust_score = 1/2, wr_source_authority = 1/2, wr_source_uri = None, wr_observation_content = None,
        wr_asserted_by = None, wr_performed_by = None, wr_observed_at = None, wr_scope = scope,
        wr_sensitivity = ''normal'', wr_correction_status = None, wr_evidence_excerpt = None,
        wr_relation = ''supports'', wr_metadata_json = metadata, wr_supersede_fact_id = None,
        wr_operation = ''add_fact''\<rparr> (json_loads metadata)) (\<lambda>w.
     Inr (default_credential_screen w []))"

definition enqueue_extraction :: "'v service_env \<Rightarrow> connection_context \<Rightarrow> row \<Rightarrow> db \<Rightarrow> (row \<times> db) res" where
  "enqueue_extraction env ctx params d =
     (let rt = we_runtime (sv_write env) in
      rbind (check_params params [''transcript'', ''source''] [''scope'', ''metadata'']) (\<lambda>_.
      case sv_enqueuer env of
        None \<Rightarrow> Inl (ServiceRequestError ''extraction_unavailable''
          ''durable extraction enqueue is not configured; automatic LLM extraction remains deferred'')
      | Some now \<Rightarrow>
          rbind (param_text (dict_get_or params ''scope'' (JStr ''private'')) ''scope'') (\<lambda>scope0.
          rbind (value_error_as_invalid (validate_scope scope0)) (\<lambda>scope.
          if scope \<notin> set (cc_access_scopes ctx)
          then Inl (ServiceRequestError ''access_denied'' ''extraction scope is not authorized'')
          else if scope = ''secret''
          then Inr (rejection_row ''secret durable extraction payloads are disabled'', d)
          else
            rbind (param_text (dict_get params ''transcript'') ''transcript'') (\<lambda>transcript.
            rbind (param_text (dict_get params ''source'') ''source'') (\<lambda>source.
            rbind (param_json_object (rt_float_repr rt) (dict_get params ''metadata'') ''metadata'') (\<lambda>metadata.
            rbind (extraction_screen rt transcript scope metadata) (\<lambda>decision.
            case decision of
              Some dec \<Rightarrow> Inr (rejection_row (pd_reason dec), d)
            | None \<Rightarrow>
                (case json_loads metadata of
                   Some (JObj kvs) \<Rightarrow>
                     rbind (enqueue_after_commit rt now False ctx transcript source scope kvs d) (\<lambda>(r, d').
                     Inr (queued_row r (sv_processing_mode env), d'))
                 | _ \<Rightarrow> Inl (ValueError ''Expecting value''))))))))))"

definition service_enqueue_extraction ::
  "'v service_env \<Rightarrow> connection_context \<Rightarrow> row \<Rightarrow> db \<Rightarrow> row res \<times> db" where
  "service_enqueue_extraction env ctx params d =
     (case enqueue_extraction env ctx params d of Inl e \<Rightarrow> (Inl e, d) | Inr (r, d') \<Rightarrow> (Inr r, d'))"

section \<open>Routing\<close>

datatype route =
    ReadRoute "connection_context \<Rightarrow> row \<Rightarrow> db \<Rightarrow> row res"
  | WriteRoute "connection_context \<Rightarrow> row \<Rightarrow> db \<Rightarrow> row res \<times> db"

definition routes :: "'v service_env \<Rightarrow> (string \<times> route) list" where
  "routes env =
     [(''memory.write'', WriteRoute (service_write env)), (''memory.search'', ReadRoute (service_search env)),
      (''memory.context'', ReadRoute (service_context env)), (''memory.evidence'', ReadRoute service_evidence),
      (''memory.history'', ReadRoute service_history), (''memory.changes'', ReadRoute (service_changes env)),
      (''memory.timeline'', ReadRoute (service_timeline env)), (''memory.entities'', ReadRoute (service_entities env)),
      (''memory.entity'', ReadRoute (service_entity env)), (''memory.conflicts'', ReadRoute service_conflicts),
      (''memory.resolve_conflict'', WriteRoute (service_resolve_conflict env)),
      (''memory.extraction.enqueue'', WriteRoute (service_enqueue_extraction env))]"

text \<open>The checks of \<open>handle\<close> before a route runs.\<close>

definition admit_request :: "'v service_env \<Rightarrow> client_context \<Rightarrow> request \<Rightarrow> (connection_context \<times> route) res" where
  "admit_request env c r =
     rbind (guard_res (rq_schema_version r = supported_schema_version)
              (ServiceRequestError ''incompatible_schema''
                (''request schema '' @ int_str (rq_schema_version r) @ ''; service schema ''
                 @ int_str supported_schema_version))) (\<lambda>_.
     rbind (reject_nested_identity ''params'' (JObj (rq_params r))) (\<lambda>_.
     rbind (authorize (we_policy (sv_write env)) c) (\<lambda>ctx.
     case map_of (routes env) (rq_method r) of
       None \<Rightarrow> Inl (ServiceRequestError ''unsupported_method'' (''unsupported service method: '' @ rq_method r))
     | Some rt \<Rightarrow> Inr (ctx, rt))))"

definition handle :: "'v service_env \<Rightarrow> client_context \<Rightarrow> request \<Rightarrow> db \<Rightarrow> json res \<times> db" where
  "handle env c r d =
     (case admit_request env c r of
        Inl e \<Rightarrow> (Inl e, d)
      | Inr (ctx, ReadRoute f) \<Rightarrow> (rbind (f ctx (rq_params r) d) (\<lambda>x. Inr (JObj x)), d)
      | Inr (ctx, WriteRoute f) \<Rightarrow>
          (case f ctx (rq_params r) d of (x, d') \<Rightarrow> (rbind x (\<lambda>y. Inr (JObj y)), d')))"

end
