(* ===== verification/Extraction_Processor.thy ===== *)
theory Extraction_Processor
  imports Service
begin

text \<open>
  \<open>extraction_processor.py\<close>: a worker claims a queued transcript under a fresh token, decodes its
  envelope, lets a model propose memories (or loads the proposals an earlier attempt stored), checks
  them, writes them through the request service and deletes the row; failures requeue or bury it.

  The model is an argument. Clock readings, the claim token, the clock readings of the heartbeats and
  what other connections commit between them are arguments too. A proposal's fields are JSON values:
  the host's adapter may put anything there.
\<close>

section \<open>Data\<close>

record extraction_job =
  xe_transcript :: string
  xe_source :: string
  xe_scope :: string
  xe_context :: client_context
  xe_metadata :: row

record extracted_memory =
  em_content :: json
  em_category :: json
  em_tags :: json
  em_trust_score :: json
  em_source_authority :: json
  em_evidence_excerpt :: json
  em_scope :: json
  em_sensitivity :: json
  em_state :: json
  em_metadata :: json

record extraction_result =
  xo_outcome :: string
  xo_queue_id :: "int option"
  xo_writes :: nat
  xo_attempts :: int
  xo_error :: "string option"

record processor =
  ep_worker_id :: string
  ep_identity :: string
  ep_max_attempts :: int
  ep_lease_seconds :: rat
  ep_heartbeat_seconds :: rat
  ep_retry_delay :: rat

definition max_extracted_memories :: nat where "max_extracted_memories = 32"
definition min_typed_confidence :: rat where "min_typed_confidence = 4/5"

definition typed_kinds :: "string list" where
  "typed_kinds = [''state'', ''preference'', ''commitment'', ''event'']"

definition typed_fields :: "string list" where
  "typed_fields = [''kind'', ''subject'', ''predicate'', ''object'', ''value'', ''occurred_at'', ''valid_from'',
     ''negation'', ''confidence'']"

definition safe_error_codes :: "string list" where
  "safe_error_codes =
     [''adapter_exit'', ''adapter_cleanup_failed'', ''adapter_input_too_large'', ''adapter_invalid_output'',
      ''adapter_output_too_large'', ''adapter_timeout'', ''adapter_unavailable'', ''extractor_failed'',
      ''invalid_envelope'', ''invalid_proposal'', ''invalid_snapshot'', ''proposal_credential_rejected'',
      ''proposal_limit'', ''proposal_scope_rejected'', ''proposal_sensitivity_rejected'',
      ''snapshot_hash_mismatch'', ''write_policy_rejected'']"

text \<open>
  The constructor, on a queue table with every column of the record \<open>queue_row\<close>; the default
  heartbeat is a third of the lease and at most half a minute.
\<close>

definition processor_init :: "rat option \<Rightarrow> bool \<Rightarrow> processor \<Rightarrow> processor res" where
  "processor_init heartbeat in_transaction p =
     rbind (guard_res (py_strip (ep_identity p) \<noteq> []) (ValueError ''extractor identity must be a non-empty string'')) (\<lambda>_.
     rbind (guard_res (0 < ep_max_attempts p \<and> 0 < ep_lease_seconds p \<and> 0 \<le> ep_retry_delay p)
              (ValueError ''invalid extraction retry/lease configuration'')) (\<lambda>_.
     let beat = (case heartbeat of None \<Rightarrow> min 30 (ep_lease_seconds p / 3) | Some h \<Rightarrow> h) in
     rbind (guard_res (0 < beat \<and> beat < ep_lease_seconds p)
              (ValueError ''heartbeat_seconds must be positive and shorter than lease_seconds'')) (\<lambda>_.
     rbind (guard_res (\<not> in_transaction) (RuntimeError ''ExtractionProcessor requires an idle connection'')) (\<lambda>_.
     Inr (p\<lparr>ep_heartbeat_seconds := beat\<rparr>)))))"

definition permanent :: "string \<Rightarrow> string \<Rightarrow> 'a res" where
  "permanent message code = Inl (PermanentExtractionError message code)"

text \<open>The attribute \<open>error_code\<close> of an exception, filtered by the allowlist.\<close>

definition error_code :: "exc \<Rightarrow> string option" where
  "error_code e = (case e of PermanentExtractionError m c \<Rightarrow> Some c | ExtractorError c \<Rightarrow> c | _ \<Rightarrow> None)"

definition safe_code :: "string option \<Rightarrow> string" where
  "safe_code candidate =
     (case candidate of
        None \<Rightarrow> ''extractor_failed''
      | Some c \<Rightarrow> if c \<in> set safe_error_codes then c else ''extractor_failed'')"

section \<open>Leases\<close>

definition lease_expired :: "rat \<Rightarrow> queue_row \<Rightarrow> bool" where
  "lease_expired now r \<longleftrightarrow> q_status r = QProcessing \<and>
     (case q_lease_until r of None \<Rightarrow> False | Some u \<Rightarrow> u \<le> now)"

definition bury_expired :: "processor \<Rightarrow> rat \<Rightarrow> db \<Rightarrow> db" where
  "bury_expired p now d =
     update_queue (\<lambda>r. lease_expired now r \<and> ep_max_attempts p \<le> q_attempts r)
       (\<lambda>r. r\<lparr>q_status := QDead, q_last_error := Some ''attempts_exhausted'', q_lease_owner := None,
              q_lease_until := None, q_lease_token := None\<rparr>) d"

definition claimable :: "processor \<Rightarrow> rat \<Rightarrow> queue_row \<Rightarrow> bool" where
  "claimable p now r \<longleftrightarrow> q_attempts r < ep_max_attempts p
     \<and> (case q_not_before r of None \<Rightarrow> True | Some t \<Rightarrow> t \<le> now)
     \<and> (q_status r = QPending \<or> lease_expired now r)"

record claimed_transcript =
  ct_id :: int
  ct_payload :: string
  ct_digest :: string
  ct_attempts :: int
  ct_token :: string

definition claim_transcript ::
  "runtime \<Rightarrow> processor \<Rightarrow> rat \<Rightarrow> string \<Rightarrow> db \<Rightarrow> claimed_transcript option res \<times> db" where
  "claim_transcript rt p now token d =
     (let d1 = bury_expired p now d in
      case first_row (claimable p now) (queue_order d1) of
        None \<Rightarrow> (Inr None, d1)
      | Some r \<Rightarrow>
          let P = (\<lambda>x. q_id x = q_id r \<and> q_attempts x < ep_max_attempts p);
              attempts = q_attempts r + 1 in
          if rowcount P (db_queue d1) \<noteq> 1 then (Inl (RuntimeError ''extraction claim was lost''), d)
          else
            (Inr (Some \<lparr>ct_id = q_id r, ct_payload = q_payload r,
                ct_digest = (if truthy (q_payload_hash r) then or_empty (q_payload_hash r) else rt_sha256 rt (q_payload r)),
                ct_attempts = attempts, ct_token = token\<rparr>),
             update_queue P (\<lambda>x. x\<lparr>q_status := QProcessing, q_attempts := attempts,
                q_lease_owner := Some (ep_worker_id p), q_lease_until := Some (now + ep_lease_seconds p),
                q_lease_token := Some token\<rparr>) d1))"

text \<open>The fence of every later statement: id, status, owner and token.\<close>

definition fenced :: "processor \<Rightarrow> int \<Rightarrow> string \<Rightarrow> queue_row \<Rightarrow> bool" where
  "fenced p i token r \<longleftrightarrow> q_id r = i \<and> q_status r = QProcessing
     \<and> q_lease_owner r = Some (ep_worker_id p) \<and> q_lease_token r = Some token"

definition complete_transcript :: "processor \<Rightarrow> int \<Rightarrow> string \<Rightarrow> db \<Rightarrow> unit res \<times> db" where
  "complete_transcript p i token d =
     ((if rowcount (fenced p i token) (db_queue d) \<noteq> 1
       then Inl (RuntimeError ''extraction lease was lost before completion'') else Inr ()),
      d\<lparr>db_queue := delete_where (fenced p i token) (db_queue d)\<rparr>)"

definition renew_lease :: "processor \<Rightarrow> int \<Rightarrow> string \<Rightarrow> rat \<Rightarrow> db \<Rightarrow> unit res \<times> db" where
  "renew_lease p i token now d =
     (let P = (\<lambda>r. fenced p i token r \<and> (case q_lease_until r of None \<Rightarrow> False | Some u \<Rightarrow> now < u)) in
      ((if rowcount P (db_queue d) \<noteq> 1
        then Inl (RuntimeError ''extraction lease was lost before renewal'') else Inr ()),
       update_queue P (\<lambda>r. r\<lparr>q_lease_until := Some (now + ep_lease_seconds p)\<rparr>) d))"

definition fail_transcript ::
  "processor \<Rightarrow> int \<Rightarrow> string \<Rightarrow> string \<Rightarrow> bool \<Rightarrow> rat \<Rightarrow> db \<Rightarrow> int res \<times> db" where
  "fail_transcript p i token code is_permanent now d =
     (case first_row (fenced p i token) (db_queue d) of
        None \<Rightarrow> (Inl (RuntimeError ''extraction lease was lost while recording failure''), d)
      | Some row \<Rightarrow>
          let attempts = q_attempts row; dead = is_permanent \<or> ep_max_attempts p \<le> attempts in
          (Inr attempts,
           update_queue (\<lambda>r. q_id r = i \<and> q_lease_owner r = Some (ep_worker_id p) \<and> q_lease_token r = Some token)
             (\<lambda>r. r\<lparr>q_attempts := attempts, q_last_error := Some (safe_code (Some code)),
                    q_status := (if dead then QDead else QPending),
                    q_not_before := (if dead then None else Some (now + ep_retry_delay p)),
                    q_lease_owner := None, q_lease_until := None, q_lease_token := None\<rparr>) d))"

definition load_snapshot :: "processor \<Rightarrow> int \<Rightarrow> string \<Rightarrow> db \<Rightarrow> (string \<times> string) option res" where
  "load_snapshot p i token d =
     (case first_row (fenced p i token) (db_queue d) of
        None \<Rightarrow> Inl (RuntimeError ''extraction lease was lost before snapshot load'')
      | Some row \<Rightarrow>
          (case (q_proposal_json row, q_proposal_hash row) of
             (None, None) \<Rightarrow> Inr None
           | (Some j, Some h) \<Rightarrow> Inr (Some (j, h))
           | _ \<Rightarrow> permanent ''proposal snapshot is inconsistent'' ''invalid_snapshot''))"

definition persist_snapshot :: "processor \<Rightarrow> int \<Rightarrow> string \<Rightarrow> string \<times> string \<Rightarrow> db \<Rightarrow> unit res \<times> db" where
  "persist_snapshot p i token = (\<lambda>(j, h) d.
     let P = (\<lambda>r. fenced p i token r \<and> q_proposal_json r = None \<and> q_proposal_hash r = None) in
     if rowcount P (db_queue d) \<noteq> 1
     then (Inl (RuntimeError ''extraction lease was lost before snapshot persistence''), d)
     else (Inr (), update_queue P (\<lambda>r. r\<lparr>q_proposal_json := Some j, q_proposal_hash := Some h\<rparr>) d))"

section \<open>The envelope\<close>

text \<open>\<open>repr\<close> and \<open>str\<close> of a decoded value.\<close>

primrec repr_json :: "(rat \<Rightarrow> string) \<Rightarrow> json \<Rightarrow> string" where
  "repr_json fr JNull = ''None''"
| "repr_json fr (JBool b) = (if b then ''True'' else ''False'')"
| "repr_json fr (JInt i) = int_str i"
| "repr_json fr (JNum q) = fr q"
| "repr_json fr (JStr s) = py_repr s"
| "repr_json fr (JArr vs) = ''['' @ py_join '', '' (map (repr_json fr) vs) @ '']''"
| "repr_json fr (JObj kvs) =
     ''{'' @ py_join '', '' (map (\<lambda>(k, v). py_repr k @ '': '' @ v) (map (map_prod id (repr_json fr)) kvs)) @ ''}''"

definition str_json :: "(rat \<Rightarrow> string) \<Rightarrow> json \<Rightarrow> string" where
  "str_json fr v = (case v of JStr s \<Rightarrow> s | _ \<Rightarrow> repr_json fr v)"

text \<open>Python compares numbers and booleans by value.\<close>

fun num_value :: "json \<Rightarrow> rat option" where
  "num_value (JInt i) = Some (of_int i)"
| "num_value (JNum q) = Some q"
| "num_value (JBool b) = Some (if b then 1 else 0)"
| "num_value v = None"

definition py_eq :: "json \<Rightarrow> json \<Rightarrow> bool" where
  "py_eq v w = (case (num_value v, num_value w) of (Some x, Some y) \<Rightarrow> x = y | _ \<Rightarrow> v = w)"

text \<open>\<open>d[k]\<close>\<close>

definition dict_item :: "row \<Rightarrow> string \<Rightarrow> json res" where
  "dict_item d k = (case map_of d k of None \<Rightarrow> Inl (KeyError k) | Some v \<Rightarrow> Inr v)"

definition envelope_of :: "(rat \<Rightarrow> string) \<Rightarrow> row \<Rightarrow> extraction_job res" where
  "envelope_of fr data =
     rbind (guard_res (py_eq (dict_get data ''version'') (JInt 1))
              (ValueError ''unsupported extraction envelope version'')) (\<lambda>_.
     rbind (dict_item data ''provenance'') (\<lambda>provenance.
     rbind (case provenance of JObj kvs \<Rightarrow> Inr () | _ \<Rightarrow> Inl (ValueError ''provenance must be an object'')) (\<lambda>_.
     rbind (case dict_get_or data ''metadata'' (JObj []) of
              JObj kvs \<Rightarrow> Inr kvs | _ \<Rightarrow> Inl (ValueError ''metadata must be an object'')) (\<lambda>metadata.
     rbind (validate_scope (str_json fr (dict_get_or data ''scope'' (JStr ''private'')))) (\<lambda>scope.
     rbind (client_context_from provenance) (\<lambda>context.
     rbind (guard_res (scope \<in> set (px_access_scopes context) \<and> scope \<noteq> ''secret'')
              (ValueError ''extraction scope is unauthorized or secret'')) (\<lambda>_.
     rbind (dict_item data ''transcript'') (\<lambda>transcript.
     rbind (dict_item data ''source'') (\<lambda>source.
     let t = py_strip (str_json fr transcript); s = py_strip (str_json fr source) in
     rbind (guard_res (t \<noteq> [] \<and> s \<noteq> []) (ValueError ''transcript and source must be non-empty'')) (\<lambda>_.
     Inr \<lparr>xe_transcript = t, xe_source = s, xe_scope = scope, xe_context = context,
          xe_metadata = metadata\<rparr>))))))))))"

text \<open>\<open>except (KeyError, TypeError, ValueError)\<close>\<close>

fun is_lookup_or_value_error :: "exc \<Rightarrow> bool" where
  "is_lookup_or_value_error (KeyError k) = True"
| "is_lookup_or_value_error (TypeError m) = True"
| "is_lookup_or_value_error e = is_value_error e"

definition as_permanent :: "(exc \<Rightarrow> string) \<Rightarrow> string \<Rightarrow> 'a res \<Rightarrow> 'a res" where
  "as_permanent message code r =
     (case r of
        Inr x \<Rightarrow> Inr x
      | Inl e \<Rightarrow> if is_lookup_or_value_error e then permanent (message e) code else Inl e)"

definition envelope_message :: "exc \<Rightarrow> string" where
  "envelope_message e =
     ''invalid extraction envelope: '' @ (case e of KeyError k \<Rightarrow> py_repr k | TypeError m \<Rightarrow> m | _ \<Rightarrow> exc_text e)"

definition decode_envelope :: "(rat \<Rightarrow> string) \<Rightarrow> string \<Rightarrow> extraction_job res" where
  "decode_envelope fr payload =
     as_permanent envelope_message ''invalid_envelope''
       (case json_loads payload of
          None \<Rightarrow> Inl (ValueError ''Expecting value'')
        | Some (JObj data) \<Rightarrow> envelope_of fr data
        | Some v \<Rightarrow> Inl (ValueError ''unsupported extraction envelope version''))"

section \<open>Typed fields\<close>

text \<open>\<open>value in {...}\<close> for a set of texts: arrays and objects are not hashable.\<close>

definition in_texts :: "json \<Rightarrow> string list \<Rightarrow> bool res" where
  "in_texts v names =
     (case v of
        JArr vs \<Rightarrow> Inl (TypeError ''unhashable type'')
      | JObj kvs \<Rightarrow> Inl (TypeError ''unhashable type'')
      | JStr s \<Rightarrow> Inr (s \<in> set names)
      | _ \<Rightarrow> Inr False)"

text \<open>The confidence where it is a number within the bounds; \<open>float\<close> of a huge integer overflows.\<close>

definition typed_confidence :: "json \<Rightarrow> rat option res" where
  "typed_confidence v =
     (let bounded = (\<lambda>q. if min_typed_confidence \<le> q \<and> q \<le> 1 then Some q else None) in
      case v of
        JInt i \<Rightarrow> if float_overflows i then Inl (OverflowError ''int too large to convert to float'')
                   else Inr (bounded (of_int i))
      | JNum q \<Rightarrow> Inr (bounded q)
      | _ \<Rightarrow> Inr None)"

text \<open>The object of a typed proposal: a negated one has none, any other has a text.\<close>

definition typed_object :: "bool \<Rightarrow> json \<Rightarrow> string option option" where
  "typed_object negation v =
     (if negation then (if v = JNull then Some None else None)
      else (case v of JStr s \<Rightarrow> if py_strip s = [] then None else Some (Some (py_strip s)) | _ \<Rightarrow> None))"

definition typed_valid_from :: "json \<Rightarrow> string option option" where
  "typed_valid_from v =
     (case v of
        JNull \<Rightarrow> Some None
      | JStr s \<Rightarrow> if py_strip s = [] then None else Some (Some s)
      | _ \<Rightarrow> None)"

text \<open>The keys of the slot; the slot type's own constructor validates the timestamp.\<close>

definition typed_keys ::
  "runtime \<Rightarrow> string \<Rightarrow> json \<Rightarrow> json \<Rightarrow> string option \<Rightarrow> string option \<Rightarrow> (string \<times> string) option" where
  "typed_keys rt content subject predicate object valid_from =
     (case (subject, predicate) of
        (JStr s, JStr t) \<Rightarrow>
          (case rbind (normalize_subject_key s) (\<lambda>sk.
                rbind (normalize_predicate_key t) (\<lambda>pk.
                rbind (state_candidate_init rt
                         \<lparr>sc_content = content, sc_subject_key = sk, sc_predicate_key = pk,
                          sc_object_value = object, sc_source_authority = 1/2, sc_valid_from = valid_from,
                          sc_memory_kind = ''state'', sc_scope = ''private''\<rparr>) (\<lambda>_.
                Inr (sk, pk)))) of
             Inr keys \<Rightarrow> Some keys
           | Inl e \<Rightarrow> None)
      | _ \<Rightarrow> None)"

record typed_proposal =
  tp_confidence :: rat
  tp_kind :: string
  tp_negation :: bool
  tp_object_value :: "string option"
  tp_predicate_key :: string
  tp_subject_key :: string
  tp_valid_from :: "string option"

definition typed_row :: "typed_proposal \<Rightarrow> row" where
  "typed_row t =
     [(''confidence'', JNum (tp_confidence t)), (''kind'', JStr (tp_kind t)),
      (''negation'', JBool (tp_negation t)), (''object_value'', jopt (tp_object_value t)),
      (''predicate_key'', JStr (tp_predicate_key t)), (''subject_key'', JStr (tp_subject_key t)),
      (''valid_from'', jopt (tp_valid_from t))]"

text \<open>What the fields give once kind, confidence and negation are accepted.\<close>

definition typed_of ::
  "runtime \<Rightarrow> row \<Rightarrow> string \<Rightarrow> string \<Rightarrow> rat \<Rightarrow> bool \<Rightarrow> typed_proposal option" where
  "typed_of rt value content kind confidence negation =
     (if has_key value ''object'' \<and> has_key value ''value'' then None
      else if has_key value ''occurred_at'' \<and> has_key value ''valid_from'' then None
      else
        Option.bind (typed_object negation (dict_get_or value ''object'' (dict_get value ''value''))) (\<lambda>object.
        Option.bind (typed_valid_from (dict_get_or value ''valid_from'' (dict_get value ''occurred_at''))) (\<lambda>valid_from.
        Option.bind (typed_keys rt content (dict_get value ''subject'') (dict_get value ''predicate'') object valid_from)
          (\<lambda>(subject_key, predicate_key).
        Some \<lparr>tp_confidence = confidence, tp_kind = kind, tp_negation = negation, tp_object_value = object,
              tp_predicate_key = predicate_key, tp_subject_key = subject_key,
              tp_valid_from = map_option py_strip valid_from\<rparr>))))"

definition normalize_typed_fields :: "runtime \<Rightarrow> json \<Rightarrow> string \<Rightarrow> typed_proposal option res" where
  "normalize_typed_fields rt v content =
     (case v of
        JObj value \<Rightarrow>
          if value = [] \<or> \<not> fst ` set value \<subseteq> set typed_fields then Inr None
          else
            rbind (in_texts (dict_get value ''kind'') typed_kinds) (\<lambda>known.
            if \<not> known then Inr None
            else
              rbind (typed_confidence (dict_get value ''confidence'')) (\<lambda>confidence.
              case (confidence, dict_get value ''kind'', dict_get_or value ''negation'' (JBool False)) of
                (Some q, JStr kind, JBool negation) \<Rightarrow> Inr (typed_of rt value content kind q negation)
              | _ \<Rightarrow> Inr None))
      | _ \<Rightarrow> Inr None)"

definition typed_row_keys :: "string list" where
  "typed_row_keys =
     [''confidence'', ''kind'', ''negation'', ''object_value'', ''predicate_key'', ''subject_key'', ''valid_from'']"

text \<open>A stored typed payload is accepted when normalising it gives it back; the result is that payload.\<close>

definition is_normalized_typed_fields :: "runtime \<Rightarrow> json \<Rightarrow> bool res" where
  "is_normalized_typed_fields rt v =
     (case v of
        JObj value \<Rightarrow>
          if fst ` set value \<noteq> set typed_row_keys then Inr False
          else
            rbind (normalize_typed_fields rt (JObj
                     [(''confidence'', dict_get value ''confidence''), (''kind'', dict_get value ''kind''),
                      (''negation'', dict_get value ''negation''), (''subject'', dict_get value ''subject_key''),
                      (''predicate'', dict_get value ''predicate_key''), (''value'', dict_get value ''object_value''),
                      (''valid_from'', dict_get value ''valid_from'')]) ''snapshot validation'') (\<lambda>n.
            case n of
              None \<Rightarrow> Inr False
            | Some t \<Rightarrow> Inr (list_all (\<lambda>k. py_eq (dict_get (typed_row t) k) (dict_get value k)) typed_row_keys))
      | _ \<Rightarrow> Inr False)"

section \<open>Snapshots\<close>

text \<open>One proposal of the model, as it is stored. \<open>None\<close> is an object of another class.\<close>

definition proposal_scope_ok :: "string \<Rightarrow> json \<Rightarrow> unit res" where
  "proposal_scope_ok scope v =
     (case v of
        JNull \<Rightarrow> Inr ()
      | JStr s \<Rightarrow>
          (case validate_scope s of
             Inl e \<Rightarrow> permanent ''proposal scope is invalid'' ''proposal_scope_rejected''
           | Inr s' \<Rightarrow>
               if s' \<noteq> scope
               then permanent ''automatic extraction cannot change envelope scope'' ''proposal_scope_rejected''
               else Inr ())
      | _ \<Rightarrow> permanent ''proposal scope is invalid'' ''proposal_scope_rejected'')"

definition proposal_text :: "json \<Rightarrow> string \<Rightarrow> string res" where
  "proposal_text v message =
     (case v of
        JStr s \<Rightarrow> if py_strip s = [] then permanent message ''invalid_proposal'' else Inr (py_strip s)
      | _ \<Rightarrow> permanent message ''invalid_proposal'')"

definition snapshot_item :: "runtime \<Rightarrow> string \<Rightarrow> extracted_memory option \<Rightarrow> row res" where
  "snapshot_item rt scope proposal =
     (case proposal of
        None \<Rightarrow> permanent ''extractor returned an invalid proposal'' ''invalid_proposal''
      | Some m \<Rightarrow>
          rbind (proposal_text (em_content m) ''proposal content must be non-empty text'') (\<lambda>content.
          rbind (proposal_scope_ok scope (em_scope m)) (\<lambda>_.
          rbind (in_texts (em_sensitivity m) [''normal'', ''sensitive'']) (\<lambda>permitted.
          rbind (if permitted then Inr ()
                 else permanent ''proposal sensitivity is not permitted'' ''proposal_sensitivity_rejected'') (\<lambda>_.
          rbind (proposal_text (em_category m) ''proposal category must be non-empty text'') (\<lambda>category.
          rbind (case em_tags m of JStr t \<Rightarrow> Inr () | _ \<Rightarrow> permanent ''proposal tags must be text'' ''invalid_proposal'') (\<lambda>_.
          rbind (case em_evidence_excerpt m of
                   JNull \<Rightarrow> Inr () | JStr t \<Rightarrow> Inr ()
                 | _ \<Rightarrow> permanent ''proposal evidence excerpt must be text'' ''invalid_proposal'') (\<lambda>_.
          rbind (normalize_typed_fields rt (em_state m) content) (\<lambda>typed.
          Inr ([(''category'', JStr category), (''content'', JStr content),
                (''evidence_excerpt'', em_evidence_excerpt m), (''sensitivity'', em_sensitivity m),
                (''tags'', em_tags m)]
               @ (case typed of None \<Rightarrow> [] | Some t \<Rightarrow> [(''typed'', JObj (typed_row t))])))))))))))"

definition snapshot_json :: "string \<Rightarrow> row list \<Rightarrow> json" where
  "snapshot_json identity items =
     JObj [(''extractor_identity'', JStr identity), (''proposals'', JArr (map JObj items)), (''version'', JInt 1)]"

definition make_snapshot ::
  "runtime \<Rightarrow> processor \<Rightarrow> extracted_memory option list \<Rightarrow> extraction_job \<Rightarrow> (string \<times> string) res" where
  "make_snapshot rt p proposals job =
     (if max_extracted_memories < length proposals
      then permanent ''extractor returned too many memories'' ''proposal_limit''
      else
        rbind (map_res (snapshot_item rt (xe_scope job)) proposals) (\<lambda>items.
        let j = json_dumps (rt_float_repr rt) canonical_unicode (snapshot_json (ep_identity p) items)
        in Inr (j, rt_sha256 rt j)))"

text \<open>Reading a stored snapshot: its hash, its canonical form, its fields.\<close>

definition bad_snapshot :: "string \<Rightarrow> 'a res" where
  "bad_snapshot message = permanent message ''invalid_snapshot''"

definition base_fields :: "string list" where
  "base_fields = [''category'', ''content'', ''evidence_excerpt'', ''sensitivity'', ''tags'']"

definition snapshot_proposals :: "runtime \<Rightarrow> string \<Rightarrow> string \<Rightarrow> (string \<times> json list) res" where
  "snapshot_proposals rt j h =
     (if rt_sha256 rt j \<noteq> h then permanent ''proposal snapshot hash does not match'' ''snapshot_hash_mismatch''
      else
        (case json_loads j of
           None \<Rightarrow> bad_snapshot ''proposal snapshot is malformed''
         | Some v \<Rightarrow>
             if json_dumps (rt_float_repr rt) canonical_unicode v \<noteq> j
             then bad_snapshot ''proposal snapshot is not canonical''
             else
               (case v of
                  JObj snapshot \<Rightarrow>
                    if \<not> py_eq (dict_get snapshot ''version'') (JInt 1)
                    then bad_snapshot ''proposal snapshot version is unsupported''
                    else
                      (case (dict_get snapshot ''extractor_identity'', dict_get snapshot ''proposals'') of
                         (JStr identity, JArr proposals) \<Rightarrow>
                           if py_strip identity = [] then bad_snapshot ''proposal snapshot is malformed''
                           else if max_extracted_memories < length proposals
                           then permanent ''proposal snapshot exceeds proposal limit'' ''proposal_limit''
                           else Inr (identity, proposals)
                       | _ \<Rightarrow> bad_snapshot ''proposal snapshot is malformed'')
                | _ \<Rightarrow> bad_snapshot ''proposal snapshot is not canonical'')))"

record stored_proposal =
  sp_content :: string
  sp_category :: string
  sp_tags :: string
  sp_excerpt :: "string option"
  sp_sensitivity :: string
  sp_typed :: "row option"

definition nonempty_text :: "json \<Rightarrow> string option" where
  "nonempty_text v = (case v of JStr s \<Rightarrow> if s = [] then None else Some s | _ \<Rightarrow> None)"

text \<open>The fields the first operands of the \<open>or\<close> accept: content, category, tags and excerpt.\<close>

definition stored_texts :: "row \<Rightarrow> (string \<times> string \<times> string \<times> string option) option" where
  "stored_texts r =
     Option.bind (nonempty_text (dict_get r ''content'')) (\<lambda>content.
     Option.bind (nonempty_text (dict_get r ''category'')) (\<lambda>category.
     Option.bind (case dict_get r ''tags'' of JStr t \<Rightarrow> Some t | _ \<Rightarrow> None) (\<lambda>tags.
     Option.bind (if dict_get r ''evidence_excerpt'' = JNull then Some None
                  else map_option Some (nonempty_text (dict_get r ''evidence_excerpt''))) (\<lambda>excerpt.
     Some (content, category, tags, excerpt)))))"

definition stored_typed :: "runtime \<Rightarrow> row \<Rightarrow> row option res" where
  "stored_typed rt r =
     (if dict_get r ''typed'' = JNull then Inr None
      else
        rbind (is_normalized_typed_fields rt (dict_get r ''typed'')) (\<lambda>ok.
        case dict_get r ''typed'' of
          JObj t \<Rightarrow> if ok then Inr (Some t) else bad_snapshot ''proposal snapshot contains invalid typed fields''
        | _ \<Rightarrow> bad_snapshot ''proposal snapshot contains invalid typed fields''))"

definition read_proposal :: "runtime \<Rightarrow> json \<Rightarrow> stored_proposal res" where
  "read_proposal rt v =
     (case v of
        JObj r \<Rightarrow>
          if \<not> set base_fields \<subseteq> fst ` set r \<or> \<not> fst ` set r \<subseteq> set base_fields \<union> {''typed''}
          then bad_snapshot ''proposal snapshot has unsupported fields''
          else
            (case stored_texts r of
               None \<Rightarrow> bad_snapshot ''proposal snapshot contains invalid fields''
             | Some (content, category, tags, excerpt) \<Rightarrow>
                 rbind (in_texts (dict_get r ''sensitivity'') [''normal'', ''sensitive'']) (\<lambda>permitted.
                 case dict_get r ''sensitivity'' of
                   JStr sensitivity \<Rightarrow>
                     if \<not> permitted then bad_snapshot ''proposal snapshot contains invalid fields''
                     else
                       rbind (stored_typed rt r) (\<lambda>typed.
                       Inr \<lparr>sp_content = content, sp_category = category, sp_tags = tags, sp_excerpt = excerpt,
                            sp_sensitivity = sensitivity, sp_typed = typed\<rparr>)
                 | _ \<Rightarrow> bad_snapshot ''proposal snapshot contains invalid fields''))
      | _ \<Rightarrow> bad_snapshot ''proposal snapshot has unsupported fields'')"

section \<open>The writes of a snapshot\<close>

text \<open>\<open>json.dumps(metadata, sort_keys=True)\<close> with the default separators.\<close>

definition spaced_ascii :: dump_opts where
  "spaced_ascii = \<lparr>do_sort_keys = True, do_item_sep = '', '', do_key_sep = '': '', do_ensure_ascii = True\<rparr>"

definition extraction_metadata ::
  "string \<Rightarrow> string \<Rightarrow> extraction_job \<Rightarrow> int \<Rightarrow> string \<Rightarrow> row option \<Rightarrow> row" where
  "extraction_metadata identity h job row_id digest typed =
     [(''extraction_queue_id'', JInt row_id), (''extraction_payload_sha256'', JStr digest),
      (''extractor_identity'', JStr identity), (''extraction_source'', JStr (xe_source job)),
      (''proposal_snapshot_sha256'', JStr h)]
     @ (case typed of
          None \<Rightarrow> []
        | Some t \<Rightarrow> [(''extracted_kind'', dict_get t ''kind''), (''extracted_confidence'', dict_get t ''confidence''),
                     (''extracted_negation'', dict_get t ''negation'')])"

definition extraction_key :: "string \<Rightarrow> string \<Rightarrow> nat \<Rightarrow> string" where
  "extraction_key digest h index = ''extract:'' @ digest @ '':'' @ take 24 h @ '':'' @ nat_str index"

definition extraction_request ::
  "runtime \<Rightarrow> string \<Rightarrow> string \<Rightarrow> extraction_job \<Rightarrow> string \<Rightarrow> nat \<Rightarrow> row \<Rightarrow> stored_proposal \<Rightarrow> write_request res" where
  "extraction_request rt identity h job digest index metadata sp =
     (let meta = json_dumps (rt_float_repr rt) spaced_ascii (JObj metadata) in
      as_permanent (\<lambda>_. ''invalid extraction proposal'') ''invalid_proposal''
       (write_request_init rt
         \<lparr>wr_idempotency_key = extraction_key digest h index, wr_content = sp_content sp,
          wr_source_type = ''automatic_extraction'', wr_category = sp_category sp, wr_tags = sp_tags sp,
          wr_trust_score = 1/2, wr_source_authority = 1/2, wr_source_uri = None,
          wr_observation_content = Some (xe_transcript job), wr_asserted_by = Some identity,
          wr_performed_by = None, wr_observed_at = None, wr_scope = xe_scope job,
          wr_sensitivity = sp_sensitivity sp, wr_correction_status = None, wr_evidence_excerpt = sp_excerpt sp,
          wr_relation = ''derived_from'', wr_metadata_json = meta, wr_supersede_fact_id = None,
          wr_operation = ''add_fact''\<rparr> (json_loads meta)))"

definition write_params :: "write_request \<Rightarrow> row \<Rightarrow> row option \<Rightarrow> row" where
  "write_params w metadata typed =
     [(''idempotency_key'', JStr (wr_idempotency_key w)), (''content'', JStr (wr_content w)),
      (''source_type'', JStr (wr_source_type w)), (''category'', JStr (wr_category w)),
      (''tags'', JStr (wr_tags w)), (''trust_score'', JNum (wr_trust_score w)),
      (''source_authority'', JNum (wr_source_authority w)),
      (''observation_content'', jopt (wr_observation_content w)), (''asserted_by'', jopt (wr_asserted_by w)),
      (''scope'', JStr (wr_scope w)), (''sensitivity'', JStr (wr_sensitivity w)),
      (''evidence_excerpt'', jopt (wr_evidence_excerpt w)), (''relation'', JStr (wr_relation w)),
      (''metadata'', JObj metadata)]
     @ (case typed of
          None \<Rightarrow> []
        | Some t \<Rightarrow>
            if dict_get t ''kind'' = JStr ''state''
            then [(''state'', JObj
                    [(''subject_key'', dict_get t ''subject_key''), (''predicate_key'', dict_get t ''predicate_key''),
                     (''object_value'', dict_get t ''object_value''), (''valid_from'', dict_get t ''valid_from'')])]
            else [])"

definition prepare_proposal ::
  "runtime \<Rightarrow> string \<Rightarrow> string \<Rightarrow> extraction_job \<Rightarrow> int \<Rightarrow> string \<Rightarrow> nat \<times> json \<Rightarrow> row res" where
  "prepare_proposal rt identity h job row_id digest = (\<lambda>(index, v).
     rbind (read_proposal rt v) (\<lambda>sp.
     let metadata = extraction_metadata identity h job row_id digest (sp_typed sp) in
     rbind (extraction_request rt identity h job digest index metadata sp) (\<lambda>w.
     if default_credential_screen w [] \<noteq> None
     then permanent ''credential-shaped proposal rejected'' ''proposal_credential_rejected''
     else Inr (write_params w metadata (sp_typed sp)))))"

definition prepare_snapshot ::
  "runtime \<Rightarrow> string \<times> string \<Rightarrow> extraction_job \<Rightarrow> int \<Rightarrow> string \<Rightarrow> row list res" where
  "prepare_snapshot rt = (\<lambda>(j, h) job row_id digest.
     rbind (snapshot_proposals rt j h) (\<lambda>(identity, proposals).
     map_res (prepare_proposal rt identity h job row_id digest) (enumerate 0 proposals)))"

section \<open>One attempt\<close>

text \<open>
  What one call of \<open>process_one\<close> meets: clock readings, the token, the model, the service at the clock
  readings and identifiers of each write, and what other connections commit between its transactions.
\<close>

record 'v attempt =
  xa_now :: rat
  xa_token :: string
  xa_after_claim :: "db \<Rightarrow> db"
  xa_model :: "extraction_job \<Rightarrow> extracted_memory option list res"
  xa_beats :: "(rat \<times> (db \<Rightarrow> db)) list"
  xa_model_done :: "db \<Rightarrow> db"
  xa_service :: "nat \<Rightarrow> 'v service_env"
  xa_before_write :: "nat \<Rightarrow> db \<Rightarrow> db"
  xa_before_finish :: "db \<Rightarrow> db"
  xa_before_fail :: "db \<Rightarrow> db"
  xa_fail_now :: rat

text \<open>The heartbeats while the model runs; a lost lease ends the wait.\<close>

fun heartbeats :: "processor \<Rightarrow> int \<Rightarrow> string \<Rightarrow> (rat \<times> (db \<Rightarrow> db)) list \<Rightarrow> db \<Rightarrow> unit res \<times> db" where
  "heartbeats p i token [] d = (Inr (), d)"
| "heartbeats p i token ((now, others) # bs) d =
     (case renew_lease p i token now (others d) of
        (Inl e, d') \<Rightarrow> (Inl e, d')
      | (Inr _, d') \<Rightarrow> heartbeats p i token bs d')"

definition extract_with_heartbeat ::
  "processor \<Rightarrow> 'v attempt \<Rightarrow> extraction_job \<Rightarrow> int \<Rightarrow> db \<Rightarrow> extracted_memory option list res \<times> db" where
  "extract_with_heartbeat p a job i d =
     (case heartbeats p i (xa_token a) (xa_beats a) d of
        (Inl e, d') \<Rightarrow> (Inl e, d')
      | (Inr _, d') \<Rightarrow> (xa_model a job, xa_model_done a d'))"

definition obtain_snapshot ::
  "runtime \<Rightarrow> processor \<Rightarrow> 'v attempt \<Rightarrow> extraction_job \<Rightarrow> int \<Rightarrow> db \<Rightarrow> (string \<times> string) res \<times> db" where
  "obtain_snapshot rt p a job i d =
     (case load_snapshot p i (xa_token a) d of
        Inl e \<Rightarrow> (Inl e, d)
      | Inr (Some s) \<Rightarrow> (Inr s, d)
      | Inr None \<Rightarrow>
          (case extract_with_heartbeat p a job i d of
             (Inl e, d1) \<Rightarrow> (Inl e, d1)
           | (Inr proposals, d1) \<Rightarrow>
               (case make_snapshot rt p proposals job of
                  Inl e \<Rightarrow> (Inl e, d1)
                | Inr s \<Rightarrow>
                    (case persist_snapshot p i (xa_token a) s d1 of
                       (Inl e, d2) \<Rightarrow> (Inl e, d2)
                     | (Inr _, d2) \<Rightarrow> (Inr s, d2)))))"

definition apply_write ::
  "'v service_env \<Rightarrow> client_context \<Rightarrow> int \<Rightarrow> nat \<Rightarrow> row \<Rightarrow> db \<Rightarrow> unit res \<times> db" where
  "apply_write env c row_id index params d =
     (case request_init (JStr (''extract-'' @ int_str row_id @ ''-'' @ nat_str index)) (JStr ''memory.write'')
             (JObj params) current_protocol (JInt supported_schema_version) of
        Inl e \<Rightarrow> (Inl e, d)
      | Inr r \<Rightarrow>
          (case handle env c r d of
             (Inr (JObj reply), d') \<Rightarrow>
               ((if dict_get reply ''outcome'' \<in> {JStr ''rejected'', JStr ''needs_review''}
                 then permanent ''authoritative write policy rejected extraction'' ''write_policy_rejected''
                 else Inr ()), d')
           | (Inr v, d') \<Rightarrow> (Inl (TypeError ''response is not an object''), d')
           | (Inl e, d') \<Rightarrow> (Inl e, d')))"

fun apply_writes ::
  "'v attempt \<Rightarrow> client_context \<Rightarrow> int \<Rightarrow> nat \<Rightarrow> row list \<Rightarrow> db \<Rightarrow> unit res \<times> nat \<times> db" where
  "apply_writes a c row_id index [] d = (Inr (), index, d)"
| "apply_writes a c row_id index (params # rest) d =
     (case apply_write (xa_service a index) c row_id index params (xa_before_write a index d) of
        (Inl e, d') \<Rightarrow> (Inl e, index, d')
      | (Inr _, d') \<Rightarrow> apply_writes a c row_id (index + 1) rest d')"

text \<open>The body of the \<open>try\<close>: the result, the number of writes and the database.\<close>

definition attempt_transcript ::
  "runtime \<Rightarrow> processor \<Rightarrow> 'v attempt \<Rightarrow> claimed_transcript \<Rightarrow> db \<Rightarrow> unit res \<times> nat \<times> db" where
  "attempt_transcript rt p a ct d =
     (case decode_envelope (rt_float_repr rt) (ct_payload ct) of
        Inl e \<Rightarrow> (Inl e, 0, d)
      | Inr job \<Rightarrow>
          (case obtain_snapshot rt p a job (ct_id ct) (xa_after_claim a d) of
             (Inl e, d1) \<Rightarrow> (Inl e, 0, d1)
           | (Inr s, d1) \<Rightarrow>
               (case prepare_snapshot rt s job (ct_id ct) (ct_digest ct) of
                  Inl e \<Rightarrow> (Inl e, 0, d1)
                | Inr prepared \<Rightarrow>
                    (case apply_writes a (xe_context job) (ct_id ct) 0 prepared d1 of
                       (Inl e, writes, d2) \<Rightarrow> (Inl e, writes, d2)
                     | (Inr _, writes, d2) \<Rightarrow>
                         (case complete_transcript p (ct_id ct) (ct_token ct) (xa_before_finish a d2) of
                            (r, d3) \<Rightarrow> (r, writes, d3))))))"

definition is_permanent :: "exc \<Rightarrow> bool" where
  "is_permanent e = (case e of PermanentExtractionError m c \<Rightarrow> True | _ \<Rightarrow> False)"

text \<open>The \<open>except\<close> clauses: a permanent failure buries the row, any other requeues it.\<close>

definition record_failure ::
  "processor \<Rightarrow> 'v attempt \<Rightarrow> claimed_transcript \<Rightarrow> exc \<Rightarrow> nat \<Rightarrow> db \<Rightarrow> extraction_result res \<times> db" where
  "record_failure p a ct e writes d =
     (let code = safe_code (error_code e) in
      case fail_transcript p (ct_id ct) (ct_token ct) code (is_permanent e) (xa_fail_now a) (xa_before_fail a d) of
        (Inl e', d') \<Rightarrow> (Inl e', d')
      | (Inr attempts, d') \<Rightarrow>
          (Inr \<lparr>xo_outcome = (if is_permanent e \<or> ep_max_attempts p \<le> attempts then ''dead'' else ''retry''),
                xo_queue_id = Some (ct_id ct), xo_writes = writes, xo_attempts = attempts,
                xo_error = Some code\<rparr>, d'))"

definition process_one ::
  "runtime \<Rightarrow> processor \<Rightarrow> 'v attempt \<Rightarrow> db \<Rightarrow> extraction_result res \<times> db" where
  "process_one rt p a d =
     (case claim_transcript rt p (xa_now a) (xa_token a) d of
        (Inl e, d1) \<Rightarrow> (Inl e, d1)
      | (Inr None, d1) \<Rightarrow>
          (Inr \<lparr>xo_outcome = ''idle'', xo_queue_id = None, xo_writes = 0, xo_attempts = 0, xo_error = None\<rparr>, d1)
      | (Inr (Some ct), d1) \<Rightarrow>
          (case attempt_transcript rt p a ct d1 of
             (Inr _, writes, d2) \<Rightarrow>
               (Inr \<lparr>xo_outcome = ''completed'', xo_queue_id = Some (ct_id ct), xo_writes = writes,
                     xo_attempts = ct_attempts ct, xo_error = None\<rparr>, d2)
           | (Inl e, writes, d2) \<Rightarrow> record_failure p a ct e writes d2))"

text \<open>\<open>drain\<close>: at most \<open>limit\<close> jobs, the attempts in order; an idle queue ends the loop.\<close>

fun drain_loop ::
  "runtime \<Rightarrow> processor \<Rightarrow> (nat \<Rightarrow> 'v attempt) \<Rightarrow> nat \<Rightarrow> nat \<Rightarrow> db \<Rightarrow> extraction_result list res \<times> db" where
  "drain_loop rt p a n 0 d = (Inr [], d)"
| "drain_loop rt p a n (Suc k) d =
     (case process_one rt p (a n) d of
        (Inl e, d') \<Rightarrow> (Inl e, d')
      | (Inr r, d') \<Rightarrow>
          if xo_outcome r = ''idle'' then (Inr [], d')
          else (case drain_loop rt p a (n + 1) k d' of (rs, d'') \<Rightarrow> (rbind rs (\<lambda>xs. Inr (r # xs)), d'')))"

definition processor_drain ::
  "runtime \<Rightarrow> processor \<Rightarrow> (nat \<Rightarrow> 'v attempt) \<Rightarrow> int \<Rightarrow> db \<Rightarrow> extraction_result list res \<times> db" where
  "processor_drain rt p a limit d =
     (if limit \<le> 0 then (Inl (ValueError ''limit must be positive''), d)
      else drain_loop rt p a 0 (nat limit) d)"

definition processor_health :: "processor \<Rightarrow> db \<Rightarrow> row" where
  "processor_health p d =
     (let n = (\<lambda>s. int (rowcount (\<lambda>r. q_status r = s) (db_queue d))) in
      [(''configured'', JBool True), (''mode'', JStr ''explicit_host_driven''),
       (''extractor'', JStr (ep_identity p)), (''pending'', JInt (n QPending + n QProcessing)),
       (''dead'', JInt (n QDead))])"

end
