(* ===== verification/Projection_Guarantees.thy ===== *)
theory Projection_Guarantees
  imports Projections Conflict_Lifecycle "HOL-Library.Sublist"
begin

text \<open>
  What the projections promise: every response fits the character cap and the item limit, holds only
  facts of the requested scopes, scans the newest events in the order of the settled history, and
  counts every entity exactly.
\<close>

section \<open>Sizes of JSON texts\<close>

lemma length_py_join: "length (py_join sep ws) = sum_list (map length ws) + (length ws - 1) * length sep"
  by (induction sep ws rule: py_join.induct) auto

lemma json_chars_JArr:
  "json_chars lib (JArr vs) = 2 + sum_list (map (json_chars lib) vs) + (length vs - 1)"
  by (simp add: json_chars_def [abs_def] length_py_join compact_unicode_def comp_def)

lemma json_chars_snoc:
  "json_chars lib (JArr (vs @ [v])) = json_chars lib (JArr vs) + json_chars lib v + (if vs \<noteq> [] then 1 else 0)"
  by (cases vs) (simp_all add: json_chars_JArr)

definition key_chars :: "string \<Rightarrow> nat" where
  "key_chars k = length (json_str False k) + 1"

lemma json_chars_JObj:
  "json_chars lib (JObj kvs) =
     2 + sum_list (map (\<lambda>(k, v). key_chars k + json_chars lib v) kvs) + (length kvs - 1)"
proof -
  have "sum_list (map (\<lambda>x. Suc (length (json_str False (fst x)) + length (json_dumps (pl_float_repr lib) o' (snd x)))) kvs)
     = sum_list (map (\<lambda>(k, v). key_chars k + length (json_dumps (pl_float_repr lib) o' v)) kvs)" for o'
    by (induction kvs) (auto simp: key_chars_def)
  then show ?thesis
    by (simp add: json_chars_def compact_unicode_def dump_object_def length_py_join comp_def case_prod_beta)
qed

lemma json_chars_JBool: "json_chars lib (JBool b) \<le> 5"
  by (simp add: json_chars_def)

lemma length_json_escape: "length (json_escape_char a c) \<le> 6"
  by (simp add: json_escape_char_def Let_def)

lemma json_chars_JStr: "json_chars lib (JStr s) \<le> 6 * length s + 2"
proof -
  have "length (concat (map (json_escape_char a) s)) \<le> 6 * length s" for a
  proof (induction s)
    case (Cons c s)
    then show ?case using length_json_escape [of a c] by simp
  qed simp
  then show ?thesis by (simp add: json_chars_def json_str_def)
qed

section \<open>The bounded prefix\<close>

lemma bounded_loop_spec:
  assumes "bounded_loop lib limit items result used = (out, truncated)"
    and "used = json_chars lib (JArr result)" and "used \<le> items_char_budget" and "int (length result) \<le> limit"
  obtains n where "n \<le> length items" "out = result @ take n items" "truncated \<longleftrightarrow> n < length items"
    "json_chars lib (JArr out) \<le> items_char_budget" "int (length out) \<le> limit"
    "truncated \<Longrightarrow> int (length out) = limit \<or> items_char_budget < json_chars lib (JArr (out @ [items ! n]))"
  using assms
proof (induction lib limit items result used arbitrary: thesis rule: bounded_loop.induct)
  case (1 lib limit result used)
  then show ?case by (auto intro: 1(1) [of 0])
next
  case (2 lib limit item items result used)
  let ?size = "json_chars lib item + (if result \<noteq> [] then 1 else 0)"
  have snoc: "used + ?size = json_chars lib (JArr (result @ [item]))"
    using 2(4) by (simp add: json_chars_snoc)
  show ?case
  proof (cases "limit \<le> int (length result) \<or> items_char_budget < used + ?size")
    case True
    then have "out = result" "truncated" using 2(3) by (auto simp: Let_def split: if_splits)
    then show ?thesis
      using True 2(4,5,6) by (intro 2(2) [of 0]) (auto simp: snoc [symmetric])
  next
    case False
    then have run: "bounded_loop lib limit items (result @ [item]) (used + ?size) = (out, truncated)"
      using 2(3) by (simp add: Let_def)
    obtain n where "n \<le> length items" "out = (result @ [item]) @ take n items" "truncated \<longleftrightarrow> n < length items"
      "json_chars lib (JArr out) \<le> items_char_budget" "int (length out) \<le> limit"
      "truncated \<Longrightarrow> int (length out) = limit \<or> items_char_budget < json_chars lib (JArr (out @ [items ! n]))"
      by (rule 2(1) [OF _ refl _ _ run snoc]) (use False in auto)
    then show ?thesis by (intro 2(2) [of "Suc n"]) auto
  qed
qed

lemma bounded_spec:
  assumes "bounded lib items limit = (out, truncated)" and "0 \<le> limit"
  obtains n where "n \<le> length items" "out = take n items" "truncated \<longleftrightarrow> n < length items"
    "json_chars lib (JArr out) \<le> items_char_budget" "int (length out) \<le> limit"
    "truncated \<Longrightarrow> int (length out) = limit \<or> items_char_budget < json_chars lib (JArr (out @ [items ! n]))"
proof -
  have two: "2 = json_chars lib (JArr [])" by (simp add: json_chars_JArr)
  have le: "2 \<le> items_char_budget" by (simp add: items_char_budget_def max_output_chars_def)
  from assms(1) [unfolded bounded_def] show thesis
    by (rule bounded_loop_spec [OF _ two le]) (use assms(2) in \<open>auto intro: that\<close>)
qed

text \<open>A response of one bounded array and a flag fits the cap.\<close>

lemma array_response_fits:
  assumes "1 \<le> limit" and "length k \<le> 10" and "list_all plain_ascii k"
  shows "json_chars lib (JObj [(k, JArr (fst (bounded lib items limit))), (''truncated'', JBool b)]) \<le> 60000"
proof -
  have "concat (map (json_escape_char False) k) = k"
    using assms(3) by (induction k) (auto simp: json_escape_code)
  then have "key_chars k \<le> 13" using assms(2) by (simp add: key_chars_def json_str_def)
  moreover have "key_chars ''truncated'' = 12" by code_simp
  moreover have "json_chars lib (JArr (fst (bounded lib items limit))) \<le> items_char_budget"
    by (rule bounded_spec [OF surjective_pairing]) (use assms(1) in auto)
  ultimately show ?thesis
    using json_chars_JBool [of lib b]
    by (simp add: json_chars_JObj items_char_budget_def max_output_chars_def)
qed

section \<open>Dossiers shrink until they fit\<close>

lemma pop_section_entity: "pop_section r = Some r' \<Longrightarrow> ds_entity r' = ds_entity r"
  by (auto simp: pop_section_def split: if_splits)

lemma dossier_empty_fits:
  assumes "pop_section r = None" and "length (ds_entity r) \<le> max_entity_chars"
  shows "json_chars lib (JObj (dossier_json r)) \<le> max_output_chars"
proof -
  have keys: "key_chars ''entity'' = 9" "key_chars ''current_facts'' = 16" "key_chars ''recent_changes'' = 17"
    "key_chars ''open_conflicts'' = 17" "key_chars ''truncated'' = 12"
    by code_simp+
  have e: "ds_recent r = []" "ds_current r = []" "ds_conflicts r = []"
    using assms(1) by (auto simp: pop_section_def split: if_splits)
  have "json_chars lib (JArr []) = 2" by (simp add: json_chars_JArr)
  then show ?thesis
    using json_chars_JBool [of lib "ds_truncated r"] json_chars_JStr [of lib "ds_entity r"] assms(2)
    by (simp add: dossier_json_def json_chars_JObj keys e max_output_chars_def max_entity_chars_def)
qed

lemma shrink_dossier_fits:
  "length (ds_entity r) \<le> max_entity_chars
     \<Longrightarrow> json_chars lib (JObj (dossier_json (shrink_dossier lib r))) \<le> max_output_chars"
proof (induction lib r rule: shrink_dossier.induct)
  case (1 lib r)
  show ?case
  proof (cases "pop_section r")
    case None
    then show ?thesis
      using dossier_empty_fits [OF None 1(2)] by (subst shrink_dossier.simps) simp
  next
    case (Some r')
    then show ?thesis
      using 1 pop_section_entity [OF Some] by (subst shrink_dossier.simps) (auto simp: not_le)
  qed
qed

definition dossier_prefix :: "dossier \<Rightarrow> dossier \<Rightarrow> bool" where
  "dossier_prefix small big \<longleftrightarrow>
     prefix (ds_current small) (ds_current big) \<and> prefix (ds_recent small) (ds_recent big)
     \<and> prefix (ds_conflicts small) (ds_conflicts big) \<and> ds_entity small = ds_entity big"

lemma pop_section_prefix: "pop_section r = Some r' \<Longrightarrow> dossier_prefix r' r"
  by (auto simp: pop_section_def dossier_prefix_def prefixeq_butlast split: if_splits)

lemma shrink_dossier_prefix: "dossier_prefix (shrink_dossier lib r) r"
proof (induction lib r rule: shrink_dossier.induct)
  case (1 lib r)
  show ?case
  proof (cases "json_chars lib (JObj (dossier_json r)) \<le> max_output_chars \<or> pop_section r = None")
    case True
    then show ?thesis by (subst shrink_dossier.simps) (auto simp: dossier_prefix_def split: option.splits)
  next
    case False
    then obtain r' where "pop_section r = Some r'" by auto
    then show ?thesis
      using False 1 [of r'] pop_section_prefix [of r r']
      by (subst shrink_dossier.simps) (auto simp: dossier_prefix_def intro: prefix_order.trans)
  qed
qed

lemma py_strip_le: "length (py_strip s) \<le> length s"
proof -
  have "length (dropWhile P xs) \<le> length xs" for P and xs :: string
    by (rule length_dropWhile_le)
  then show ?thesis
    unfolding py_strip_def py_rstrip_def py_lstrip_def by (metis length_rev order_trans)
qed

section \<open>Every response is bounded\<close>

lemma projection_limit_Inr:
  "projection_limit v = Inr c \<longleftrightarrow> c = v \<and> 1 \<le> v \<and> v \<le> projection_limit_max"
  by (auto simp: projection_limit_def)

lemma entity_dossier_Inr:
  assumes "entity_dossier lib name scope limit d = Inr r"
  obtains scopes scanned confs ds where
    "length name \<le> max_entity_chars" "1 \<le> limit" "clean_scopes scope = Inr scopes"
    "active_facts (Some scopes) None (int projection_scan_limit) d = Inr scanned"
    "dossier_conflicts d (py_strip name) scopes = Inr confs"
    "r = dossier_json (shrink_dossier lib ds)" "ds_entity ds = py_strip name"
    "ds_current ds = map (\<lambda>f. JObj (projection_fact f))
       (take (nat limit) (filter (\<lambda>f. matches_entity f (py_strip name)) scanned))"
    "ds_recent ds = fst (entity_events lib (py_strip name) scopes limit d)"
    "ds_conflicts ds = take (nat limit) confs"
proof -
  from assms obtain scopes scanned confs b where
    "length name \<le> max_entity_chars" "1 \<le> limit" "clean_scopes scope = Inr scopes"
    "active_facts (Some scopes) None (int projection_scan_limit) d = Inr scanned"
    "dossier_conflicts d (py_strip name) scopes = Inr confs"
    "r = dossier_json (shrink_dossier lib
       \<lparr>ds_entity = py_strip name, ds_current = map (\<lambda>f. JObj (projection_fact f))
          (take (nat limit) (filter (\<lambda>f. matches_entity f (py_strip name)) scanned)),
        ds_recent = fst (entity_events lib (py_strip name) scopes limit d),
        ds_conflicts = take (nat limit) confs, ds_truncated = b\<rparr>)"
    by (auto simp: entity_dossier_def rbind_eq_Inr projection_limit_Inr Let_def case_prod_beta)
  then show thesis by (rule that) simp_all
qed

lemma ascii_keys: "list_all plain_ascii ''changes''" "list_all plain_ascii ''events''" "list_all plain_ascii ''entities''"
  by code_simp+

text \<open>C24: whatever the store holds, every response of the four projections is at most 60000 characters of
  JSON text (the names of entities may be escaped to six times their length and still fit).\<close>

theorem projections_bounded:
  "changes lib since until scope limit d = Inr r
     \<or> timeline lib query scope limit d = Inr r
     \<or> entities lib scope min_facts limit d = Inr r
     \<or> entity_dossier lib name scope limit d = Inr r
   \<Longrightarrow> json_chars lib (JObj r) \<le> 60000"
proof (elim disjE)
  assume "changes lib since until scope limit d = Inr r"
  then obtain items b where "1 \<le> limit"
    "r = [(''changes'', JArr (fst (bounded lib items limit))), (''truncated'', JBool b)]"
    by (auto simp: changes_def rbind_eq_Inr projection_limit_Inr case_prod_beta)
  then show ?thesis using array_response_fits ascii_keys by simp
next
  assume "timeline lib query scope limit d = Inr r"
  then obtain items b where "1 \<le> limit"
    "r = [(''events'', JArr (fst (bounded lib items limit))), (''truncated'', JBool b)]"
    by (auto simp: timeline_def rbind_eq_Inr projection_limit_Inr Let_def case_prod_beta)
  then show ?thesis using array_response_fits ascii_keys by simp
next
  assume "entities lib scope min_facts limit d = Inr r"
  then obtain items b where "1 \<le> limit"
    "r = [(''entities'', JArr (fst (bounded lib items limit))), (''truncated'', JBool b)]"
    by (auto simp: entities_def rbind_eq_Inr projection_limit_Inr Let_def case_prod_beta)
  then show ?thesis using array_response_fits ascii_keys by simp
next
  assume "entity_dossier lib name scope limit d = Inr r"
  then obtain ds where "length name \<le> max_entity_chars" "ds_entity ds = py_strip name"
    "r = dossier_json (shrink_dossier lib ds)"
    by (rule entity_dossier_Inr)
  then show ?thesis
    using shrink_dossier_fits [of ds lib] py_strip_le [of name] by (simp add: max_output_chars_def)
qed

section \<open>Scopes\<close>

lemma clean_scopes_Inr: "clean_scopes scope = Inr scopes \<Longrightarrow> set scopes \<subseteq> set (map py_strip scope) \<and> scopes \<noteq> []"
  by (auto simp: clean_scopes_def Let_def set_dict_fromkeys split: if_splits)

lemma clean_scopes_stripped: "clean_scopes scope = Inr scopes \<Longrightarrow> s \<in> set scopes \<Longrightarrow> py_strip s = s"
  by (auto simp: clean_scopes_def Let_def set_dict_fromkeys split: if_splits)

lemma event_rows_scope:
  "e \<in> set (fst (event_rows lib scopes since until d)) \<Longrightarrow> f_scope (ev_fact e) \<in> set scopes"
  by (auto simp: event_rows_def Let_def dest!: in_set_takeD fact_events_scope)

lemma set_take_last: "set (take_last n xs) \<subseteq> set xs"
  by (auto simp: take_last_def dest: in_set_dropD)

lemma set_bounded:
  assumes "1 \<le> limit" and "j \<in> set (fst (bounded lib items limit))"
  shows "j \<in> set items"
proof -
  obtain out t where b: "bounded lib items limit = (out, t)" by fastforce
  have "0 \<le> limit" using assms(1) by simp
  from b this obtain n where "out = take n items" by (rule bounded_spec)
  then show ?thesis using assms(2) b by (auto dest: in_set_takeD)
qed

text \<open>The JSON of facts, events and conflicts that lie in given scopes.\<close>

definition events_in :: "string set \<Rightarrow> json set" where
  "events_in S = event_json ` {e. f_scope (ev_fact e) \<in> S}"

definition facts_in :: "string set \<Rightarrow> json set" where
  "facts_in S = (\<lambda>f. JObj (projection_fact f)) ` {f. f_scope f \<in> S}"

definition conflicts_in :: "string set \<Rightarrow> json set" where
  "conflicts_in S = {conflict_json c members | c members. cr_scope c \<in> S \<and> (\<forall>f \<in> set members. f_scope f \<in> S)}"

lemma in_scopes_mono:
  "S \<subseteq> T \<Longrightarrow> events_in S \<subseteq> events_in T" "S \<subseteq> T \<Longrightarrow> facts_in S \<subseteq> facts_in T"
  "S \<subseteq> T \<Longrightarrow> conflicts_in S \<subseteq> conflicts_in T"
  by (auto simp: events_in_def facts_in_def conflicts_in_def)

lemma entity_events_scope:
  assumes "1 \<le> limit"
  shows "set (fst (entity_events lib entity scopes limit d)) \<subseteq> events_in (set scopes)"
proof
  fix j assume "j \<in> set (fst (entity_events lib entity scopes limit d))"
  then have "j \<in> set (map event_json (take_last limit
      (filter (\<lambda>e. matches_entity (ev_fact e) entity) (fst (event_rows lib scopes None None d)))))"
    by - (rule set_bounded [OF assms, of _ lib], simp add: entity_events_def case_prod_beta Let_def)
  then obtain e where "j = event_json e" "e \<in> set (fst (event_rows lib scopes None None d))"
    by (auto dest!: subsetD [OF set_take_last])
  then show "j \<in> events_in (set scopes)"
    by (auto simp: events_in_def dest: event_rows_scope)
qed

lemma group_add_scope:
  "\<forall>r \<in> set rs. cr_scope r = sc \<Longrightarrow> k_scope k = sc \<Longrightarrow> \<forall>r \<in> set (group_add k i rs). cr_scope r = sc"
  by (induction k i rs rule: group_add.induct) auto

lemma group_rows_scope:
  "\<forall>(k, i) \<in> set xs. k_scope k = sc \<Longrightarrow> \<forall>r \<in> set acc. cr_scope r = sc
     \<Longrightarrow> \<forall>r \<in> set (fold (\<lambda>(k, i). group_add k i) xs acc). cr_scope r = sc"
proof (induction xs arbitrary: acc)
  case (Cons x xs)
  obtain k i where x: "x = (k, i)" by (cases x)
  have rest: "\<forall>(k, i) \<in> set xs. k_scope k = sc" and k: "k_scope k = sc" using Cons.prems(1) by (auto simp: x)
  show ?case
    using Cons.IH [OF rest group_add_scope [OF Cons.prems(2) k]] by (simp add: x)
qed simp

lemma list_state_conflicts_scope:
  assumes "list_state_conflicts d scope u = Inr rs" and "r \<in> set rs"
  shows "cr_scope r = py_strip scope"
proof -
  from assms(1) obtain sc where sc: "py_required scope ''scope'' = Inr sc"
    and rs: "rs = fold (\<lambda>(k, i). group_add k i) (conflict_join d sc u) []"
    by (auto simp: list_state_conflicts_def rbind_eq_Inr)
  have "\<forall>(k, i) \<in> set (conflict_join d sc u). k_scope k = sc"
    by (auto simp: conflict_join_def)
  then have "cr_scope r = sc" using group_rows_scope [of "conflict_join d sc u" sc "[]"] assms(2) rs by simp
  then show ?thesis using py_required_Inr [OF sc] by simp
qed

lemma map_res_mem: "map_res f xs = Inr ys \<Longrightarrow> y \<in> set ys \<Longrightarrow> \<exists>x \<in> set xs. f x = Inr y"
  unfolding map_res_Inr_iff by (induction rule: list_all2_induct) auto

lemma dossier_conflict_scope:
  assumes "dossier_conflict d entity s c = Inr js" and "j \<in> set js" and cols: "db_fact_columns d = v1_fact_columns"
    and "cr_scope c = s" and "py_strip s = s"
  shows "j \<in> conflicts_in {s}"
proof -
  from assms(1,2) obtain members where
    m: "historical_facts_by_id (cr_member_fact_ids c) (Some [s]) d = Inr members" and j: "j = conflict_json c members"
    by (auto simp: dossier_conflict_def rbind_eq_Inr split: if_splits)
  have "\<forall>f \<in> set members. f_scope f \<in> {s}"
    using m v1_scope_column [OF cols] assms(5)
    by (auto simp: historical_facts_by_id_def rbind_eq_Inr dest!: build_scope_predicate_Some split: if_splits)
  then show ?thesis using j assms(4) by (auto simp: conflicts_in_def)
qed

lemma dossier_conflicts_scope:
  assumes "dossier_conflicts d entity scopes = Inr confs" and cols: "db_fact_columns d = v1_fact_columns"
    and st: "\<And>s. s \<in> set scopes \<Longrightarrow> py_strip s = s"
  shows "set confs \<subseteq> conflicts_in (set scopes)"
proof
  fix j assume "j \<in> set confs"
  with assms(1) obtain parts js where parts: "map_res (\<lambda>s. rbind (list_state_conflicts d s True) (\<lambda>records.
       rbind (map_res (dossier_conflict d entity s) records) (\<lambda>found. Inr (concat found)))) scopes = Inr parts"
    and mem: "js \<in> set parts" and js: "j \<in> set js"
    unfolding dossier_conflicts_def rbind_eq_Inr [of "map_res _ scopes"] by auto
  from map_res_mem [OF parts mem] obtain s where s: "s \<in> set scopes"
    and run: "rbind (list_state_conflicts d s True) (\<lambda>records.
       rbind (map_res (dossier_conflict d entity s) records) (\<lambda>found. Inr (concat found))) = Inr js"
    by blast
  from run js obtain records found js' where r: "list_state_conflicts d s True = Inr records"
    and f: "map_res (dossier_conflict d entity s) records = Inr found" and m: "js' \<in> set found" "j \<in> set js'"
    by (auto simp: rbind_eq_Inr)
  obtain c where rc: "c \<in> set records" and c: "dossier_conflict d entity s c = Inr js'"
    using map_res_mem [OF f m(1)] by blast
  have "j \<in> conflicts_in {s}"
    using dossier_conflict_scope [OF c m(2) cols] list_state_conflicts_scope [OF r rc] st [OF s] by simp
  then show "j \<in> conflicts_in (set scopes)" using s in_scopes_mono(3) [of "{s}" "set scopes"] by blast
qed

lemma bounded_events_scope:
  assumes "1 \<le> limit" and "set es \<subseteq> set (fst (event_rows lib scopes since until d))"
  shows "set (fst (bounded lib (map event_json es) limit)) \<subseteq> events_in (set scopes)"
proof
  fix j assume "j \<in> set (fst (bounded lib (map event_json es) limit))"
  from set_bounded [OF assms(1) this] obtain e where "j = event_json e" "e \<in> set es" by auto
  then show "j \<in> events_in (set scopes)"
    using assms(2) by (auto simp: events_in_def dest: event_rows_scope)
qed

text \<open>C25: the event projections and dossiers never show a fact, an event or a conflict outside the scopes
  the caller asked for.\<close>

theorem projections_in_scope:
  assumes cols: "db_fact_columns d = v1_fact_columns"
  shows "(changes lib since until scope limit d = Inr r \<longrightarrow>
       (\<exists>es t. r = [(''changes'', JArr es), t] \<and> set es \<subseteq> events_in (set (map py_strip scope))))
    \<and> (timeline lib query scope limit d = Inr r \<longrightarrow>
       (\<exists>es t. r = [(''events'', JArr es), t] \<and> set es \<subseteq> events_in (set (map py_strip scope))))
    \<and> (entity_dossier lib name scope limit d = Inr r \<longrightarrow>
       (\<exists>fs es cs t. r = [(''entity'', JStr (py_strip name)), (''current_facts'', JArr fs),
            (''recent_changes'', JArr es), (''open_conflicts'', JArr cs), t]
          \<and> set fs \<subseteq> facts_in (set (map py_strip scope)) \<and> set es \<subseteq> events_in (set (map py_strip scope))
          \<and> set cs \<subseteq> conflicts_in (set (map py_strip scope))))"
proof (intro conjI impI)
  assume "changes lib since until scope limit d = Inr r"
  then obtain scopes lo hi b where sc: "clean_scopes scope = Inr scopes" and lim: "1 \<le> limit"
    and r: "r = [(''changes'', JArr (fst (bounded lib
       (map event_json (fst (event_rows lib scopes (Some lo) (Some hi) d))) limit))), (''truncated'', JBool b)]"
    by (auto simp: changes_def rbind_eq_Inr projection_limit_Inr case_prod_beta)
  from bounded_events_scope [OF lim order_refl, of lib scopes "Some lo" "Some hi" d]
  show "\<exists>es t. r = [(''changes'', JArr es), t] \<and> set es \<subseteq> events_in (set (map py_strip scope))"
    using r in_scopes_mono(1) [OF clean_scopes_Inr [OF sc, THEN conjunct1]] by auto
next
  assume "timeline lib query scope limit d = Inr r"
  then obtain scopes b where sc: "clean_scopes scope = Inr scopes" and lim: "1 \<le> limit"
    and r: "r = [(''events'', JArr (fst (bounded lib (map event_json (take_last limit
       (filter (\<lambda>e. str_contains (py_casefold (py_strip query)) (timeline_text (ev_fact e)))
         (fst (event_rows lib scopes None None d))))) limit))), (''truncated'', JBool b)]"
    by (auto simp: timeline_def rbind_eq_Inr projection_limit_Inr Let_def case_prod_beta)
  have "set (take_last limit (filter (\<lambda>e. str_contains (py_casefold (py_strip query)) (timeline_text (ev_fact e)))
         (fst (event_rows lib scopes None None d))))
      \<subseteq> set (fst (event_rows lib scopes None None d))"
    by (meson set_take_last filter_is_subset order_trans)
  from bounded_events_scope [OF lim this]
  show "\<exists>es t. r = [(''events'', JArr es), t] \<and> set es \<subseteq> events_in (set (map py_strip scope))"
    using r in_scopes_mono(1) [OF clean_scopes_Inr [OF sc, THEN conjunct1]] by auto
next
  assume "entity_dossier lib name scope limit d = Inr r"
  then show "\<exists>fs es cs t. r = [(''entity'', JStr (py_strip name)), (''current_facts'', JArr fs),
            (''recent_changes'', JArr es), (''open_conflicts'', JArr cs), t]
          \<and> set fs \<subseteq> facts_in (set (map py_strip scope)) \<and> set es \<subseteq> events_in (set (map py_strip scope))
          \<and> set cs \<subseteq> conflicts_in (set (map py_strip scope))"
  proof (rule entity_dossier_Inr)
    fix scopes scanned confs ds
    assume lim: "1 \<le> limit" and sc: "clean_scopes scope = Inr scopes"
      and act: "active_facts (Some scopes) None (int projection_scan_limit) d = Inr scanned"
      and con: "dossier_conflicts d (py_strip name) scopes = Inr confs"
      and r: "r = dossier_json (shrink_dossier lib ds)" and ent: "ds_entity ds = py_strip name"
      and cur: "ds_current ds = map (\<lambda>f. JObj (projection_fact f))
         (take (nat limit) (filter (\<lambda>f. matches_entity f (py_strip name)) scanned))"
      and rec: "ds_recent ds = fst (entity_events lib (py_strip name) scopes limit d)"
      and cfl: "ds_conflicts ds = take (nat limit) confs"
    note st = clean_scopes_stripped [OF sc] and sub = clean_scopes_Inr [OF sc, THEN conjunct1]
    let ?s = "shrink_dossier lib ds"
    have p: "dossier_prefix ?s ds" by (rule shrink_dossier_prefix)
    have "f_scope f \<in> set scopes" if "f \<in> set scanned" for f
      using act that st v1_scope_column [OF cols]
      by (auto simp: active_facts_def rbind_eq_Inr dest!: in_set_takeD build_scope_predicate_Some split: if_splits)
    then have "set (ds_current ds) \<subseteq> facts_in (set scopes)"
      by (auto simp: cur facts_in_def dest!: in_set_takeD)
    then have "set (ds_current ?s) \<subseteq> facts_in (set (map py_strip scope))"
      using p in_scopes_mono(2) [OF sub] by (auto simp: dossier_prefix_def dest!: set_mono_prefix)
    moreover have "set (ds_recent ?s) \<subseteq> events_in (set (map py_strip scope))"
      using p in_scopes_mono(1) [OF sub] entity_events_scope [OF lim, of lib "py_strip name" scopes d]
      by (auto simp: dossier_prefix_def rec dest!: set_mono_prefix)
    moreover have "set (ds_conflicts ?s) \<subseteq> conflicts_in (set (map py_strip scope))"
      using p in_scopes_mono(3) [OF sub] dossier_conflicts_scope [OF con cols st]
      by (fastforce simp: dossier_prefix_def cfl dest: set_mono_prefix in_set_takeD)
    moreover have "ds_entity ?s = py_strip name" using p ent by (simp add: dossier_prefix_def)
    ultimately show ?thesis unfolding r dossier_json_def by auto
  qed
qed

section \<open>The scan is the newest part of the settled history\<close>

lemma filter_eq_const: "filter (\<lambda>x. k = x) xs = replicate (count_list xs k) k"
  by (induction xs) auto

lemma count_list_rev: "count_list (rev xs) k = count_list xs k"
  by (induction xs) auto

lemma sort_key_rev_sorted:
  assumes "sorted (map k xs)" and "inj_on k (set xs)"
  shows "sort_key k (rev xs) = xs"
proof (rule properties_for_sort_key [symmetric, THEN sym])
  show "filter (\<lambda>y. k x = k y) xs = filter (\<lambda>y. k x = k y) (rev xs)" if "x \<in> set xs" for x
  proof -
    have "filter (\<lambda>y. k x = k y) zs = filter (\<lambda>y. x = y) zs" if "set zs \<subseteq> set xs" for zs
      using that \<open>x \<in> set xs\<close> assms(2) by (intro filter_cong) (auto dest: inj_onD)
    then show ?thesis by (simp add: filter_eq_const count_list_rev)
  qed
qed (use assms(1) in auto)

lemma event_key_inj:
  assumes "distinct (fact_ids d)"
  shows "inj_on (event_key jd) (set (fact_events ok d))"
proof (rule inj_onI)
  fix e e' assume e: "e \<in> set (fact_events ok d)" "e' \<in> set (fact_events ok d)" "event_key jd e = event_key jd e'"
  have mem: "ev_fact x \<in> set (db_facts d)" if "x \<in> set (fact_events ok d)" for x
    using that by (auto simp: fact_events_def mk_event_def dest: fact_by_id_Some [OF sym] split: if_splits option.splits)
  have "ev_fact e = ev_fact e'"
    using e assms mem by (auto simp: event_key_def fact_ids_def distinct_map inj_on_def)
  moreover have "ev_kind e = ev_kind e'" using e(3) by (cases "ev_kind e"; cases "ev_kind e'") (auto simp: event_key_def)
  ultimately show "e = e'" using e(3) by (simp add: event_key_def)
qed

lemma event_rows_settled:
  assumes "ids_ok d" and "db_fact_columns d = v1_fact_columns" and "(since = None) = (until = None)"
    and "clean_scopes scope = Inr scopes"
    and "settled_fact_events (pl_julianday lib) (Some scopes) since until d = Inr es"
  shows "event_rows lib scopes since until d = (take_last 10000 es, 10000 \<le> length es)"
proof -
  let ?k = "event_key (pl_julianday lib)"
  let ?xs = "filter (\<lambda>e. in_window (pl_julianday lib) since until (ev_changed_at e))
    (fact_events (\<lambda>s. s \<in> set scopes) d)"
  have st: "map_res (\<lambda>v. py_required v ''scope'') scopes = Inr scopes"
    using assms(4) by (auto simp: map_res_Inr_iff list_all2_same py_required_def clean_scopes_def Let_def
        set_dict_fromkeys split: if_splits)
  have "scopes \<noteq> []" using clean_scopes_Inr [OF assms(4)] by blast
  moreover have "distinct scopes"
    using assms(4) by (auto simp: clean_scopes_def Let_def distinct_dict_fromkeys split: if_splits)
  ultimately have "build_scope_predicate (Some scopes) True = Inr (\<lambda>s. s \<in> set scopes)"
    using st by (auto simp: build_scope_predicate_def Let_def set_dict_fromkeys dict_fromkeys_Nil_iff)
  then have es: "es = sort_key ?k ?xs"
    using assms(5) by (simp add: settled_fact_events_def rbind_eq_Inr)
  have "take projection_scan_limit (rev es) = rev (take_last 10000 es)"
    by (cases "length es \<le> 10000") (simp_all add: take_last_def projection_scan_limit_def rev_drop)
  moreover have "sort_key ?k (rev (take_last 10000 es)) = take_last 10000 es"
  proof (rule sort_key_rev_sorted)
    show "sorted (map ?k (take_last 10000 es))"
      by (simp add: take_last_def es drop_map [symmetric] sorted_wrt_drop)
    show "inj_on ?k (set (take_last 10000 es))"
      by (rule inj_on_subset [OF event_key_inj [of d]])
        (use assms(1) set_take_last [of 10000 es] in \<open>auto simp: ids_ok_def es\<close>)
  qed
  ultimately show ?thesis
    by (simp add: event_rows_def es [symmetric] Let_def)
       (auto simp: take_last_def projection_scan_limit_def)
qed

text \<open>the events a projection scans are exactly the last 10000 of the settled history of
  \<open>core_store.settled_fact_events\<close> for the same scopes and window, in the same order.\<close>

theorem event_rows_newest:
  assumes "ids_ok d" and "db_fact_columns d = v1_fact_columns" and "(since = None) = (until = None)"
    and "clean_scopes scope = Inr scopes"
    and "settled_fact_events (pl_julianday lib) (Some scopes) since until d = Inr es"
  shows "event_rows lib scopes since until d = (take_last 10000 es, 10000 \<le> length es)"
  using assms by (rule event_rows_settled)

section \<open>Entity counts\<close>

definition entity_keys :: "fact \<Rightarrow> string set" where
  "entity_keys f = py_casefold ` (set (subject_names f) \<union> set (tag_names f))"

lemma dict_setdefault_keys: "fst ` set (dict_setdefault k v d) = insert k (fst ` set d)"
  by (auto simp: dict_setdefault_def split: option.splits dest!: map_of_SomeD)
     (metis fst_conv image_eqI map_of_SomeD)

lemma matches_entity_keys: "matches_entity f name \<longleftrightarrow> py_casefold name \<in> entity_keys f"
proof -
  have "fst ` set (fold (\<lambda>t names. dict_setdefault (py_casefold t) t names) ts ns)
      = py_casefold ` set ts \<union> fst ` set ns" for ts ns
    by (induction ts arbitrary: ns) (auto simp: dict_setdefault_keys)
  then show ?thesis
    by (auto simp: matches_entity_def entity_names_def entity_keys_def image_image)
qed

text \<open>An index that counts every key's facts: those of the set \<open>M k\<close>.\<close>

definition entry_counts :: "int set \<Rightarrow> string \<Rightarrow> entity_entry option \<Rightarrow> bool" where
  "entry_counts ids k x = (case x of
       None \<Rightarrow> ids = {}
     | Some e \<Rightarrow> set (en_ids e) = ids \<and> distinct (en_ids e) \<and> py_casefold (en_display e) = k)"

definition index_counts :: "(string \<Rightarrow> int set) \<Rightarrow> (string \<times> entity_entry) list \<Rightarrow> bool" where
  "index_counts M idx \<longleftrightarrow> distinct (map fst idx) \<and> (\<forall>k. entry_counts (M k) k (map_of idx k))"

lemma index_counts_note:
  assumes "index_counts M idx"
  shows "index_counts (M(py_casefold name := insert i (M (py_casefold name)))) (note_entity i src name idx)"
proof -
  let ?k = "py_casefold name"
  have "entry_counts (M ?k) ?k (map_of idx ?k)" using assms by (simp add: index_counts_def)
  then have "entry_counts (insert i (M ?k)) ?k (map_of (note_entity i src name idx) ?k)"
    by (auto simp: entry_counts_def note_entity_def Let_def map_of_dict_set set_add_def split: option.splits)
  moreover have "map_of (note_entity i src name idx) k = map_of idx k" if "k \<noteq> ?k" for k
    using that by (simp add: note_entity_def Let_def map_of_dict_set)
  ultimately show ?thesis
    using assms by (simp add: index_counts_def note_entity_def Let_def dict_set_distinct)
qed

lemma index_counts_fold:
  "index_counts M idx \<Longrightarrow> index_counts (\<lambda>k. M k \<union> (if k \<in> py_casefold ` set names then {i} else {}))
     (fold (note_entity i src) names idx)"
proof (induction names arbitrary: M idx)
  case (Cons n names)
  have "(\<lambda>k. (M(py_casefold n := insert i (M (py_casefold n)))) k \<union> (if k \<in> py_casefold ` set names then {i} else {}))
      = (\<lambda>k. M k \<union> (if k \<in> py_casefold ` set (n # names) then {i} else {}))"
    by (auto simp: fun_eq_iff)
  then show ?case using Cons.IH [OF index_counts_note [OF Cons.prems, of n i src]] by simp
qed simp

lemma index_counts_facts:
  "index_counts (\<lambda>k. f_id ` {f \<in> set fs. k \<in> entity_keys f}) (fold note_fact fs [])"
proof (induction fs rule: rev_induct)
  case (snoc f fs)
  have "(\<lambda>k. f_id ` {f \<in> set fs. k \<in> entity_keys f} \<union> (if k \<in> py_casefold ` set (subject_names f) then {f_id f} else {})
        \<union> (if k \<in> py_casefold ` set (tag_names f) then {f_id f} else {}))
      = (\<lambda>k. f_id ` {g \<in> set (fs @ [f]). k \<in> entity_keys g})"
    by (auto simp: fun_eq_iff entity_keys_def)
  then show ?case
    using index_counts_fold [OF index_counts_fold [OF snoc, of "subject_names f" "f_id f" "''subject''"],
        of "tag_names f" "f_id f" "''tag''"]
    by (simp add: note_fact_def)
qed (simp add: index_counts_def entry_counts_def)

text \<open>the count of every ranked entity is the number of scanned current facts that name it as their
  subject or as a tag, and at least the requested minimum.\<close>

theorem entity_counts_exact:
  assumes ids: "ids_ok d" and run: "entities lib scope min_facts limit d = Inr [(''entities'', JArr js), t]"
    and sc: "clean_scopes scope = Inr scopes"
    and act: "active_facts (Some scopes) None 10000 d = Inr scanned" and j: "j \<in> set js"
  shows "\<exists>name src. j = JObj [(''name'', JStr name),
       (''fact_count'', JInt (int (card {f \<in> set scanned. matches_entity f name}))), (''derived_from'', src)]
     \<and> min_facts \<le> int (card {f \<in> set scanned. matches_entity f name})"
proof -
  let ?idx = "fold note_fact scanned []"
  have js: "1 \<le> limit" "js = fst (bounded lib (map entity_json (sort_key rank_key
       (filter (\<lambda>e. min_facts \<le> int (length (en_ids e))) (map snd ?idx)))) limit)"
    using run sc act by (auto simp: entities_def rbind_eq_Inr projection_limit_Inr Let_def case_prod_beta
        projection_scan_limit_def)
  then obtain k e where je: "j = entity_json e" and e: "(k, e) \<in> set ?idx" "min_facts \<le> int (length (en_ids e))"
    using set_bounded [OF js(1) j [unfolded js(2)]] by auto
  have inv: "index_counts (\<lambda>k. f_id ` {f \<in> set scanned. k \<in> entity_keys f}) ?idx" by (rule index_counts_facts)
  then have "map_of ?idx k = Some e" using e by (auto simp: index_counts_def)
  then have c: "set (en_ids e) = f_id ` {f \<in> set scanned. k \<in> entity_keys f}" "distinct (en_ids e)"
    "py_casefold (en_display e) = k"
    using inv by (auto simp: index_counts_def entry_counts_def dest!: spec [of _ k])
  have "set scanned \<subseteq> set (db_facts d)"
    using act by (auto simp: active_facts_def rbind_eq_Inr dest!: in_set_takeD split: if_splits)
  then have "inj_on f_id {f \<in> set scanned. k \<in> entity_keys f}"
    using ids by (auto simp: ids_ok_def fact_ids_def distinct_map intro: inj_on_subset)
  then have "length (en_ids e) = card {f \<in> set scanned. matches_entity f (en_display e)}"
    using distinct_card [OF c(2)] by (simp add: c card_image matches_entity_keys)
  then show ?thesis using je e(2) by (auto simp: entity_json_def)
qed

section \<open>Examples\<close>

definition demo_lib :: projection_lib where
  "demo_lib = \<lparr>pl_float_repr = (\<lambda>q. ''0.5''), pl_julianday = demo_julianday,
     pl_fromisoformat = (\<lambda>s. Some (int (length s), None)), pl_utc_isoformat = (\<lambda>i. Some (replicate (nat i) CHR ''t''))\<rparr>"

definition demo_scanned :: "fact list" where
  "demo_scanned = [demo_state_fact 4 ''uses nano'' ''you'' None, demo_fact 3 ''likes tea'']"

lemma demo_scan: "active_facts (Some [''private'']) None 10000 demo_db = Inr demo_scanned"
proof -
  have "active_facts (Some [''private'']) None 10 demo_db = Inr demo_scanned" by code_simp
  moreover have "take 10000 (rev (sort_key f_id (filter P (db_facts demo_db))))
      = take 10 (rev (sort_key f_id (filter P (db_facts demo_db))))" for P
    using length_filter_le [of P "db_facts demo_db"] by (simp add: demo_defs)
  ultimately show ?thesis
    by (simp add: active_facts_def rbind_eq_Inr)
qed

lemma demo_ids_ok: "ids_ok demo_db"
  using demo_db_slot_inv by (simp add: slot_inv_def)

definition demo_entity :: json where
  "demo_entity = JObj [(''name'', JStr ''you''), (''fact_count'', JInt 1), (''derived_from'', JArr [JStr ''subject''])]"

lemma demo_clean_scopes: "clean_scopes [''private''] = Inr [''private'']"
  by code_simp

lemma demo_entities:
  "entities demo_lib [''private''] 1 5 demo_db = Inr [(''entities'', JArr [demo_entity]), (''truncated'', JBool False)]"
proof -
  have ranked: "map entity_json (sort_key rank_key (filter (\<lambda>e. Suc 0 \<le> length (en_ids e))
      (map snd (fold note_fact demo_scanned [])))) = [demo_entity]"
    by code_simp
  have scanned: "length demo_scanned = 2" by (simp add: demo_scanned_def)
  have chars: "json_chars demo_lib demo_entity \<le> 99" by code_simp
  have "bounded demo_lib [demo_entity] 5 = ([demo_entity], False)"
    using chars by (simp add: bounded_def items_char_budget_def max_output_chars_def)
  then show ?thesis
    by (simp add: entities_def demo_clean_scopes projection_scan_limit_def demo_scan Let_def ranked
        projection_limit_def projection_limit_max_def guard_res_def scanned)
qed

theorem projections_bounded_witness:
  "json_chars demo_lib (JObj [(''entities'', JArr [demo_entity]), (''truncated'', JBool False)]) \<le> 60000"
  using projections_bounded [of demo_lib "[]" "[]" "[''private'']" 5 demo_db _ "[]" 1 "[]"] demo_entities by blast

theorem entity_counts_exact_witness:
  "card {f \<in> set demo_scanned. matches_entity f ''you''} = 1"
  using entity_counts_exact [OF _ demo_entities demo_clean_scopes demo_scan, of demo_entity]
    demo_ids_ok
  by (auto simp: demo_entity_def)

lemma demo_settled:
  "settled_fact_events demo_julianday (Some [''private'']) None None demo_db = Inr [demo_event, demo_event2]"
  by code_simp

theorem event_rows_newest_witness:
  "event_rows demo_lib [''private''] None None demo_db = (take_last 10000 [demo_event, demo_event2], False)"
  using event_rows_newest [where d = demo_db and lib = demo_lib and scopes = "[''private'']" and since = None
      and until = None and scope = "[''private'']" and es = "[demo_event, demo_event2]"]
    demo_ids_ok demo_clean_scopes
    demo_settled
  by (simp add: demo_lib_def) (simp add: demo_defs)

lemma demo_rows: "event_rows demo_lib [''private''] None None demo_db = ([demo_event, demo_event2], False)"
  using event_rows_settled [where d = demo_db and lib = demo_lib and scopes = "[''private'']" and since = None
      and until = None and scope = "[''private'']" and es = "[demo_event, demo_event2]"]
    demo_ids_ok demo_clean_scopes demo_settled
  by (simp add: demo_lib_def) (simp add: demo_defs take_last_def)

lemma demo_timeline:
  "timeline demo_lib ''TEA'' [''private''] 5 demo_db = Inr [(''events'', JArr [event_json demo_event]), (''truncated'', JBool False)]"
proof -
  have q: "py_casefold (py_strip ''TEA'') = ''tea''" "py_strip ''TEA'' \<noteq> []" by code_simp+
  have matched: "filter (\<lambda>e. str_contains ''tea'' (timeline_text (ev_fact e))) [demo_event, demo_event2] = [demo_event]"
    by code_simp
  have "json_chars demo_lib (event_json demo_event) \<le> 999" by code_simp
  then have "bounded demo_lib [event_json demo_event] 5 = ([event_json demo_event], False)"
    by (simp add: bounded_def items_char_budget_def max_output_chars_def)
  then show ?thesis
    using q(2)
    by (simp add: timeline_def demo_clean_scopes Let_def demo_rows q(1) matched take_last_def max_query_chars_def
        projection_limit_def projection_limit_max_def guard_res_def del: filter.simps)
qed

theorem projections_in_scope_witness:
  "event_json demo_event \<in> events_in {''private''}"
proof -
  have cols: "db_fact_columns demo_db = v1_fact_columns" by (simp add: demo_defs)
  have "set (map py_strip [''private'']) = {''private''}" by code_simp
  then show ?thesis
    using projections_in_scope [OF cols, THEN conjunct2, THEN conjunct1, THEN mp, OF demo_timeline] by auto
qed

end
