(* ===== verification/Context_Guarantees.thy ===== *)
theory Context_Guarantees
  imports Context_Pack "HOL-Library.Sublist"
begin

text \<open>
  What a context pack promises: its size, which facts enter it, how a text is cut, and which
  rows the diversified selection takes.
\<close>

section \<open>Views of rows\<close>

text \<open>Two rows that agree on the columns the safety test, the slot and the line prefix read.\<close>

definition viewed_columns :: "string list" where
  "viewed_columns =
     [''invalid_at'', ''superseded_by'', ''conflict_group'', ''memory_kind'',
      ''subject_key'', ''predicate_key'', ''scope'', ''fact_id'', ''score'', ''attribution'']"

definition same_slot_view :: "row \<Rightarrow> row \<Rightarrow> bool" where
  "same_slot_view f g \<longleftrightarrow> (\<forall>k \<in> set viewed_columns. dict_get f k = dict_get g k)"

lemma same_slot_view_safe: "same_slot_view f g \<Longrightarrow> safe_candidate f = safe_candidate g"
  by (simp add: same_slot_view_def viewed_columns_def safe_candidate_def)

lemma same_slot_view_slot: "same_slot_view f g \<Longrightarrow> state_slot f = state_slot g"
  by (simp add: same_slot_view_def viewed_columns_def state_slot_def)

lemma same_slot_view_prefix: "same_slot_view f g \<Longrightarrow> line_prefix fl f = line_prefix fl g"
  by (simp add: same_slot_view_def viewed_columns_def line_prefix_def)

lemma same_slot_view_pop: "same_slot_view (dict_pop ''_mmr_embedding'' f) f"
  by (simp add: same_slot_view_def viewed_columns_def dict_get_pop)

lemma same_slot_view_set:
  "k \<notin> set viewed_columns \<Longrightarrow> same_slot_view (dict_set k v f) g = same_slot_view f g"
  unfolding same_slot_view_def by (metis dict_get_set)

lemma not_viewed [simp]:
  "''content'' \<notin> set viewed_columns" "''context_truncated'' \<notin> set viewed_columns"
  "''content_truncated'' \<notin> set viewed_columns"
  by (simp_all add: viewed_columns_def)

section \<open>Truncation\<close>

definition fits_at :: "string \<Rightarrow> int \<Rightarrow> int \<Rightarrow> bool" where
  "fits_at s budget m \<longleftrightarrow> int (estimate_tokens (py_rstrip (take (nat m) s) @ ellipsis)) \<le> budget"

lemma length_py_rstrip_append: "length (py_rstrip s) \<le> length (py_rstrip (s @ t))"
proof (induction t rule: rev_induct)
  case Nil
  then show ?case by simp
next
  case (snoc c t)
  have "length (py_rstrip s) \<le> length (s @ t @ [c])"
    using length_py_rstrip_le [of s] by simp
  with snoc show ?case
    using py_rstrip_snoc [of "s @ t" c] by (simp split: if_splits)
qed

lemma length_py_rstrip_take_mono:
  assumes "m \<le> n"
  shows "length (py_rstrip (take m s)) \<le> length (py_rstrip (take n s))"
proof -
  have "take n s = take m s @ take (n - m) (drop m s)"
    using assms by (metis le_add_diff_inverse take_add)
  then show ?thesis using length_py_rstrip_append [of "take m s"] by simp
qed

lemma fits_at_antimono:
  assumes fits: "fits_at s budget n" and le: "m \<le> n"
  shows "fits_at s budget m"
proof -
  have "length (py_rstrip (take (nat m) s)) \<le> length (py_rstrip (take (nat n) s))"
    by (rule length_py_rstrip_take_mono) (use le in simp)
  then have "estimate_tokens (py_rstrip (take (nat m) s) @ ellipsis)
      \<le> estimate_tokens (py_rstrip (take (nat n) s) @ ellipsis)"
    by (simp add: estimate_tokens_def div_le_mono)
  with fits show ?thesis by (simp add: fits_at_def)
qed

text \<open>
  The search keeps: everything below \<open>low\<close> fits, nothing above \<open>high\<close> does, and \<open>best\<close> is the cut
  at \<open>low - 1\<close>.
\<close>

lemma truncate_search_boundary:
  assumes "0 \<le> low" and "low \<le> high + 1" and "high \<le> n"
    and "\<And>m. high < m \<Longrightarrow> m \<le> n \<Longrightarrow> \<not> fits_at s budget m"
    and "\<And>m. 0 \<le> m \<Longrightarrow> m < low \<Longrightarrow> fits_at s budget m"
    and "0 < low \<Longrightarrow> best = py_rstrip (take (nat (low - 1)) s) @ ellipsis"
  shows "\<exists>k. low \<le> k \<and> k \<le> high + 1
     \<and> (\<forall>m. 0 \<le> m \<and> m < k \<longrightarrow> fits_at s budget m) \<and> (\<forall>m. k \<le> m \<and> m \<le> n \<longrightarrow> \<not> fits_at s budget m)
     \<and> truncate_search s budget low high best
         = (if 0 < k then py_rstrip (take (nat (k - 1)) s) @ ellipsis else best)"
  using assms
proof (induction s budget low high best rule: truncate_search.induct)
  case (1 s budget low high best)
  show ?case
  proof (cases "low \<le> high")
    case False
    with 1(3-) have eq: "low = high + 1" by simp
    have "truncate_search s budget low high best = best"
      using False by (subst truncate_search.simps) simp
    then show ?thesis using False 1(6-8) eq by (intro exI [of _ low]) auto
  next
    case True
    define mid where "mid = (low + high) div 2"
    define cand where "cand = py_rstrip (take (nat mid) s) @ ellipsis"
    have mid: "low \<le> mid" "mid \<le> high" using True by (auto simp: mid_def)
    show ?thesis
    proof (cases "fits_at s budget mid")
      case fit: True
      then have step: "truncate_search s budget low high best = truncate_search s budget (mid + 1) high cand"
        using True by (subst truncate_search.simps) (simp add: mid_def cand_def fits_at_def Let_def)
      have below: "fits_at s budget m" if "0 \<le> m" "m < mid + 1" for m
        using fits_at_antimono [OF fit, of m] that by simp
      have "\<exists>k. mid + 1 \<le> k \<and> k \<le> high + 1
         \<and> (\<forall>m. 0 \<le> m \<and> m < k \<longrightarrow> fits_at s budget m) \<and> (\<forall>m. k \<le> m \<and> m \<le> n \<longrightarrow> \<not> fits_at s budget m)
         \<and> truncate_search s budget (mid + 1) high cand
             = (if 0 < k then py_rstrip (take (nat (k - 1)) s) @ ellipsis else cand)"
        using 1(1) [OF True mid_def cand_def] fit mid 1(3-6) below
        by (simp add: fits_at_def cand_def)
      then obtain k where k: "mid + 1 \<le> k" "k \<le> high + 1"
          "\<forall>m. 0 \<le> m \<and> m < k \<longrightarrow> fits_at s budget m" "\<forall>m. k \<le> m \<and> m \<le> n \<longrightarrow> \<not> fits_at s budget m"
          "truncate_search s budget (mid + 1) high cand
             = (if 0 < k then py_rstrip (take (nat (k - 1)) s) @ ellipsis else cand)"
        by blast
      have "0 < k" using k(1) mid 1(3) by simp
      with k mid show ?thesis unfolding step by (intro exI [of _ k]) simp
    next
      case miss: False
      then have step: "truncate_search s budget low high best = truncate_search s budget low (mid - 1) best"
        using True by (subst truncate_search.simps) (simp add: mid_def cand_def fits_at_def Let_def)
      have above: "\<not> fits_at s budget m" if "mid - 1 < m" "m \<le> n" for m
        using fits_at_antimono [of s budget m mid] miss that by auto
      have "\<exists>k. low \<le> k \<and> k \<le> mid - 1 + 1
         \<and> (\<forall>m. 0 \<le> m \<and> m < k \<longrightarrow> fits_at s budget m) \<and> (\<forall>m. k \<le> m \<and> m \<le> n \<longrightarrow> \<not> fits_at s budget m)
         \<and> truncate_search s budget low (mid - 1) best
             = (if 0 < k then py_rstrip (take (nat (k - 1)) s) @ ellipsis else best)"
        by (rule 1(2) [OF True mid_def cand_def]) (use miss mid 1(3-8) above in \<open>auto simp: fits_at_def cand_def\<close>)
      then show ?thesis unfolding step using mid by (auto intro: order_trans)
    qed
  qed
qed

lemma estimate_le_iff: "int (estimate_tokens s) \<le> b \<longleftrightarrow> int (length s) \<le> 4 * b"
  unfolding estimate_tokens_def by presburger

lemma length_ellipsis [simp]: "length ellipsis = 1"
  by (simp add: ellipsis_def)

lemma length_truncation_marker [simp]: "length truncation_marker = 13"
  by (simp add: truncation_marker_def)

text \<open>The reference: try every prefix length in turn and keep the last that fits.\<close>

definition longest_cut :: "string \<Rightarrow> int \<Rightarrow> string" where
  "longest_cut s budget =
     py_rstrip (take (last (filter (\<lambda>m. fits_at s budget (int m)) [0..<Suc (length s)])) s) @ ellipsis"

lemma last_filter_upt:
  assumes "k \<le> n" and "\<And>m. m < Suc k \<Longrightarrow> P m" and "\<And>m. Suc k \<le> m \<Longrightarrow> m \<le> n \<Longrightarrow> \<not> P m"
  shows "last (filter P [0..<Suc n]) = k"
proof -
  have "[0..<Suc n] = [0..<Suc k] @ [Suc k..<Suc n]"
    using assms(1) by (metis Suc_le_mono le_add_diff_inverse upt_add_eq_append zero_le)
  moreover have "filter P [0..<Suc k] = [0..<Suc k]" and "filter P [Suc k..<Suc n] = []"
    using assms(2,3) by (auto simp: filter_empty_conv filter_id_conv)
  ultimately have "filter P [0..<Suc n] = [0..<Suc k]" by (simp only: filter_append append_Nil2)
  then show ?thesis by simp
qed

lemma truncate_search_longest:
  assumes "0 < budget"
  shows "truncate_search s budget 0 (int (length s)) [] = longest_cut s budget"
proof -
  have zero: "fits_at s budget 0" using assms by (simp add: fits_at_def estimate_le_iff py_rstrip_def)
  obtain k where k: "0 \<le> k" "k \<le> int (length s) + 1"
      "\<forall>m. 0 \<le> m \<and> m < k \<longrightarrow> fits_at s budget m"
      "\<forall>m. k \<le> m \<and> m \<le> int (length s) \<longrightarrow> \<not> fits_at s budget m"
      "truncate_search s budget 0 (int (length s)) []
         = (if 0 < k then py_rstrip (take (nat (k - 1)) s) @ ellipsis else [])"
    using truncate_search_boundary [of 0 "int (length s)" "int (length s)" s budget "[]"] by auto
  have "0 < k" using k(1,4) zero by (cases "k = 0") auto
  moreover have "last (filter (\<lambda>m. fits_at s budget (int m)) [0..<Suc (length s)]) = nat (k - 1)"
    by (rule last_filter_upt) (use k \<open>0 < k\<close> in auto)
  ultimately show ?thesis using k(5) by (simp add: longest_cut_def)
qed

lemma longest_cut_fits:
  assumes "0 < budget"
  shows "int (length (longest_cut s budget)) \<le> 4 * budget"
proof -
  let ?ms = "filter (\<lambda>m. fits_at s budget (int m)) [0..<Suc (length s)]"
  have "fits_at s budget 0" using assms by (simp add: fits_at_def estimate_le_iff py_rstrip_def)
  then have "0 \<in> set ?ms" by (simp del: upt_Suc)
  then have "last ?ms \<in> set ?ms" by (metis empty_iff last_in_set set_empty)
  then have "fits_at s budget (int (last ?ms))" by (simp del: upt_Suc)
  then show ?thesis by (simp add: fits_at_def longest_cut_def estimate_le_iff del: upt_Suc)
qed

lemma truncate_to_budget_eq:
  "0 < budget \<Longrightarrow> truncate_to_budget s budget =
     (if int (length s) \<le> 4 * budget then (s, False) else (longest_cut s budget, True))"
  by (auto simp: truncate_to_budget_def truncate_search_longest estimate_le_iff
      estimate_tokens_def [of ellipsis])

lemma truncate_to_budget_bound:
  assumes "truncate_to_budget s budget = (t, tr)"
  shows "length t \<le> length s \<and> (\<not> tr \<longrightarrow> t = s) \<and> (t \<noteq> [] \<longrightarrow> int (length t) \<le> 4 * budget)"
proof (cases "0 < budget")
  case True
  then show ?thesis
    using assms longest_cut_fits [OF True, of s] by (auto simp: truncate_to_budget_eq split: if_splits)
next
  case False
  then show ?thesis using assms by (auto simp: truncate_to_budget_def)
qed

lemma truncate_to_chars_bound:
  assumes "truncate_to_chars s m = (t, tr)" and "13 \<le> m"
  shows "int (length t) \<le> m" and "\<not> tr \<Longrightarrow> t = s"
proof -
  have "int (length (py_rstrip (take (nat (m - 13)) s))) \<le> m - 13"
    using length_py_rstrip_le [of "take (nat (m - 13)) s"] assms(2) by (simp add: nat_le_iff) linarith
  then show "int (length t) \<le> m" and "\<not> tr \<Longrightarrow> t = s"
    using assms(1) by (auto simp: truncate_to_chars_def split: if_splits)
qed

text \<open>Cutting a text to a token budget. The binary search returns exactly what trying every
  prefix length would: the text itself when it fits, otherwise the longest prefix that fits with
  the ellipsis, trailing space removed; a text cut to a character limit keeps within the limit.\<close>

theorem truncation_exact:
  "(0 < budget \<longrightarrow> truncate_to_budget s budget =
      (if int (length s) \<le> 4 * budget then (s, False) else (longest_cut s budget, True)))
   \<and> (0 < budget \<longrightarrow> int (estimate_tokens (fst (truncate_to_budget s budget))) \<le> budget)
   \<and> (13 \<le> m \<longrightarrow> int (length (fst (truncate_to_chars s m))) \<le> m)"
  using truncate_to_budget_eq [of budget s] longest_cut_fits [of budget s] truncate_to_chars_bound(1) [of s m]
  by (cases "truncate_to_chars s m") (auto simp: estimate_le_iff)

theorem truncation_exact_witness:
  "truncate_to_budget ''the deploy target is staging'' 3 = (''the deploy'' @ ellipsis, True)"
proof -
  have "longest_cut ''the deploy target is staging'' 3 = ''the deploy'' @ ellipsis" by code_simp
  then show ?thesis using truncation_exact [of 3 "''the deploy target is staging''" 13] by simp
qed

section \<open>The pack\<close>

text \<open>How a fact of the pack comes from a row of the search result.\<close>

definition packed_from :: "int option \<Rightarrow> row \<Rightarrow> row \<Rightarrow> bool" where
  "packed_from max_fact_chars raw f \<longleftrightarrow>
     safe_candidate raw \<and> same_slot_view f raw \<and> dict_get f ''_mmr_embedding'' = JNull
     \<and> text_of (dict_get f ''content'') \<noteq> []
     \<and> (dict_get f ''context_truncated'' = JBool True
        \<or> dict_get f ''context_truncated'' = JBool False
          \<and> text_of (dict_get f ''content'') = text_of (dict_get raw ''content''))
     \<and> (\<forall>m. max_fact_chars = Some m \<longrightarrow> int (length (text_of (dict_get f ''content''))) \<le> m)"

definition render_line :: "float_lib \<Rightarrow> row \<Rightarrow> string" where
  "render_line fl f = line_prefix fl f @ text_of (dict_get f ''content'') @ [CHR 0x0A]"

text \<open>
  The cases of one pass: the row is counted as unsafe, counted as omitted, or packed.
\<close>

definition packs :: "float_lib \<Rightarrow> int \<Rightarrow> int option \<Rightarrow> row \<Rightarrow> pack_state \<Rightarrow> row \<Rightarrow> bool" where
  "packs fl budget mfc raw st f \<longleftrightarrow>
     packed_from mfc raw f \<and> int (estimate_tokens (pk_markdown st @ render_line fl f)) \<le> budget
     \<and> (\<forall>sl. state_slot raw = Some sl \<longrightarrow> sl \<notin> set (pk_slots st))
     \<and> pack_fact fl budget mfc raw st =
         st\<lparr>pk_selected := pk_selected st @ [f],
            pk_slots := (case state_slot raw of None \<Rightarrow> pk_slots st | Some sl \<Rightarrow> sl # pk_slots st),
            pk_markdown := pk_markdown st @ render_line fl f\<rparr>"

lemma packed_fact:
  assumes mfc: "\<forall>m. mfc = Some m \<longrightarrow> 13 \<le> m"
    and safe: "safe_candidate raw"
    and c1: "(case mfc of None \<Rightarrow> (text_of (dict_get raw ''content''), False)
              | Some m \<Rightarrow> truncate_to_chars (text_of (dict_get raw ''content'')) m) = (c1, ct)"
    and c: "truncate_to_budget c1 available = (c, bt)" "c \<noteq> []"
    and f: "f = (if ct then dict_set ''content_truncated'' (JBool True) f1 else f1)"
      "f1 = dict_set ''context_truncated'' (JBool (ct \<or> bt))
              (dict_set ''content'' (JStr c) (dict_pop ''_mmr_embedding'' raw))"
  shows "packed_from mfc raw f" and "text_of (dict_get f ''content'') = c"
proof -
  have view: "same_slot_view f raw"
    by (simp add: f same_slot_view_set same_slot_view_pop)
  have content: "dict_get f ''content'' = JStr c" by (simp add: f dict_get_set)
  have trunc: "dict_get f ''context_truncated'' = JBool (ct \<or> bt)" by (simp add: f dict_get_set)
  have emb: "dict_get f ''_mmr_embedding'' = JNull" by (simp add: f dict_get_set dict_get_popped)
  have c1_le: "int (length c1) \<le> m" if "mfc = Some m" for m
    using truncate_to_chars_bound(1) [of "text_of (dict_get raw ''content'')" m c1 ct] c1 mfc that by simp
  have c1_eq: "c1 = text_of (dict_get raw ''content'')" if "\<not> ct"
    using truncate_to_chars_bound(2) c1 mfc that by (auto split: option.splits)
  note bound = truncate_to_budget_bound [OF c(1)]
  show "text_of (dict_get f ''content'') = c" by (simp add: content text_of_def)
  show "packed_from mfc raw f"
    unfolding packed_from_def content trunc emb using safe view bound c1_le c1_eq c(2)
    by (fastforce simp: text_of_def)
qed

lemma pack_fact_cases [consumes 1, case_names unsafe omitted packed]:
  assumes mfc: "\<forall>m. mfc = Some m \<longrightarrow> 13 \<le> m"
  obtains (unsafe) "pack_fact fl budget mfc raw st = st\<lparr>pk_unsafe := pk_unsafe st + 1\<rparr>" "\<not> safe_candidate raw"
  | (omitted) "pack_fact fl budget mfc raw st = st\<lparr>pk_omitted := pk_omitted st + 1\<rparr>"
  | (packed) f where "packs fl budget mfc raw st f"
proof -
  let ?f = "dict_pop ''_mmr_embedding'' raw"
  have content: "dict_get ?f ''content'' = dict_get raw ''content''" by (simp add: dict_get_pop)
  note eqs = same_slot_view_safe [OF same_slot_view_pop] same_slot_view_slot [OF same_slot_view_pop]
    same_slot_view_prefix [OF same_slot_view_pop]
  show thesis
  proof (cases "safe_candidate raw")
    case False
    then show thesis using unsafe by (simp add: pack_fact_def eqs)
  next
    case safe: True
    obtain c1 ct where c1: "(case mfc of None \<Rightarrow> (text_of (dict_get raw ''content''), False)
        | Some m \<Rightarrow> truncate_to_chars (text_of (dict_get raw ''content'')) m) = (c1, ct)"
      by (cases "case mfc of None \<Rightarrow> (text_of (dict_get raw ''content''), False)
        | Some m \<Rightarrow> truncate_to_chars (text_of (dict_get raw ''content'')) m")
    define available where "available = budget - int (estimate_tokens (pk_markdown st))
      - int (estimate_tokens (line_prefix fl raw)) - 1"
    obtain c bt where c: "truncate_to_budget c1 available = (c, bt)" by (cases "truncate_to_budget c1 available")
    define f1 where "f1 = dict_set ''context_truncated'' (JBool (ct \<or> bt)) (dict_set ''content'' (JStr c) ?f)"
    define f where "f = (if ct then dict_set ''content_truncated'' (JBool True) f1 else f1)"
    let ?line = "line_prefix fl raw @ c @ [CHR 0x0A]"
    define skip where "skip \<longleftrightarrow> (case state_slot raw of None \<Rightarrow> False | Some sl \<Rightarrow> sl \<in> set (pk_slots st))
      \<or> (bt \<and> length (py_rstrip (rstrip_char (hd ellipsis) c)) < 8) \<or> c = []
      \<or> int (estimate_tokens (pk_markdown st @ ?line)) > budget"
    have eq: "pack_fact fl budget mfc raw st =
        (if skip then st\<lparr>pk_omitted := pk_omitted st + 1\<rparr>
         else st\<lparr>pk_selected := pk_selected st @ [f],
            pk_slots := (case state_slot raw of None \<Rightarrow> pk_slots st | Some sl \<Rightarrow> sl # pk_slots st),
            pk_markdown := pk_markdown st @ ?line\<rparr>)"
      using safe c
      by (simp add: pack_fact_def eqs content c1 available_def [symmetric] skip_def f_def f1_def Let_def
          split: option.splits)
    show thesis
    proof (cases skip)
      case True
      with eq show thesis using omitted by simp
    next
      case False
      then have "c \<noteq> []" by (simp add: skip_def)
      note origin = packed_fact [OF mfc safe c1 c this f_def f1_def]
      have view: "line_prefix fl f = line_prefix fl raw"
        using origin(1) by (intro same_slot_view_prefix) (simp add: packed_from_def)
      have "packs fl budget mfc raw st f"
        using False origin eq unfolding packs_def render_line_def view
        by (auto simp: skip_def split: option.splits)
      then show thesis by (rule packed)
    qed
  qed
qed

text \<open>The state slots of a list of rows, in order.\<close>

definition slots_of :: "row list \<Rightarrow> (string \<times> string \<times> string) list" where
  "slots_of fs = concat (map (\<lambda>f. case state_slot f of None \<Rightarrow> [] | Some sl \<Rightarrow> [sl]) fs)"

text \<open>What the loop keeps after the rows \<open>seen\<close>, when it starts with \<open>om\<close> omitted rows.\<close>

definition pack_inv :: "float_lib \<Rightarrow> int \<Rightarrow> int option \<Rightarrow> nat \<Rightarrow> row list \<Rightarrow> pack_state \<Rightarrow> bool" where
  "pack_inv fl budget mfc om seen st \<longleftrightarrow>
     (\<exists>raws. subseq raws seen \<and> list_all2 (packed_from mfc) raws (pk_selected st))
     \<and> pk_markdown st = header @ concat (map (render_line fl) (pk_selected st))
     \<and> int (estimate_tokens (pk_markdown st)) \<le> budget
     \<and> pk_slots st = rev (slots_of (pk_selected st)) \<and> distinct (pk_slots st)
     \<and> length (pk_selected st) + pk_omitted st + pk_unsafe st = om + length seen"

lemma pack_inv_start:
  "int (estimate_tokens header) \<le> budget \<Longrightarrow> pack_inv fl budget mfc om [] (pack_start om)"
  by (simp add: pack_inv_def pack_start_def slots_of_def)

lemma pack_inv_step:
  assumes mfc: "\<forall>m. mfc = Some m \<longrightarrow> 13 \<le> m" and inv: "pack_inv fl budget mfc om seen st"
  shows "pack_inv fl budget mfc om (seen @ [raw]) (pack_fact fl budget mfc raw st)"
proof -
  obtain raws where raws: "subseq raws seen" "list_all2 (packed_from mfc) raws (pk_selected st)"
    using inv by (auto simp: pack_inv_def)
  have longer: "subseq raws (seen @ [raw])" using raws(1) by (rule subseq_rev_drop_many)
  from mfc show ?thesis
  proof (cases rule: pack_fact_cases [of mfc fl budget raw st])
    case unsafe
    then show ?thesis using inv raws longer by (auto simp: pack_inv_def)
  next
    case omitted
    then show ?thesis using inv raws longer by (auto simp: pack_inv_def)
  next
    case (packed f)
    then have step: "packed_from mfc raw f" by (simp add: packs_def)
    then have slot: "state_slot f = state_slot raw"
      by (intro same_slot_view_slot) (simp add: packed_from_def)
    have "subseq (raws @ [raw]) (seen @ [raw])" using raws(1) by simp
    moreover have "list_all2 (packed_from mfc) (raws @ [raw]) (pk_selected st @ [f])"
      using raws(2) step by (simp add: list_all2_appendI)
    ultimately have "\<exists>raws. subseq raws (seen @ [raw]) \<and> list_all2 (packed_from mfc) raws (pk_selected st @ [f])"
      by blast
    moreover have "pk_slots st = rev (slots_of (pk_selected st))" and "distinct (pk_slots st)"
      using inv unfolding pack_inv_def by blast+
    moreover have "slots_of (pk_selected st @ [f]) = slots_of (pk_selected st) @ slots_of [f]"
      by (simp add: slots_of_def)
    moreover have "slots_of [f] = (case state_slot raw of None \<Rightarrow> [] | Some sl \<Rightarrow> [sl])"
      by (simp add: slots_of_def slot)
    ultimately show ?thesis
      using packed inv unfolding packs_def pack_inv_def
      by (cases "state_slot raw") simp_all
  qed
qed

lemma pack_inv_fold:
  assumes mfc: "\<forall>m. mfc = Some m \<longrightarrow> 13 \<le> m" and "pack_inv fl budget mfc om seen st"
  shows "pack_inv fl budget mfc om (seen @ ranked) (fold (pack_fact fl budget mfc) ranked st)"
  using assms(2)
proof (induction ranked arbitrary: seen st)
  case Nil
  then show ?case by simp
next
  case (Cons raw ranked)
  from Cons.IH [OF pack_inv_step [OF mfc Cons.prems]] show ?case by simp
qed

lemma pack_context_run:
  assumes "pack_context fl fs (JInt budget) mfc max_facts lam = Inr p"
  obtains (small) "p = \<lparr>cp_markdown = [], cp_facts = [], cp_abstained = True, cp_token_budget = budget,
      cp_token_estimate = 0, cp_omitted = length fs, cp_unsafe = 0\<rparr>" "0 < budget"
  | (run) l st where "unit_number lam = Some l" "0 < budget"
      "pack_inv fl budget mfc
         (length fs - length (mmr_select fl fs (case max_facts of JInt m \<Rightarrow> Some m | _ \<Rightarrow> None) l))
         (mmr_select fl fs (case max_facts of JInt m \<Rightarrow> Some m | _ \<Rightarrow> None) l) st"
      "p = pack_result budget st"
proof -
  have mfc: "\<forall>m. mfc = Some m \<longrightarrow> 13 \<le> m"
    using assms by (auto simp: pack_context_def split: if_splits)
  have pos: "0 < budget" using assms by (auto simp: pack_context_def split: if_splits)
  obtain l where l: "unit_number lam = Some l"
    using assms by (auto simp: pack_context_def split: if_splits option.splits)
  show thesis
  proof (cases "int (estimate_tokens header) > budget")
    case True
    then show thesis using assms l pos small by (auto simp: pack_context_def split: if_splits)
  next
    case False
    let ?ranked = "mmr_select fl fs (case max_facts of JInt m \<Rightarrow> Some m | _ \<Rightarrow> None) l"
    have "p = pack_result budget (fold (pack_fact fl budget mfc) ?ranked (pack_start (length fs - length ?ranked)))"
      using assms l False by (auto simp: pack_context_def Let_def split: if_splits)
    moreover have "pack_inv fl budget mfc (length fs - length ?ranked) ([] @ ?ranked)
        (fold (pack_fact fl budget mfc) ?ranked (pack_start (length fs - length ?ranked)))"
      by (rule pack_inv_fold [OF mfc]) (use False in \<open>auto intro: pack_inv_start\<close>)
    ultimately show thesis using run l pos by simp
  qed
qed

section \<open>Diversified selection\<close>

lemma key_less_irrefl: "\<not> key_less a a"
  by (simp add: key_less_def)

lemma key_less_trans: "\<not> key_less b a \<Longrightarrow> \<not> key_less c b \<Longrightarrow> \<not> key_less c a"
  by (auto simp: key_less_def)

lemma max_by_in: "max_by k best xs \<in> set (best # xs)"
proof (induction xs arbitrary: best)
  case (Cons x xs)
  show ?case using Cons [of best] Cons [of x] by auto
qed simp

lemma max_by_greatest: "y \<in> set (best # xs) \<Longrightarrow> \<not> key_less (k (max_by k best xs)) (k y)"
proof (induction xs arbitrary: best y)
  case Nil
  then show ?case by (simp add: key_less_irrefl)
next
  case (Cons x xs)
  let ?b = "if key_less (k best) (k x) then x else best"
  have top: "\<not> key_less (k (max_by k ?b xs)) (k ?b)" by (rule Cons.IH) simp
  have "\<not> key_less (k ?b) (k best)" and "\<not> key_less (k ?b) (k x)"
    by (auto simp: key_less_def)
  then have "\<not> key_less (k (max_by k ?b xs)) (k best)" and "\<not> key_less (k (max_by k ?b xs)) (k x)"
    using top key_less_trans by blast+
  moreover have "\<not> key_less (k (max_by k ?b xs)) (k y)" if "y \<in> set xs"
    using Cons.IH [of y ?b] that by simp
  ultimately show ?case using Cons.prems by auto
qed

text \<open>
  A greedy run over a list of rows: the positions picked, each of largest objective among the
  positions not picked before it.
\<close>

definition greedy :: "float_lib \<Rightarrow> rat \<Rightarrow> row list \<Rightarrow> nat list \<Rightarrow> bool" where
  "greedy fl lam fs picks \<longleftrightarrow>
     distinct picks \<and> set picks \<subseteq> {..<length fs}
     \<and> (\<forall>k < length picks. \<forall>j < length fs. j \<notin> set (take k picks) \<longrightarrow>
          (let sel = map ((!) fs) (take k picks)
           in \<not> key_less (mmr_objective fl lam sel (picks ! k, fs ! (picks ! k)))
                          (mmr_objective fl lam sel (j, fs ! j))))"

lemma greedy_snoc:
  assumes "greedy fl lam fs picks" and "i < length fs" and "i \<notin> set picks"
    and "\<And>j. j < length fs \<Longrightarrow> j \<notin> set picks \<Longrightarrow>
          \<not> key_less (mmr_objective fl lam (map ((!) fs) picks) (i, fs ! i))
                     (mmr_objective fl lam (map ((!) fs) picks) (j, fs ! j))"
  shows "greedy fl lam fs (picks @ [i])"
proof -
  have "\<not> key_less (mmr_objective fl lam (map ((!) fs) (take k (picks @ [i])))
          ((picks @ [i]) ! k, fs ! ((picks @ [i]) ! k)))
        (mmr_objective fl lam (map ((!) fs) (take k (picks @ [i]))) (j, fs ! j))"
    if "k < length (picks @ [i])" "j < length fs" "j \<notin> set (take k (picks @ [i]))" for k j
  proof (cases "k < length picks")
    case True
    then show ?thesis using assms(1) that(2,3) by (simp add: greedy_def Let_def nth_append)
  next
    case False
    then have "k = length picks" using that(1) by simp
    then show ?thesis using assms(4) that(2,3) by simp
  qed
  then show ?thesis using assms(1-3) by (simp add: greedy_def Let_def)
qed

lemma mmr_loop_greedy:
  assumes "greedy fl lam fs picks" and "distinct remaining"
    and "set remaining = {(i, fs ! i) | i. i < length fs \<and> i \<notin> set picks}"
    and "length picks \<le> limit" and "limit \<le> length fs"
  shows "\<exists>more. greedy fl lam fs (picks @ more) \<and> length (picks @ more) = limit
           \<and> mmr_loop fl lam limit remaining (map ((!) fs) picks) = map ((!) fs) (picks @ more)"
  using assms
proof (induction "limit - length picks" arbitrary: picks remaining)
  case 0
  then have "length picks = limit" by simp
  then have "mmr_loop fl lam limit remaining (map ((!) fs) picks) = map ((!) fs) picks"
    by (subst mmr_loop.simps) (simp split: list.splits)
  then show ?case using 0 \<open>length picks = limit\<close> by (intro exI [of _ "[]"]) simp
next
  case (Suc n)
  then have short: "length picks < limit" by simp
  have "remaining \<noteq> []"
  proof
    assume "remaining = []"
    then have "{..<length fs} \<subseteq> set picks" using Suc.prems(3) by auto
    then have "length fs \<le> length picks" by (metis card_length card_lessThan card_mono finite_set order_trans)
    then show False using short Suc.prems(5) by simp
  qed
  then obtain x xs where rem: "remaining = x # xs" by (cases remaining) auto
  let ?sel = "map ((!) fs) picks"
  define best where "best = max_by (mmr_objective fl lam ?sel) x xs"
  have "best \<in> set remaining" using max_by_in [of "mmr_objective fl lam ?sel" x xs] by (simp add: best_def rem)
  then obtain i where i: "best = (i, fs ! i)" "i < length fs" "i \<notin> set picks" using Suc.prems(3) by auto
  have greedy: "greedy fl lam fs (picks @ [i])"
  proof (rule greedy_snoc [OF Suc.prems(1) i(2,3)])
    fix j assume "j < length fs" "j \<notin> set picks"
    then have "(j, fs ! j) \<in> set (x # xs)" using Suc.prems(3) rem by auto
    then show "\<not> key_less (mmr_objective fl lam ?sel (i, fs ! i)) (mmr_objective fl lam ?sel (j, fs ! j))"
      using max_by_greatest [of "(j, fs ! j)" x xs "mmr_objective fl lam ?sel"] i(1) by (simp add: best_def)
  qed
  have rest: "set (remove1 best remaining) = {(j, fs ! j) | j. j < length fs \<and> j \<notin> set (picks @ [i])}"
    using Suc.prems(2,3) i by auto
  have "n = limit - length (picks @ [i])" using Suc.hyps(2) by simp
  from Suc.hyps(1) [OF this greedy _ rest] Suc.prems(2,5) short
  obtain more where more: "greedy fl lam fs ((picks @ [i]) @ more)" "length ((picks @ [i]) @ more) = limit"
      "mmr_loop fl lam limit (remove1 best remaining) (map ((!) fs) (picks @ [i])) = map ((!) fs) ((picks @ [i]) @ more)"
    by auto
  have "mmr_loop fl lam limit remaining ?sel = mmr_loop fl lam limit (remove1 best remaining) (?sel @ [snd best])"
    using short by (subst mmr_loop.simps) (simp add: rem best_def Let_def)
  then show ?case using more i(1) by (intro exI [of _ "i # more"]) simp
qed

lemma mmr_select_picks:
  assumes "0 < m" and "m < int (length fs)"
  shows "\<exists>picks. length picks = nat m \<and> greedy fl lam fs picks
           \<and> mmr_select fl fs (Some m) lam = map ((!) fs) picks"
proof -
  have "set (enumerate 0 fs) = {(i, fs ! i) | i. i < length fs \<and> i \<notin> set []}"
    by (auto simp: in_set_enumerate_eq)
  moreover have "greedy fl lam fs []" by (simp add: greedy_def)
  moreover have "nat m \<le> length fs" using assms by simp
  ultimately have "\<exists>more. greedy fl lam fs more \<and> length more = nat m
      \<and> mmr_loop fl lam (nat m) (enumerate 0 fs) [] = map ((!) fs) more"
    using mmr_loop_greedy [of fl lam fs "[]" "enumerate 0 fs" "nat m"] by simp
  then show ?thesis using assms by (auto simp: mmr_select_def)
qed

lemma mmr_select_length: "length (mmr_select fl fs mf lam) \<le> length fs"
proof (cases "\<exists>m. mf = Some m \<and> 0 < m \<and> m < int (length fs)")
  case True
  then obtain m where m: "mf = Some m" "0 < m" "m < int (length fs)" by blast
  obtain picks where "length picks = nat m" "mmr_select fl fs (Some m) lam = map ((!) fs) picks"
    using mmr_select_picks [OF m(2,3), of fl lam] by blast
  then show ?thesis using m by simp
next
  case False
  then have "mmr_select fl fs mf lam = fs \<or> mmr_select fl fs mf lam = []"
    by (subst (1 2) mmr_select_def, subst (1 2) mmr_loop.simps) (auto split: option.splits list.splits)
  then show ?thesis by auto
qed

text \<open>Diversified selection. With a limit below the number of rows, the selection takes exactly that
  many rows, each row at most once, and every pick has the largest relevance-minus-redundancy
  objective, ties to the better rank, among the rows not yet taken.\<close>

theorem mmr_select_greedy:
  assumes "0 < m" and "m < int (length fs)"
  shows "\<exists>picks. length picks = nat m \<and> greedy fl lam fs picks
           \<and> mmr_select fl fs (Some m) lam = map ((!) fs) picks"
  using assms by (rule mmr_select_picks)

text \<open>C39: The token budget. Whatever the rows, a pack's Markdown stays within the budget and its estimate
  is the one reported; every row is accounted for as packed, omitted or unsafe; and the Markdown is
  the header followed by one line per packed fact, with the content the fact carries.\<close>

theorem pack_within_budget:
  assumes "pack_context fl fs (JInt budget) mfc max_facts lam = Inr p"
  shows "int (estimate_tokens (cp_markdown p)) \<le> budget \<and> cp_token_estimate p = estimate_tokens (cp_markdown p)
    \<and> length (cp_facts p) + cp_omitted p + cp_unsafe p = length fs
    \<and> (cp_abstained p \<longleftrightarrow> cp_facts p = [])
    \<and> cp_markdown p = (if cp_facts p = [] then [] else header @ concat (map (render_line fl) (cp_facts p)))"
  using assms
proof (cases rule: pack_context_run)
  case small
  then show ?thesis by (simp add: estimate_tokens_def)
next
  case (run l st)
  then show ?thesis
    using mmr_select_length [of fl fs "case max_facts of JInt m \<Rightarrow> Some m | _ \<Rightarrow> None" l]
    by (cases "pk_selected st = []") (auto simp: pack_inv_def pack_result_def estimate_tokens_def [of "[]"])
qed


section \<open>A run\<close>

definition demo_float :: float_lib where
  "demo_float = \<lparr>fl_round = id, fl_sqrt = id, fl_sum = sum_list,
     fl_float = (\<lambda>v. case v of JNum q \<Rightarrow> Some q | JInt i \<Rightarrow> Some (of_int i) | _ \<Rightarrow> None),
     fl_fixed3 = (\<lambda>q. ''0.500''), fl_str = (\<lambda>v. [])\<rparr>"

definition demo_row :: "int \<Rightarrow> string \<Rightarrow> string \<Rightarrow> row" where
  "demo_row i subject content =
     [(''fact_id'', JInt i), (''content'', JStr content), (''score'', JNum (1/2)),
      (''memory_kind'', JStr ''state''), (''subject_key'', JStr subject),
      (''predicate_key'', JStr ''target''), (''scope'', JStr ''private'')]"

definition demo_rows :: "row list" where
  "demo_rows = [demo_row 1 ''app'' ''app deploys to staging'', demo_row 2 ''app'' ''app deploys to production'',
     dict_set ''conflict_group'' (JStr ''c1'') (demo_row 3 ''db'' ''db is primary''),
     demo_row 4 ''web'' ''web deploys to the staging cluster behind the second load balancer'']"

definition demo_pack :: "context_pack res" where
  "demo_pack = pack_context demo_float demo_rows (JInt 36) None JNull (JNum (7/10))"

lemma demo_pack_run:
  "(case demo_pack of Inr p \<Rightarrow> length (cp_facts p) = 2 \<and> cp_omitted p = 1 \<and> cp_unsafe p = 1
      \<and> map (\<lambda>f. dict_get f ''context_truncated'') (cp_facts p) = [JBool False, JBool True]
    | Inl _ \<Rightarrow> False)"
  by code_simp

theorem mmr_select_greedy_witness:
  "\<exists>picks. length picks = 2 \<and> greedy demo_float (7/10) demo_rows picks
      \<and> mmr_select demo_float demo_rows (Some 2) (7/10) = map ((!) demo_rows) picks"
  using mmr_select_greedy [of 2 demo_rows demo_float "7/10"] by (simp add: demo_rows_def)

theorem pack_within_budget_witness:
  "\<exists>p. demo_pack = Inr p \<and> length (cp_facts p) = 2 \<and> estimate_tokens (cp_markdown p) \<le> 36
      \<and> cp_markdown p = header @ concat (map (render_line demo_float) (cp_facts p))"
proof -
  obtain p where p: "demo_pack = Inr p" "length (cp_facts p) = 2"
    using demo_pack_run by (auto split: sum.splits)
  then show ?thesis using pack_within_budget [of demo_float demo_rows 36 None JNull "JNum (7/10)" p]
    by (auto simp: demo_pack_def)
qed


end
