(* ===== verification/Connection.thy ===== *)
theory Connection
  imports Protocol
begin

text \<open>
  One client connection of the daemon (\<open>daemon.py\<close>): the handshake, the dispatch of a frame
  (\<open>_handle_frame\<close>), replies, and the buffering loop that cuts the byte stream into frames
  (\<open>_serve_client\<close>). The request handler is an argument that passes its own state; a call of
  \<open>sendall\<close> succeeds as the argument \<open>sock\<close> says (an \<open>OSError\<close> otherwise). Listening, threads,
  peer credentials and the handler lock are not modelled: one connection is one sequence of
  received chunks, timeouts and closures.
\<close>

section \<open>Configuration and state\<close>

record daemon_config =
  dc_server_version :: string
  dc_schema_version :: int
  dc_server_capabilities :: "string list"
  dc_max_frame_bytes :: int
  dc_client_timeout :: rat
  dc_shutdown_timeout :: rat
  dc_backlog :: int

definition daemon_config_init :: "daemon_config \<Rightarrow> daemon_config res" where
  "daemon_config_init c =
     rbind (guard_res (py_strip (dc_server_version c) \<noteq> []) (ValueError ''server_version must not be empty'')) (\<lambda>_.
     rbind (guard_res (0 \<le> dc_schema_version c) (ValueError ''schema_version must not be negative'')) (\<lambda>_.
     rbind (guard_res (512 \<le> dc_max_frame_bytes c) (ValueError ''max_frame_bytes must be at least 512'')) (\<lambda>_.
     rbind (guard_res (0 < dc_client_timeout c \<and> 0 < dc_shutdown_timeout c) (ValueError ''timeouts must be positive'')) (\<lambda>_.
     rbind (guard_res (0 < dc_backlog c) (ValueError ''backlog must be positive'')) (\<lambda>_.
     Inr c)))))"

record negotiated_connection =
  nc_context :: client_context
  nc_capabilities :: "string list"
  nc_protocol :: protocol_version
  nc_schema_version :: int

text \<open>
  What the daemon is built with: the configuration, the float text of the encoder, the outcome of
  \<open>sendall\<close> and the optional health hook.
\<close>

record daemon =
  dm_config :: daemon_config
  dm_float_repr :: "rat \<Rightarrow> string"
  dm_sock :: "nat list \<Rightarrow> bool"
  dm_health_hook :: "(client_context \<Rightarrow> json res) option"

type_synonym 's handler = "client_context \<Rightarrow> request \<Rightarrow> 's \<Rightarrow> json res \<times> 's"

section \<open>Replies\<close>

definition handshake_refusal :: "daemon_config \<Rightarrow> string \<Rightarrow> string \<Rightarrow> handshake_response res" where
  "handshake_refusal cfg code message =
     rbind (protocol_error_init (JStr code) (JStr message) (JBool False) (JObj [])) (\<lambda>e.
     handshake_response_init (JBool False) (JArr []) (JStr (dc_server_version cfg)) (Some e)
       current_protocol (JInt (dc_schema_version cfg)))"

definition response_error :: "daemon_config \<Rightarrow> string \<Rightarrow> string \<Rightarrow> string \<Rightarrow> response res" where
  "response_error cfg request_id code message =
     rbind (protocol_error_init (JStr code) (JStr message) (JBool False) (JObj [])) (\<lambda>e.
     response_init (JStr request_id) (JBool False) JNull (Some e) current_protocol (JInt (dc_schema_version cfg)))"

text \<open>The frame that \<open>_send_protocol_error\<close> sends.\<close>

definition protocol_error_reply ::
  "daemon_config \<Rightarrow> negotiated_connection option \<Rightarrow> string \<Rightarrow> string \<Rightarrow> frame res" where
  "protocol_error_reply cfg conn code message =
     (case conn of
        None \<Rightarrow> rbind (handshake_refusal cfg code message) (\<lambda>h. Inr (HandshakeResponse h))
      | Some _ \<Rightarrow> rbind (response_error cfg ''invalid'' code message) (\<lambda>r. Inr (Response r)))"

text \<open>
  \<open>_send\<close>: whether something was sent, and the bytes. A frame over the limit is replaced by a short
  error; building that error is outside the inner \<open>try\<close>, so what it raises escapes.
\<close>

definition send_frame :: "daemon \<Rightarrow> frame \<Rightarrow> (bool \<times> nat list list) res" where
  "send_frame dm message =
     (let cfg = dm_config dm;
          put = (\<lambda>enc. case enc of
                   Inr raw \<Rightarrow> if dm_sock dm raw then (True, [raw]) else (False, [])
                 | Inl e \<Rightarrow> (False, []))
      in case encode_frame (dm_float_repr dm) message (dc_max_frame_bytes cfg) of
           Inl (FrameTooLargeError _) \<Rightarrow>
             rbind (case message of
                      Response r \<Rightarrow> rbind (response_error cfg (rs_request_id r) ''response_too_large'' ''response too large'')
                                      (\<lambda>x. Inr (Response x))
                    | _ \<Rightarrow> rbind (handshake_refusal cfg ''response_too_large'' ''response too large'')
                             (\<lambda>x. Inr (HandshakeResponse x))) (\<lambda>fallback.
             Inr (put (encode_frame (dm_float_repr dm) fallback (dc_max_frame_bytes cfg))))
         | enc \<Rightarrow> Inr (put enc))"

section \<open>Handshake and health\<close>

definition negotiate ::
  "daemon_config \<Rightarrow> handshake \<Rightarrow> (handshake_response \<times> negotiated_connection option) res" where
  "negotiate cfg h =
     rbind (negotiate_handshake h (dc_server_version cfg) (dc_server_capabilities cfg) (dc_schema_version cfg)) (\<lambda>r.
     if \<not> hr_accepted r then Inr (r, None)
     else if pv_minor (hs_protocol h) > protocol_minor
     then rbind (handshake_refusal cfg ''incompatible_protocol_minor''
            (''client minor '' @ int_str (pv_minor (hs_protocol h)) @ ''; server minor '' @ int_str protocol_minor))
            (\<lambda>x. Inr (x, None))
     else if hs_schema_version h \<noteq> dc_schema_version cfg
     then rbind (handshake_refusal cfg ''incompatible_schema''
            (''client schema '' @ int_str (hs_schema_version h) @ ''; server schema '' @ int_str (dc_schema_version cfg)))
            (\<lambda>x. Inr (x, None))
     else Inr (r, Some \<lparr>nc_context = hs_context h, nc_capabilities = hr_capabilities r,
                       nc_protocol = hs_protocol h, nc_schema_version = hs_schema_version h\<rparr>))"

definition request_incompatibility :: "negotiated_connection \<Rightarrow> request \<Rightarrow> (string \<times> string) option" where
  "request_incompatibility c r =
     (if rq_protocol r \<noteq> nc_protocol c
      then Some (''connection_protocol_changed'', ''request protocol differs from the accepted handshake'')
      else if rq_schema_version r \<noteq> nc_schema_version c
      then Some (''connection_schema_changed'', ''request schema differs from the accepted handshake'')
      else None)"

definition health :: "daemon \<Rightarrow> client_context \<Rightarrow> json res" where
  "health dm ctx =
     (let cfg = dm_config dm;
          base = [(''status'', JStr ''ok''), (''service_version'', JStr (dc_server_version cfg)),
                  (''protocol'', JObj (protocol_version_dict current_protocol)),
                  (''schema_version'', JInt (dc_schema_version cfg))]
      in case dm_health_hook dm of
           None \<Rightarrow> Inr (JObj base)
         | Some hook \<Rightarrow>
             rbind (hook ctx) (\<lambda>v.
               case v of
                 JObj extension \<Rightarrow>
                   let merged = foldl (\<lambda>d (k, x). dict_set k x d) base extension
                   in Inr (JObj (dict_set ''schema_version'' (JInt (dc_schema_version cfg))
                        (dict_set ''protocol'' (JObj (protocol_version_dict current_protocol))
                        (dict_set ''service_version'' (JStr (dc_server_version cfg)) merged))))
               | _ \<Rightarrow> Inl (TypeError ''health hook must return a mapping'')))"

section \<open>One frame\<close>

text \<open>\<open>str(exc)\<close> of the exceptions the decoder raises.\<close>

definition exc_message :: "exc \<Rightarrow> string" where
  "exc_message e = (case e of ProtocolValidationError m \<Rightarrow> m | FrameTooLargeError m \<Rightarrow> m
     | ProtocolVersionMismatch m \<Rightarrow> m | _ \<Rightarrow> [])"

text \<open>
  What is to be done with a frame: answer it (with what the first result component is when the
  answer was sent, and when it was not, and the connection afterwards), let the handler serve it, or
  let an exception end the connection's thread.
\<close>

datatype admission =
    Answer "frame res" bool bool "negotiated_connection option"
  | Serve negotiated_connection request
  | Escape exc

definition admit :: "daemon_config \<Rightarrow> nat list \<Rightarrow> negotiated_connection option \<Rightarrow> admission" where
  "admit cfg raw conn =
     (case decode_frame raw (dc_max_frame_bytes cfg) False of
        Inl e \<Rightarrow>
          if protocol_exc e
          then Answer (protocol_error_reply cfg conn ''invalid_frame'' (exc_message e)) False False conn
          else Escape e
      | Inr f \<Rightarrow>
          (case conn of
             None \<Rightarrow>
               (case f of
                  Handshake h \<Rightarrow>
                    (case negotiate cfg h of
                       Inl e \<Rightarrow> Escape e
                     | Inr (r, n) \<Rightarrow> Answer (Inr (HandshakeResponse r)) (hr_accepted r) False n)
                | _ \<Rightarrow> Answer (protocol_error_reply cfg None ''handshake_required''
                         ''the first connection frame must be a handshake'') False False None)
           | Some c \<Rightarrow>
               (case f of
                  Request r \<Rightarrow>
                    (case request_incompatibility c r of
                       Some (code, message) \<Rightarrow>
                         Answer (rbind (response_error cfg (rq_request_id r) code message) (\<lambda>x. Inr (Response x)))
                           False False conn
                     | None \<Rightarrow>
                         (case required_capability (JStr (rq_method r)) of
                            Inl e \<Rightarrow> Escape e
                          | Inr capability \<Rightarrow>
                              if capability \<notin> set (nc_capabilities c)
                              then Answer (rbind (response_error cfg (rq_request_id r) ''capability_not_negotiated''
                                     (''method requires negotiated capability: '' @ capability)) (\<lambda>x. Inr (Response x)))
                                     True True conn
                              else Serve c r))
                | _ \<Rightarrow> Answer (protocol_error_reply cfg conn ''request_required''
                         ''only request frames are allowed after handshake'') False False conn)))"

text \<open>The call of the handler, or of the health check, and the response built from its outcome.\<close>

definition call_handler ::
  "daemon \<Rightarrow> 's handler \<Rightarrow> client_context \<Rightarrow> request \<Rightarrow> 's \<Rightarrow> json res \<times> 's" where
  "call_handler dm handler ctx r s =
     (if rq_method r = ''health'' then (health dm ctx, s) else handler ctx r s)"

definition respond :: "daemon_config \<Rightarrow> request \<Rightarrow> json res \<Rightarrow> response res" where
  "respond cfg r outcome =
     (let internal = response_error cfg (rq_request_id r) ''internal_error'' ''request handler failed''
      in case outcome of
           Inr v \<Rightarrow>
             (case response_init (JStr (rq_request_id r)) (JBool True) v None current_protocol
                     (JInt (dc_schema_version cfg)) of
                Inr x \<Rightarrow> Inr x | Inl _ \<Rightarrow> internal)
         | Inl (ServiceRequestError code message) \<Rightarrow> response_error cfg (rq_request_id r) code message
         | Inl _ \<Rightarrow> internal)"

definition handle_frame ::
  "daemon \<Rightarrow> 's handler \<Rightarrow> nat list \<Rightarrow> negotiated_connection option \<Rightarrow> 's
     \<Rightarrow> (bool \<times> negotiated_connection option \<times> nat list list) res \<times> 's" where
  "handle_frame dm handler raw conn s =
     (case admit (dm_config dm) raw conn of
        Escape e \<Rightarrow> (Inl e, s)
      | Answer reply sent_keep unsent_keep conn' \<Rightarrow>
          (rbind reply (\<lambda>f. rbind (send_frame dm f) (\<lambda>(sent, out).
             Inr (if sent then sent_keep else unsent_keep, conn', out))), s)
      | Serve c r \<Rightarrow>
          (case call_handler dm handler (nc_context c) r s of
             (outcome, s') \<Rightarrow>
               (rbind (respond (dm_config dm) r outcome) (\<lambda>x. rbind (send_frame dm (Response x)) (\<lambda>(sent, out).
                  Inr (sent, Some c, out))), s')))"

section \<open>The receiving loop\<close>

text \<open>
  The state of \<open>_serve_client\<close>: the buffer, the connection, whether the loop still runs, what was
  sent, the exception that ended it, and the handler's state.
\<close>

record 's session =
  sn_buffer :: "nat list"
  sn_conn :: "negotiated_connection option"
  sn_open :: bool
  sn_sent :: "nat list list"
  sn_raised :: "exc option"
  sn_state :: 's

definition fresh_session :: "'s \<Rightarrow> 's session" where
  "fresh_session s = \<lparr>sn_buffer = [], sn_conn = None, sn_open = True, sn_sent = [], sn_raised = None, sn_state = s\<rparr>"

text \<open>\<open>_send_protocol_error\<close> followed by \<open>return\<close>.\<close>

definition fail_session :: "daemon \<Rightarrow> string \<Rightarrow> string \<Rightarrow> 's session \<Rightarrow> 's session" where
  "fail_session dm code message sn =
     (case rbind (protocol_error_reply (dm_config dm) (sn_conn sn) code message) (send_frame dm) of
        Inl e \<Rightarrow> sn\<lparr>sn_open := False, sn_raised := Some e\<rparr>
      | Inr (_, out) \<Rightarrow> sn\<lparr>sn_open := False, sn_sent := sn_sent sn @ out\<rparr>)"

definition too_large :: "daemon \<Rightarrow> 's session \<Rightarrow> 's session" where
  "too_large dm sn = fail_session dm ''frame_too_large'' ''request frame exceeds configured limit'' sn"

text \<open>\<open>buffer.find(b"\n")\<close> with the line before it and the rest.\<close>

fun cut_line :: "nat list \<Rightarrow> (nat list \<times> nat list) option" where
  "cut_line [] = None"
| "cut_line (b # bs) = (if b = 10 then Some ([], bs) else map_option (map_prod (Cons b) id) (cut_line bs))"

lemma cut_line_length: "cut_line buf = Some (line, rest) \<Longrightarrow> length rest < length buf"
  by (induction buf arbitrary: line) (auto split: if_splits)

function drain_buffer :: "daemon \<Rightarrow> 's handler \<Rightarrow> nat list \<Rightarrow> 's session \<Rightarrow> 's session" where
  "drain_buffer dm handler buffer sn =
     (case cut_line buffer of
        None \<Rightarrow>
          if dc_max_frame_bytes (dm_config dm) < int (length buffer)
          then too_large dm (sn\<lparr>sn_buffer := buffer\<rparr>) else sn\<lparr>sn_buffer := buffer\<rparr>
      | Some (line, rest) \<Rightarrow>
          if dc_max_frame_bytes (dm_config dm) < int (length line)
          then too_large dm (sn\<lparr>sn_buffer := rest\<rparr>)
          else
            (case handle_frame dm handler line (sn_conn sn) (sn_state sn) of
               (Inl e, s) \<Rightarrow> sn\<lparr>sn_buffer := rest, sn_open := False, sn_raised := Some e, sn_state := s\<rparr>
             | (Inr (keep, conn, out), s) \<Rightarrow>
                 let sn' = sn\<lparr>sn_conn := conn, sn_sent := sn_sent sn @ out, sn_state := s\<rparr>
                 in if keep then drain_buffer dm handler rest sn'
                    else sn'\<lparr>sn_buffer := rest, sn_open := False\<rparr>))"
  by pat_completeness auto
termination
  by (relation "measure (\<lambda>(dm, handler, buffer, sn). length buffer)") (auto dest: cut_line_length)

declare drain_buffer.simps [simp del]

text \<open>
  What \<open>client.recv\<close> gives: bytes, a timeout, or the end of the stream (also an \<open>OSError\<close>).
\<close>

datatype receive = Chunk "nat list" | TimedOut | Gone

definition receive_step :: "daemon \<Rightarrow> 's handler \<Rightarrow> receive \<Rightarrow> 's session \<Rightarrow> 's session" where
  "receive_step dm handler ev sn =
     (if \<not> sn_open sn then sn
      else case ev of
        Chunk bs \<Rightarrow> if bs = [] then sn\<lparr>sn_open := False\<rparr> else drain_buffer dm handler (sn_buffer sn @ bs) sn
      | TimedOut \<Rightarrow> fail_session dm ''request_timeout'' ''request timed out'' sn
      | Gone \<Rightarrow> sn\<lparr>sn_open := False\<rparr>)"

definition serve_client :: "daemon \<Rightarrow> 's handler \<Rightarrow> receive list \<Rightarrow> 's session \<Rightarrow> 's session" where
  "serve_client dm handler evs sn = fold (receive_step dm handler) evs sn"

end
