(* ===== verification/Json_Roundtrip.thy ===== *)
theory Json_Roundtrip
  imports Json_Parse
begin

text \<open>
  \<open>json.loads(json.dumps(v))\<close> is \<open>v\<close> with the keys in the order they were written, for the
  compact separators the sources use.
\<close>

section \<open>Definitions\<close>

text \<open>What may follow a value in a compact text.\<close>

definition json_delim :: "string \<Rightarrow> bool" where
  "json_delim s = (case s of [] \<Rightarrow> True | c # _ \<Rightarrow> c \<in> {CHR 0x2C, CHR 0x5D, CHR 0x7D})"

text \<open>The text of a float is a decimal literal with its value.\<close>

definition float_text_ok :: "(rat \<Rightarrow> string) \<Rightarrow> rat \<Rightarrow> bool" where
  "float_text_ok fr q \<longleftrightarrow>
     fr q \<noteq> [] \<and> (hd (fr q) = CHR 0x2D \<or> is_digit09 (hd (fr q)))
     \<and> (\<forall>rest. json_delim rest \<longrightarrow> parse_number (fr q @ rest) = Some (JNum q, rest))"

text \<open>Objects have no repeated key, and every float has a faithful text.\<close>

primrec json_wf :: "(rat \<Rightarrow> string) \<Rightarrow> json \<Rightarrow> bool" where
  "json_wf fr JNull = True"
| "json_wf fr (JBool b) = True"
| "json_wf fr (JInt i) = True"
| "json_wf fr (JNum q) = float_text_ok fr q"
| "json_wf fr (JStr s) = True"
| "json_wf fr (JArr vs) = list_all id (map (json_wf fr) vs)"
| "json_wf fr (JObj kvs) = (distinct (map fst kvs) \<and> list_all snd (map (map_prod id (json_wf fr)) kvs))"

definition key_order :: "dump_opts \<Rightarrow> (string \<times> 'a) list \<Rightarrow> (string \<times> 'a) list" where
  "key_order opts kvs = (if do_sort_keys opts then sort_key fst kvs else kvs)"

primrec json_canon :: "dump_opts \<Rightarrow> json \<Rightarrow> json" where
  "json_canon opts JNull = JNull"
| "json_canon opts (JBool b) = JBool b"
| "json_canon opts (JInt i) = JInt i"
| "json_canon opts (JNum q) = JNum q"
| "json_canon opts (JStr s) = JStr s"
| "json_canon opts (JArr vs) = JArr (map (json_canon opts) vs)"
| "json_canon opts (JObj kvs) = JObj (key_order opts (map (map_prod id (json_canon opts)) kvs))"

definition compact :: "dump_opts \<Rightarrow> bool" where
  "compact opts \<longleftrightarrow> do_item_sep opts = '','' \<and> do_key_sep opts = '':''"

section \<open>Strings\<close>

lemma hex_value_digit: "d < 16 \<Longrightarrow> hex_value (hex_digit d) = Some d"
  by (auto simp: hex_value_def hex_digit_def Let_def)

lemma of_char_lt: "of_char (c :: char) < (256 :: nat)"
  by simp

lemma parse_chars_escape:
  "parse_chars (Suc n) (json_escape_char a c @ t) = map_option (map_prod (Cons c) id) (parse_chars n t)"
proof -
  define m where "m = (of_char c :: nat)"
  have m: "m div 16 < 16" "m mod 16 < 16" "char_of (16 * (m div 16) + m mod 16) = c"
    using of_char_lt [of c] by (simp_all add: m_def less_mult_imp_div_less)
  have zero: "hex_value (CHR 0x30) = Some 0" by (simp add: hex_value_def)
  show ?thesis
  proof (cases "c \<in> {CHR 0x22, CHR 0x5C, CHR 0x0A, CHR 0x0D, CHR 0x09, CHR 0x0C, CHR 0x08}")
    case True
    then show ?thesis by (auto simp: json_escape_char_def Let_def)
  next
    case False
    then show ?thesis
      using m by (auto simp: json_escape_char_def Let_def m_def [symmetric] hex_value_digit zero)
  qed
qed

lemma parse_chars_str:
  "length s < n \<Longrightarrow> parse_chars n (concat (map (json_escape_char a) s) @ CHR 0x22 # rest) = Some (s, rest)"
proof (induction s arbitrary: n)
  case Nil
  then show ?case by (cases n) simp_all
next
  case (Cons c s)
  then obtain k where k: "n = Suc k" "length s < k" by (cases n) auto
  show ?case using Cons.IH [OF k(2)] by (simp add: k(1) parse_chars_escape)
qed

lemma escape_nonempty: "json_escape_char a c \<noteq> []"
  by (simp add: json_escape_char_def Let_def)

lemma length_escape: "length s \<le> length (concat (map (json_escape_char a) s))"
proof (induction s)
  case (Cons c s)
  then show ?case using escape_nonempty [of a c] by (cases "json_escape_char a c") auto
qed simp

section \<open>Numbers\<close>

lemma digit_char: "d < 10 \<Longrightarrow> is_digit09 (char_of (48 + d)) \<and> of_char (char_of (48 + d) :: char) = (48 + d :: nat)"
  by (simp add: is_digit09_def Let_def)

lemma nat_str_digits: "\<forall>c \<in> set (nat_str n). is_digit09 c"
proof (induction n rule: nat_str.induct)
  case (1 n)
  show ?case
    using 1 digit_char [of n] digit_char [of "n mod 10"] by (subst nat_str.simps) auto
qed

lemma nat_str_nonempty [simp]: "nat_str n \<noteq> []"
  by (subst nat_str.simps) simp

lemma digits_nat_snoc: "digits_nat (s @ [c]) = 10 * digits_nat s + (of_char c - 48)"
  by (simp add: digits_nat_def)

lemma digits_nat_str: "digits_nat (nat_str n) = n"
proof (induction n rule: nat_str.induct)
  case (1 n)
  show ?case
  proof (cases "n < 10")
    case True
    then show ?thesis using digit_char [of n] by (subst nat_str.simps) (simp add: digits_nat_def)
  next
    case False
    then show ?thesis
      using 1 digit_char [of "n mod 10"] by (subst nat_str.simps) (simp add: digits_nat_snoc)
  qed
qed

lemma char_of_48: "char_of (48 :: nat) = CHR 0x30"
  by code_simp

lemma nat_str_hd: "hd (nat_str n) = CHR 0x30 \<longleftrightarrow> n = 0"
proof (induction n rule: nat_str.induct)
  case (1 n)
  show ?case
  proof (cases "n < 10")
    case True
    have "char_of (48 + n) = CHR 0x30 \<longleftrightarrow> n = 0"
    proof
      assume "char_of (48 + n) = CHR 0x30"
      then have "of_char (char_of (48 + n) :: char) = (of_char (CHR 0x30) :: nat)" by simp
      then show "n = 0" using digit_char [OF True] by simp
    qed (simp add: char_of_48)
    then show ?thesis using True by (subst nat_str.simps) simp
  next
    case False
    then show ?thesis using 1 by (subst nat_str.simps) (simp add: hd_append)
  qed
qed

lemma nat_str_0: "nat_str 0 = [CHR 0x30]"
  by (subst nat_str.simps) (simp add: char_of_48)

lemma json_delim_stops: "json_delim rest \<Longrightarrow> takeWhile is_digit09 (nat_str n @ rest) = nat_str n"
  using nat_str_digits [of n]
  by (cases rest) (auto simp: takeWhile_append2 json_delim_def is_digit09_def)

lemma nat_str_hd_digit [simp]: "is_digit09 (hd (nat_str n))"
  using nat_str_digits [of n] by simp

lemma number_digits_nat:
  assumes "json_delim rest"
  shows "number_digits (nat_str n @ rest) = nat_str n"
proof -
  obtain c t where ct: "nat_str n = c # t" by (cases "nat_str n") auto
  show ?thesis
  proof (cases "c = CHR 0x30")
    case True
    then have "n = 0" using nat_str_hd [of n] by (simp add: ct)
    then show ?thesis by (simp add: nat_str_0 number_digits_def)
  next
    case False
    then show ?thesis using json_delim_stops [OF assms, of n] by (simp add: ct number_digits_def)
  qed
qed

lemma json_delim_plain:
  assumes "json_delim rest"
  shows "number_frac rest = []" and "number_exp rest = ([], [])"
  using assms by (auto simp: json_delim_def number_frac_def number_exp_def split: list.splits)

lemma parse_unsigned_nat:
  "json_delim rest \<Longrightarrow> parse_unsigned (nat_str n @ rest) = Some (JInt (int n), rest)"
  by (simp add: parse_unsigned_def number_digits_nat json_delim_plain digits_nat_str)

lemma parse_number_nat:
  assumes "json_delim rest"
  shows "parse_number (nat_str n @ rest) = Some (JInt (int n), rest)"
    and "parse_number (CHR 0x2D # nat_str n @ rest) = Some (JInt (- int n), rest)"
proof -
  have "\<not> starts_with ''-'' (nat_str n @ rest)"
    using nat_str_hd_digit [of n] by (cases "nat_str n") (auto simp: is_digit09_def)
  then show "parse_number (nat_str n @ rest) = Some (JInt (int n), rest)"
    using parse_unsigned_nat [OF assms] by (simp add: parse_number_def)
  show "parse_number (CHR 0x2D # nat_str n @ rest) = Some (JInt (- int n), rest)"
    using parse_unsigned_nat [OF assms] by (simp add: parse_number_def)
qed

lemma parse_literal_digit:
  assumes "hd s = CHR 0x2D \<or> is_digit09 (hd s)" and "s \<noteq> []"
  shows "parse_literal (s @ rest) = parse_number (s @ rest)"
  using assms by (cases s) (auto simp: parse_literal_def is_digit09_def)

lemma parse_value_number:
  assumes "hd s = CHR 0x2D \<or> is_digit09 (hd s)" and "s \<noteq> []"
  shows "parse_value mk (Suc n) (s @ rest) = parse_number (s @ rest)"
proof -
  obtain c t where s: "s = c # t" using assms(2) by (cases s) auto
  have "c \<noteq> CHR 0x22" "c \<noteq> CHR 0x7B" "c \<noteq> CHR 0x5B"
    using assms(1) by (auto simp: s is_digit09_def)
  then show ?thesis using parse_literal_digit [OF assms, of rest] by (simp add: s)
qed

lemma parse_value_int:
  assumes "json_delim rest"
  shows "parse_value mk (Suc n) (int_str i @ rest) = Some (JInt i, rest)"
proof (cases "i < 0")
  case True
  then show ?thesis
    using parse_value_number [of "CHR 0x2D # nat_str (nat (- i))" mk n rest] parse_number_nat(2) [OF assms]
    by (simp add: int_str_def)
next
  case False
  then show ?thesis
    using parse_value_number [of "nat_str (nat i)" mk n rest] parse_number_nat(1) [OF assms]
    by (simp add: int_str_def)
qed

section \<open>Values\<close>

lemma skip_ws_id: "s \<noteq> [] \<Longrightarrow> \<not> json_ws (hd s) \<Longrightarrow> skip_ws (s @ t) = s @ t"
  by (cases s) (simp_all add: skip_ws_def)

lemma dumps_start:
  assumes "json_wf fr j"
  shows "json_dumps fr opts j \<noteq> [] \<and> \<not> json_ws (hd (json_dumps fr opts j))
     \<and> hd (json_dumps fr opts j) \<noteq> CHR 0x5D"
proof (cases j)
  case (JInt i)
  then show ?thesis
    using nat_str_hd_digit [of "nat i"] by (auto simp: int_str_def json_ws_def is_digit09_def)
next
  case (JNum q)
  with assms show ?thesis by (auto simp: float_text_ok_def json_ws_def is_digit09_def)
qed (auto simp: json_ws_def json_str_def dump_object_def Let_def)

lemma key_order_map:
  fixes f :: "'a \<Rightarrow> 'b"
  shows "key_order opts (map (map_prod id f) kvs) = map (map_prod id f) (key_order opts kvs)"
proof -
  have "insort_key fst (map_prod id f x) (map (map_prod id f) xs) = map (map_prod id f) (insort_key fst x xs)"
    for x :: "string \<times> 'a" and xs
    by (induction xs) auto
  then have "sort_key fst (map (map_prod id f) xs) = map (map_prod id f) (sort_key fst xs)" for xs :: "(string \<times> 'a) list"
    by (induction xs) simp_all
  then show ?thesis by (simp add: key_order_def)
qed

lemma set_key_order [simp]: "set (key_order opts kvs) = set kvs"
  by (simp add: key_order_def)

lemma key_order_distinct: "distinct (map fst kvs) \<Longrightarrow> distinct (map fst (key_order opts kvs))"
  by (simp add: key_order_def distinct_map)

lemma dict_of_distinct:
  assumes "distinct (map fst kvs)"
  shows "dict_of kvs = kvs"
proof -
  have new: "dict_set k v d = d @ [(k, v)]" if "k \<notin> fst ` set d" for k v and d :: "(string \<times> json) list"
    using that by (induction k v d rule: dict_set.induct) auto
  have "foldl (\<lambda>d (k, v). dict_set k v d) acc kvs = acc @ kvs"
    if "distinct (map fst (acc @ kvs))" for acc :: "(string \<times> json) list"
    using that
  proof (induction kvs arbitrary: acc)
    case (Cons p kvs)
    obtain k v where p: "p = (k, v)" by (cases p)
    have "k \<notin> fst ` set acc" using Cons.prems by (auto simp: p)
    then show ?case using Cons.IH [of "acc @ [(k, v)]"] Cons.prems by (simp add: p new)
  qed simp
  from this [of "[]"] assms show ?thesis by (simp add: dict_of_def)
qed

text \<open>The items of an array, given that each of them parses back.\<close>

lemma parse_items_join:
  assumes "vs \<noteq> []"
    and "\<And>v n rest. v \<in> set vs \<Longrightarrow> length (f v) < n \<Longrightarrow> json_delim rest \<Longrightarrow> parse_value mk n (f v @ rest) = Some (g v, rest)"
    and "\<And>v. v \<in> set vs \<Longrightarrow> f v \<noteq> [] \<and> \<not> json_ws (hd (f v))"
    and "length (py_join '','' (map f vs)) < n"
  shows "parse_items mk (Suc n) (py_join '','' (map f vs) @ CHR 0x5D # rest) = Some (map g vs, rest)"
  using assms
proof (induction vs arbitrary: n)
  case (Cons v vs)
  show ?case
  proof (cases vs)
    case Nil
    have "parse_value mk n (f v @ CHR 0x5D # rest) = Some (g v, CHR 0x5D # rest)"
      using Cons.prems by (simp add: Nil json_delim_def)
    then show ?thesis by (simp add: Nil skip_ws_def json_ws_def)
  next
    case (Cons w ws)
    let ?t = "py_join '','' (map f vs)"
    have t: "?t \<noteq> []" "\<not> json_ws (hd ?t)" using Cons.prems(3) [of w] by (cases ws; auto simp: Cons)+
    have len: "length (f v) < n" "length ?t < n - 1" and n: "n = Suc (n - 1)"
      using Cons.prems(4) by (auto simp: Cons)
    have v: "parse_value mk n (f v @ CHR 0x2C # ?t @ CHR 0x5D # rest) = Some (g v, CHR 0x2C # ?t @ CHR 0x5D # rest)"
      using Cons.prems(2) [of v] len(1) by (simp add: json_delim_def)
    have "parse_items mk (Suc (n - 1)) (?t @ CHR 0x5D # rest) = Some (map g vs, rest)"
      using Cons.prems(2,3) len(2) by (intro Cons.IH) (auto simp: Cons)
    then have "parse_items mk n (?t @ CHR 0x5D # rest) = Some (map g vs, rest)" using n by simp
    moreover have "skip_ws (?t @ CHR 0x5D # rest) = ?t @ CHR 0x5D # rest" using skip_ws_id t by blast
    ultimately show ?thesis using v by (simp add: Cons skip_ws_def json_ws_def)
  qed
qed simp


text \<open>The members of an object.\<close>

lemma parse_member_key:
  "parse_chars (Suc (length (concat (map (json_escape_char a) k) @ CHR 0x22 # t)))
     (concat (map (json_escape_char a) k) @ CHR 0x22 # t) = Some (k, t)"
  by (rule parse_chars_str) (use length_escape [of k a] in simp)

lemma parse_members_step:
  assumes "parse_value mk n (fv @ rest) = Some (gv, rest)" and "fv \<noteq> []" "\<not> json_ws (hd (fv))"
  shows "parse_members mk (Suc n) (json_str a k @ CHR 0x3A # fv @ rest) =
     (case skip_ws rest of
        y # w \<Rightarrow>
          if y = CHR 0x7D then Some ([(k, gv)], w)
          else if y = CHR 0x2C then map_option (map_prod (Cons (k, gv)) id) (parse_members mk n (skip_ws w))
          else None
      | [] \<Rightarrow> None)"
proof -
  let ?t = "CHR 0x3A # fv @ rest"
  have key: "parse_chars (Suc (length (concat (map (json_escape_char a) k) @ CHR 0x22 # ?t)))
      (concat (map (json_escape_char a) k) @ CHR 0x22 # ?t) = Some (k, ?t)"
    by (rule parse_member_key)
  have "skip_ws (fv @ rest) = fv @ rest" using skip_ws_id assms(2,3) by blast
  moreover have "skip_ws ?t = ?t" by (simp add: skip_ws_def json_ws_def)
  ultimately show ?thesis
    using assms(1) key by (simp add: json_str_def)
qed

lemma parse_members_join:
  assumes "kvs \<noteq> []"
    and "\<And>k v n rest. (k, v) \<in> set kvs \<Longrightarrow> length (f v) < n \<Longrightarrow> json_delim rest
           \<Longrightarrow> parse_value mk n (f v @ rest) = Some (g v, rest)"
    and "\<And>k v. (k, v) \<in> set kvs \<Longrightarrow> f v \<noteq> [] \<and> \<not> json_ws (hd (f v))"
    and "length (py_join '','' (map (\<lambda>(k, v). json_str a k @ '':'' @ f v) kvs)) < n"
  shows "parse_members mk (Suc n) (py_join '','' (map (\<lambda>(k, v). json_str a k @ '':'' @ f v) kvs) @ CHR 0x7D # rest)
       = Some (map (map_prod id g) kvs, rest)"
  using assms
proof (induction kvs arbitrary: n)
  case (Cons p kvs)
  obtain k v where p: "p = (k, v)" by (cases p)
  let ?m = "\<lambda>(k, v). json_str a k @ '':'' @ f v"
  have fv: "f v \<noteq> []" "\<not> json_ws (hd (f v))" using Cons.prems(3) [of k v] by (simp_all add: p)
  show ?case
  proof (cases kvs)
    case Nil
    have v: "parse_value mk n (f v @ CHR 0x7D # rest) = Some (g v, CHR 0x7D # rest)"
      using Cons.prems(2) [of k v n] Cons.prems(4) by (simp add: p Nil json_delim_def)
    show ?thesis
      using parse_members_step [OF v fv, of a k] by (simp add: p Nil skip_ws_def json_ws_def)
  next
    case (Cons q ws)
    let ?t = "py_join '','' (map ?m kvs)"
    have t: "?t \<noteq> []" "\<not> json_ws (hd ?t)"
      by (cases q; cases ws; auto simp: Cons json_str_def json_ws_def)+
    have j: "py_join '','' (map ?m (p # kvs)) = json_str a k @ CHR 0x3A # f v @ CHR 0x2C # ?t"
      by (simp add: p Cons)
    have len: "length (f v) < n" "length ?t < n - 1" and n: "n = Suc (n - 1)"
      using Cons.prems(4) unfolding j by auto
    have v: "parse_value mk n (f v @ CHR 0x2C # ?t @ CHR 0x7D # rest) = Some (g v, CHR 0x2C # ?t @ CHR 0x7D # rest)"
      using Cons.prems(2) [of k v n] len(1) by (simp add: p json_delim_def)
    have "parse_members mk (Suc (n - 1)) (?t @ CHR 0x7D # rest) = Some (map (map_prod id g) kvs, rest)"
    proof (rule Cons.IH)
      show "kvs \<noteq> []" using Cons by simp
      show "parse_value mk n (f v @ rest) = Some (g v, rest)"
        if "(k, v) \<in> set kvs" "length (f v) < n" "json_delim rest" for k v n rest
        using Cons.prems(2) [of k v n rest] that by simp
      show "f v \<noteq> [] \<and> \<not> json_ws (hd (f v))" if "(k, v) \<in> set kvs" for k v
        using Cons.prems(3) [of k v] that by simp
    qed (rule len(2))
    then have "parse_members mk n (?t @ CHR 0x7D # rest) = Some (map (map_prod id g) kvs, rest)" using n by simp
    moreover have "skip_ws (?t @ CHR 0x7D # rest) = ?t @ CHR 0x7D # rest" using skip_ws_id t by blast
    ultimately show ?thesis
      unfolding j using parse_members_step [OF v fv, of a k]
      by (simp add: p skip_ws_def json_ws_def id_def del: parse_members.simps)
  qed
qed simp

lemma parse_value_str:
  "parse_value mk (Suc n) (json_str a s @ rest) = Some (JStr s, rest)"
  using parse_member_key [of a s rest] by (simp add: json_str_def)

lemma dump_object_join:
  assumes "compact opts"
  shows "dump_object opts (map (map_prod id f) kvs)
     = CHR 0x7B # py_join '','' (map (\<lambda>(k, v). json_str (do_ensure_ascii opts) k @ '':'' @ f v) (key_order opts kvs))
       @ [CHR 0x7D]"
proof -
  have "(if do_sort_keys opts then sort_key fst (map (map_prod id f) kvs) else map (map_prod id f) kvs)
      = map (map_prod id f) (key_order opts kvs)"
    using key_order_map [of opts f kvs] by (simp add: key_order_def)
  then show ?thesis using assms by (simp add: dump_object_def Let_def compact_def comp_def split_def)
qed

lemma json_dumps_length: "json_wf fr j \<Longrightarrow> 0 < length (json_dumps fr opts j)"
  using dumps_start [of fr j opts] by auto

text \<open>Every value parses back from its compact text, whatever delimiter follows.\<close>

lemma parse_value_dumps:
  assumes mk: "\<And>kvs. distinct (map fst kvs) \<Longrightarrow> mk kvs = Some kvs"
    and co: "compact opts" and "json_wf fr j" and "length (json_dumps fr opts j) < n" and "json_delim rest"
  shows "parse_value mk n (json_dumps fr opts j @ rest) = Some (json_canon opts j, rest)"
  using assms(3-)
proof (induction j arbitrary: n rest)
  case JNull
  then show ?case by (cases n) (auto simp: parse_literal_def)
next
  case (JBool b)
  then show ?case by (cases n) (auto simp: parse_literal_def)
next
  case (JInt i)
  then show ?case using parse_value_int [OF JInt(3), of mk "n - 1" i] by simp
next
  case (JNum q)
  then show ?case
    using parse_value_number [of "fr q" mk "n - 1" rest] by (simp add: float_text_ok_def)
next
  case (JStr s)
  then show ?case using parse_value_str [of mk "n - 1"] by simp
next
  case (JArr vs)
  let ?t = "py_join '','' (map (json_dumps fr opts) vs)"
  have d: "json_dumps fr opts (JArr vs) = CHR 0x5B # ?t @ [CHR 0x5D]" using co by (simp add: compact_def)
  obtain m where m: "n = Suc (Suc m)" "length ?t < m"
    using JArr.prems(2) unfolding d by (cases n; cases "n - 1") auto
  have wf: "json_wf fr v" if "v \<in> set vs" for v using JArr.prems(1) that by (simp add: list_all_iff)
  show ?case
  proof (cases vs)
    case Nil
    then show ?thesis by (simp add: m(1) skip_ws_def json_ws_def)
  next
    case (Cons v ws)
    have "parse_items mk (Suc m) (?t @ CHR 0x5D # rest) = Some (map (json_canon opts) vs, rest)"
      by (rule parse_items_join) (use Cons JArr.IH wf dumps_start m(2) in auto)
    moreover have t: "?t \<noteq> []" "\<not> json_ws (hd ?t)" "hd ?t \<noteq> CHR 0x5D"
      using dumps_start [OF wf [of v], of opts] by (cases ws; auto simp: Cons)+
    then obtain x u where xu: "?t = x # u" "x \<noteq> CHR 0x5D" by (cases ?t) auto
    moreover have "skip_ws (?t @ CHR 0x5D # rest) = ?t @ CHR 0x5D # rest" using skip_ws_id t by blast
    ultimately show ?thesis unfolding d m(1) by simp
  qed
next
  case (JObj kvs)
  let ?f = "json_dumps fr opts"
  let ?ks = "key_order opts kvs"
  let ?t = "py_join '','' (map (\<lambda>(k, v). json_str (do_ensure_ascii opts) k @ '':'' @ ?f v) ?ks)"
  have d: "?f (JObj kvs) = CHR 0x7B # ?t @ [CHR 0x7D]" by (simp add: dump_object_join [OF co])
  obtain m where m: "n = Suc (Suc m)" "length ?t < m"
    using JObj.prems(2) unfolding d by (cases n; cases "n - 1") auto
  have wf: "json_wf fr v" if "(k, v) \<in> set ?ks" for k v
    using JObj.prems(1) that by (auto simp: list_all_iff)
  have c: "json_canon opts (JObj kvs) = JObj (map (map_prod id (json_canon opts)) ?ks)"
    by (simp add: key_order_map)
  show ?case
  proof (cases ?ks)
    case Nil
    then show ?thesis unfolding d c m(1) by (simp add: skip_ws_def json_ws_def)
  next
    case (Cons p ws)
    have "parse_members mk (Suc m) (?t @ CHR 0x7D # rest) = Some (map (map_prod id (json_canon opts)) ?ks, rest)"
    proof (rule parse_members_join [OF _ _ _ m(2)])
      show "?ks \<noteq> []" using Cons by simp
      show "parse_value mk n (?f v @ rest) = Some (json_canon opts v, rest)"
        if "(k, v) \<in> set ?ks" "length (?f v) < n" "json_delim rest" for k v n rest
        using JObj.IH [of "(k, v)" v n rest] that wf [OF that(1)] by (simp add: snds.intros)
      show "?f v \<noteq> [] \<and> \<not> json_ws (hd (?f v))" if "(k, v) \<in> set ?ks" for k v
        using dumps_start [OF wf [OF that], of opts] by simp
    qed
    moreover have t: "?t \<noteq> []" "\<not> json_ws (hd ?t)" "hd ?t = CHR 0x22"
      unfolding Cons by (cases p; cases ws; simp add: json_str_def json_ws_def)+
    then obtain u where xu: "?t = CHR 0x22 # u" by (cases ?t) auto
    moreover have "skip_ws (?t @ CHR 0x7D # rest) = ?t @ CHR 0x7D # rest" using skip_ws_id t by blast
    moreover have "mk (map (map_prod id (json_canon opts)) ?ks) = Some (map (map_prod id (json_canon opts)) ?ks)"
      using key_order_distinct [of kvs opts] JObj.prems(1) by (intro mk) (simp add: comp_def)
    ultimately show ?thesis unfolding d c m(1) by simp
  qed
qed

lemma loads_with_dumps:
  assumes mk: "\<And>kvs. distinct (map fst kvs) \<Longrightarrow> mk kvs = Some kvs"
    and co: "compact opts" and wf: "json_wf fr j"
  shows "json_loads_with mk (json_dumps fr opts j) = Some (json_canon opts j)"
proof -
  have "skip_ws (json_dumps fr opts j) = json_dumps fr opts j"
    using skip_ws_id [of "json_dumps fr opts j" "[]"] dumps_start [OF wf, of opts] by simp
  moreover have "parse_value mk (Suc (length (json_dumps fr opts j))) (json_dumps fr opts j @ [])
      = Some (json_canon opts j, [])"
    by (rule parse_value_dumps) (use mk co wf in \<open>simp_all add: json_delim_def\<close>)
  ultimately show ?thesis by (simp add: json_loads_with_def skip_ws_def)
qed

lemma loads_dumps:
  assumes "compact opts" and "json_wf fr j"
  shows "json_loads (json_dumps fr opts j) = Some (json_canon opts j)"
  unfolding json_loads_def by (rule loads_with_dumps) (use assms in \<open>simp_all add: dict_of_distinct\<close>)

lemma key_order_idem: "key_order opts (key_order opts kvs) = key_order opts kvs"
  by (simp add: key_order_def sort_key_id_if_sorted)

lemma dump_object_order: "dump_object opts (key_order opts kvs) = dump_object opts kvs"
  using key_order_idem [of opts kvs] unfolding dump_object_def key_order_def by (simp only: Let_def)

text \<open>The canonical text of a decoded canonical text is the text.\<close>

lemma dumps_canon: "json_dumps fr opts (json_canon opts j) = json_dumps fr opts j"
proof (induction j)
  case (JArr vs)
  then have "map (json_dumps fr opts) (map (json_canon opts) vs) = map (json_dumps fr opts) vs" by simp
  then show ?case by (simp only: json_dumps.simps json_canon.simps)
next
  case (JObj kvs)
  have "map_prod id (json_dumps fr opts \<circ> json_canon opts) p = map_prod id (json_dumps fr opts) p" if "p \<in> set kvs" for p
    using JObj [OF that] by (cases p) (simp add: snds.intros)
  then have "map (map_prod id (json_dumps fr opts)) (map (map_prod id (json_canon opts)) kvs)
      = map (map_prod id (json_dumps fr opts)) kvs" by (simp add: map_prod.comp)
  then show ?case by (simp add: key_order_map [symmetric] dump_object_order del: map_map)
qed simp_all

text \<open>The canonical text that is stored for a JSON object decodes to that object with sorted
  keys, and encoding what was decoded gives the same text again, so the stored text is a normal form.\<close>

theorem canonical_json_roundtrip:
  assumes c: "canonical_json_object fr (Some (JObj kvs)) name = Inr enc" and wf: "json_wf fr (JObj kvs)"
  shows "json_loads enc = Some (json_canon canonical_ascii (JObj kvs))
    \<and> canonical_json_object fr (json_loads enc) name = Inr enc"
proof -
  have t: "enc = json_dumps fr canonical_ascii (JObj kvs)" using c by (simp add: canonical_json_object_def)
  have "compact canonical_ascii" by (simp add: compact_def canonical_ascii_def)
  from loads_dumps [OF this wf] have l: "json_loads enc = Some (json_canon canonical_ascii (JObj kvs))" by (simp only: t)
  moreover have "canonical_json_object fr (Some (json_canon canonical_ascii (JObj kvs))) name = Inr enc"
    using dumps_canon [of fr canonical_ascii "JObj kvs"] by (simp add: canonical_json_object_def t)
  ultimately show ?thesis by simp
qed

theorem canonical_json_roundtrip_witness:
  "case canonical_json_object (\<lambda>q. ''0.5'') (Some (JObj [(''b'', JInt (- 12)), (''a'', JArr [JStr ''x'', JNull])])) ''m'' of
     Inr enc \<Rightarrow> json_loads enc = Some (JObj [(''a'', JArr [JStr ''x'', JNull]), (''b'', JInt (- 12))])
   | Inl e \<Rightarrow> False"
proof -
  let ?j = "[(''b'', JInt (- 12)), (''a'', JArr [JStr ''x'', JNull])]"
  obtain enc where c: "canonical_json_object (\<lambda>q. ''0.5'') (Some (JObj ?j)) ''m'' = Inr enc"
    by (simp add: canonical_json_object_def)
  have wf: "json_wf (\<lambda>q. ''0.5'') (JObj ?j)" by simp
  have n: "json_canon canonical_ascii (JObj ?j) = JObj [(''a'', JArr [JStr ''x'', JNull]), (''b'', JInt (- 12))]"
    by code_simp
  from canonical_json_roundtrip [OF c wf] show ?thesis unfolding c n by simp
qed

end
