(* ===== verification/Protocol_Roundtrip.thy ===== *)
theory Protocol_Roundtrip
  imports Protocol Json_Roundtrip
begin

text \<open>
  What the frame codec promises: a frame that was encoded decodes to itself (with the keys of its
  payload in canonical order), and whatever is decoded respects the immutable connection context.
\<close>

section \<open>Depth\<close>

primrec json_depth :: "json \<Rightarrow> nat" where
  "json_depth JNull = 0"
| "json_depth (JBool b) = 0"
| "json_depth (JInt i) = 0"
| "json_depth (JNum q) = 0"
| "json_depth (JStr s) = 0"
| "json_depth (JArr vs) = Max (insert 0 (set (map Suc (map json_depth vs))))"
| "json_depth (JObj kvs) = Max (insert 0 (set (map (Suc \<circ> snd) (map (map_prod id json_depth) kvs))))"

lemma map_res_map: "map_res f (map h xs) = map_res (\<lambda>x. f (h x)) xs"
  by (induction xs) simp_all

lemma map_res_all: "(\<And>x. x \<in> set xs \<Longrightarrow> f x = Inr (g x)) \<Longrightarrow> map_res f xs = Inr (map g xs)"
  by (induction xs) auto

lemma map_res_only:
  assumes "map_res f xs = Inr ys" and "\<And>x y. x \<in> set xs \<Longrightarrow> f x = Inr y \<Longrightarrow> y = g x"
  shows "ys = map g xs"
  using assms by (induction xs arbitrary: ys) (auto simp: rbind_eq_Inr)

lemma validate_json_ok: "json_depth j + depth \<le> max_json_depth \<Longrightarrow> validate_json name j depth = Inr j"
proof (induction j arbitrary: depth)
  case (JArr vs)
  have "validate_json name v (depth + 1) = Inr v" if "v \<in> set vs" for v
  proof (rule JArr.IH [OF that])
    have "Suc (json_depth v) \<le> json_depth (JArr vs)" using that by simp
    then show "json_depth v + (depth + 1) \<le> max_json_depth" using JArr.prems by linarith
  qed
  then have "map_res (\<lambda>v. validate_json name v (depth + 1)) vs = Inr (map id vs)" by (intro map_res_all) simp
  then show ?case using JArr.prems by (simp add: depth_checked_def map_res_map)
next
  case (JObj kvs)
  have "validate_json name (snd kv) (depth + 1) = Inr (snd kv)" if "kv \<in> set kvs" for kv
  proof (rule JObj.IH [OF that])
    have "Suc (json_depth (snd kv)) \<le> json_depth (JObj kvs)" using that by (force intro!: Max_ge)
    then show "json_depth (snd kv) + (depth + 1) \<le> max_json_depth" using JObj.prems by linarith
  qed (cases kv, simp add: snds.intros)
  then have "map_res (\<lambda>kv. rbind (validate_json name (snd kv) (depth + 1)) (\<lambda>x. Inr (fst kv, x))) kvs = Inr (map id kvs)"
    by (intro map_res_all) simp
  then show ?case using JObj.prems by (simp add: depth_checked_def map_res_map split_def)
qed (simp_all add: depth_checked_def)

lemma validate_json_Inr: "validate_json name j depth = Inr j' \<Longrightarrow> j' = j"
proof (induction j arbitrary: depth j')
  case (JArr vs)
  then obtain ys where "map_res (\<lambda>v. validate_json name v (depth + 1)) vs = Inr ys" "j' = JArr ys"
    by (auto simp: depth_checked_def rbind_eq_Inr map_res_map split: if_splits)
  with map_res_only [OF this(1), of id] JArr.IH show ?case by simp
next
  case (JObj kvs)
  then obtain ys where ys: "map_res (\<lambda>kv. rbind (validate_json name (snd kv) (depth + 1)) (\<lambda>x. Inr (fst kv, x))) kvs = Inr ys"
      "j' = JObj ys"
    by (auto simp: depth_checked_def rbind_eq_Inr map_res_map split_def split: if_splits)
  have "ys = map id kvs"
  proof (rule map_res_only [OF ys(1)])
    fix kv y assume kv: "kv \<in> set kvs" "rbind (validate_json name (snd kv) (depth + 1)) (\<lambda>x. Inr (fst kv, x)) = Inr y"
    obtain v where v: "validate_json name (snd kv) (depth + 1) = Inr v" "y = (fst kv, v)"
      using kv(2) by (auto simp: rbind_eq_Inr)
    have "v = snd kv" by (rule JObj.IH [OF kv(1) _ v(1)]) (cases kv, simp add: snds.intros)
    with v show "y = id kv" by simp
  qed
  with ys show ?case by simp
qed (auto simp: depth_checked_def split: if_splits)

lemma json_depth_canon [simp]: "json_depth (json_canon opts j) = json_depth j"
proof (induction j)
  case (JArr vs)
  then have "map json_depth (map (json_canon opts) vs) = map json_depth vs" by simp
  then show ?case by (simp only: json_canon.simps json_depth.simps)
next
  case (JObj kvs)
  have "(\<lambda>x. Suc (json_depth (json_canon opts (snd x)))) ` set kvs = (\<lambda>x. Suc (json_depth (snd x))) ` set kvs"
    using JObj.IH by (intro image_cong) (auto simp: snds.intros)
  then show ?case by (simp add: image_image)
qed simp_all

section \<open>Canonical rows\<close>

abbreviation canon :: "json \<Rightarrow> json" where
  "canon \<equiv> json_canon canonical_unicode"

definition canon_row :: "row \<Rightarrow> row" where
  "canon_row kvs = key_order canonical_unicode (map (map_prod id canon) kvs)"

lemma canon_obj: "canon (JObj kvs) = JObj (canon_row kvs)"
  by (simp add: canon_row_def)

lemma canon_row_keys [simp]: "fst ` set (canon_row kvs) = fst ` set kvs"
  by (force simp: canon_row_def)

lemma canon_row_distinct: "distinct (map fst kvs) \<Longrightarrow> distinct (map fst (canon_row kvs))"
  by (simp add: canon_row_def key_order_distinct comp_def)

lemma map_of_canon_row:
  assumes "distinct (map fst kvs)"
  shows "map_of (canon_row kvs) k = map_option canon (map_of kvs k)"
proof -
  have "map_of (canon_row kvs) = map_of (map (map_prod id canon) kvs)"
    by (subst map_of_inject_set)
      (use assms canon_row_distinct [OF assms] in \<open>simp_all add: canon_row_def comp_def\<close>)
  moreover have "map_of (map (map_prod id canon) kvs) k = map_option canon (map_of kvs k)"
    by (induction kvs) auto
  ultimately show ?thesis by simp
qed

lemma dict_get_canon:
  "distinct (map fst kvs) \<Longrightarrow> dict_get (canon_row kvs) k = canon (dict_get kvs k)"
  by (simp add: dict_get_def map_of_canon_row split: option.splits)

lemma check_keys_ok:
  assumes "set required \<subseteq> fst ` set data" and "fst ` set data \<subseteq> set (required @ optional)"
  shows "check_keys data required optional = Inr ()"
proof -
  have "filter (\<lambda>k. k \<notin> fst ` set data) required = []" using assms(1) by (auto simp: filter_empty_conv)
  moreover have "filter (\<lambda>k. k \<notin> set (required @ optional)) (map fst data) = []"
    using assms(2) by (auto simp: filter_empty_conv)
  ultimately show ?thesis by (simp add: check_keys_def missing_keys_def unknown_keys_def)
qed


section \<open>Well-formed frames\<close>

text \<open>A text as \<open>_required_string\<close> returns it.\<close>

definition good_str :: "bool \<Rightarrow> string \<Rightarrow> bool" where
  "good_str tok t \<longleftrightarrow> py_strip t = t \<and> t \<noteq> [] \<and> (tok \<longrightarrow> rx_fullmatch token_rx t)"

definition good_opt :: "string option \<Rightarrow> bool" where
  "good_opt x = (case x of None \<Rightarrow> True | Some t \<Rightarrow> good_str False t)"

definition good_tuple :: "bool \<Rightarrow> string list \<Rightarrow> bool" where
  "good_tuple allow_empty xs \<longleftrightarrow> list_all (good_str True) xs \<and> distinct xs \<and> (allow_empty \<or> xs \<noteq> [])"

definition version_ok :: "protocol_version \<Rightarrow> bool" where
  "version_ok v \<longleftrightarrow> 0 \<le> pv_major v \<and> 0 \<le> pv_minor v"

definition context_ok :: "client_context \<Rightarrow> bool" where
  "context_ok c \<longleftrightarrow>
     good_str True (px_client_id c) \<and> good_str True (px_surface c) \<and> good_str True (px_agent_id c)
     \<and> good_str True (px_session_id c) \<and> good_opt (px_parent_agent_id c) \<and> good_opt (px_project_root c)
     \<and> good_opt (px_repository c) \<and> good_opt (px_branch c) \<and> good_opt (px_commit_sha c)
     \<and> good_tuple False (px_access_scopes c)"

definition error_ok :: "protocol_error \<Rightarrow> bool" where
  "error_ok e \<longleftrightarrow> good_str True (perr_code e) \<and> good_str False (perr_message e)"

definition request_ok :: "request \<Rightarrow> bool" where
  "request_ok r \<longleftrightarrow>
     good_str True (rq_request_id r) \<and> good_str True (rq_method r) \<and> rq_method r \<in> fst ` set method_capabilities
     \<and> fst ` set (rq_params r) \<inter> set immutable_context_fields = {}
     \<and> version_ok (rq_protocol r) \<and> 0 \<le> rq_schema_version r"

definition response_ok :: "response \<Rightarrow> bool" where
  "response_ok r \<longleftrightarrow>
     good_str True (rs_request_id r) \<and> (rs_ok r \<longleftrightarrow> rs_error r = None) \<and> (rs_ok r \<or> rs_result r = JNull)
     \<and> (case rs_error r of None \<Rightarrow> True | Some e \<Rightarrow> error_ok e) \<and> version_ok (rs_protocol r) \<and> 0 \<le> rs_schema_version r"

definition handshake_ok :: "handshake \<Rightarrow> bool" where
  "handshake_ok h \<longleftrightarrow> context_ok (hs_context h) \<and> good_tuple True (hs_capabilities h)
     \<and> version_ok (hs_protocol h) \<and> 0 \<le> hs_schema_version h"

definition handshake_response_ok :: "handshake_response \<Rightarrow> bool" where
  "handshake_response_ok h \<longleftrightarrow>
     (hr_accepted h \<longleftrightarrow> hr_error h = None) \<and> good_tuple True (hr_capabilities h)
     \<and> good_str False (hr_service_version h) \<and> (case hr_error h of None \<Rightarrow> True | Some e \<Rightarrow> error_ok e)
     \<and> version_ok (hr_protocol h) \<and> 0 \<le> hr_schema_version h"

definition frame_ok :: "frame \<Rightarrow> bool" where
  "frame_ok f = (case f of Handshake h \<Rightarrow> handshake_ok h | HandshakeResponse h \<Rightarrow> handshake_response_ok h
     | Request r \<Rightarrow> request_ok r | Response r \<Rightarrow> response_ok r)"

lemma required_string_good [simp]: "good_str tok t \<Longrightarrow> required_string (JStr t) name tok = Inr t"
  by (simp add: required_string_def good_str_def Let_def)

lemma required_string_Inr: "required_string v name tok = Inr t \<Longrightarrow> good_str tok t"
  by (auto simp: required_string_def good_str_def Let_def split: json.splits if_splits)

lemma optional_string_good [simp]: "good_opt x \<Longrightarrow> optional_string (jopt x) name = Inr x"
  by (cases x) (simp_all add: optional_string_def good_opt_def jopt_def)

lemma optional_string_Inr: "optional_string v name = Inr x \<Longrightarrow> good_opt x"
  by (auto simp: optional_string_def good_opt_def rbind_eq_Inr dest: required_string_Inr split: if_splits)

lemma strict_int_good [simp]: "m \<le> i \<Longrightarrow> strict_int (JInt i) name m = Inr i"
  by (simp add: strict_int_def)

lemma strict_int_Inr: "strict_int v name m = Inr i \<Longrightarrow> m \<le> i"
  by (auto simp: strict_int_def split: json.splits if_splits)

lemma string_tuple_good [simp]: "good_tuple allow xs \<Longrightarrow> string_tuple (json_strings xs) name allow = Inr xs"
proof -
  assume good: "good_tuple allow xs"
  then have "map_res (\<lambda>x. required_string x name True) (map JStr xs) = Inr (map id xs)"
    unfolding map_res_map by (intro map_res_all) (simp add: good_tuple_def list_all_iff)
  with good show ?thesis by (auto simp: string_tuple_def json_strings_def good_tuple_def)
qed

lemma string_tuple_Inr: "string_tuple v name allow = Inr xs \<Longrightarrow> good_tuple allow xs"
proof -
  assume "string_tuple v name allow = Inr xs"
  then obtain vs where vs: "map_res (\<lambda>x. required_string x name True) vs = Inr xs" "distinct xs" "allow \<or> xs \<noteq> []"
    by (auto simp: string_tuple_def rbind_eq_Inr split: json.splits if_splits)
  from vs(1) have "list_all (good_str True) xs"
    by (induction vs arbitrary: xs) (auto simp: rbind_eq_Inr dest: required_string_Inr)
  with vs show ?thesis by (simp add: good_tuple_def)
qed

lemma canon_json_strings [simp]: "canon (json_strings xs) = json_strings xs"
  by (simp add: json_strings_def)

lemma canon_jopt [simp]: "canon (jopt x) = jopt x"
  by (simp add: jopt_def split: option.splits)

lemma dict_get_Cons: "dict_get ((k, v) # d) k' = (if k' = k then v else dict_get d k')"
  by (simp add: dict_get_def)

lemma version_from_dict [simp]:
  "version_ok v \<Longrightarrow> protocol_version_from (JObj (canon_row (protocol_version_dict v))) = Inr v"
  unfolding protocol_version_from_def mapping_of_def
  by (simp add: check_keys_ok dict_get_canon protocol_version_dict_def dict_get_Cons
      protocol_version_init_def version_ok_def)

lemma context_from_dict [simp]:
  "context_ok c \<Longrightarrow> client_context_from (JObj (canon_row (client_context_dict c))) = Inr c"
  unfolding client_context_from_def mapping_of_def
  by (simp add: check_keys_ok dict_get_canon client_context_dict_def dict_get_Cons
      client_context_init_def context_ok_def)

definition canon_error :: "protocol_error \<Rightarrow> protocol_error" where
  "canon_error e = e\<lparr>perr_details := canon_row (perr_details e)\<rparr>"

lemma error_from_dict [simp]:
  assumes "error_ok e" and "json_depth (JObj (perr_details e)) \<le> max_json_depth"
  shows "protocol_error_from (JObj (canon_row (protocol_error_dict e))) = Inr (canon_error e)"
proof -
  have "validate_json ''error.details'' (JObj (canon_row (perr_details e))) 0 = Inr (JObj (canon_row (perr_details e)))"
    using assms(2) json_depth_canon [of canonical_unicode "JObj (perr_details e)"]
    by (intro validate_json_ok) (simp only: canon_obj)
  then show ?thesis
    using assms(1) unfolding protocol_error_from_def mapping_of_def
    by (simp add: check_keys_ok dict_get_canon protocol_error_dict_def dict_get_Cons
        protocol_error_init_def error_ok_def canon_error_def canon_obj mapping_of_def
        guard_res_def del: json_canon.simps(7) validate_json.simps(7))
qed

lemma optional_error_from_dict:
  assumes "\<And>e. x = Some e \<Longrightarrow> error_ok e \<and> json_depth (JObj (perr_details e)) \<le> max_json_depth"
  shows "optional_error_from (canon (optional_error_dict x)) = Inr (map_option canon_error x)"
  using assms by (cases x) (simp_all add: optional_error_from_def optional_error_dict_def canon_obj
      guard_res_def del: json_canon.simps(7) json_depth.simps(7))

lemma handshake_from_dict:
  "handshake_ok h \<Longrightarrow> handshake_from (canon_row (handshake_dict h)) = Inr h"
  unfolding handshake_from_def
  by (simp add: check_keys_ok dict_get_canon handshake_dict_def dict_get_Cons canon_obj
      handshake_init_def handshake_ok_def guard_res_def del: json_canon.simps(7))

definition canon_handshake_response :: "handshake_response \<Rightarrow> handshake_response" where
  "canon_handshake_response h = h\<lparr>hr_error := map_option canon_error (hr_error h)\<rparr>"

lemma handshake_response_from_dict:
  assumes "handshake_response_ok h" and "\<And>e. hr_error h = Some e \<Longrightarrow> json_depth (JObj (perr_details e)) \<le> max_json_depth"
  shows "handshake_response_from (canon_row (handshake_response_dict h)) = Inr (canon_handshake_response h)"
proof -
  have err: "optional_error_from (canon (optional_error_dict (hr_error h))) = Inr (map_option canon_error (hr_error h))"
    by (rule optional_error_from_dict) (use assms in \<open>auto simp: handshake_response_ok_def simp del: json_depth.simps\<close>)
  show ?thesis
    using assms(1) unfolding handshake_response_from_def
    by (simp add: check_keys_ok dict_get_canon handshake_response_dict_def dict_get_Cons canon_obj err
        handshake_response_init_def handshake_response_ok_def canon_handshake_response_def
        guard_res_def del: json_canon.simps(7))
qed

definition canon_request :: "request \<Rightarrow> request" where
  "canon_request r = r\<lparr>rq_params := canon_row (rq_params r)\<rparr>"

lemma request_from_dict:
  assumes "request_ok r" and "json_depth (JObj (rq_params r)) \<le> max_json_depth"
  shows "request_from (canon_row (request_dict r)) = Inr (canon_request r)"
proof -
  have v: "validate_json ''params'' (JObj (canon_row (rq_params r))) 0 = Inr (JObj (canon_row (rq_params r)))"
    using assms(2) json_depth_canon [of canonical_unicode "JObj (rq_params r)"]
    by (intro validate_json_ok) (simp only: canon_obj)
  have spoof: "filter (\<lambda>k. k \<in> fst ` set (rq_params r)) immutable_context_fields = []"
    using assms(1) by (auto simp: request_ok_def filter_empty_conv)
  show ?thesis
    using assms(1) v unfolding request_from_def
    by (simp add: check_keys_ok dict_get_canon request_dict_def dict_get_Cons canon_obj spoof
        request_init_def request_ok_def canon_request_def mapping_of_def
        guard_res_def del: json_canon.simps(7) validate_json.simps(7))
qed

definition canon_response :: "response \<Rightarrow> response" where
  "canon_response r = r\<lparr>rs_result := canon (rs_result r), rs_error := map_option canon_error (rs_error r)\<rparr>"

lemma canon_JNull_iff: "canon j = JNull \<longleftrightarrow> j = JNull"
  by (cases j) simp_all

lemma response_from_dict:
  assumes "response_ok r" and "json_depth (rs_result r) \<le> max_json_depth"
    and "\<And>e. rs_error r = Some e \<Longrightarrow> json_depth (JObj (perr_details e)) \<le> max_json_depth"
  shows "response_from (canon_row (response_dict r)) = Inr (canon_response r)"
proof -
  have v: "validate_json ''result'' (canon (rs_result r)) 0 = Inr (canon (rs_result r))"
    using assms(2) by (intro validate_json_ok) simp
  have err: "optional_error_from (canon (optional_error_dict (rs_error r))) = Inr (map_option canon_error (rs_error r))"
    by (rule optional_error_from_dict) (use assms in \<open>auto simp: response_ok_def simp del: json_depth.simps\<close>)
  show ?thesis
    using assms(1) v unfolding response_from_def
    by (auto simp add: err check_keys_ok dict_get_canon response_dict_def dict_get_Cons canon_obj canon_JNull_iff
        response_init_def response_ok_def canon_response_def guard_res_def
        simp del: json_canon.simps(7) validate_json.simps(7) json_depth.simps(7))
qed

section \<open>One line\<close>

definition line_safe :: "string \<Rightarrow> bool" where
  "line_safe s \<longleftrightarrow> CHR 0x0A \<notin> set s \<and> CHR 0x0D \<notin> set s"

lemma line_safe_simps [simp]:
  "line_safe []" "line_safe (s @ t) \<longleftrightarrow> line_safe s \<and> line_safe t"
  "line_safe (c # s) \<longleftrightarrow> c \<noteq> CHR 0x0A \<and> c \<noteq> CHR 0x0D \<and> line_safe s"
  by (auto simp: line_safe_def)

lemma line_safe_join: "line_safe sep \<Longrightarrow> list_all line_safe ws \<Longrightarrow> line_safe (py_join sep ws)"
  by (induction sep ws rule: py_join.induct) simp_all

lemma hex_digit_line: "d < 16 \<Longrightarrow> hex_digit d \<noteq> CHR 0x0A \<and> hex_digit d \<noteq> CHR 0x0D"
  using hex_value_digit [of d] by (auto simp: hex_value_def Let_def)

lemma escape_line_safe: "line_safe (json_escape_char a c)"
proof -
  have n: "of_char c div 16 < (16::nat)" "of_char c mod 16 < (16::nat)"
    using of_char_lt [of c] less_mult_imp_div_less [of "of_char c" 16 16] by simp_all
  show ?thesis
    using hex_digit_line [OF n(1)] hex_digit_line [OF n(2)] by (simp add: json_escape_char_def Let_def)
qed

lemma json_str_line_safe: "line_safe (json_str a s)"
proof -
  have "line_safe (concat (map (json_escape_char a) s))"
    by (induction s) (simp_all add: escape_line_safe)
  then show ?thesis by (simp add: json_str_def)
qed

lemma nat_str_line_safe: "line_safe (nat_str n)"
  using nat_str_digits [of n] by (auto simp: line_safe_def is_digit09_def)

lemma dumps_line_safe:
  assumes fr: "\<And>q. line_safe (fr q)"
  shows "line_safe (json_dumps fr canonical_unicode j)"
proof (induction j)
  case (JArr vs)
  then have "list_all line_safe (map (json_dumps fr canonical_unicode) vs)" by (simp add: list_all_iff)
  then show ?case using line_safe_join [of "'',''"] by (simp add: canonical_unicode_def)
next
  case (JObj kvs)
  have "list_all line_safe (map (\<lambda>(k, v). json_str False k @ '':'' @ json_dumps fr canonical_unicode v)
      (key_order canonical_unicode kvs))"
    using JObj.IH json_str_line_safe by (auto simp: list_all_iff snds.intros)
  moreover have co: "compact canonical_unicode" by (simp add: compact_def canonical_unicode_def)
  ultimately show ?case
    using line_safe_join [of "'',''"] by (simp add: dump_object_join [OF co]) (simp add: canonical_unicode_def)
qed (use fr in \<open>simp_all add: json_str_line_safe int_str_def nat_str_line_safe\<close>)

lemma strip_newline_line: "line_safe s \<Longrightarrow> strip_newline (s @ [CHR 0x0A]) = s"
proof -
  assume safe: "line_safe s"
  have "\<not> ends_with [CHR 0x0D, CHR 0x0A] (s @ [CHR 0x0A])"
  proof (cases s rule: rev_cases)
    case (snoc t c)
    then show ?thesis using safe by (auto simp: ends_with_def)
  qed (simp add: ends_with_def)
  moreover have "ends_with [CHR 0x0A] (s @ [CHR 0x0A])" by (simp add: ends_with_def)
  ultimately show ?thesis by (simp add: strip_newline_def)
qed

section \<open>The round trip\<close>

definition canon_frame :: "frame \<Rightarrow> frame" where
  "canon_frame f = (case f of Handshake h \<Rightarrow> Handshake h
     | HandshakeResponse h \<Rightarrow> HandshakeResponse (canon_handshake_response h)
     | Request r \<Rightarrow> Request (canon_request r) | Response r \<Rightarrow> Response (canon_response r))"

lemma json_depth_member: "(k, v) \<in> set kvs \<Longrightarrow> Suc (json_depth v) \<le> json_depth (JObj kvs)"
  by (force intro!: Max_ge)

lemma error_depth:
  "(k, optional_error_dict (Some e)) \<in> set kvs \<Longrightarrow> json_depth (JObj (perr_details e)) \<le> json_depth (JObj kvs)"
  using json_depth_member [of k "optional_error_dict (Some e)" kvs]
    json_depth_member [of "''details''" "JObj (perr_details e)" "protocol_error_dict e"]
  by (simp add: optional_error_dict_def protocol_error_dict_def del: json_depth.simps)

lemma frame_from_dict:
  assumes ok: "frame_ok f" and depth: "json_depth (JObj (frame_dict f)) \<le> max_json_depth"
  shows "frame_from (canon_row (frame_dict f)) = Inr (canon_frame f)"
proof (cases f)
  case (Handshake h)
  then have "dict_get (canon_row (frame_dict f)) ''type'' = JStr ''handshake''"
    by (simp add: frame_dict_def dict_get_canon handshake_dict_def dict_get_Cons)
  then show ?thesis using ok handshake_from_dict [of h]
    by (simp add: Handshake frame_ok_def frame_from_def frame_dict_def canon_frame_def)
next
  case (HandshakeResponse h)
  then have "dict_get (canon_row (frame_dict f)) ''type'' = JStr ''handshake_response''"
    by (simp add: frame_dict_def dict_get_canon handshake_response_dict_def dict_get_Cons)
  moreover have "json_depth (JObj (perr_details e)) \<le> max_json_depth" if "hr_error h = Some e" for e
    by (rule order_trans [OF error_depth [of "''error''"] depth])
      (simp add: HandshakeResponse frame_dict_def handshake_response_dict_def that)
  then have "handshake_response_from (canon_row (handshake_response_dict h)) = Inr (canon_handshake_response h)"
    using ok by (intro handshake_response_from_dict) (simp_all add: HandshakeResponse frame_ok_def)
  ultimately show ?thesis
    by (simp add: HandshakeResponse frame_ok_def frame_from_def frame_dict_def canon_frame_def)
next
  case (Request r)
  then have "dict_get (canon_row (frame_dict f)) ''type'' = JStr ''request''"
    by (simp add: frame_dict_def dict_get_canon request_dict_def dict_get_Cons)
  moreover have "json_depth (JObj (rq_params r)) \<le> max_json_depth"
    using json_depth_member [of "''params''" "JObj (rq_params r)" "frame_dict f"] depth
    by (simp add: Request frame_dict_def request_dict_def del: json_depth.simps)
  then have "request_from (canon_row (request_dict r)) = Inr (canon_request r)"
    using ok by (intro request_from_dict) (simp_all add: Request frame_ok_def)
  ultimately show ?thesis
    by (simp add: Request frame_ok_def frame_from_def frame_dict_def canon_frame_def)
next
  case (Response r)
  then have "dict_get (canon_row (frame_dict f)) ''type'' = JStr ''response''"
    by (simp add: frame_dict_def dict_get_canon response_dict_def dict_get_Cons)
  moreover have "json_depth (rs_result r) \<le> max_json_depth"
    using json_depth_member [of "''result''" "rs_result r" "frame_dict f"] depth
    by (simp add: Response frame_dict_def response_dict_def del: json_depth.simps)
  moreover have "json_depth (JObj (perr_details e)) \<le> max_json_depth" if "rs_error r = Some e" for e
    by (rule order_trans [OF error_depth [of "''error''"] depth])
      (simp add: Response frame_dict_def response_dict_def that)
  ultimately have "response_from (canon_row (response_dict r)) = Inr (canon_response r)"
    using ok by (intro response_from_dict) (simp_all add: Response frame_ok_def)
  then show ?thesis using \<open>dict_get (canon_row (frame_dict f)) ''type'' = JStr ''response''\<close>
    by (simp add: Response frame_ok_def frame_from_def frame_dict_def canon_frame_def)
qed

lemma frame_protocol_canon [simp]: "frame_protocol (canon_frame f) = frame_protocol f"
  by (cases f) (simp_all add: frame_protocol_def canon_frame_def canon_handshake_response_def
      canon_request_def canon_response_def)


section \<open>What decodes\<close>

lemma version_from_ok: "protocol_version_from v = Inr pv \<Longrightarrow> version_ok pv"
  by (auto simp: protocol_version_from_def protocol_version_init_def rbind_eq_Inr version_ok_def dest: strict_int_Inr)

lemma context_from_ok: "client_context_from v = Inr c \<Longrightarrow> context_ok c"
  unfolding client_context_from_def client_context_init_def
  by (auto simp: rbind_eq_Inr context_ok_def dest!: required_string_Inr optional_string_Inr string_tuple_Inr)

lemma error_init_ok: "protocol_error_init c m r d = Inr e \<Longrightarrow> error_ok e"
  unfolding protocol_error_init_def
  by (cases r) (auto simp: rbind_eq_Inr error_ok_def dest: required_string_Inr)

lemma error_from_ok: "optional_error_from v = Inr x \<Longrightarrow> x = Some e \<Longrightarrow> error_ok e"
  by (auto simp: optional_error_from_def protocol_error_from_def rbind_eq_Inr dest: error_init_ok split: if_splits)

lemma handshake_from_ok: "handshake_from d = Inr h \<Longrightarrow> handshake_ok h"
  unfolding handshake_from_def handshake_init_def
  by (auto simp: rbind_eq_Inr handshake_ok_def dest: context_from_ok version_from_ok strict_int_Inr string_tuple_Inr)

lemma handshake_response_init_ok:
  assumes "handshake_response_init acc caps v x pv sv = Inr h" and "\<forall>e. x = Some e \<longrightarrow> error_ok e" and "version_ok pv"
  shows "handshake_response_ok h"
  using assms unfolding handshake_response_init_def
  by (cases acc) (auto simp: rbind_eq_Inr handshake_response_ok_def dest: strict_int_Inr
      string_tuple_Inr required_string_Inr split: if_splits option.splits)

lemma handshake_response_from_ok: "handshake_response_from d = Inr h \<Longrightarrow> handshake_response_ok h"
  unfolding handshake_response_from_def
  by (auto simp: rbind_eq_Inr intro: handshake_response_init_ok dest: error_from_ok version_from_ok)

lemma request_init_ok:
  assumes "request_init rid m ps pv sv = Inr r" and "version_ok pv"
  shows "request_ok r"
proof -
  have "sort (filter (\<lambda>k. k \<in> fst ` set (rq_params r)) immutable_context_fields) = []"
    using assms(1) by (auto simp: request_init_def rbind_eq_Inr Let_def)
  then have "length (filter (\<lambda>k. k \<in> fst ` set (rq_params r)) immutable_context_fields) = 0"
    by (metis length_sort list.size(3))
  then have "fst ` set (rq_params r) \<inter> set immutable_context_fields = {}"
    by (auto simp: filter_empty_conv)
  then show ?thesis using assms
    by (auto simp: request_init_def rbind_eq_Inr request_ok_def Let_def dest: strict_int_Inr required_string_Inr
        intro: rev_image_eqI)
qed

lemma request_from_ok: "request_from d = Inr r \<Longrightarrow> request_ok r"
  unfolding request_from_def
  by (auto simp: rbind_eq_Inr intro: request_init_ok dest: version_from_ok)

lemma response_init_ok:
  assumes "response_init rid okv res x pv sv = Inr r" and "\<forall>e. x = Some e \<longrightarrow> error_ok e" and "version_ok pv"
  shows "response_ok r"
  using assms unfolding response_init_def
  by (cases okv) (auto simp: rbind_eq_Inr response_ok_def dest: strict_int_Inr required_string_Inr
      split: if_splits option.splits)

lemma response_from_ok: "response_from d = Inr r \<Longrightarrow> response_ok r"
  unfolding response_from_def
  by (auto simp: rbind_eq_Inr intro: response_init_ok dest: error_from_ok version_from_ok)

lemma frame_from_ok: "frame_from d = Inr f \<Longrightarrow> frame_ok f"
  by (auto simp: frame_from_def rbind_eq_Inr frame_ok_def
      dest: handshake_from_ok handshake_response_from_ok request_from_ok response_from_ok
      split: json.splits if_splits)

text \<open>A computation that raises nothing else, and how such computations compose.\<close>

definition raises_protocol :: "'a res \<Rightarrow> bool" where
  "raises_protocol m \<longleftrightarrow> (\<forall>e. m = Inl e \<longrightarrow> protocol_exc e)"

named_theorems raises "computations that raise only protocol exceptions"

lemma raises_basic [raises]:
  "raises_protocol (Inr a)" "protocol_exc e \<Longrightarrow> raises_protocol (Inl e)"
  "protocol_exc e \<Longrightarrow> raises_protocol (guard_res ok e)"
  by (simp_all add: raises_protocol_def)

lemma raises_rbind [raises]:
  "raises_protocol m \<Longrightarrow> (\<And>a. raises_protocol (k a)) \<Longrightarrow> raises_protocol (rbind m k)"
  by (auto simp: raises_protocol_def rbind_eq_Inl)

lemma raises_if [raises]:
  "raises_protocol m \<Longrightarrow> raises_protocol n \<Longrightarrow> raises_protocol (if b then m else n)"
  by simp

lemma raises_json [raises]:
  "raises_protocol a \<Longrightarrow> (\<And>x. raises_protocol (b x)) \<Longrightarrow> (\<And>x. raises_protocol (c x)) \<Longrightarrow>
   (\<And>x. raises_protocol (d x)) \<Longrightarrow> (\<And>x. raises_protocol (f x)) \<Longrightarrow> (\<And>x. raises_protocol (g x)) \<Longrightarrow>
   (\<And>x. raises_protocol (h x)) \<Longrightarrow> raises_protocol (case_json a b c d f g h j)"
  by (cases j) simp_all

lemma raises_map_res [raises]: "(\<And>x. x \<in> set xs \<Longrightarrow> raises_protocol (f x)) \<Longrightarrow> raises_protocol (map_res f xs)"
proof (induction xs)
  case (Cons x xs)
  then show ?case by (auto intro!: raises simp del: rbind_Inl)
qed (simp add: raises)

lemma raises_validators [raises]:
  "raises_protocol (required_string v n t)" "raises_protocol (optional_string v n)"
  "raises_protocol (strict_int v n m)" "raises_protocol (string_tuple v n a)"
  "raises_protocol (mapping_of v n)" "raises_protocol (check_keys d r opt)"
proof -
  show 1: "raises_protocol (required_string v n t)" for v n t
    unfolding required_string_def Let_def by (intro raises) simp_all
  show "raises_protocol (optional_string v n)" unfolding optional_string_def by (intro raises 1)
  show "raises_protocol (strict_int v n m)" unfolding strict_int_def by (intro raises) simp_all
  show "raises_protocol (string_tuple v n a)" unfolding string_tuple_def by (intro raises 1) simp_all
  show "raises_protocol (mapping_of v n)" unfolding mapping_of_def by (intro raises) simp_all
  show "raises_protocol (check_keys d r opt)" unfolding check_keys_def Let_def by (intro raises) simp_all
qed

lemma raises_validate_json [raises]: "raises_protocol (validate_json n j d)"
proof (induction j arbitrary: d)
  case (JArr vs)
  then have "raises_protocol (map_res (\<lambda>v. validate_json n v (d + 1)) vs)" by (intro raises)
  then show ?case by (auto simp: depth_checked_def map_res_map intro!: raises)
next
  case (JObj kvs)
  have "raises_protocol (validate_json n (snd kv) (d + 1))" if "kv \<in> set kvs" for kv
    by (rule JObj [OF that]) (cases kv, simp add: snds.intros)
  then have "raises_protocol (map_res (\<lambda>kv. rbind (validate_json n (snd kv) (d + 1)) (\<lambda>x. Inr (fst kv, x))) kvs)"
    by (intro raises)
  then show ?case by (auto simp: depth_checked_def map_res_map split_def intro!: raises)
qed (simp_all add: depth_checked_def raises)

lemma raises_parts [raises]:
  "raises_protocol (protocol_version_from v)" "raises_protocol (client_context_from v)"
  "raises_protocol (optional_error_from v)"
  unfolding protocol_version_from_def protocol_version_init_def client_context_from_def client_context_init_def
    optional_error_from_def protocol_error_from_def protocol_error_init_def
  by (intro raises; simp)+

lemma raises_frames [raises]:
  "raises_protocol (handshake_from d)" "raises_protocol (handshake_response_from d)"
  "raises_protocol (request_from d)" "raises_protocol (response_from d)"
  unfolding handshake_from_def handshake_init_def handshake_response_from_def handshake_response_init_def
    request_from_def request_init_def response_from_def response_init_def Let_def
  by (intro raises; simp)+

lemma frame_from_err:
  "frame_from d = Inl e \<Longrightarrow>
   protocol_exc e \<or> e = TypeError ''unhashable type: list'' \<or> e = TypeError ''unhashable type: dict''"
  using raises_frames [of d]
  by (auto simp: frame_from_def rbind_eq_Inl raises_protocol_def split: json.splits if_splits)

lemma raises_err:
  "validate_json n v d = Inl e \<Longrightarrow> protocol_exc e" "mapping_of v n = Inl e \<Longrightarrow> protocol_exc e"
  using raises_validate_json [of n v d] raises_validators(5) [of v n] by (simp_all add: raises_protocol_def)

lemma decode_frame_err:
  assumes "decode_frame raw limit refuse = Inl e"
  shows "protocol_exc e \<or> e = TypeError ''unhashable type: list'' \<or> e = TypeError ''unhashable type: dict''"
  using assms
  by (auto simp: decode_frame_def Let_def rbind_eq_Inl frame_too_large_def require_compatible_major_def
      dest: raises_err frame_from_err split: if_splits option.splits)

lemma decode_frame_frame_ok: "decode_frame raw limit refuse = Inr f \<Longrightarrow> frame_ok f"
  by (auto simp: decode_frame_def Let_def rbind_eq_Inr dest: frame_from_ok split: if_splits option.splits)


section \<open>Runs\<close>

definition demo_request :: request where
  "demo_request = \<lparr>rq_request_id = ''r1'', rq_method = ''memory.search'',
     rq_params = [(''query'', JStr ''deploy''), (''limit'', JInt 3)],
     rq_protocol = current_protocol, rq_schema_version = 1\<rparr>"

definition demo_float_text :: "rat \<Rightarrow> string" where
  "demo_float_text q = ''0.5''"

lemma demo_encodes: "\<exists>raw. encode_frame demo_float_text (Request demo_request) 1024 = Inr raw"
proof -
  have "(case encode_frame demo_float_text (Request demo_request) 1024 of Inr _ \<Rightarrow> True | Inl _ \<Rightarrow> False)" by code_simp
  then show ?thesis by (simp split: sum.splits)
qed


text \<open>
  The depth limit counts from the frame on decoding but from the parameters on construction: a
  request whose parameters have the greatest depth is well formed and encodes, but its frame is refused.
\<close>

definition deep_request :: request where
  "deep_request = demo_request\<lparr>rq_params := [(''x'', ((\<lambda>j. JArr [j]) ^^ 31) JNull)]\<rparr>"

lemma deep_params_undecodable:
  "request_init (JStr ''r1'') (JStr ''memory.search'') (JObj (rq_params deep_request)) current_protocol (JInt 1)
     = Inr deep_request
   \<and> (case encode_frame demo_float_text (Request deep_request) 1024 of Inl _ \<Rightarrow> False
      | Inr raw \<Rightarrow> decode_frame raw 1024 True = Inl (ProtocolValidationError ''frame exceeds maximum JSON depth''))"
  by code_simp

text \<open>A frame whose type is an array escapes the protocol's own exceptions.\<close>

lemma array_type_escapes:
  "decode_frame (utf8_encode (json_dumps demo_float_text canonical_unicode (JObj [(''type'', JArr [])]))) 1024 False
     = Inl (TypeError ''unhashable type: list'')"
  by code_simp

end
