(* ===== verification/Connection_Guarantees.thy ===== *)
theory Connection_Guarantees
  imports Connection Protocol_Roundtrip
begin

text \<open>
  A connection of the daemon implements an abstract session: it waits for a handshake, then serves
  requests of the negotiated capabilities under the context of that handshake, and once closed stays
  closed. The way the bytes arrive in chunks does not matter.
\<close>

section \<open>The abstract session\<close>

datatype phase = Awaiting | Ready negotiated_connection | Closed

type_synonym call = "client_context \<times> request"

text \<open>What a negotiated connection may hold, and which requests may be served on it.\<close>

definition agreed :: "daemon_config \<Rightarrow> negotiated_connection \<Rightarrow> bool" where
  "agreed cfg c \<longleftrightarrow>
     context_ok (nc_context c) \<and> set (nc_capabilities c) \<subseteq> py_strip ` set (dc_server_capabilities cfg)
     \<and> pv_major (nc_protocol c) = protocol_major \<and> pv_minor (nc_protocol c) \<le> protocol_minor
     \<and> nc_schema_version c = dc_schema_version cfg"

definition allowed :: "negotiated_connection \<Rightarrow> request \<Rightarrow> bool" where
  "allowed c r \<longleftrightarrow>
     request_ok r \<and> rq_protocol r = nc_protocol c \<and> rq_schema_version r = nc_schema_version c
     \<and> rq_method r \<noteq> ''health''
     \<and> (case map_of method_capabilities (rq_method r) of None \<Rightarrow> False | Some cap \<Rightarrow> cap \<in> set (nc_capabilities c))"

text \<open>One frame of a session, with the calls of the handler it makes.\<close>

inductive session_step :: "daemon_config \<Rightarrow> phase \<Rightarrow> call list \<Rightarrow> phase \<Rightarrow> bool" for cfg where
  accept: "agreed cfg c \<Longrightarrow> session_step cfg Awaiting [] (Ready c)"
| quiet: "session_step cfg p [] p"
| close: "session_step cfg p [] Closed"
| serve: "allowed c r \<Longrightarrow> session_step cfg (Ready c) [(nc_context c, r)] (Ready c)"
| serve_close: "allowed c r \<Longrightarrow> session_step cfg (Ready c) [(nc_context c, r)] Closed"

inductive session_run :: "daemon_config \<Rightarrow> phase \<Rightarrow> call list \<Rightarrow> phase \<Rightarrow> bool" for cfg where
  stop: "session_run cfg p [] p"
| more: "session_step cfg p xs q \<Longrightarrow> session_run cfg q ys r \<Longrightarrow> session_run cfg p (xs @ ys) r"

inductive_cases session_step_AwaitingE: "session_step cfg Awaiting xs q"
inductive_cases session_step_ReadyE: "session_step cfg (Ready c) xs q"
inductive_cases session_step_ClosedE: "session_step cfg Closed xs q"

lemma session_run_step: "session_step cfg p xs q \<Longrightarrow> session_run cfg p xs q"
  using session_run.more [OF _ session_run.stop] by fastforce

lemma session_run_trans:
  "session_run cfg p xs q \<Longrightarrow> session_run cfg q ys r \<Longrightarrow> session_run cfg p (xs @ ys) r"
proof (induction rule: session_run.induct)
  case (more p xs q zs r)
  then have "session_run cfg p (xs @ (zs @ ys)) r'" if "session_run cfg q (zs @ ys) r'" for r'
    using session_run.more that by blast
  with more show ?case by simp
qed simp

lemma session_run_closed: "session_run cfg Closed xs q \<Longrightarrow> xs = [] \<and> q = Closed"
  by (induction Closed xs q rule: session_run.induct) (auto elim: session_step_ClosedE)

lemma session_run_ready:
  "session_run cfg p xs q \<Longrightarrow> p = Ready c \<Longrightarrow>
   (q = Ready c \<or> q = Closed) \<and> (\<forall>(ctx, r) \<in> set xs. ctx = nc_context c \<and> allowed c r)"
proof (induction arbitrary: c rule: session_run.induct)
  case (more p xs q ys r)
  from more.hyps(1) have "(q = Ready c \<or> q = Closed) \<and> (\<forall>(ctx, r) \<in> set xs. ctx = nc_context c \<and> allowed c r)"
    unfolding \<open>p = Ready c\<close> by (auto elim: session_step_ReadyE)
  then show ?case using more.IH more.hyps(2) session_run_closed by fastforce
qed simp

lemma session_run_awaiting:
  "session_run cfg p xs q \<Longrightarrow> p = Awaiting \<Longrightarrow>
   xs = [] \<and> (q = Awaiting \<or> q = Closed)
   \<or> (\<exists>c. agreed cfg c \<and> (q = Ready c \<or> q = Closed) \<and> (\<forall>(ctx, r) \<in> set xs. ctx = nc_context c \<and> allowed c r))"
proof (induction rule: session_run.induct)
  case (more p xs q ys r)
  from more.hyps(1) consider "xs = []" "q = Awaiting" | "xs = []" "q = Closed" | c where "xs = []" "q = Ready c" "agreed cfg c"
    unfolding \<open>p = Awaiting\<close> by (auto elim: session_step_AwaitingE)
  then show ?case
  proof cases
    case 1
    then show ?thesis using more.IH by simp
  next
    case 2
    then show ?thesis using session_run_closed more.hyps(2) by auto
  next
    case (3 c)
    then show ?thesis using session_run_ready [OF more.hyps(2) 3(2)] by auto
  qed
qed simp

section \<open>The daemon refines it\<close>

text \<open>A handler that also keeps the list of its calls.\<close>

definition logged :: "'s handler \<Rightarrow> ('s \<times> call list) handler" where
  "logged handler ctx r = (\<lambda>(s, calls). case handler ctx r s of (v, s') \<Rightarrow> (v, (s', calls @ [(ctx, r)])))"

definition phase_of :: "bool \<Rightarrow> negotiated_connection option \<Rightarrow> phase" where
  "phase_of is_open conn = (if is_open then case conn of None \<Rightarrow> Awaiting | Some c \<Rightarrow> Ready c else Closed)"

lemma negotiate_agreed:
  assumes "negotiate cfg h = Inr (r, n)" and "handshake_ok h" and "hr_accepted r"
  shows "\<exists>c. n = Some c \<and> agreed cfg c"
proof -
  have refused: "\<not> hr_accepted x" if "handshake_refusal cfg code message = Inr x" for code message x
    using that by (auto simp: handshake_refusal_def handshake_response_init_def rbind_eq_Inr split: if_splits)
  have nego: "negotiate_handshake h (dc_server_version cfg) (dc_server_capabilities cfg) (dc_schema_version cfg) = Inr r"
    and n: "n = Some \<lparr>nc_context = hs_context h, nc_capabilities = hr_capabilities r,
              nc_protocol = hs_protocol h, nc_schema_version = hs_schema_version h\<rparr>"
    and versions: "pv_minor (hs_protocol h) \<le> protocol_minor" "hs_schema_version h = dc_schema_version cfg"
    using assms(1,3) refused by (auto simp: negotiate_def rbind_eq_Inr split: if_splits)
  have major: "pv_major (hs_protocol h) = protocol_major"
    using nego assms(3)
    by (auto simp: negotiate_handshake_def handshake_response_init_def rbind_eq_Inr split: if_splits)
  obtain caps where caps: "string_tuple (json_strings (dc_server_capabilities cfg)) ''server_capabilities'' True = Inr caps"
      "string_tuple (json_strings (filter (\<lambda>c. c \<in> set (hs_capabilities h)) caps)) ''capabilities'' True = Inr (hr_capabilities r)"
    using nego major by (auto simp: negotiate_handshake_def handshake_response_init_def rbind_eq_Inr split: if_splits)
  have strip: "set ys = py_strip ` set xs" if "string_tuple (json_strings xs) nm a = Inr ys" for xs ys nm a
  proof -
    have "map_res (\<lambda>x. required_string (JStr x) nm True) xs = Inr ys"
      using that by (auto simp: string_tuple_def json_strings_def rbind_eq_Inr map_res_map split: if_splits)
    then have "ys = map py_strip xs"
      by (rule map_res_only) (auto simp: required_string_def Let_def split: if_splits)
    then show ?thesis by simp
  qed
  have "set (hr_capabilities r) \<subseteq> py_strip ` set caps" using strip [OF caps(2)] by auto
  also have "\<dots> \<subseteq> py_strip ` set (dc_server_capabilities cfg)" using strip [OF caps(1)] by auto
  finally show ?thesis
    using n versions major assms(2) by (simp add: agreed_def handshake_ok_def)
qed

lemma admit_Serve:
  assumes "admit cfg raw conn = Serve c r"
  shows "conn = Some c \<and> request_ok r \<and> rq_protocol r = nc_protocol c \<and> rq_schema_version r = nc_schema_version c
    \<and> (\<exists>cap. map_of method_capabilities (rq_method r) = Some cap \<and> cap \<in> set (nc_capabilities c))"
proof -
  obtain cap where cap: "decode_frame raw (dc_max_frame_bytes cfg) False = Inr (Request r)" "conn = Some c"
      "request_incompatibility c r = None" "required_capability (JStr (rq_method r)) = Inr cap" "cap \<in> set (nc_capabilities c)"
    using assms by (auto simp: admit_def split: sum.splits option.splits frame.splits if_splits prod.splits)
  have "frame_ok (Request r)" using decode_frame_frame_ok [OF cap(1)] .
  then have ok: "request_ok r" by (simp add: frame_ok_def)
  then have "required_string (JStr (rq_method r)) ''method'' True = Inr (rq_method r)" by (simp add: request_ok_def)
  then have "map_of method_capabilities (rq_method r) = Some cap"
    using cap(4) by (simp add: required_capability_def split: option.splits)
  then show ?thesis using cap ok by (auto simp: request_incompatibility_def split: if_splits)
qed

lemma admit_Answer:
  assumes "admit cfg raw conn = Answer reply k u conn'"
  shows "session_step cfg (phase_of True conn) [] (phase_of k conn')
    \<and> session_step cfg (phase_of True conn) [] (phase_of u conn')"
proof -
  consider "\<not> k" "\<not> u" | "conn' = conn"
    | h r where "decode_frame raw (dc_max_frame_bytes cfg) False = Inr (Handshake h)" "conn = None"
        "negotiate cfg h = Inr (r, conn')" "k = hr_accepted r" "\<not> u"
    using assms by (auto simp: admit_def split: sum.splits option.splits frame.splits if_splits prod.splits)
  then show ?thesis
  proof cases
    case 1
    then show ?thesis by (simp add: phase_of_def session_step.close)
  next
    case 2
    then show ?thesis by (simp add: phase_of_def session_step.close session_step.quiet)
  next
    case (3 h r)
    have "handshake_ok h" using decode_frame_frame_ok [OF 3(1)] by (simp add: frame_ok_def)
    then have "session_step cfg Awaiting [] (phase_of k conn')"
      using negotiate_agreed [OF 3(3)] 3(4)
      by (cases k) (auto simp: phase_of_def intro: session_step.intros)
    then show ?thesis using 3(2,5) by (simp add: phase_of_def session_step.close)
  qed
qed

lemma call_handler_logged:
  assumes "call_handler dm (logged handler) ctx r (s, calls) = (v, s1)"
  shows "snd s1 = calls @ (if rq_method r = ''health'' then [] else [(ctx, r)])"
  using assms by (auto simp: call_handler_def logged_def split: if_splits prod.splits)

lemma serve_steps:
  assumes "allowed c r \<or> rq_method r = ''health''"
  shows "session_step cfg (Ready c) (if rq_method r = ''health'' then [] else [(nc_context c, r)]) (phase_of k (Some c))"
  using assms
  by (cases k) (auto simp: phase_of_def allowed_def intro: session_step.intros)

lemma handle_frame_step:
  assumes "handle_frame dm (logged handler) raw conn (s, calls) = (v, s1)"
  shows "\<exists>more. snd s1 = calls @ more
    \<and> session_step (dm_config dm) (phase_of True conn) more
        (case v of Inl e \<Rightarrow> Closed | Inr (keep, conn', out) \<Rightarrow> phase_of keep conn')"
proof (cases "admit (dm_config dm) raw conn")
  case (Answer reply k u conn')
  have v: "s1 = (s, calls)" "v = rbind reply (\<lambda>f. rbind (send_frame dm f) (\<lambda>(sent, out). Inr (if sent then k else u, conn', out)))"
    using assms Answer by (simp_all add: handle_frame_def)
  show ?thesis
  proof (cases v)
    case (Inl e)
    then show ?thesis using v(1) by (auto intro: session_step.close)
  next
    case (Inr w)
    then obtain sent out where "w = (if sent then k else u, conn', out)"
      using v(2) by (auto simp: rbind_eq_Inr split: prod.splits)
    then show ?thesis using Inr v(1) admit_Answer [OF Answer] by (cases sent) auto
  qed
next
  case (Serve c r)
  obtain outcome s2 where call: "call_handler dm (logged handler) (nc_context c) r (s, calls) = (outcome, s2)"
    by (cases "call_handler dm (logged handler) (nc_context c) r (s, calls)")
  have v: "s1 = s2" "v = rbind (respond (dm_config dm) r outcome) (\<lambda>x. rbind (send_frame dm (Response x)) (\<lambda>(sent, out).
      Inr (sent, Some c, out)))"
    using assms Serve call by (simp_all add: handle_frame_def)
  have conn: "conn = Some c" and may: "allowed c r \<or> rq_method r = ''health''"
    using admit_Serve [OF Serve] by (auto simp: allowed_def)
  have step: "session_step (dm_config dm) (phase_of True conn)
      (if rq_method r = ''health'' then [] else [(nc_context c, r)]) (phase_of k (Some c))" for k
    using serve_steps [OF may, of "dm_config dm" k] conn by (simp add: phase_of_def)
  have "\<exists>k. (case v of Inl e \<Rightarrow> Closed | Inr (keep, conn', out) \<Rightarrow> phase_of keep conn') = phase_of k (Some c)"
  proof (cases v)
    case (Inl e)
    then show ?thesis by (intro exI [of _ False]) (simp add: phase_of_def)
  next
    case (Inr w)
    then obtain sent out where "w = (sent, Some c, out)"
      using v(2) [symmetric] by (auto simp: rbind_eq_Inr split: prod.splits)
    then show ?thesis using Inr by auto
  qed
  then show ?thesis using step call_handler_logged [OF call] v(1) by auto
next
  case (Escape e)
  then have "v = Inl e" "s1 = (s, calls)" using assms by (simp_all add: handle_frame_def)
  then show ?thesis by (auto intro: session_step.close)
qed

abbreviation session_phase :: "'s session \<Rightarrow> phase" where
  "session_phase sn \<equiv> phase_of (sn_open sn) (sn_conn sn)"

lemma fail_session_closed:
  "session_phase (fail_session dm code message sn) = Closed \<and> sn_state (fail_session dm code message sn) = sn_state sn"
  by (auto simp: fail_session_def phase_of_def split: sum.splits)

lemma drain_buffer_run:
  assumes "sn_open sn"
  shows "\<exists>more. snd (sn_state (drain_buffer dm (logged handler) buffer sn)) = snd (sn_state sn) @ more
    \<and> session_run (dm_config dm) (session_phase sn) more (session_phase (drain_buffer dm (logged handler) buffer sn))"
  using assms
proof (induction dm "logged handler" buffer sn rule: drain_buffer.induct)
  case (1 dm buffer sn)
  let ?cfg = "dm_config dm"
  have closing: "session_run ?cfg (session_phase sn) [] Closed" by (simp add: session_run_step session_step.close)
  show ?case
  proof (cases "cut_line buffer")
    case None
    then show ?thesis
      using fail_session_closed [of dm _ _ "sn\<lparr>sn_buffer := buffer\<rparr>"] closing session_run.stop [of ?cfg "session_phase sn"]
      by (subst (1 2 3) drain_buffer.simps) (simp add: too_large_def)
  next
    case (Some p)
    obtain line rest where p: "p = (line, rest)" by (cases p)
    obtain s calls where st: "sn_state sn = (s, calls)" by (cases "sn_state sn")
    obtain v s1 where hf: "handle_frame dm (logged handler) line (sn_conn sn) (s, calls) = (v, s1)"
      by (cases "handle_frame dm (logged handler) line (sn_conn sn) (s, calls)")
    obtain more where more: "snd s1 = calls @ more"
        "session_step ?cfg (session_phase sn) more (case v of Inl e \<Rightarrow> Closed | Inr (keep, conn', out) \<Rightarrow> phase_of keep conn')"
      using handle_frame_step [OF hf] 1(2) by auto
    consider (big) "dc_max_frame_bytes ?cfg < int (length line)"
      | (raised) e where "\<not> dc_max_frame_bytes ?cfg < int (length line)" "v = Inl e"
      | (ended) conn out where "\<not> dc_max_frame_bytes ?cfg < int (length line)" "v = Inr (False, conn, out)"
      | (going) conn out where "\<not> dc_max_frame_bytes ?cfg < int (length line)" "v = Inr (True, conn, out)"
      by (metis (full_types) obj_sumE prod_cases3)
    then show ?thesis
    proof cases
      case big
      then show ?thesis using Some p fail_session_closed [of dm _ _ "sn\<lparr>sn_buffer := rest\<rparr>"] closing
        by (subst (1 2 3) drain_buffer.simps) (simp add: too_large_def)
    next
      case raised
      then show ?thesis using Some p st hf more session_run_step
        by (subst (1 2 3) drain_buffer.simps) (auto simp: phase_of_def)
    next
      case ended
      then show ?thesis using Some p st hf more session_run_step
        by (subst (1 2 3) drain_buffer.simps) (auto simp: phase_of_def)
    next
      case (going conn out)
      let ?sn = "sn\<lparr>sn_conn := conn, sn_sent := sn_sent sn @ out, sn_state := s1\<rparr>"
      have eq: "drain_buffer dm (logged handler) buffer sn = drain_buffer dm (logged handler) rest ?sn"
        using going Some p st hf by (subst drain_buffer.simps) simp
      have "(v, s1) = handle_frame dm (logged handler) line (sn_conn sn) (sn_state sn)" using hf st by simp
      note IH = 1(1) [OF Some p [symmetric] going(1) this going(2) refl refl refl]
      have "sn_open ?sn" using 1(2) by simp
      then obtain more' where more': "snd (sn_state (drain_buffer dm (logged handler) rest ?sn)) = snd (sn_state ?sn) @ more'"
          "session_run ?cfg (session_phase ?sn) more' (session_phase (drain_buffer dm (logged handler) rest ?sn))"
        using IH by blast
      have "session_run ?cfg (session_phase sn) (more @ more') (session_phase (drain_buffer dm (logged handler) rest ?sn))"
        using session_run.more [OF more(2)] more'(2) going(2) 1(2) by (simp add: phase_of_def)
      then show ?thesis unfolding eq using more(1) more'(1) st by auto
    qed
  qed
qed

lemma serve_client_run:
  "\<exists>more. snd (sn_state (serve_client dm (logged handler) evs sn)) = snd (sn_state sn) @ more
    \<and> session_run (dm_config dm) (session_phase sn) more (session_phase (serve_client dm (logged handler) evs sn))"
  unfolding serve_client_def
proof (induction evs arbitrary: sn)
  case Nil
  then show ?case by (auto intro: session_run.stop)
next
  case (Cons ev evs)
  let ?sn = "receive_step dm (logged handler) ev sn"
  have closing: "session_run (dm_config dm) (session_phase sn) [] Closed" by (simp add: session_run_step session_step.close)
  obtain more where more: "snd (sn_state ?sn) = snd (sn_state sn) @ more"
      "session_run (dm_config dm) (session_phase sn) more (session_phase ?sn)"
  proof (cases "sn_open sn")
    case False
    then show thesis using that [of "[]"] session_run.stop by (simp add: receive_step_def)
  next
    case True
    show thesis
    proof (cases ev)
      case (Chunk bs)
      show thesis
      proof (cases "bs = []")
        case True
        then show thesis using that [of "[]"] Chunk \<open>sn_open sn\<close> closing by (simp add: receive_step_def phase_of_def)
      next
        case False
        then show thesis
          using that drain_buffer_run [OF \<open>sn_open sn\<close>, of dm handler "sn_buffer sn @ bs"] Chunk \<open>sn_open sn\<close>
          by (auto simp: receive_step_def)
      qed
    next
      case TimedOut
      then show thesis
        using that [of "[]"] True closing fail_session_closed [of dm "''request_timeout''" "''request timed out''" sn]
        by (simp add: receive_step_def)
    next
      case Gone
      then show thesis using that [of "[]"] True closing by (simp add: receive_step_def phase_of_def)
    qed
  qed
  obtain more' where "snd (sn_state (fold (receive_step dm (logged handler)) evs ?sn)) = snd (sn_state ?sn) @ more'"
      "session_run (dm_config dm) (session_phase ?sn) more' (session_phase (fold (receive_step dm (logged handler)) evs ?sn))"
    using Cons.IH by blast
  then show ?case using more session_run_trans [OF more(2)] by auto
qed

text \<open>C12: Refinement of the session contract. Whatever bytes, timeouts and closures a connection meets, the
  calls it makes of the request handler are a run of the abstract session from its phase to its
  phase afterwards.\<close>

theorem serve_client_refines:
  "\<exists>calls. snd (sn_state (serve_client dm (logged handler) evs sn)) = snd (sn_state sn) @ calls
    \<and> session_run (dm_config dm) (session_phase sn) calls (session_phase (serve_client dm (logged handler) evs sn))"
  by (rule serve_client_run)


section \<open>Chunks\<close>

text \<open>A session as its peer sees it: what is left in the buffer of a closed one is not observable.\<close>

definition observable :: "'s session \<Rightarrow> 's session" where
  "observable sn = (if sn_open sn then sn else sn\<lparr>sn_buffer := []\<rparr>)"

lemma cut_line_append:
  "cut_line (xs @ ys) = (case cut_line xs of
     Some (line, rest) \<Rightarrow> Some (line, rest @ ys) | None \<Rightarrow> map_option (map_prod ((@) xs) id) (cut_line ys))"
  by (induction xs) (cases "cut_line ys"; auto split: option.splits)+

lemma fail_session_buffer:
  "observable (fail_session dm code message (sn\<lparr>sn_buffer := b\<rparr>)) = observable (fail_session dm code message sn)"
  by (auto simp: fail_session_def observable_def split: sum.splits)

lemma fail_session_not_open: "\<not> sn_open (fail_session dm code message sn)"
  by (auto simp: fail_session_def split: sum.splits)

lemma drain_buffer_overwrites:
  "drain_buffer dm handler buffer (sn\<lparr>sn_buffer := b\<rparr>) = drain_buffer dm handler buffer sn"
proof (induction dm handler buffer sn arbitrary: b rule: drain_buffer.induct)
  case (1 dm handler buffer sn)
  show ?case
  proof (cases "cut_line buffer")
    case None
    then show ?thesis by (subst (1 2) drain_buffer.simps) simp
  next
    case (Some p)
    obtain line rest where p: "p = (line, rest)" by (cases p)
    obtain v s1 where hf: "handle_frame dm handler line (sn_conn sn) (sn_state sn) = (v, s1)"
      by (cases "handle_frame dm handler line (sn_conn sn) (sn_state sn)")
    show ?thesis
    proof (cases "\<exists>conn out. v = Inr (True, conn, out) \<and> \<not> dc_max_frame_bytes (dm_config dm) < int (length line)")
      case True
      then obtain conn out where v: "v = Inr (True, conn, out)" and len: "\<not> dc_max_frame_bytes (dm_config dm) < int (length line)"
        by blast
      have order: "sn\<lparr>sn_conn := conn, sn_sent := sn_sent sn @ out, sn_state := s1, sn_buffer := b\<rparr>
          = sn\<lparr>sn_buffer := b, sn_conn := conn, sn_sent := sn_sent sn @ out, sn_state := s1\<rparr>"
        by (cases sn) simp
      have IH: "drain_buffer dm handler rest (sn\<lparr>sn_buffer := b, sn_conn := conn, sn_sent := sn_sent sn @ out, sn_state := s1\<rparr>)
          = drain_buffer dm handler rest (sn\<lparr>sn_conn := conn, sn_sent := sn_sent sn @ out, sn_state := s1\<rparr>)"
        unfolding order [symmetric] by (rule 1 [OF Some p [symmetric] len hf [symmetric] v refl refl refl]) simp
      show ?thesis using Some p hf v len IH by (subst (1 2) drain_buffer.simps) simp
    next
      case False
      then show ?thesis using Some p hf
        by (subst (1 2) drain_buffer.simps) (auto split: sum.splits prod.splits)
    qed
  qed
qed

lemma drain_buffer_append:
  assumes "sn_open sn"
  shows "observable (drain_buffer dm handler (buffer @ bs) sn)
    = observable (let sn1 = drain_buffer dm handler buffer sn
                  in if sn_open sn1 then drain_buffer dm handler (sn_buffer sn1 @ bs) sn1 else sn1)"
  using assms
proof (induction dm handler buffer sn rule: drain_buffer.induct)
  case (1 dm handler buffer sn)
  let ?max = "dc_max_frame_bytes (dm_config dm)"
  show ?case
  proof (cases "cut_line buffer")
    case None
    show ?thesis
    proof (cases "?max < int (length buffer)")
      case False
      then have "drain_buffer dm handler buffer sn = sn\<lparr>sn_buffer := buffer\<rparr>"
        using None by (subst drain_buffer.simps) simp
      then show ?thesis using 1(2) by (simp add: drain_buffer_overwrites)
    next
      case True
      then have left: "drain_buffer dm handler buffer sn = too_large dm (sn\<lparr>sn_buffer := buffer\<rparr>)"
        using None by (subst drain_buffer.simps) simp
      have "\<exists>b. drain_buffer dm handler (buffer @ bs) sn = too_large dm (sn\<lparr>sn_buffer := b\<rparr>)"
        using None True cut_line_append [of buffer bs]
        by (subst drain_buffer.simps) (auto split: option.splits)
      then show ?thesis unfolding left
        by (auto simp: too_large_def fail_session_not_open fail_session_buffer)
    qed
  next
    case (Some p)
    obtain line rest where p: "p = (line, rest)" by (cases p)
    have both: "cut_line (buffer @ bs) = Some (line, rest @ bs)" using Some p by (simp add: cut_line_append)
    obtain v s1 where hf: "handle_frame dm handler line (sn_conn sn) (sn_state sn) = (v, s1)"
      by (cases "handle_frame dm handler line (sn_conn sn) (sn_state sn)")
    consider (big) "?max < int (length line)"
      | (ended) "\<not> ?max < int (length line)" "\<nexists>conn out. v = Inr (True, conn, out)"
      | (going) conn out where "\<not> ?max < int (length line)" "v = Inr (True, conn, out)"
      by blast
    then show ?thesis
    proof cases
      case big
      then have "drain_buffer dm handler (buffer @ bs) sn = too_large dm (sn\<lparr>sn_buffer := rest @ bs\<rparr>)"
          "drain_buffer dm handler buffer sn = too_large dm (sn\<lparr>sn_buffer := rest\<rparr>)"
        using both Some p by (subst drain_buffer.simps; simp)+
      then show ?thesis by (simp add: too_large_def fail_session_not_open fail_session_buffer)
    next
      case ended
      have "\<exists>f. drain_buffer dm handler (buffer @ bs) sn = f\<lparr>sn_buffer := rest @ bs, sn_open := False\<rparr>
          \<and> drain_buffer dm handler buffer sn = f\<lparr>sn_buffer := rest, sn_open := False\<rparr>"
      proof (cases v)
        case (Inl e)
        then show ?thesis using both Some p hf ended
          by (intro exI [of _ "sn\<lparr>sn_raised := Some e, sn_state := s1\<rparr>"]) (subst (1 2) drain_buffer.simps, cases sn, simp)
      next
        case (Inr w)
        then obtain conn out where "v = Inr (False, conn, out)" using ended by (cases w) auto
        then show ?thesis using both Some p hf ended
          by (intro exI [of _ "sn\<lparr>sn_conn := conn, sn_sent := sn_sent sn @ out, sn_state := s1\<rparr>"])
            (subst (1 2) drain_buffer.simps, simp)
      qed
      then show ?thesis by (auto simp: observable_def)
    next
      case (going conn out)
      let ?sn = "sn\<lparr>sn_conn := conn, sn_sent := sn_sent sn @ out, sn_state := s1\<rparr>"
      have "drain_buffer dm handler (buffer @ bs) sn = drain_buffer dm handler (rest @ bs) ?sn"
          "drain_buffer dm handler buffer sn = drain_buffer dm handler rest ?sn"
        using going both Some p hf by (subst drain_buffer.simps; simp)+
      moreover have "sn_open ?sn" using 1(2) by simp
      ultimately show ?thesis
        using 1(1) [OF Some p [symmetric] going(1) hf [symmetric] going(2) refl refl refl] by simp
    qed
  qed
qed

lemma receive_step_observable:
  "observable x = observable y \<Longrightarrow> observable (receive_step dm handler ev x) = observable (receive_step dm handler ev y)"
proof -
  assume eq: "observable x = observable y"
  have same: "sn_open (observable z) = sn_open z" for z :: "'a session" by (simp add: observable_def)
  have "sn_open x = sn_open y" using same [of x] same [of y] eq by simp
  then show ?thesis using eq by (cases "sn_open x") (simp_all add: observable_def receive_step_def)
qed

lemma serve_observable:
  "observable x = observable y \<Longrightarrow> observable (serve_client dm handler evs x) = observable (serve_client dm handler evs y)"
  unfolding serve_client_def
proof (induction evs arbitrary: x y)
  case (Cons ev evs)
  from Cons.IH [OF receive_step_observable [OF Cons.prems]] show ?case by simp
qed simp

text \<open>C29: Framing does not depend on how the stream is cut. Receiving two pieces one after the other or
  glued together gives the same frames, the same calls of the handler, the same replies and the same
  end of the connection.\<close>

theorem serve_chunks_glued:
  assumes "a \<noteq> []" and "b \<noteq> []"
  shows "observable (serve_client dm handler (Chunk (a @ b) # evs) sn)
       = observable (serve_client dm handler (Chunk a # Chunk b # evs) sn)"
proof (cases "sn_open sn")
  case False
  then show ?thesis by (simp add: serve_client_def receive_step_def)
next
  case True
  have 1: "receive_step dm handler (Chunk (a @ b)) sn = drain_buffer dm handler ((sn_buffer sn @ a) @ b) sn"
    using True assms by (simp add: receive_step_def)
  have 2: "receive_step dm handler (Chunk a) sn = drain_buffer dm handler (sn_buffer sn @ a) sn"
    using True assms by (simp add: receive_step_def)
  have 3: "receive_step dm handler (Chunk b) x = (if sn_open x then drain_buffer dm handler (sn_buffer x @ b) x else x)" for x
    using assms by (simp add: receive_step_def)
  have "observable (receive_step dm handler (Chunk (a @ b)) sn)
      = observable (receive_step dm handler (Chunk b) (receive_step dm handler (Chunk a) sn))"
    unfolding 1 2 3 drain_buffer_append [OF True, of dm handler "sn_buffer sn @ a" b] Let_def ..
  from serve_observable [OF this] show ?thesis by (simp add: serve_client_def)
qed

section \<open>A run\<close>

definition demo_config :: daemon_config where
  "demo_config = \<lparr>dc_server_version = ''1.0'', dc_schema_version = 1, dc_server_capabilities = [''memory.search''],
     dc_max_frame_bytes = 2048, dc_client_timeout = 5, dc_shutdown_timeout = 5, dc_backlog = 16\<rparr>"

definition demo_daemon :: daemon where
  "demo_daemon = \<lparr>dm_config = demo_config, dm_float_repr = demo_float_text, dm_sock = (\<lambda>raw. True), dm_health_hook = None\<rparr>"

definition demo_client :: client_context where
  "demo_client = \<lparr>px_client_id = ''c'', px_surface = ''s'', px_agent_id = ''a'', px_session_id = ''i'',
     px_parent_agent_id = None, px_project_root = None, px_repository = None, px_branch = None,
     px_commit_sha = None, px_access_scopes = [''work'']\<rparr>"

definition demo_handshake :: handshake where
  "demo_handshake = \<lparr>hs_context = demo_client, hs_capabilities = [''memory.search''],
     hs_protocol = current_protocol, hs_schema_version = 1\<rparr>"

definition echo_handler :: "unit handler" where
  "echo_handler ctx r s = (Inr (JStr (rq_method r)), s)"

lemma demo_negotiated:
  "case negotiate demo_config demo_handshake of
     Inr (r, Some c) \<Rightarrow> hr_accepted r \<and> agreed demo_config c \<and> allowed c demo_request | _ \<Rightarrow> False"
  unfolding agreed_def allowed_def by code_simp

theorem serve_chunks_glued_witness:
  "observable (serve_client demo_daemon echo_handler [Chunk ([123] @ [10])] (fresh_session ()))
     = observable (serve_client demo_daemon echo_handler [Chunk [123], Chunk [10]] (fresh_session ()))"
  using serve_chunks_glued [of "[123]" "[10]" demo_daemon echo_handler "[]" "fresh_session ()"] by simp

text \<open>
  A frame whose type is an array ends the connection's thread with a \<open>TypeError\<close> and without the
  \<open>invalid_frame\<close> reply that every other malformed frame gets.
\<close>

lemma array_type_unanswered:
  "let line = utf8_encode (json_dumps demo_float_text canonical_unicode (JObj [(''type'', JArr [])])) @ [10];
       sn = serve_client demo_daemon echo_handler [Chunk line] (fresh_session ())
   in sn_raised sn = Some (TypeError ''unhashable type: list'') \<and> sn_sent sn = []"
  by code_simp

lemma malformed_answered:
  "let sn = serve_client demo_daemon echo_handler [Chunk [123, 10]] (fresh_session ())
   in sn_raised sn = None \<and> length (sn_sent sn) = 1 \<and> \<not> sn_open sn"
  by code_simp

end
