(* ===== verification/Service_Guarantees.thy ===== *)
theory Service_Guarantees
  imports Service Projection_Guarantees Context_Guarantees Connection_Guarantees Write_Invariant
begin

text \<open>
  What the request service promises: replies fit their caps, reads stay in the authorised scopes and
  change nothing, a failed resolution or enqueue leaves no trace, and every request keeps the slot
  invariant; with the connection loop, so does every byte stream a client can send.
\<close>

section \<open>Replies fit their caps\<close>

definition repr_lib :: "(rat \<Rightarrow> string) \<Rightarrow> projection_lib" where
  "repr_lib fr = \<lparr>pl_float_repr = fr, pl_julianday = (\<lambda>_. None), pl_fromisoformat = (\<lambda>_. None),
     pl_utc_isoformat = (\<lambda>_. None)\<rparr>"

lemma serialized_chars_eq:
  "serialized_chars fr r = int (json_chars (repr_lib fr) (JObj (map (map_prod id show_ellipsis) r)))"
  by (simp add: serialized_chars_def json_chars_def repr_lib_def)

lemma key_sizes:
  "key_chars ''facts'' = 8" "key_chars ''retrieval'' = 12" "key_chars ''output_truncated'' = 19"
  "key_chars ''markdown'' = 11" "key_chars ''abstained'' = 12" "key_chars ''token_estimate'' = 17"
  "key_chars ''omitted_fact_count'' = 21" "key_chars ''unsafe_fact_count'' = 20"
  "key_chars ''method'' = 9" "key_chars ''budget'' = 9" "key_chars ''used'' = 7"
  by code_simp+

lemma json_chars_empty: "json_chars lib (JArr []) = 2" "json_chars lib (JObj []) = 2" "json_chars lib (JStr []) = 2"
  by (simp add: json_chars_JArr, simp add: json_chars_JObj, simp add: json_chars_def json_str_def)

lemma empty_search_fits:
  "serialized_chars fr (search_response [] [(''output_truncated'', JBool True)] t) \<le> 512"
  using json_chars_JBool [of "repr_lib fr" t] json_chars_JBool [of "repr_lib fr" True]
  by (simp add: serialized_chars_eq search_response_def json_chars_JObj json_chars_empty key_sizes)

lemma pop_facts_fits:
  assumes "pop_facts fr cap fs0 retrieval t0 = (fs, t)" and "fs \<noteq> []"
  shows "serialized_chars fr (search_response fs retrieval t) \<le> cap"
  using assms
  by (induction fr cap fs0 retrieval t0 rule: pop_facts.induct)
    (subst (asm) (2) pop_facts.simps, auto split: if_splits)

lemma bounded_search_fits:
  assumes "512 \<le> cap"
  shows "serialized_chars fr (bounded_search_response fr cap fs retrieval t) \<le> cap"
proof -
  obtain fs' t' where p: "pop_facts fr cap fs retrieval t = (fs', t')" by fastforce
  show ?thesis
  proof (cases "fs' = []")
    case True
    then show ?thesis
      using p assms empty_search_fits [of fr t'] by (auto simp: bounded_search_response_def Let_def)
  next
    case False
    then show ?thesis
      using p pop_facts_fits [OF p False] by (auto simp: bounded_search_response_def Let_def)
  qed
qed

lemma pop_facts_prefix: "prefix (fst (pop_facts fr cap fs retrieval t)) fs"
proof (induction fr cap fs retrieval t rule: pop_facts.induct)
  case (1 fr cap fs retrieval t)
  then show ?case
    by (subst pop_facts.simps) (auto intro: prefix_order.trans prefixeq_butlast)
qed

lemma nat_str_width: "n < 10 ^ Suc k \<Longrightarrow> length (nat_str n) \<le> Suc k"
proof (induction k arbitrary: n)
  case (Suc k)
  have "n div 10 < 10 ^ Suc k" using Suc.prems by (simp add: less_mult_imp_div_less)
  from Suc.IH [OF this] show ?case by (subst nat_str.simps) simp
qed (subst nat_str.simps, simp)

lemma json_chars_small_int: "0 \<le> i \<Longrightarrow> i < 10000 \<Longrightarrow> json_chars lib (JInt i) \<le> 4"
  using nat_str_width [of "nat i" 3] by (simp add: json_chars_def int_str_def)

text \<open>The pack of no candidate at all.\<close>

lemma mmr_select_Nil: "mmr_select fl [] mf lam = []"
  by (auto simp: mmr_select_def mmr_loop.simps split: option.splits)

lemma empty_pack:
  assumes "pack_context fl [] (JInt budget) mfc mf lam = Inr p"
  shows "cp_markdown p = []" "cp_facts p = []" "cp_token_budget p = budget" "cp_token_estimate p = 0"
    "cp_omitted p = 0" "cp_unsafe p = 0" "0 < budget"
  using assms
  by (auto simp: pack_context_def Let_def pack_start_def pack_result_def mmr_select_Nil
      split: if_splits option.splits)

lemma empty_pack_fits:
  assumes "pack_context fl [] (JInt budget) mfc mf lam = Inr p" and "budget \<le> 4096"
  shows "serialized_chars fr (context_response p [(''output_truncated'', JBool True)] t) \<le> 512"
proof -
  note p = empty_pack [OF assms(1)]
  have m: "json_chars lib (JStr ''unicode_chars_divided_by_four'') = 31" for lib
    by (simp add: json_chars_def json_str_def json_escape_code plain_ascii_def)
  have e: "show_ellipsis (JStr ''unicode_chars_divided_by_four'') = JStr ''unicode_chars_divided_by_four''"
    "show_ellipsis (JStr []) = JStr []"
    by code_simp+
  show ?thesis
    using json_chars_JBool [of "repr_lib fr" t] json_chars_JBool [of "repr_lib fr" True]
      json_chars_JBool [of "repr_lib fr" "cp_abstained p"] json_chars_small_int [of 0 "repr_lib fr"]
      json_chars_small_int [of budget "repr_lib fr"] assms(2) p(7)
    by (simp add: serialized_chars_eq context_response_def as_dict_def p json_chars_JObj json_chars_empty key_sizes
        m e del: show_ellipsis.simps(5))
qed

lemma context_loop_fits:
  assumes "512 \<le> ob_context_max_total_chars (sv_bounds env)" and "budget \<le> 4096"
    and "context_loop env budget metadata candidates t = Inr r"
  shows "serialized_chars (rt_float_repr (we_runtime (sv_write env))) r \<le> ob_context_max_total_chars (sv_bounds env)"
  using assms
proof (induction env budget metadata candidates t rule: context_loop.induct)
  case (1 env budget metadata candidates t)
  let ?fr = "rt_float_repr (we_runtime (sv_write env))"
  from 1(4) obtain p where p: "service_pack env budget candidates = Inr p"
    by (subst (asm) context_loop.simps) (auto simp: Let_def split: sum.splits)
  let ?r = "context_response p metadata (t \<or> pack_truncated p)"
  show ?case
  proof (cases "serialized_chars ?fr ?r \<le> ob_context_max_total_chars (sv_bounds env)")
    case True
    then show ?thesis using 1(4) p by (subst (asm) context_loop.simps) (auto simp: Let_def)
  next
    case False
    show ?thesis
    proof (cases "candidates = []")
      case True
      then have "serialized_chars ?fr (context_response p [(''output_truncated'', JBool True)] t') \<le> 512" for t'
        using empty_pack_fits [of "sv_float env" budget _ _ _ p] p 1(3) by (simp add: service_pack_def)
      then have "serialized_chars ?fr (context_response p [(''output_truncated'', JBool True)] (t \<or> pack_truncated p))
          \<le> ob_context_max_total_chars (sv_bounds env)"
        using 1(2) order_trans by blast
      then show ?thesis using 1(4) p False True by (subst (asm) context_loop.simps) (auto simp: Let_def)
    next
      case False': False
      have "context_loop env budget metadata (butlast candidates) True = Inr r"
        using 1(4) p False False' by (subst (asm) context_loop.simps) (auto simp: Let_def)
      then show ?thesis using 1(1) [OF refl refl p refl refl False False' 1(2,3)] by blast
    qed
  qed
qed

text \<open>C23: under validated output bounds every search reply and every context reply is at most as many
  characters as its cap, whatever the retriever returns.\<close>

theorem replies_within_caps:
  assumes "output_bounds_init (sv_bounds env) = Inr b"
  shows "(service_search env ctx params d = Inr r \<longrightarrow>
       serialized_chars (rt_float_repr (we_runtime (sv_write env))) r \<le> ob_search_max_total_chars (sv_bounds env))
    \<and> (service_context env ctx params d = Inr r \<longrightarrow>
       serialized_chars (rt_float_repr (we_runtime (sv_write env))) r \<le> ob_context_max_total_chars (sv_bounds env))"
proof (intro conjI impI)
  have caps: "512 \<le> ob_search_max_total_chars (sv_bounds env)" "512 \<le> ob_context_max_total_chars (sv_bounds env)"
    using assms by (auto simp: output_bounds_init_def rbind_eq_Inr)
  assume "service_search env ctx params d = Inr r"
  then show "serialized_chars (rt_float_repr (we_runtime (sv_write env))) r \<le> ob_search_max_total_chars (sv_bounds env)"
    using bounded_search_fits [OF caps(1)] by (auto simp: service_search_def rbind_eq_Inr Let_def)
next
  have caps: "512 \<le> ob_context_max_total_chars (sv_bounds env)"
    using assms by (auto simp: output_bounds_init_def rbind_eq_Inr)
  assume "service_context env ctx params d = Inr r"
  then obtain budget metadata cs t where "param_token_budget (dict_get params ''token_budget'') = Inr budget"
    and run: "context_loop env budget metadata cs t = Inr r"
    by (auto simp: service_context_def rbind_eq_Inr Let_def)
  then have "budget \<le> 4096" by (auto simp: param_token_budget_def invalid_def split: json.splits if_splits)
  then show "serialized_chars (rt_float_repr (we_runtime (sv_write env))) r \<le> ob_context_max_total_chars (sv_bounds env)"
    using context_loop_fits [OF caps _ run] by blast
qed

section \<open>Every request keeps the slot invariant\<close>

lemma state_candidate_init_idem:
  assumes "state_candidate_init rt c = Inr c'"
  shows "state_candidate_init rt c' = Inr c'"
proof -
  have "py_required v n = Inr v" if "py_required u n = Inr v" for u v n
    using py_required_Inr [OF that] by (auto simp: py_required_def Let_def)
  then show ?thesis
    using assms by (auto simp: state_candidate_init_def rbind_eq_Inr)
qed

lemma service_state_candidate_valid:
  "service_state_candidate rt w v = Inr c \<Longrightarrow> valid_candidate rt c"
  by (auto simp: service_state_candidate_def valid_candidate_def rbind_eq_Inr invalid_def
      dest: state_candidate_init_idem split: json.splits)

text \<open>The oracles of a request: a fresh conflict id and an outbox that writes jobs only.\<close>

definition env_ok :: "'v service_env \<Rightarrow> bool" where
  "env_ok env \<longleftrightarrow> we_conflict_id (sv_write env) \<noteq> [] \<and> outbox_ok (sv_write env)"

lemma service_write_inv:
  assumes "env_ok env" and "slot_inv d"
  shows "slot_inv (snd (service_write env ctx params d))"
proof -
  have "slot_inv (snd (memory_write (sv_write env) (service_fact_writer (we_clock (sv_write env))) ctx w c d))"
    if "service_state_candidate (we_runtime (sv_write env)) w v = Inr c" for w c v
    by (rule svc.memory_write_inv [OF assms(2)])
      (use assms(1) service_state_candidate_valid [OF that] in \<open>simp_all add: env_ok_def\<close>)
  then show ?thesis
    using assms(2)
    by (fastforce simp: service_write_def Let_def rbind_eq_Inr split: sum.splits prod.splits option.splits)
qed

lemma resolve_txn_inv:
  assumes "outbox_ok we" and inv: "slot_inv d" and "resolve_txn we ctx cid rid reason d = Inr (r, d')"
  shows "slot_inv d'"
proof -
  from assms(3) obtain d1 d2 x d3 where d1: "register_client ctx (we_now we) d = Inr d1"
    and d2: "register_session (we_runtime we) ctx (we_now we) d1 = Inr d2"
    and d3: "resolve_state_conflict (we_runtime we) (we_now we) cid rid (cc_agent_id ctx) reason (Some (we_now we))
                   (Some (cc_client_id ctx)) (Some (cc_session_id ctx)) (Some (cc_agent_id ctx)) d2 = Inr (x, d3)"
    and d': "(case we_embedding_enqueue we of None \<Rightarrow> Inr d3 | Some enq \<Rightarrow> enq rid d3) = Inr d'"
    by (auto simp: resolve_txn_def Let_def rbind_eq_Inr not_found_def split: option.splits)
  have "slot_inv d2"
    using inv same_slots_inv [OF register_client_frame [OF d1]] same_slots_inv [OF register_session_frame [OF d2]]
    by simp
  then have "slot_inv d3" using d3 by (rule resolve_state_conflict_inv)
  moreover have "same_slots d3 d'"
    using d' assms(1) embedding_outbox.same_slots by (fastforce simp: outbox_ok_def split: option.splits)
  ultimately show ?thesis by (simp add: same_slots_inv)
qed

lemma service_resolve_inv:
  assumes "env_ok env" and "slot_inv d"
  shows "slot_inv (snd (service_resolve_conflict env ctx params d))"
  using resolve_txn_inv [of "sv_write env" d ctx] assms
  by (auto simp: service_resolve_conflict_def env_ok_def split: sum.splits)

lemma enqueue_after_commit_slots:
  "enqueue_after_commit rt now b ctx tr src sc m d = Inr (r, d') \<Longrightarrow> same_slots d d'"
  by (auto simp: enqueue_after_commit_def insert_queue_row_def store_queue_def same_slots_def Let_def rbind_eq_Inr
      split: if_splits option.splits)

text \<open>A property of whatever value a computation returns.\<close>

definition res_all :: "('a \<Rightarrow> bool) \<Rightarrow> 'a res \<Rightarrow> bool" where
  "res_all P r = (case r of Inl e \<Rightarrow> True | Inr x \<Rightarrow> P x)"

lemma res_all_simps [simp]: "res_all P (Inl e)" "res_all P (Inr x) = P x"
  by (simp_all add: res_all_def)

lemma res_all_rbind: "(\<And>x. a = Inr x \<Longrightarrow> res_all P (k x)) \<Longrightarrow> res_all P (rbind a k)"
  by (cases a) simp_all

lemma enqueue_extraction_slots:
  "enqueue_extraction env ctx params d = Inr (r, d') \<Longrightarrow> same_slots d d'"
proof -
  have "res_all (\<lambda>(r, d'). same_slots d d') (enqueue_extraction env ctx params d)"
    unfolding enqueue_extraction_def Let_def
    by (rule res_all_rbind,
        auto intro!: res_all_rbind split: option.split if_split json.split,
        erule enqueue_after_commit_slots)
  then show "enqueue_extraction env ctx params d = Inr (r, d') \<Longrightarrow> same_slots d d'" by simp
qed

lemma service_enqueue_inv:
  "slot_inv d \<Longrightarrow> slot_inv (snd (service_enqueue_extraction env ctx params d))"
  using enqueue_extraction_slots [of env ctx params d]
  by (auto simp: service_enqueue_extraction_def same_slots_inv split: sum.splits)

lemma write_routes:
  assumes "map_of (routes env) m = Some (WriteRoute f)"
  shows "f \<in> {service_write env, service_resolve_conflict env, service_enqueue_extraction env}"
  using assms by (auto simp: routes_def split: if_splits)

lemma handle_inv:
  assumes "env_ok env" and "slot_inv d"
  shows "slot_inv (snd (handle env c r d))"
proof (cases "admit_request env c r")
  case (Inr p)
  obtain ctx rt where p: "p = (ctx, rt)" by (cases p)
  show ?thesis
  proof (cases rt)
    case (WriteRoute f)
    then have "f \<in> {service_write env, service_resolve_conflict env, service_enqueue_extraction env}"
      using Inr p write_routes [of env "rq_method r" f]
      by (auto simp: admit_request_def rbind_eq_Inr split: option.splits)
    then have "slot_inv (snd (f ctx (rq_params r) d))"
      using service_write_inv [OF assms] service_resolve_inv [OF assms] service_enqueue_inv [OF assms(2)] by auto
    then show ?thesis using Inr p WriteRoute by (cases "f ctx (rq_params r) d") (simp add: handle_def)
  qed (use Inr p assms in \<open>simp add: handle_def\<close>)
qed (use assms in \<open>simp add: handle_def\<close>)

section \<open>The service behind a connection\<close>

text \<open>An invariant of the handler's state that every call keeps is kept by the whole connection loop,
  whatever bytes the client sends.\<close>

locale handler_invariant =
  fixes handler :: "'s handler" and I :: "'s \<Rightarrow> bool"
  assumes keeps: "I s \<Longrightarrow> I (snd (handler c r s))"
begin

lemma handle_frame_keeps: "I s \<Longrightarrow> I (snd (handle_frame dm handler raw conn s))"
  using keeps by (auto simp: handle_frame_def call_handler_def split: admission.split prod.split)
    (metis snd_conv)

lemma fail_session_keeps: "I (sn_state sn) \<Longrightarrow> I (sn_state (fail_session dm code m sn))"
  by (auto simp: fail_session_def split: sum.split)

lemma drain_buffer_keeps: "I (sn_state sn) \<Longrightarrow> I (sn_state (drain_buffer dm handler buffer sn))"
proof (induction "length buffer" arbitrary: buffer sn rule: less_induct)
  case less
  show ?case
  proof (cases "cut_line buffer")
    case None
    then show ?thesis
      using less.prems fail_session_keeps by (subst drain_buffer.simps) (simp add: too_large_def)
  next
    case (Some p)
    obtain line rest where p: "p = (line, rest)" by (cases p)
    obtain v s where h: "handle_frame dm handler line (sn_conn sn) (sn_state sn) = (v, s)" by fastforce
    have s: "I s" using handle_frame_keeps [OF less.prems, of dm line "sn_conn sn"] h by simp
    have "length rest < length buffer" using Some p by (simp add: cut_line_length)
    then have "I (sn_state (drain_buffer dm handler rest (sn\<lparr>sn_conn := c, sn_sent := x, sn_state := s\<rparr>)))" for c x
      using less.hyps s by simp
    then show ?thesis
      using Some p h s less.prems fail_session_keeps
      by (subst drain_buffer.simps) (auto simp: too_large_def Let_def split: sum.split)
  qed
qed

lemma serve_client_keeps: "I (sn_state sn) \<Longrightarrow> I (sn_state (serve_client dm handler evs sn))"
  unfolding serve_client_def
proof (induction evs arbitrary: sn)
  case (Cons ev evs)
  have "I (sn_state (receive_step dm handler ev sn))"
    using Cons.prems fail_session_keeps drain_buffer_keeps by (simp add: receive_step_def split: receive.split)
  then show ?case using Cons.IH by simp
qed simp

end

text \<open>The service as the handler of a connection: request number \<open>n\<close> runs with the clock readings and fresh
  ids of \<open>envs n\<close>.\<close>

definition service_handler :: "(nat \<Rightarrow> 'v service_env) \<Rightarrow> (nat \<times> db) handler" where
  "service_handler envs c r = (\<lambda>(n, d). case handle (envs n) c r d of (v, d') \<Rightarrow> (v, (n + 1, d')))"

definition service_inv :: "(nat \<Rightarrow> 'v service_env) \<Rightarrow> nat \<times> db \<Rightarrow> bool" where
  "service_inv envs = (\<lambda>(n, d). (\<forall>m. env_ok (envs m)) \<and> slot_inv d)"

interpretation served: handler_invariant "service_handler envs" "service_inv envs" for envs
proof
  fix s c r assume "service_inv envs s"
  then show "service_inv envs (snd (service_handler envs c r s))"
    using handle_inv [of "envs (fst s)" "snd s" c r]
    by (cases s) (auto simp: service_inv_def service_handler_def split: prod.split)
qed

text \<open>C2: whatever a client sends over a connection, in whatever chunks and with whatever timeouts, the store
  behind the service keeps the slot invariant: every slot stays empty, settled on one fact, or in one
  open conflict.\<close>

theorem daemon_keeps_slot_inv:
  assumes "slot_inv d" and "\<forall>m. env_ok (envs m)"
  shows "slot_inv (snd (sn_state (serve_client dm (service_handler envs) evs (fresh_session (n, d)))))"
  using served.serve_client_keeps [of envs "fresh_session (n, d)" dm evs] assms
  by (auto simp: service_inv_def fresh_session_def)

section \<open>Failures leave no trace\<close>

lemma service_write_failed:
  assumes "service_write env ctx params d = (Inl e, d')"
  shows "d' = d \<or> e = ValueError ''Expecting value''"
  using assms
  by (auto simp: service_write_def memory_write_def Let_def split: sum.splits prod.splits option.splits)

lemma service_resolve_failed: "service_resolve_conflict env ctx params d = (Inl e, d') \<Longrightarrow> d' = d"
  by (auto simp: service_resolve_conflict_def split: sum.splits)

lemma service_enqueue_failed: "service_enqueue_extraction env ctx params d = (Inl e, d') \<Longrightarrow> d' = d"
  by (auto simp: service_enqueue_extraction_def split: sum.splits)

lemma admit_request_route:
  "admit_request env c r = Inr (ctx, rt) \<Longrightarrow>
     map_of (routes env) (rq_method r) = Some rt \<and> authorize (we_policy (sv_write env)) c = Inr ctx"
  by (auto simp: admit_request_def rbind_eq_Inr split: option.splits)


section \<open>Identity\<close>

primrec object_keys :: "json \<Rightarrow> string set" where
  "object_keys JNull = {}"
| "object_keys (JBool b) = {}"
| "object_keys (JInt i) = {}"
| "object_keys (JNum q) = {}"
| "object_keys (JStr s) = {}"
| "object_keys (JArr vs) = \<Union> (set (map object_keys vs))"
| "object_keys (JObj kvs) = fst ` set kvs \<union> \<Union> (snd ` set (map (map_prod id object_keys) kvs))"

lemma reject_identity_iff:
  "reject_nested_identity path v = Inr () \<longleftrightarrow> object_keys v \<inter> set immutable_context_fields = {}"
  "reject_members path kvs = Inr () \<longleftrightarrow> (\<Union>kv \<in> set kvs. object_keys (snd kv)) \<inter> set immutable_context_fields = {}"
  "reject_items path i vs = Inr () \<longleftrightarrow> (\<Union>w \<in> set vs. object_keys w) \<inter> set immutable_context_fields = {}"
proof (induction path v and path kvs and path i vs rule: reject_nested_identity_reject_members_reject_items.induct)
  case (1 path kvs)
  have sort_Nil: "sort xs = [] \<longleftrightarrow> xs = []" for xs :: "string list"
    by (metis length_0_conv length_sort)
  have "object_keys (JObj kvs) = fst ` set kvs \<union> (\<Union>kv \<in> set kvs. object_keys (snd kv))" by auto
  then show ?case
    using 1 by (auto simp: Let_def invalid_def sort_Nil filter_empty_conv simp del: object_keys.simps(7))
qed (auto simp: rbind_eq_Inr)

text \<open>The performing agent of a write is the connection's, and its parameters carry no identity at any depth.\<close>

lemma service_write_request_performer:
  assumes "service_write_request rt ctx params metadata = Inr w"
  shows "wr_performed_by w = Some (cc_agent_id ctx)"
proof -
  have "res_all (\<lambda>w. wr_performed_by w = Some (cc_agent_id ctx)) (service_write_request rt ctx params metadata)"
    unfolding service_write_request_def write_request_init_def by (intro res_all_rbind) simp
  then show ?thesis using assms by simp
qed

text \<open>C13: a request reaches a handler only when its schema version is supported, no object at any depth of its
  parameters names a field of the connection's identity, and the policy grants the connection at least
  one scope; the handler then sees exactly the granted part of the requested scopes.\<close>

theorem admitted_requests:
  assumes "admit_request env c r = Inr (ctx, rt)"
  shows "rq_schema_version r = supported_schema_version
    \<and> object_keys (JObj (rq_params r)) \<inter> set immutable_context_fields = {}
    \<and> (\<exists>grants. map_of (mp_grants (we_policy (sv_write env))) (py_strip (px_client_id c)) = Some grants
        \<and> set (cc_access_scopes ctx) = set (map py_strip (px_access_scopes c)) \<inter> set grants
        \<and> cc_access_scopes ctx \<noteq> [])"
proof -
  from assms have s: "rq_schema_version r = supported_schema_version"
    and n: "reject_nested_identity ''params'' (JObj (rq_params r)) = Inr ()"
    and a: "authorize (we_policy (sv_write env)) c = Inr ctx"
    by (auto simp: admit_request_def rbind_eq_Inr simp del: reject_nested_identity.simps split: option.splits)
  from a obtain ctx0 where c0: "protocol_context c = Inr ctx0" "authorize_context (we_policy (sv_write env)) ctx0 = Inr ctx"
    by (auto simp: authorize_def rbind_eq_Inr split: sum.splits exc.splits)
  then have "cc_client_id ctx0 = py_strip (px_client_id c)"
    "set (cc_access_scopes ctx0) = set (map py_strip (px_access_scopes c))"
    by (auto simp: protocol_context_def dest: connection_context_init_Inr connection_context_init_scopes)
  then show ?thesis
    using s n c0(2) reject_identity_iff(1) [of "''params''" "JObj (rq_params r)"]
    by (auto elim!: authorize_context_Inr simp del: object_keys.simps)
qed

section \<open>Reads stay in the authorised scopes\<close>

lemma historical_fact_scope: "historical_fact d i scopes = Some f \<Longrightarrow> f_id f = i \<and> f_scope f \<in> set scopes"
  by (auto simp: historical_fact_def dest: first_row_Some)

lemma slot_history_scope: "f \<in> set (slot_history d scopes s p n) \<Longrightarrow> f_scope f \<in> set scopes"
  by (auto simp: slot_history_def dest: in_set_takeD)

lemma requested_scopes_sub: "requested_scopes ctx v = Inr scopes \<Longrightarrow> set scopes \<subseteq> set (cc_access_scopes ctx)"
  by (auto simp: requested_scopes_def rbind_eq_Inr split: if_splits)

text \<open>The rows a reply may show under the scopes \<open>S\<close>.\<close>

definition fact_rows_in :: "string set \<Rightarrow> row set" where
  "fact_rows_in S = {x. \<exists>f. f_scope f \<in> S \<and> (x = fact_row f \<or> full_fact_row f = Inr x)}"

definition evidence_rows_in :: "string set \<Rightarrow> row set" where
  "evidence_rows_in S = {x. \<exists>p ob. o_scope ob \<in> S \<and> evidence_row (p, ob) = Inr x}"

definition conflict_items_in :: "db \<Rightarrow> string set \<Rightarrow> row set" where
  "conflict_items_in d S = {x. \<exists>c. cr_scope c \<in> S \<and> x = conflict_item d (cr_scope c) c}"

lemma service_evidence_scope:
  assumes "service_evidence ctx params d = Inr r"
  shows "\<exists>f ev. r = [(''fact'', JObj f), (''evidence'', JArr (map JObj ev))]
    \<and> f \<in> fact_rows_in (set (cc_access_scopes ctx)) \<and> set ev \<subseteq> evidence_rows_in (set (cc_access_scopes ctx))"
proof -
  from assms obtain i limit f ev where f: "historical_fact d i (cc_access_scopes ctx) = Some f"
    and ev: "map_res evidence_row (take limit (sort_key (\<lambda>(p, ob). (p_created_at p, o_id ob))
       (evidence_join d i (cc_access_scopes ctx)))) = Inr ev"
    and r: "r = [(''fact'', JObj (fact_row f)), (''evidence'', JArr (map JObj ev))]"
    by (auto simp: service_evidence_def rbind_eq_Inr not_found_def split: option.splits)
  have "x \<in> evidence_rows_in (set (cc_access_scopes ctx))" if x: "x \<in> set ev" for x
  proof -
    obtain p ob where "(p, ob) \<in> set (evidence_join d i (cc_access_scopes ctx))" "evidence_row (p, ob) = Inr x"
      using map_res_mem [OF ev x] by (auto dest: in_set_takeD)
    then show ?thesis by (auto simp: evidence_rows_in_def evidence_join_def)
  qed
  then show ?thesis using r historical_fact_scope [OF f] by (auto simp: fact_rows_in_def)
qed

definition history_ok :: "connection_context \<Rightarrow> row \<Rightarrow> bool" where
  "history_ok ctx r \<longleftrightarrow>
     (\<exists>rows. r = facts_response rows \<and> set rows \<subseteq> fact_rows_in (set (cc_access_scopes ctx)))"

lemma slot_history_ok:
  assumes "set scopes \<subseteq> set (cc_access_scopes ctx)"
  shows "history_ok ctx (facts_response (map fact_row (slot_history d scopes s p n)))"
  using assms slot_history_scope [of _ d scopes s p n] unfolding history_ok_def fact_rows_in_def by fastforce

lemma history_by_id_ok: "res_all (history_ok ctx) (history_by_id ctx i limit d)"
proof (cases "historical_fact d i (cc_access_scopes ctx)")
  case (Some anchor)
  have "history_ok ctx (facts_response rows)"
    if m: "map_res full_fact_row (take n (filter (\<lambda>f. f_scope f \<in> set (cc_access_scopes ctx)) fs)) = Inr rows" for n fs rows
  proof -
    have "x \<in> fact_rows_in (set (cc_access_scopes ctx))" if x: "x \<in> set rows" for x
      using map_res_mem [OF m x] by (fastforce simp: fact_rows_in_def dest: in_set_takeD)
    then show ?thesis by (auto simp: history_ok_def)
  qed
  then show ?thesis
    using historical_fact_scope [OF Some] slot_history_ok [of "[f_scope anchor]" ctx]
    by (auto simp: history_by_id_def Some intro: res_all_rbind)
qed (simp add: history_by_id_def not_found_def)

lemma history_by_slot_ok: "res_all (history_ok ctx) (history_by_slot ctx params limit d)"
  unfolding history_by_slot_def invalid_def
  by (auto intro!: res_all_rbind slot_history_ok dest: requested_scopes_sub)

lemma service_history_scope: "res_all (history_ok ctx) (service_history ctx params d)"
  unfolding service_history_def Let_def invalid_def
  by (rule res_all_rbind) (auto intro!: res_all_rbind history_by_id_ok history_by_slot_ok)

lemma scope_conflicts_items:
  assumes "scope_conflicts d u scope = Inr items" and "x \<in> set items" and "py_strip scope = scope"
  shows "x \<in> conflict_items_in d {scope}"
proof -
  from assms(1,2) obtain records c where c: "list_state_conflicts d scope u = Inr records" "c \<in> set records"
    "x = conflict_item d scope c"
    by (auto simp: scope_conflicts_def rbind_eq_Inr)
  then show ?thesis
    using list_state_conflicts_scope [OF c(1,2)] assms(3) by (auto simp: conflict_items_in_def)
qed

lemma service_conflicts_scope:
  assumes "service_conflicts ctx params d = Inr r"
    and st: "\<And>s. s \<in> set (cc_access_scopes ctx) \<Longrightarrow> py_strip s = s"
  shows "\<exists>items. r = [(''conflicts'', JArr (map JObj items))]
    \<and> set items \<subseteq> conflict_items_in d (set (cc_access_scopes ctx))"
proof -
  from assms(1) obtain scopes u per where sc: "requested_scopes ctx (dict_get params ''scope'') = Inr scopes"
    and per: "map_res (scope_conflicts d u) scopes = Inr per"
    and r: "r = [(''conflicts'', JArr (map JObj (concat per)))]"
    by (auto simp: service_conflicts_def rbind_eq_Inr)
  have "x \<in> conflict_items_in d (set (cc_access_scopes ctx))" if x: "x \<in> set items" "items \<in> set per" for x items
  proof -
    obtain scope where s: "scope \<in> set scopes" "scope_conflicts d u scope = Inr items"
      using map_res_mem [OF per x(2)] by blast
    then have in_scope: "scope \<in> set (cc_access_scopes ctx)" using requested_scopes_sub [OF sc] by blast
    from scope_conflicts_items [OF s(2) x(1) st [OF in_scope]] show ?thesis
      using in_scope by (auto simp: conflict_items_in_def)
  qed
  then show ?thesis using r by (auto intro!: exI [of _ "concat per"])
qed

lemma authorize_stripped:
  assumes "authorize mp c = Inr ctx" and "s \<in> set (cc_access_scopes ctx)"
  shows "py_strip s = s"
proof -
  from assms(1) obtain ctx0 where a: "authorize_context mp ctx0 = Inr ctx"
    by (auto simp: authorize_def rbind_eq_Inr split: sum.splits exc.splits)
  then obtain x where "connection_context_init x = Inr ctx" by (rule authorize_context_Inr)
  then show ?thesis using assms(2) connection_context_init_scopes by fastforce
qed


section \<open>Who may resolve a conflict\<close>

text \<open>C15: a conflict is resolved through the service only for a client with the resolution capability, only
  when the conflict is open and in one of the authorised scopes, and only to one of its members; the
  conflict is then closed with that member.\<close>

theorem resolution_needs_authority:
  assumes inv: "slot_inv d" and env: "env_ok env" and ok: "service_resolve_conflict env ctx params d = (Inr r, d')"
  shows "can_resolve_conflicts (we_policy (sv_write env)) (cc_client_id ctx)
    \<and> (\<exists>k rid. k \<in> set (db_conflicts d) \<and> is_open k \<and> k_scope k \<in> set (cc_access_scopes ctx)
        \<and> dict_get params ''resolution_fact_id'' = JInt rid \<and> rid \<in> set (conflict_members d (k_id k))
        \<and> (\<exists>k' \<in> set (db_conflicts d'). k_id k' = k_id k \<and> k_resolution_fact_id k' = Some rid \<and> \<not> is_open k'))"
proof -
  let ?we = "sv_write env"
  from ok obtain cid rid reason where
    auth: "can_resolve_conflicts (we_policy ?we) (cc_client_id ctx)"
    and rid: "param_positive_int (dict_get params ''resolution_fact_id'') ''resolution_fact_id'' = Inr rid"
    and txn: "resolve_txn ?we ctx cid rid reason d = Inr (r, d')"
    by (auto simp: service_resolve_conflict_def rbind_eq_Inr split: sum.splits)
  from txn obtain k d1 d2 x d3 where
    k: "first_row (\<lambda>k. k_id k = cid \<and> k_scope k \<in> set (cc_access_scopes ctx) \<and> k_resolved_at k = None)
         (db_conflicts d) = Some k"
    and d1: "register_client ctx (we_now ?we) d = Inr d1"
    and d2: "register_session (we_runtime ?we) ctx (we_now ?we) d1 = Inr d2"
    and d3: "resolve_state_conflict (we_runtime ?we) (we_now ?we) cid rid (cc_agent_id ctx) reason (Some (we_now ?we))
                   (Some (cc_client_id ctx)) (Some (cc_session_id ctx)) (Some (cc_agent_id ctx)) d2 = Inr (x, d3)"
    and d': "(case we_embedding_enqueue ?we of None \<Rightarrow> Inr d3 | Some enq \<Rightarrow> enq rid d3) = Inr d'"
    by (auto simp: resolve_txn_def Let_def rbind_eq_Inr not_found_def split: option.splits)
  have k': "k \<in> set (db_conflicts d)" "k_id k = cid" "is_open k" "k_scope k \<in> set (cc_access_scopes ctx)"
    using first_row_Some [OF k] by (auto simp: is_open_def)
  have ss: "same_slots d d2"
    using same_slots_trans [OF register_client_frame [OF d1] register_session_frame [OF d2]] .
  have inv2: "slot_inv d2" using inv ss by (simp add: same_slots_inv)
  have confs: "db_conflicts d' = db_conflicts d3"
    using d' env embedding_outbox.same_slots by (fastforce simp: env_ok_def outbox_ok_def same_slots_def split: option.splits)
  have members: "conflict_members d2 cid = conflict_members d cid" "db_conflicts d2 = db_conflicts d"
    using ss by (simp_all add: same_slots_def conflict_members_def)
  have rj: "dict_get params ''resolution_fact_id'' = JInt rid"
    using rid by (auto simp: param_positive_int_def invalid_def split: json.splits if_splits)
  obtain by_whom why stamp where "rid \<in> set (conflict_members d cid)"
    "db_conflicts d3 = db_conflicts (close_conflict cid rid by_whom why stamp d)"
    by (rule resolve_state_conflict_Inr [OF inv2 d3]) (auto simp: members close_conflict_def)
  moreover have "k\<lparr>k_resolved_at := Some stamp, k_resolution_fact_id := Some rid, k_resolved_by := Some by_whom,
      k_resolution_reason := Some why\<rparr> \<in> set (db_conflicts (close_conflict cid rid by_whom why stamp d))"
    using k' by (force simp: close_conflict_def update_where_def is_open_def)
  ultimately have "rid \<in> set (conflict_members d (k_id k))" and
    "\<exists>k' \<in> set (db_conflicts d'). k_id k' = k_id k \<and> k_resolution_fact_id k' = Some rid \<and> \<not> is_open k'"
    using k' confs by (auto simp: is_open_def intro: rev_bexI)
  then show ?thesis using auth k' rj by blast
qed

section \<open>Examples\<close>

definition demo_retriever :: retriever where
  "demo_retriever = \<lparr>rv_search = (\<lambda>q c m n. Inr [fact_row (demo_fact 3 ''likes tea'')]), rv_metadata = [(''mode'', JStr ''demo'')]\<rparr>"

definition demo_service :: "string service_env" where
  "demo_service =
     \<lparr>sv_write = demo_env\<lparr>we_policy := demo_policy\<lparr>mp_conflict_resolution_authorities := [''cli'']\<rparr>\<rparr>,
      sv_bounds = default_output_bounds, sv_retriever = (\<lambda>d s. demo_retriever), sv_enqueuer = Some 0,
      sv_processing_mode = ''deferred'', sv_projection = demo_lib, sv_float = demo_float\<rparr>"

definition demo_peer :: client_context where
  "demo_peer =
     \<lparr>px_client_id = ''cli'', px_surface = ''local'', px_agent_id = ''agent'', px_session_id = ''s1'',
      px_parent_agent_id = None, px_project_root = None, px_repository = None, px_branch = None,
      px_commit_sha = None, px_access_scopes = [''private'', ''work'']\<rparr>"

definition demo_call :: "string \<Rightarrow> row \<Rightarrow> request" where
  "demo_call m ps = \<lparr>rq_request_id = ''r1'', rq_method = m, rq_params = ps, rq_protocol = current_protocol,
     rq_schema_version = 1\<rparr>"

lemma demo_service_ok: "env_ok demo_service"
  by (simp add: env_ok_def demo_service_def demo_env_def outbox_ok_def)

lemma demo_bounds_ok: "output_bounds_init (sv_bounds demo_service) = Inr default_output_bounds"
  by code_simp

definition demo_authorised :: connection_context where
  "demo_authorised = demo_context\<lparr>cc_access_scopes := [''private'']\<rparr>"

lemma demo_authorize: "authorize (we_policy (sv_write demo_service)) demo_peer = Inr demo_authorised"
  by code_simp

lemma demo_history:
  "handle demo_service demo_peer (demo_call ''memory.history'' [(''fact_id'', JInt 3)]) demo_db
    = (rbind (full_fact_row (demo_fact 3 ''likes tea'')) (\<lambda>x. Inr (JObj [(''facts'', JArr [JObj x])])), demo_db)"
  by code_simp

definition is_reply :: "'a res \<Rightarrow> bool" where
  "is_reply r = (case r of Inl e \<Rightarrow> False | Inr x \<Rightarrow> True)"

lemma is_reply_obtain: "is_reply r \<Longrightarrow> \<exists>x. r = Inr x"
  by (cases r) (auto simp: is_reply_def)

lemma demo_search: "is_reply (service_search demo_service demo_authorised [(''query'', JStr ''tea'')] demo_db)"
  by code_simp

theorem replies_within_caps_witness:
  "\<exists>r. service_search demo_service demo_authorised [(''query'', JStr ''tea'')] demo_db = Inr r
    \<and> serialized_chars (rt_float_repr (we_runtime (sv_write demo_service))) r \<le> ob_search_max_total_chars (sv_bounds demo_service)"
  using is_reply_obtain [OF demo_search] replies_within_caps [OF demo_bounds_ok] by blast

theorem daemon_keeps_slot_inv_witness:
  "slot_inv (snd (sn_state (serve_client demo_daemon (service_handler (\<lambda>_. demo_service)) [Chunk [123, 10], Gone]
     (fresh_session (0, demo_db)))))"
  by (rule daemon_keeps_slot_inv) (simp_all add: demo_db_slot_inv demo_service_ok)

lemma demo_unsupported:
  "handle demo_service demo_peer (demo_call ''memory.drop'' []) demo_db
    = (Inl (ServiceRequestError ''unsupported_method'' ''unsupported service method: memory.drop''), demo_db)"
  by code_simp


lemma demo_admitted:
  "admit_request demo_service demo_peer (demo_call ''memory.history'' [(''fact_id'', JInt 3)])
    = Inr (demo_authorised, ReadRoute service_history)"
proof -
  have "reject_nested_identity ''params'' (JObj [(''fact_id'', JInt 3)]) = Inr ()" by code_simp
  then show ?thesis
    by (simp add: admit_request_def demo_authorize demo_call_def guard_res_def supported_schema_version_def routes_def
        del: reject_nested_identity.simps)
qed

theorem admitted_requests_witness:
  "set (cc_access_scopes demo_authorised) \<subseteq> {''private'', ''work''}
    \<and> object_keys (JObj [(''fact_id'', JInt 3)]) \<inter> set immutable_context_fields = {}"
proof -
  have "set (map py_strip (px_access_scopes demo_peer)) = {''private'', ''work''}" by code_simp
  then show ?thesis
    using admitted_requests [OF demo_admitted] by (auto simp: demo_call_def)
qed

lemma demo_resolution:
  "is_reply (fst (service_resolve_conflict demo_service demo_authorised
     [(''conflict_id'', JStr ''c1''), (''resolution_fact_id'', JInt 2), (''reason'', JStr ''newer'')] demo_db))"
  by code_simp

theorem resolution_needs_authority_witness:
  "can_resolve_conflicts (we_policy (sv_write demo_service)) (cc_client_id demo_authorised)"
proof -
  obtain r d' where "service_resolve_conflict demo_service demo_authorised
      [(''conflict_id'', JStr ''c1''), (''resolution_fact_id'', JInt 2), (''reason'', JStr ''newer'')] demo_db = (Inr r, d')"
    using is_reply_obtain [OF demo_resolution] by (metis prod.collapse)
  from resolution_needs_authority [OF demo_db_slot_inv demo_service_ok this] show ?thesis by blast
qed

lemma demo_history_row: "is_reply (full_fact_row (demo_fact 3 ''likes tea''))"
  by code_simp


text \<open>The history of an untyped fact that has a stored \<open>hrr_vector\<close> cannot be replied: the rows of
  \<open>fact_history\<close> hold every column.\<close>

lemma history_with_vector_fails:
  "fst (handle demo_service demo_peer (demo_call ''memory.history'' [(''fact_id'', JInt 3)])
     (demo_db\<lparr>db_facts := [(demo_fact 3 ''likes tea'')\<lparr>f_hrr_vector := Some ''v''\<rparr>]\<rparr>))
   = Inl (TypeError ''bytes are not a JSON value'')"
  by code_simp

end
