(* ===== verification/Extraction_Snapshots.thy ===== *)
theory Extraction_Snapshots
  imports Extraction_Processor Service_Guarantees Json_Roundtrip
begin

text \<open>
  The proposal snapshots of extraction processing: the writes prepared from a snapshot stay within the
  caps of automatic extraction, normalising typed fields is idempotent, and a stored snapshot is read
  back as it was made.
\<close>

section \<open>Bounds\<close>

lemma map_res_length: "map_res f xs = Inr ys \<Longrightarrow> length ys = length xs"
  unfolding map_res_Inr_iff by (rule list_all2_lengthD [symmetric])

lemma snapshot_proposals_bound:
  assumes "snapshot_proposals rt j h = Inr (identity, vs)"
  shows "length vs \<le> max_extracted_memories"
proof -
  have "res_all (\<lambda>x. length (snd x) \<le> max_extracted_memories) (snapshot_proposals rt j h)"
    by (simp add: snapshot_proposals_def bad_snapshot_def permanent_def split: option.split json.split)
  with assms show ?thesis by simp
qed

lemma prepare_snapshot_Inr:
  assumes "prepare_snapshot rt (j, h) job row_id digest = Inr ps"
  obtains identity vs where "snapshot_proposals rt j h = Inr (identity, vs)"
    "map_res (prepare_proposal rt identity h job row_id digest) (enumerate 0 vs) = Inr ps"
  using assms by (auto simp: prepare_snapshot_def rbind_eq_Inr)

lemma prepare_snapshot_bound:
  assumes "prepare_snapshot rt s job row_id digest = Inr ps"
  shows "length ps \<le> max_extracted_memories"
proof -
  obtain j h where "s = (j, h)" by (cases s)
  with assms show ?thesis
    using snapshot_proposals_bound map_res_length by (fastforce elim: prepare_snapshot_Inr)
qed

section \<open>The writes of a snapshot\<close>

text \<open>What automatic extraction may ask of the write service.\<close>

definition typed_confident :: "row \<Rightarrow> bool" where
  "typed_confident metadata \<longleftrightarrow> dict_get metadata ''extracted_kind'' = JStr ''state''
     \<and> (case num_value (dict_get metadata ''extracted_confidence'') of
          None \<Rightarrow> False | Some q \<Rightarrow> min_typed_confidence \<le> q \<and> q \<le> 1)"

definition within_caps :: "extraction_job \<Rightarrow> string \<Rightarrow> string \<Rightarrow> nat \<Rightarrow> row \<Rightarrow> bool" where
  "within_caps job digest h k params \<longleftrightarrow>
     dict_get params ''idempotency_key'' = JStr (extraction_key digest h k)
     \<and> dict_get params ''source_type'' = JStr ''automatic_extraction''
     \<and> dict_get params ''trust_score'' = JNum (1/2) \<and> dict_get params ''source_authority'' = JNum (1/2)
     \<and> dict_get params ''scope'' = JStr (xe_scope job)
     \<and> dict_get params ''observation_content'' = JStr (xe_transcript job)
     \<and> dict_get params ''sensitivity'' \<in> {JStr ''normal'', JStr ''sensitive''}
     \<and> \<not> has_key params ''supersede_fact_id'' \<and> \<not> has_key params ''correction_status''
     \<and> (has_key params ''state'' \<longrightarrow>
          (case dict_get params ''metadata'' of JObj m \<Rightarrow> typed_confident m | _ \<Rightarrow> False))"

lemma typed_confidence_Some:
  "typed_confidence v = Inr (Some q) \<Longrightarrow> num_value v = Some q \<and> min_typed_confidence \<le> q \<and> q \<le> 1"
  by (cases v) (auto simp: typed_confidence_def Let_def split: if_splits)

lemma normalize_typed_Some:
  assumes "normalize_typed_fields rt (JObj r) content = Inr (Some t)"
  obtains q kind negation where "typed_confidence (dict_get r ''confidence'') = Inr (Some q)"
    "dict_get r ''kind'' = JStr kind" "kind \<in> set typed_kinds"
    "dict_get_or r ''negation'' (JBool False) = JBool negation" "typed_of rt r content kind q negation = Some t"
proof -
  from assms obtain known where known: "in_texts (dict_get r ''kind'') typed_kinds = Inr known" "known"
    and rest: "rbind (typed_confidence (dict_get r ''confidence'')) (\<lambda>confidence.
        case (confidence, dict_get r ''kind'', dict_get_or r ''negation'' (JBool False)) of
          (Some q, JStr kind, JBool negation) \<Rightarrow> Inr (typed_of rt r content kind q negation)
        | _ \<Rightarrow> Inr None) = Inr (Some t)"
    by (simp add: normalize_typed_fields_def rbind_eq_Inr split: if_splits)
  from known obtain kind where kind: "dict_get r ''kind'' = JStr kind" "kind \<in> set typed_kinds"
    by (cases "dict_get r ''kind''") (simp_all add: in_texts_def)
  from rest obtain c where c: "typed_confidence (dict_get r ''confidence'') = Inr c"
    and c': "(case (c, JStr kind, dict_get_or r ''negation'' (JBool False)) of
          (Some q, JStr kind, JBool negation) \<Rightarrow> Inr (typed_of rt r content kind q negation)
        | _ \<Rightarrow> Inr None) = (Inr (Some t) :: typed_proposal option res)"
    by (auto simp: rbind_eq_Inr kind)
  show thesis
    by (cases c; cases "dict_get_or r ''negation'' (JBool False)") (use c c' kind that in simp_all)
qed

definition stored_fields :: "row \<Rightarrow> row" where
  "stored_fields value =
     [(''confidence'', dict_get value ''confidence''), (''kind'', dict_get value ''kind''),
      (''negation'', dict_get value ''negation''), (''subject'', dict_get value ''subject_key''),
      (''predicate'', dict_get value ''predicate_key''), (''value'', dict_get value ''object_value''),
      (''valid_from'', dict_get value ''valid_from'')]"

lemma is_normalized_iff:
  "is_normalized_typed_fields rt (JObj t) = Inr True \<longleftrightarrow> fst ` set t = set typed_row_keys
     \<and> (\<exists>x. normalize_typed_fields rt (JObj (stored_fields t)) ''snapshot validation'' = Inr (Some x)
          \<and> list_all (\<lambda>k. py_eq (dict_get (typed_row x) k) (dict_get t k)) typed_row_keys)"
  unfolding is_normalized_typed_fields_def stored_fields_def [symmetric]
  by (auto simp: rbind_eq_Inr split: option.split)

lemma is_normalized_confidence:
  assumes "is_normalized_typed_fields rt (JObj t) = Inr True"
  shows "\<exists>q. num_value (dict_get t ''confidence'') = Some q \<and> min_typed_confidence \<le> q \<and> q \<le> 1"
proof -
  from assms obtain x where
    "normalize_typed_fields rt (JObj (stored_fields t)) ''snapshot validation'' = Inr (Some x)"
    by (auto simp: is_normalized_iff)
  then obtain q where "typed_confidence (dict_get (stored_fields t) ''confidence'') = Inr (Some q)"
    by (rule normalize_typed_Some)
  then show ?thesis by (auto simp: stored_fields_def dict_get_def [of "_ # _"] dest: typed_confidence_Some)
qed

lemma read_proposal_Inr:
  assumes "read_proposal rt v = Inr sp"
  shows "sp_sensitivity sp \<in> {''normal'', ''sensitive''}
    \<and> (\<forall>t. sp_typed sp = Some t \<longrightarrow> is_normalized_typed_fields rt (JObj t) = Inr True)"
proof -
  have typed: "res_all (\<lambda>x. \<forall>t. x = Some t \<longrightarrow> is_normalized_typed_fields rt (JObj t) = Inr True) (stored_typed rt r)" for r
    unfolding stored_typed_def
    by (auto simp: bad_snapshot_def permanent_def intro!: res_all_rbind split: json.split)
  have "res_all (\<lambda>sp. sp_sensitivity sp \<in> {''normal'', ''sensitive''}
    \<and> (\<forall>t. sp_typed sp = Some t \<longrightarrow> is_normalized_typed_fields rt (JObj t) = Inr True)) (read_proposal rt v)"
  proof (cases v)
    case (JObj r)
    have "res_all (\<lambda>sp. sp_sensitivity sp \<in> {''normal'', ''sensitive''}
        \<and> (\<forall>t. sp_typed sp = Some t \<longrightarrow> is_normalized_typed_fields rt (JObj t) = Inr True))
      (rbind (stored_typed rt r) (\<lambda>typed.
         Inr \<lparr>sp_content = content, sp_category = category, sp_tags = tags, sp_excerpt = excerpt,
              sp_sensitivity = sensitivity, sp_typed = typed\<rparr>))"
      if "sensitivity = ''normal'' \<or> sensitivity = ''sensitive''" for content category tags excerpt sensitivity
      using typed [of r] that by (cases "stored_typed rt r") auto
    then show ?thesis
      by (auto simp: read_proposal_def JObj bad_snapshot_def permanent_def in_texts_def
          intro!: res_all_rbind split: option.split json.split)
  qed (simp_all add: read_proposal_def bad_snapshot_def permanent_def)
  with assms show ?thesis by simp
qed

lemma extraction_key_strip [simp]: "py_strip (extraction_key digest h k) = extraction_key digest h k"
proof -
  have "last (extraction_key digest h k) \<in> set (nat_str k)"
    by (simp add: extraction_key_def)
  then have "is_digit09 (last (extraction_key digest h k))" using nat_str_digits [of k] by blast
  then show ?thesis
    by (intro py_strip_fixed) (auto simp: extraction_key_def py_isspace_def py_whitespace_def is_digit09_def)
qed

lemma extraction_request_Inr:
  assumes "extraction_request rt identity h job digest k metadata sp = Inr w"
  shows "wr_idempotency_key w = extraction_key digest h k" "wr_source_type w = ''automatic_extraction''"
    "wr_trust_score w = 1/2" "wr_source_authority w = 1/2" "wr_scope w = py_strip (xe_scope job)"
    "wr_observation_content w = Some (xe_transcript job)" "wr_sensitivity w = py_strip (sp_sensitivity sp)"
proof -
  have lit: "py_strip ''automatic_extraction'' = ''automatic_extraction''" by code_simp
  show "wr_idempotency_key w = extraction_key digest h k" "wr_source_type w = ''automatic_extraction''"
    "wr_trust_score w = 1/2" "wr_source_authority w = 1/2" "wr_scope w = py_strip (xe_scope job)"
    "wr_observation_content w = Some (xe_transcript job)" "wr_sensitivity w = py_strip (sp_sensitivity sp)"
    using assms lit
    by (auto simp: extraction_request_def Let_def as_permanent_def permanent_def write_request_init_def rbind_eq_Inr
        dest!: py_required_Inr split: sum.splits if_splits)
qed

lemma prepare_proposal_caps:
  assumes p: "prepare_proposal rt identity h job row_id digest (k, v) = Inr params"
    and scope: "py_strip (xe_scope job) = xe_scope job"
  shows "within_caps job digest h k params"
proof -
  from p obtain sp w where sp: "read_proposal rt v = Inr sp"
    and w: "extraction_request rt identity h job digest k
        (extraction_metadata identity h job row_id digest (sp_typed sp)) sp = Inr w"
    and params: "params = write_params w (extraction_metadata identity h job row_id digest (sp_typed sp)) (sp_typed sp)"
    by (auto simp: prepare_proposal_def rbind_eq_Inr Let_def permanent_def split: if_splits)
  have lit: "py_strip ''normal'' = ''normal''" "py_strip ''sensitive'' = ''sensitive''" by code_simp+
  have typed: "typed_confident (extraction_metadata identity h job row_id digest (sp_typed sp))"
    if "sp_typed sp = Some t" "dict_get t ''kind'' = JStr ''state''" for t
    using read_proposal_Inr [OF sp] that is_normalized_confidence [of rt t]
    by (auto simp: typed_confident_def extraction_metadata_def dict_get_def [of "_ # _"])
  show ?thesis
    using read_proposal_Inr [OF sp] typed scope lit
    by (cases "sp_typed sp") (auto simp: within_caps_def params write_params_def extraction_request_Inr [OF w]
        has_key_def jopt_def dict_get_def [of "_ # _"] split: if_splits)
qed

section \<open>Stored snapshots\<close>

lemma class_then_run:
  assumes "rx_fullmatch (RSeq [RCls P, RRep Q 0 (Some n)]) v" and "\<And>c. P c \<Longrightarrow> Q c"
  shows "v \<noteq> [] \<and> (\<forall>c \<in> set v. Q c)"
proof -
  from assms(1) have "v \<noteq> []" and c: "P (v ! 0)" and e: "length v \<in> set (rep_ends Q 0 (Some n) v (Suc 0))"
    unfolding rx_fullmatch_def by (auto split: if_splits)
  then obtain a w where v: "v = a # w" by (cases v) auto
  from e have "length w \<le> length (takeWhile Q w)" by (auto simp: rep_ends_def run_length_def Let_def v)
  moreover have "length w = length (takeWhile Q w) + length (dropWhile Q w)"
    by (metis length_append takeWhile_dropWhile_id)
  ultimately have "dropWhile Q w = []" by simp
  then have "\<forall>x \<in> set w. Q x" by (simp only: dropWhile_eq_Nil_conv)
  then show ?thesis using c assms(2) by (simp add: v)
qed

definition slot_key_char :: "char \<Rightarrow> bool" where
  "slot_key_char c \<longleftrightarrow> key_char c \<or> c \<in> set ''._:/-''"

lemma slot_key_char_plain:
  assumes "slot_key_char c"
  shows "\<not> py_isspace c \<and> c \<noteq> CHR 0xDF \<and> char_lower c = c"
  using assms
  by (auto simp: slot_key_char_def key_char_def is_lower_az_def is_digit09_def py_isspace_def py_whitespace_def
      char_lower_def Let_def)

lemma casefold_plain: "\<forall>c \<in> set n. slot_key_char c \<Longrightarrow> py_casefold n = n"
  by (induction n) (simp_all add: py_casefold_def slot_key_char_plain)

lemma strip_plain: "n \<noteq> [] \<Longrightarrow> \<forall>c \<in> set n. slot_key_char c \<Longrightarrow> py_strip n = n"
  by (intro py_strip_fixed) (simp_all add: slot_key_char_plain)

lemma collapse_id: "\<forall>c \<in> set n. \<not> P c \<Longrightarrow> collapse P False n = n"
  by (induction n) simp_all

lemma collapse_chars: "c \<in> set (collapse P b s) \<Longrightarrow> \<not> P c \<or> c = CHR ''_''"
  by (induction P b s rule: collapse.induct) (auto split: if_splits)

lemma key_fixed:
  assumes n: "n \<noteq> []" "\<forall>c \<in> set n. slot_key_char c" "\<forall>c \<in> set n. \<not> P c"
  shows "collapse P False (py_casefold (py_strip n)) = n"
  using assms by (simp add: strip_plain casefold_plain collapse_id)

lemma normalize_subject_key_again:
  assumes "normalize_subject_key v = Inr n"
  shows "normalize_subject_key n = Inr n"
proof -
  from assms have m: "rx_fullmatch subject_key_rx n" by (auto simp: normalize_subject_key_def Let_def split: if_splits)
  then have n: "n \<noteq> []" "\<forall>c \<in> set n. slot_key_char c"
    unfolding subject_key_rx_def slot_key_char_def by (auto dest: class_then_run)
  then have "\<forall>c \<in> set n. \<not> py_isspace c" using slot_key_char_plain by blast
  from key_fixed [OF n this] m show ?thesis by (simp add: normalize_subject_key_def)
qed

lemma normalize_predicate_key_again:
  assumes "normalize_predicate_key v = Inr n"
  shows "normalize_predicate_key n = Inr n"
proof -
  let ?P = "\<lambda>c. py_isspace c \<or> c = CHR ''-''"
  from assms have m: "rx_fullmatch predicate_key_rx n" and c: "n = collapse ?P False (py_casefold (py_strip v))"
    by (auto simp: normalize_predicate_key_def Let_def split: if_splits)
  from m have "n \<noteq> [] \<and> (\<forall>c \<in> set n. key_char c \<or> c \<in> set ''._-'')"
    unfolding predicate_key_rx_def by (rule class_then_run) simp
  then have n: "n \<noteq> []" "\<forall>c \<in> set n. slot_key_char c" by (auto simp: slot_key_char_def)
  have "\<not> ?P (CHR ''_'')" by (simp add: py_isspace_def py_whitespace_def)
  then have "\<forall>x \<in> set n. \<not> ?P x" unfolding c using collapse_chars by fastforce
  from key_fixed [OF n this] m show ?thesis by (simp add: normalize_predicate_key_def)
qed

lemma typed_keys_again:
  assumes "typed_keys rt content subject predicate obj vf = Some (sk, pk)"
  shows "typed_keys rt ''snapshot validation'' (JStr sk) (JStr pk) obj (map_option py_strip vf) = Some (sk, pk)"
proof -
  from assms obtain s t where j: "subject = JStr s" "predicate = JStr t"
    by (cases subject; cases predicate) (auto simp: typed_keys_def)
  from assms obtain c where sk: "normalize_subject_key s = Inr sk" and pk: "normalize_predicate_key t = Inr pk"
    and c: "state_candidate_init rt \<lparr>sc_content = content, sc_subject_key = sk, sc_predicate_key = pk,
        sc_object_value = obj, sc_source_authority = 1/2, sc_valid_from = vf,
        sc_memory_kind = ''state'', sc_scope = ''private''\<rparr> = Inr c"
    by (auto simp: j typed_keys_def rbind_eq_Inr split: sum.splits)
  have lit: "py_required ''snapshot validation'' n = Inr ''snapshot validation''" for n
    by (simp add: py_required_def py_strip_def py_lstrip_def py_rstrip_def py_isspace_def py_whitespace_def)
  have ts: "parse_timestamp rt (map_option py_strip vf) = parse_timestamp rt vf"
    by (cases vf) (simp_all add: parse_timestamp_def)
  have "\<exists>c. state_candidate_init rt \<lparr>sc_content = ''snapshot validation'', sc_subject_key = sk,
      sc_predicate_key = pk, sc_object_value = obj, sc_source_authority = 1/2,
      sc_valid_from = map_option py_strip vf, sc_memory_kind = ''state'', sc_scope = ''private''\<rparr> = Inr c"
    using c by (auto simp: state_candidate_init_def rbind_eq_Inr lit ts)
  then show ?thesis
    by (auto simp: typed_keys_def normalize_subject_key_again [OF sk] normalize_predicate_key_again [OF pk])
qed

lemma typed_object_again: "typed_object negation v = Some obj \<Longrightarrow> typed_object negation (jopt obj) = Some obj"
  by (auto simp: typed_object_def jopt_def split: if_splits json.splits)

lemma typed_valid_from_again:
  "typed_valid_from v = Some vf \<Longrightarrow> typed_valid_from (jopt (map_option py_strip vf)) = Some (map_option py_strip vf)"
  by (auto simp: typed_valid_from_def jopt_def split: if_splits json.splits)

text \<open>Normalising a normalised payload gives it back.\<close>

lemma normalized_again:
  assumes "normalize_typed_fields rt v content = Inr (Some t)"
  shows "is_normalized_typed_fields rt (JObj (typed_row t)) = Inr True"
proof -
  from assms obtain r where v: "v = JObj r" by (cases v) (simp_all add: normalize_typed_fields_def)
  from assms [unfolded v] obtain q kind negation where
    q: "typed_confidence (dict_get r ''confidence'') = Inr (Some q)" and kind: "kind \<in> set typed_kinds"
    and t: "typed_of rt r content kind q negation = Some t"
    by (rule normalize_typed_Some)
  from t obtain obj vf sk pk where
    obj: "typed_object negation (dict_get_or r ''object'' (dict_get r ''value'')) = Some obj"
    and vf: "typed_valid_from (dict_get_or r ''valid_from'' (dict_get r ''occurred_at'')) = Some vf"
    and keys: "typed_keys rt content (dict_get r ''subject'') (dict_get r ''predicate'') obj vf = Some (sk, pk)"
    and t': "t = \<lparr>tp_confidence = q, tp_kind = kind, tp_negation = negation, tp_object_value = obj,
        tp_predicate_key = pk, tp_subject_key = sk, tp_valid_from = map_option py_strip vf\<rparr>"
    by (auto simp: typed_of_def bind_eq_Some_conv split: if_splits)
  define st where "st = [(''confidence'', JNum q), (''kind'', JStr kind), (''negation'', JBool negation),
      (''subject'', JStr sk), (''predicate'', JStr pk), (''value'', jopt obj),
      (''valid_from'', jopt (map_option py_strip vf))]"
  have fields: "stored_fields (typed_row t) = st"
    by (simp add: stored_fields_def typed_row_def t' dict_get_def st_def)
  have get: "dict_get st ''confidence'' = JNum q" "dict_get st ''kind'' = JStr kind"
    "dict_get_or st ''negation'' (JBool False) = JBool negation" "dict_get st ''subject'' = JStr sk"
    "dict_get st ''predicate'' = JStr pk" "dict_get_or st ''object'' (dict_get st ''value'') = jopt obj"
    "dict_get_or st ''valid_from'' (dict_get st ''occurred_at'') = jopt (map_option py_strip vf)"
    by (simp_all add: st_def dict_get_def dict_get_or_def)
  have "typed_of rt st ''snapshot validation'' kind q negation = Some t"
    using typed_object_again [OF obj] typed_valid_from_again [OF vf] typed_keys_again [OF keys]
    unfolding typed_of_def get by (simp add: has_key_def st_def t' option.map_comp comp_def)
  moreover have "fst ` set st \<subseteq> set typed_fields" "st \<noteq> []" by (simp_all add: st_def typed_fields_def)
  moreover have "typed_confidence (JNum q) = Inr (Some q)"
    using typed_confidence_Some [OF q] by (simp add: typed_confidence_def)
  ultimately have "normalize_typed_fields rt (JObj st) ''snapshot validation'' = Inr (Some t)"
    using kind unfolding normalize_typed_fields_def json.case get by (simp add: in_texts_def)
  moreover have "list_all (\<lambda>k. py_eq (dict_get (typed_row t) k) (dict_get (typed_row t) k)) typed_row_keys"
    by (simp add: list_all_iff py_eq_def split: option.split)
  moreover have "fst ` set (typed_row t) = set typed_row_keys" by (simp add: typed_row_def typed_row_keys_def)
  ultimately show ?thesis unfolding is_normalized_iff fields by blast
qed

text \<open>What is stored for a proposal.\<close>

definition item_row :: "string \<Rightarrow> string \<Rightarrow> string option \<Rightarrow> string \<Rightarrow> string \<Rightarrow> typed_proposal option \<Rightarrow> row" where
  "item_row category content excerpt sensitivity tags typed =
     [(''category'', JStr category), (''content'', JStr content), (''evidence_excerpt'', jopt excerpt),
      (''sensitivity'', JStr sensitivity), (''tags'', JStr tags)]
     @ (case typed of None \<Rightarrow> [] | Some t \<Rightarrow> [(''typed'', JObj (typed_row t))])"

lemma proposal_text_Inr: "proposal_text v m = Inr s \<Longrightarrow> s \<noteq> [] \<and> py_strip s = s \<and> (\<exists>u. v = JStr u \<and> s = py_strip u)"
  by (cases v) (auto simp: proposal_text_def permanent_def split: if_splits)

lemma in_texts_True: "in_texts v ns = Inr True \<longleftrightarrow> (\<exists>s. v = JStr s \<and> s \<in> set ns)"
  by (cases v) (auto simp: in_texts_def)

lemma snapshot_item_Inr:
  assumes "snapshot_item rt scope m = Inr item"
  obtains mem category content excerpt sensitivity tags typed where "m = Some mem"
    "item = item_row category content excerpt sensitivity tags typed"
    "content \<noteq> []" "category \<noteq> []" "\<exists>u. em_content mem = JStr u \<and> content = py_strip u"
    "em_evidence_excerpt mem = jopt excerpt"
    "sensitivity = ''normal'' \<or> sensitivity = ''sensitive''"
    "normalize_typed_fields rt (em_state mem) content = Inr typed"
proof -
  from assms obtain mem where m: "m = Some mem" by (cases m) (simp_all add: snapshot_item_def permanent_def)
  from assms obtain content category permitted typed where
    content: "proposal_text (em_content mem) ''proposal content must be non-empty text'' = Inr content"
    and category: "proposal_text (em_category mem) ''proposal category must be non-empty text'' = Inr category"
    and sens: "in_texts (em_sensitivity mem) [''normal'', ''sensitive''] = Inr permitted" "permitted"
    and tags: "(case em_tags mem of JStr t \<Rightarrow> Inr () | _ \<Rightarrow> permanent ''proposal tags must be text'' ''invalid_proposal'') = Inr ()"
    and excerpt: "(case em_evidence_excerpt mem of JNull \<Rightarrow> Inr () | JStr t \<Rightarrow> Inr ()
        | _ \<Rightarrow> permanent ''proposal evidence excerpt must be text'' ''invalid_proposal'') = Inr ()"
    and typed: "normalize_typed_fields rt (em_state mem) content = Inr typed"
    and item: "item = [(''category'', JStr category), (''content'', JStr content),
        (''evidence_excerpt'', em_evidence_excerpt mem), (''sensitivity'', em_sensitivity mem), (''tags'', em_tags mem)]
       @ (case typed of None \<Rightarrow> [] | Some t \<Rightarrow> [(''typed'', JObj (typed_row t))])"
    unfolding snapshot_item_def m option.case rbind_eq_Inr by (auto simp: permanent_def split: if_splits)
  from tags obtain tg where tg: "em_tags mem = JStr tg" by (cases "em_tags mem") (simp_all add: permanent_def)
  from sens obtain sn where sn: "em_sensitivity mem = JStr sn" "sn = ''normal'' \<or> sn = ''sensitive''"
    by (auto simp: in_texts_True)
  have "em_evidence_excerpt mem = JNull \<or> (\<exists>s. em_evidence_excerpt mem = JStr s)"
    using excerpt by (cases "em_evidence_excerpt mem") (simp_all add: permanent_def)
  then obtain ex where ex: "em_evidence_excerpt mem = jopt ex" by (metis jopt_def option.simps(4,5))
  show thesis
    by (rule that [OF m _ _ _ _ ex sn(2) typed, of category tg])
      (use proposal_text_Inr [OF content] proposal_text_Inr [OF category] in \<open>simp_all add: item item_row_def tg sn(1) ex\<close>)
qed

lemma read_item:
  assumes "content \<noteq> []" "category \<noteq> []" and sens: "sensitivity = ''normal'' \<or> sensitivity = ''sensitive''"
    and "excerpt \<noteq> Some []" and typed: "normalize_typed_fields rt v c = Inr typed"
  shows "read_proposal rt (JObj (item_row category content excerpt sensitivity tags typed))
    = Inr \<lparr>sp_content = content, sp_category = category, sp_tags = tags, sp_excerpt = excerpt,
           sp_sensitivity = sensitivity, sp_typed = map_option typed_row typed\<rparr>"
proof -
  let ?r = "item_row category content excerpt sensitivity tags typed"
  have get: "dict_get ?r ''category'' = JStr category" "dict_get ?r ''content'' = JStr content"
    "dict_get ?r ''evidence_excerpt'' = jopt excerpt" "dict_get ?r ''sensitivity'' = JStr sensitivity"
    "dict_get ?r ''tags'' = JStr tags"
    "dict_get ?r ''typed'' = (case typed of None \<Rightarrow> JNull | Some t \<Rightarrow> JObj (typed_row t))"
    by (simp_all add: item_row_def dict_get_def split: option.split)
  have keys: "set base_fields \<subseteq> fst ` set ?r" "fst ` set ?r \<subseteq> set base_fields \<union> {''typed''}"
    by (auto simp: item_row_def base_fields_def split: option.splits)
  have texts: "stored_texts ?r = Some (content, category, tags, excerpt)"
    using assms(1,2,4) unfolding stored_texts_def get by (cases excerpt) (simp_all add: nonempty_text_def jopt_def)
  have "stored_typed rt ?r = Inr (map_option typed_row typed)"
    using typed normalized_again [of rt v c] unfolding stored_typed_def get by (cases typed) simp_all
  then show ?thesis
    unfolding read_proposal_def json.case texts get using keys sens by (auto simp: in_texts_def)
qed

text \<open>The stored text has its keys in order, so that it is canonical.\<close>

lemma ordered_keys:
  "sorted [''confidence'', ''kind'', ''negation'', ''object_value'', ''predicate_key'', ''subject_key'', ''valid_from'']"
  "sorted [''category'', ''content'', ''evidence_excerpt'', ''sensitivity'', ''tags'', ''typed'']"
  "sorted [''category'', ''content'', ''evidence_excerpt'', ''sensitivity'', ''tags'']"
  "sorted [''extractor_identity'', ''proposals'', ''version'']"
  by code_simp+

lemma canon_object:
  assumes "sorted (map fst kvs)" and "\<And>k v. (k, v) \<in> set kvs \<Longrightarrow> json_canon opts v = v"
  shows "json_canon opts (JObj kvs) = JObj kvs"
proof -
  have "map_prod id (json_canon opts) x = x" if "x \<in> set kvs" for x
    using that assms(2) [of "fst x" "snd x"] by (simp add: map_prod_def case_prod_beta)
  then have "map (map_prod id (json_canon opts)) kvs = kvs" by (simp add: map_idI)
  then show ?thesis using assms(1) by (simp add: key_order_def sort_key_id_if_sorted)
qed

lemma canon_scalars: "json_canon opts (jopt x) = jopt x"
  by (simp add: jopt_def split: option.split)

lemma canon_typed: "json_canon opts (JObj (typed_row t)) = JObj (typed_row t)"
  by (rule canon_object) (use ordered_keys(1) in \<open>auto simp: typed_row_def canon_scalars\<close>)

lemma canon_item: "json_canon opts (JObj (item_row c d e s g t)) = JObj (item_row c d e s g t)"
  by (rule canon_object) (use ordered_keys(2,3) in \<open>auto simp: item_row_def canon_scalars simp del: json_canon.simps(7)
      simp add: canon_typed split: option.splits\<close>)

lemma canon_snapshot:
  assumes "\<forall>r \<in> set items. json_canon opts (JObj r) = JObj r"
  shows "json_canon opts (snapshot_json identity items) = snapshot_json identity items"
proof -
  have "json_canon opts (JArr (map JObj items)) = JArr (map JObj items)" using assms by simp
  then show ?thesis
    unfolding snapshot_json_def by (intro canon_object) (use ordered_keys(4) in auto)
qed

lemma wf_typed: "float_text_ok fr (tp_confidence t) \<Longrightarrow> json_wf fr (JObj (typed_row t))"
  by (simp add: typed_row_def jopt_def split: option.split)

lemma wf_item:
  "(\<And>x. t = Some x \<Longrightarrow> float_text_ok fr (tp_confidence x)) \<Longrightarrow> json_wf fr (JObj (item_row c d e s g t))"
  using wf_typed by (auto simp: item_row_def jopt_def simp del: json_wf.simps(7) split: option.split)
    (simp_all)

lemma normalize_confidence_value:
  assumes "normalize_typed_fields rt v content = Inr (Some t)"
  shows "\<exists>r. v = JObj r \<and> num_value (dict_get r ''confidence'') = Some (tp_confidence t)"
proof -
  from assms obtain r where v: "v = JObj r" by (cases v) (simp_all add: normalize_typed_fields_def)
  from assms [unfolded v] obtain q kind negation where
    "typed_confidence (dict_get r ''confidence'') = Inr (Some q)" "typed_of rt r content kind q negation = Some t"
    by (rule normalize_typed_Some)
  then show ?thesis
    using v by (auto simp: typed_of_def bind_eq_Some_conv dest: typed_confidence_Some split: if_splits)
qed

text \<open>Proposals whose snapshot can be read again: confidences print faithfully, no excerpt is empty.\<close>

definition storable :: "(rat \<Rightarrow> string) \<Rightarrow> extracted_memory \<Rightarrow> bool" where
  "storable fr m \<longleftrightarrow> em_evidence_excerpt m \<noteq> JStr []
     \<and> (case em_state m of
          JObj r \<Rightarrow> (case num_value (dict_get r ''confidence'') of None \<Rightarrow> True | Some q \<Rightarrow> float_text_ok fr q)
        | _ \<Rightarrow> True)"

lemma stored_item:
  assumes "snapshot_item rt scope m = Inr item" and "\<And>x. m = Some x \<Longrightarrow> storable (rt_float_repr rt) x"
  shows "json_canon opts (JObj item) = JObj item" "json_wf (rt_float_repr rt) (JObj item)"
    "\<exists>x u sp. m = Some x \<and> em_content x = JStr u \<and> read_proposal rt (JObj item) = Inr sp \<and> sp_content sp = py_strip u"
proof -
  obtain x category content excerpt sensitivity tags typed where m: "m = Some x"
    and item: "item = item_row category content excerpt sensitivity tags typed"
    and f: "content \<noteq> []" "category \<noteq> []" "\<exists>u. em_content x = JStr u \<and> content = py_strip u"
    and ex: "em_evidence_excerpt x = jopt excerpt"
    and sens: "sensitivity = ''normal'' \<or> sensitivity = ''sensitive''"
    and typed: "normalize_typed_fields rt (em_state x) content = Inr typed"
    using assms(1) by (rule snapshot_item_Inr)
  show "json_canon opts (JObj item) = JObj item" unfolding item by (rule canon_item)
  have ok: "storable (rt_float_repr rt) x" using assms(2) m by blast
  show "json_wf (rt_float_repr rt) (JObj item)"
    unfolding item
  proof (rule wf_item)
    fix t assume "typed = Some t"
    then show "float_text_ok (rt_float_repr rt) (tp_confidence t)"
      using normalize_confidence_value [of rt "em_state x" content t] typed ok by (auto simp: storable_def)
  qed
  have "excerpt \<noteq> Some []" using ok ex by (auto simp: storable_def jopt_def)
  from read_item [OF f(1,2) sens this typed, of tags] m f(3)
  show "\<exists>x u sp. m = Some x \<and> em_content x = JStr u \<and> read_proposal rt (JObj item) = Inr sp \<and> sp_content sp = py_strip u"
    unfolding item by auto
qed

lemma snapshot_text_read:
  assumes items: "\<forall>r \<in> set items. json_canon canonical_unicode (JObj r) = JObj r \<and> json_wf (rt_float_repr rt) (JObj r)"
    and "length items \<le> max_extracted_memories" and "py_strip identity \<noteq> []"
    and j: "j = json_dumps (rt_float_repr rt) canonical_unicode (snapshot_json identity items)"
  shows "snapshot_proposals rt j (rt_sha256 rt j) = Inr (identity, map JObj items)"
proof -
  let ?s = "snapshot_json identity items"
  have canon: "json_canon canonical_unicode ?s = ?s" using items by (intro canon_snapshot) blast
  have "json_wf (rt_float_repr rt) ?s"
    using items by (simp add: snapshot_json_def list_all_iff del: json_wf.simps(7)) (simp add: list_all_iff)
  moreover have "compact canonical_unicode" by (simp add: compact_def canonical_unicode_def)
  ultimately have "json_loads j = Some ?s" using loads_dumps canon j by metis
  then show ?thesis
    using assms(2,3) by (simp add: snapshot_proposals_def j [symmetric] snapshot_json_def dict_get_def py_eq_def
        flip: snapshot_json_def) (simp add: snapshot_json_def dict_get_def py_eq_def)
qed

section \<open>Properties\<close>

lemma envelope_scope:
  assumes "decode_envelope fr payload = Inr job"
  shows "py_strip (xe_scope job) = xe_scope job \<and> xe_scope job \<in> set (px_access_scopes (xe_context job))
    \<and> xe_scope job \<noteq> ''secret''"
proof -
  have perm: "as_permanent m code x = Inr y \<Longrightarrow> x = Inr y" for m code x and y :: extraction_job
    by (cases x) (simp_all add: as_permanent_def permanent_def split: if_splits)
  have body: "(case json_loads payload of
        None \<Rightarrow> Inl (ValueError ''Expecting value'')
      | Some (JObj data) \<Rightarrow> envelope_of fr data
      | Some v \<Rightarrow> Inl (ValueError ''unsupported extraction envelope version'')) = Inr job"
    using assms unfolding decode_envelope_def by (rule perm)
  have "\<exists>data. envelope_of fr data = Inr job"
  proof (cases "json_loads payload")
    case (Some v)
    show ?thesis
    proof (cases v)
      case (JObj data)
      then show ?thesis using body by (intro exI [of _ data]) (simp add: Some)
    qed (use body in \<open>simp_all add: Some\<close>)
  qed (use body in simp)
  then obtain data where "envelope_of fr data = Inr job" by blast
  moreover have "res_all (\<lambda>job. py_strip (xe_scope job) = xe_scope job \<and> xe_scope job \<in> set (px_access_scopes (xe_context job))
    \<and> xe_scope job \<noteq> ''secret'') (envelope_of fr data)"
    unfolding envelope_of_def Let_def
    by (intro res_all_rbind) (auto simp: guard_res_def dest: validate_scope_strip validate_scope_Inr split: if_splits)
  ultimately show ?thesis by simp
qed

lemma extraction_key_inj:
  assumes "extraction_key digest h k = extraction_key digest h l"
  shows "k = l"
proof -
  have "nat_str k = nat_str l" using assms by (simp add: extraction_key_def)
  from arg_cong [OF this, of digits_nat] show ?thesis by (simp add: digits_nat_str)
qed

text \<open>C17: whatever a model proposed and whatever is stored for it, the writes prepared for a transcript number at
  most 32, carry distinct keys, keep the scope of the transcript (one its client may use, never
  \<open>secret\<close>), claim the trust and authority of automatic extraction, never supersede or correct a fact,
  and touch a state slot only with a confidence of at least 4/5.\<close>

theorem automatic_writes_capped:
  assumes job: "decode_envelope fr payload = Inr job" and ps: "prepare_snapshot rt (j, h) job row_id digest = Inr ps"
  shows "length ps \<le> max_extracted_memories \<and> (\<forall>k < length ps. within_caps job digest h k (ps ! k))
    \<and> distinct (map (\<lambda>q. dict_get q ''idempotency_key'') ps)
    \<and> xe_scope job \<in> set (px_access_scopes (xe_context job)) \<and> xe_scope job \<noteq> ''secret''"
proof -
  obtain identity vs where
    m: "map_res (prepare_proposal rt identity h job row_id digest) (enumerate 0 vs) = Inr ps"
    using ps by (rule prepare_snapshot_Inr)
  have caps: "within_caps job digest h k (ps ! k)" if "k < length ps" for k
  proof (rule prepare_proposal_caps)
    have "list_all2 (\<lambda>x y. prepare_proposal rt identity h job row_id digest x = Inr y) (enumerate 0 vs) ps"
      using m by (simp add: map_res_Inr_iff)
    from list_all2_nthD2 [OF this that] that map_res_length [OF m]
    show "prepare_proposal rt identity h job row_id digest (k, vs ! k) = Inr (ps ! k)" by (simp add: nth_enumerate_eq)
    show "py_strip (xe_scope job) = xe_scope job" using envelope_scope [OF job] by blast
  qed
  have "distinct (map (\<lambda>q. dict_get q ''idempotency_key'') ps)"
    using caps by (auto simp: distinct_conv_nth within_caps_def dest!: extraction_key_inj)
  then show ?thesis using caps prepare_snapshot_bound [OF ps] envelope_scope [OF job] by blast
qed

text \<open>C20: a snapshot that was made is read back: it passes the hash and canonical-form checks with the identity
  of its extractor, and every proposal is accepted with its text, provided confidences print
  faithfully and no evidence excerpt is the empty text.\<close>

theorem snapshot_readable:
  assumes s: "make_snapshot rt p proposals job = Inr (j, h)" and "py_strip (ep_identity p) \<noteq> []"
    and ok: "\<And>m. Some m \<in> set proposals \<Longrightarrow> storable (rt_float_repr rt) m"
  shows "\<exists>vs. snapshot_proposals rt j h = Inr (ep_identity p, vs)
    \<and> list_all2 (\<lambda>m v. \<exists>x u sp. m = Some x \<and> em_content x = JStr u \<and> read_proposal rt v = Inr sp
         \<and> sp_content sp = py_strip u) proposals vs"
proof -
  from s obtain items where items: "map_res (snapshot_item rt (xe_scope job)) proposals = Inr items"
    and len: "length proposals \<le> max_extracted_memories"
    and j: "j = json_dumps (rt_float_repr rt) canonical_unicode (snapshot_json (ep_identity p) items)"
    and h: "h = rt_sha256 rt j"
    by (auto simp: make_snapshot_def rbind_eq_Inr Let_def permanent_def split: if_splits)
  have all: "list_all2 (\<lambda>m r. snapshot_item rt (xe_scope job) m = Inr r) proposals items"
    using items by (simp add: map_res_Inr_iff)
  have item: "json_canon canonical_unicode (JObj r) = JObj r \<and> json_wf (rt_float_repr rt) (JObj r)" if r: "r \<in> set items" for r
  proof -
    obtain m where "m \<in> set proposals" "snapshot_item rt (xe_scope job) m = Inr r"
      using map_res_mem [OF items r] by blast
    then show ?thesis using stored_item(1,2) ok by blast
  qed
  have "snapshot_proposals rt j h = Inr (ep_identity p, map JObj items)"
    unfolding h by (rule snapshot_text_read [OF _ _ assms(2) j]) (use item len map_res_length [OF items] in auto)
  moreover have "list_all2 (\<lambda>m v. \<exists>x u sp. m = Some x \<and> em_content x = JStr u \<and> read_proposal rt v = Inr sp
         \<and> sp_content sp = py_strip u) proposals (map JObj items)"
    unfolding list.rel_map
    by (rule list.rel_mono_strong [OF all]) (use stored_item(3) ok in blast)
  ultimately show ?thesis by blast
qed

section \<open>Witnesses\<close>

definition demo_proposal :: extracted_memory where
  "demo_proposal = \<lparr>em_content = JStr '' had tea '', em_category = JStr ''note'', em_tags = JStr [],
     em_trust_score = JNum 1, em_source_authority = JNum 1, em_evidence_excerpt = JNull, em_scope = JNull,
     em_sensitivity = JStr ''normal'', em_state = JNull, em_metadata = JObj []\<rparr>"

definition demo_extractor :: processor where
  "demo_extractor = \<lparr>ep_worker_id = ''w'', ep_identity = ''model'', ep_max_attempts = 3, ep_lease_seconds = 60,
     ep_heartbeat_seconds = 20, ep_retry_delay = 1\<rparr>"

definition demo_payload :: string where
  "demo_payload = json_dumps (\<lambda>q. ''0.5'') canonical_unicode
     (extraction_envelope demo_context ''I had tea'' ''chat'' ''private'' [])"

definition demo_job :: extraction_job where
  "demo_job = \<lparr>xe_transcript = ''I had tea'', xe_source = ''chat'', xe_scope = ''private'',
     xe_context = demo_peer, xe_metadata = []\<rparr>"

lemma demo_made: "is_reply (make_snapshot demo_runtime demo_extractor [Some demo_proposal] demo_job)"
  by code_simp

lemma demo_storable: "storable fr demo_proposal"
  by (simp add: storable_def demo_proposal_def)

theorem snapshot_readable_witness:
  "\<exists>j h vs. make_snapshot demo_runtime demo_extractor [Some demo_proposal] demo_job = Inr (j, h)
     \<and> snapshot_proposals demo_runtime j h = Inr (''model'', vs) \<and> length vs = 1"
proof -
  obtain j h where s: "make_snapshot demo_runtime demo_extractor [Some demo_proposal] demo_job = Inr (j, h)"
    using is_reply_obtain [OF demo_made] by (metis prod.exhaust)
  have "py_strip (ep_identity demo_extractor) \<noteq> []" by code_simp
  from snapshot_readable [OF s this] demo_storable s show ?thesis
    by (auto simp: demo_extractor_def dest: list_all2_lengthD)
qed

lemma demo_decodes: "is_reply (decode_envelope (\<lambda>q. ''0.5'') demo_payload)"
  by code_simp

text \<open>What a match of a sequence needs of the text, to see that a harmless text is not refused.\<close>

lemma seq_part: "fold_ends (map rx_ends rs) s i \<noteq> [] \<Longrightarrow> r \<in> set rs \<Longrightarrow> \<exists>k. rx_ends r s k \<noteq> []"
proof (induction rs arbitrary: i)
  case (Cons q rs)
  then obtain k where k: "k \<in> set (rx_ends q s i)" "fold_ends (map rx_ends rs) s k \<noteq> []" by auto
  show ?case
  proof (cases "r = q")
    case True
    then show ?thesis using k(1) by (intro exI [of _ i]) auto
  next
    case False
    then show ?thesis using Cons.IH [OF k(2)] Cons.prems(2) by simp
  qed
qed simp

lemma search_part: "rx_search (RSeq rs) s \<Longrightarrow> r \<in> set rs \<Longrightarrow> \<exists>k. rx_ends r s k \<noteq> []"
  unfolding rx_search_iff rx_ends.simps using seq_part by blast

lemma lit_needs:
  assumes "rx_ends (RLit w) s k \<noteq> []"
  shows "set w \<subseteq> set s"
proof -
  obtain t where "drop k s = w @ t" using assms by (auto simp: starts_with_iff split: if_splits)
  then have "set w \<subseteq> set (drop k s)" by simp
  then show ?thesis using set_drop_subset [of k s] by blast
qed

lemma ci_needs:
  assumes "rx_ends (ci_lit w) s k \<noteq> []" and "c \<in> set w"
  shows "c \<in> char_lower ` set s"
proof -
  have "RCls (\<lambda>d. char_lower d = c) \<in> set (map (\<lambda>c. RCls (\<lambda>d. char_lower d = c)) w)" using assms(2) by auto
  moreover have "fold_ends (map rx_ends (map (\<lambda>c. RCls (\<lambda>d. char_lower d = c)) w)) s k \<noteq> []"
    using assms(1) by (simp only: ci_lit_def rx_ends.simps not_False_eq_True)
  ultimately obtain j where "rx_ends (RCls (\<lambda>d. char_lower d = c)) s j \<noteq> []" using seq_part by blast
  then show ?thesis by (auto split: if_splits)
qed

lemma alt_part: "rx_ends (RAlt rs) s k \<noteq> [] \<Longrightarrow> \<exists>r \<in> set rs. rx_ends r s k \<noteq> []"
  by auto

text \<open>A text without these characters and without the word ``client'' has no credential shape.\<close>

definition plain_text :: "string \<Rightarrow> bool" where
  "plain_text s \<longleftrightarrow> set ''-AJ/='' \<inter> set s = {} \<and> set ''gkwz'' \<inter> char_lower ` set s = {}
     \<and> \<not> rx_search (ci_lit ''client'') s"

lemma plain_text_passes:
  assumes plain: "plain_text s" and "r \<in> set credential_shapes"
  shows "\<not> rx_search r s"
proof -
  have lit: "\<not> rx_search (RSeq rs) s" if "RLit w \<in> set rs" "c \<in> set w" "c \<in> set ''-AJ/=''" for rs w c
    using plain search_part [OF _ that(1)] lit_needs that(2,3) by (fastforce simp: plain_text_def)
  have ci: "rx_ends (ci_lit w) s k = []" if "c \<in> set w" "c \<in> set ''gkwz''" for w k c
    using plain ci_needs [OF _ that(1)] that(2) by (fastforce simp: plain_text_def)
  have 1: "\<not> rx_search rx_private_key s"
    unfolding rx_private_key_def by (rule lit [of "''-----BEGIN ''" _ "CHR ''-''"]) simp_all
  have 2: "\<not> rx_search rx_aws_key s" unfolding rx_aws_key_def by (rule lit [of "''AKIA''" _ "CHR ''A''"]) simp_all
  have 3: "\<not> rx_search rx_google_key s" unfolding rx_google_key_def by (rule lit [of "''AIza''" _ "CHR ''A''"]) simp_all
  have 4: "\<not> rx_search rx_slack_token s" unfolding rx_slack_token_def by (rule lit [of "''-''" _ "CHR ''-''"]) simp_all
  have 5: "\<not> rx_search rx_jwt s" unfolding rx_jwt_def by (rule lit [of "''eyJ''" _ "CHR ''J''"]) simp_all
  have 6: "\<not> rx_search rx_database_url s" unfolding rx_database_url_def by (rule lit [of "''://''" _ "CHR ''/''"]) simp_all
  have 7: "\<not> rx_search rx_account_key s" unfolding rx_account_key_def by (rule lit [of "''=''" _ "CHR ''=''"]) simp_all
  have 8: "\<not> rx_search rx_bearer s"
  proof
    assume "rx_search rx_bearer s"
    then have "\<exists>k. rx_ends (ci_lit ''authorization'') s k \<noteq> []" unfolding rx_bearer_def by (rule search_part) simp
    then show False using ci [of "CHR ''z''"] by simp
  qed
  have g: "CHR ''g'' \<notin> set s"
    using plain by (auto simp: plain_text_def char_lower_def Let_def image_iff)
  have 9: "\<not> rx_search rx_token_prefix s"
  proof
    assume "rx_search rx_token_prefix s"
    then have "\<exists>k. rx_ends (RAlt [RLit ''ghp'', RLit ''github_pat'', RSeq [RLit ''sk-'', RRep word_dash 8 (Some 8)]]) s k \<noteq> []"
      unfolding rx_token_prefix_def by (rule search_part) simp
    then obtain k where "rx_ends (RLit ''ghp'') s k \<noteq> [] \<or> rx_ends (RLit ''github_pat'') s k \<noteq> []
        \<or> rx_ends (RLit ''sk-'') s k \<noteq> []"
      using alt_part by (fastforce simp del: rx_ends.simps(1))
    then show False using lit_needs g plain by (fastforce simp: plain_text_def simp del: rx_ends.simps)
  qed
  have client: "rx_ends (ci_lit ''client'') s k = []" for k
  proof (rule ccontr)
    assume n: "rx_ends (ci_lit ''client'') s k \<noteq> []"
    then have "k < length s" by (simp add: ci_lit_def split: if_splits)
    with n plain show False by (auto simp: plain_text_def rx_search_iff simp del: rx_ends.simps)
  qed
  have 10: "\<not> rx_search rx_assignment s"
  proof
    assume "rx_search rx_assignment s"
    then have "\<exists>k. rx_ends (RAlt [RSeq [ci_lit ''api'', key_sep, ci_lit ''key''],
        RSeq [ci_lit ''client'', key_sep, ci_lit ''secret''], ci_lit ''password'', ci_lit ''token'']) s k \<noteq> []"
      unfolding rx_assignment_def by (rule search_part) simp
    then obtain k where "rx_ends (RSeq [ci_lit ''api'', key_sep, ci_lit ''key'']) s k \<noteq> []
        \<or> rx_ends (RSeq [ci_lit ''client'', key_sep, ci_lit ''secret'']) s k \<noteq> []"
      using alt_part ci [of "CHR ''w''" "''password''"] ci [of "CHR ''k''" "''token''"]
      by (fastforce simp del: rx_ends.simps)
    then have "(\<exists>j. rx_ends (ci_lit ''key'') s j \<noteq> []) \<or> (\<exists>j. rx_ends (ci_lit ''client'') s j \<noteq> [])"
      unfolding rx_ends.simps(4) by (auto dest: seq_part [of "[_, _, ci_lit ''key'']" s _ "ci_lit ''key''"]
          seq_part [of "[ci_lit ''client'', _, _]" s _ "ci_lit ''client''"] simp del: rx_ends.simps fold_ends.simps list.map)
    then show False using ci [of "CHR ''k''" "''key''"] client by simp
  qed
  show ?thesis using assms(2) 1 2 3 4 5 6 7 8 9 10 by (auto simp: credential_shapes_def)
qed

text \<open>The request of a stored proposal, before the credential screen.\<close>

definition proposal_request ::
  "runtime \<Rightarrow> string \<Rightarrow> string \<Rightarrow> extraction_job \<Rightarrow> int \<Rightarrow> string \<Rightarrow> nat \<times> json \<Rightarrow> write_request res" where
  "proposal_request rt identity h job row_id digest = (\<lambda>(k, v).
     rbind (read_proposal rt v) (\<lambda>sp.
       extraction_request rt identity h job digest k (extraction_metadata identity h job row_id digest (sp_typed sp)) sp))"

lemma plain_prepared:
  assumes "proposal_request rt identity h job row_id digest x = Inr w" and "plain_text (screened_text w [])"
  shows "\<exists>q. prepare_proposal rt identity h job row_id digest x = Inr q"
proof -
  have "default_credential_screen w [] = None"
    using plain_text_passes [OF assms(2)] by (auto simp: default_credential_screen_def list_ex_iff)
  moreover obtain sp where "read_proposal rt (snd x) = Inr sp"
      "extraction_request rt identity h job digest (fst x)
         (extraction_metadata identity h job row_id digest (sp_typed sp)) sp = Inr w"
    using assms(1) by (auto simp: proposal_request_def rbind_eq_Inr case_prod_beta)
  ultimately show ?thesis by (simp add: prepare_proposal_def case_prod_beta)
qed

lemma plain_all_prepared:
  "map_res (proposal_request rt identity h job row_id digest) xs = Inr ws
    \<Longrightarrow> list_all (\<lambda>w. plain_text (screened_text w [])) ws
    \<Longrightarrow> \<exists>ps. map_res (prepare_proposal rt identity h job row_id digest) xs = Inr ps"
proof (induction xs arbitrary: ws)
  case (Cons x xs)
  then obtain w ws' where w: "proposal_request rt identity h job row_id digest x = Inr w" "ws = w # ws'"
    "map_res (proposal_request rt identity h job row_id digest) xs = Inr ws'"
    by (auto simp: rbind_eq_Inr)
  with Cons plain_prepared [OF w(1)] show ?case by auto
qed simp

definition demo_reading :: runtime where
  "demo_reading = demo_runtime\<lparr>rt_sha256 := \<lambda>s. ''h''\<rparr>"

definition demo_requests :: "write_request list res" where
  "demo_requests =
     rbind (decode_envelope (\<lambda>q. ''0.5'') demo_payload) (\<lambda>job.
     rbind (make_snapshot demo_reading demo_extractor [Some demo_proposal] job) (\<lambda>(j, h).
     rbind (snapshot_proposals demo_reading j h) (\<lambda>(identity, vs).
     map_res (proposal_request demo_reading identity h job 7 ''d'') (enumerate 0 vs))))"

lemma demo_plain: "case demo_requests of Inl e \<Rightarrow> False
    | Inr ws \<Rightarrow> list_all (\<lambda>w. plain_text (screened_text w [])) ws \<and> length ws = 1"
  by code_simp

theorem automatic_writes_capped_witness:
  "\<exists>job j h ps. decode_envelope (\<lambda>q. ''0.5'') demo_payload = Inr job
     \<and> make_snapshot demo_reading demo_extractor [Some demo_proposal] job = Inr (j, h)
     \<and> prepare_snapshot demo_reading (j, h) job 7 ''d'' = Inr ps
     \<and> length ps = 1 \<and> within_caps job ''d'' h 0 (ps ! 0)"
proof -
  have "\<exists>ws. demo_requests = Inr ws \<and> list_all (\<lambda>w. plain_text (screened_text w [])) ws \<and> length ws = 1"
    using demo_plain by (auto split: sum.splits)
  then obtain ws where ws: "demo_requests = Inr ws" "list_all (\<lambda>w. plain_text (screened_text w [])) ws" "length ws = 1"
    by blast
  then obtain job j h identity vs where job: "decode_envelope (\<lambda>q. ''0.5'') demo_payload = Inr job"
    and s: "make_snapshot demo_reading demo_extractor [Some demo_proposal] job = Inr (j, h)"
    and vs: "snapshot_proposals demo_reading j h = Inr (identity, vs)"
    and r: "map_res (proposal_request demo_reading identity h job 7 ''d'') (enumerate 0 vs) = Inr ws"
    by (auto simp: demo_requests_def rbind_eq_Inr)
  obtain ps where m: "map_res (prepare_proposal demo_reading identity h job 7 ''d'') (enumerate 0 vs) = Inr ps"
    using plain_all_prepared [OF r ws(2)] by blast
  then have p: "prepare_snapshot demo_reading (j, h) job 7 ''d'' = Inr ps" by (simp add: prepare_snapshot_def vs)
  have "length ps = 1" using map_res_length [OF m] map_res_length [OF r] ws(3) by simp
  moreover then have "within_caps job ''d'' h 0 (ps ! 0)" using automatic_writes_capped [OF job p] by simp
  ultimately show ?thesis using job s p by blast
qed

text \<open>
  An empty evidence excerpt is stored but refused when the snapshot is read, so the transcript is
  buried although every proposal was accepted.
\<close>

lemma empty_excerpt_buried:
  "rbind (make_snapshot demo_runtime demo_extractor [Some (demo_proposal\<lparr>em_evidence_excerpt := JStr []\<rparr>)] demo_job)
     (\<lambda>s. prepare_snapshot demo_runtime s demo_job 7 ''d'')
   = Inl (PermanentExtractionError ''proposal snapshot contains invalid fields'' ''invalid_snapshot'')"
  by code_simp

end
