(* ===== verification/Queue_Guarantees.thy ===== *)
theory Queue_Guarantees
  imports Extract_Queue
begin

text \<open>
  What the extraction queue guarantees: UTF-8 round trip and the size bound of stored payloads,
  the invariant \<open>queue_ok\<close> (unique ids, at most one active row per payload hash) under every
  operation, idempotent enqueues, the order of claims, and the interpretation of \<open>leased_queue\<close>
  with its fencing.
\<close>

section \<open>Definitions\<close>

definition queue_ok :: "db \<Rightarrow> bool" where
  "queue_ok d \<longleftrightarrow>
     distinct (map q_id (db_queue d)) \<and> queue_unique (db_queue d)
     \<and> (\<forall>r \<in> set (db_queue d). q_id r \<le> db_queue_seq d)"

definition queue_holds :: "db \<Rightarrow> int \<Rightarrow> string \<Rightarrow> bool" where
  "queue_holds d i owner \<longleftrightarrow> list_ex (claimed_by i (Some owner)) (db_queue d)"

fun queue_claim_event :: "int \<times> int list \<times> rat \<times> rat \<Rightarrow> string \<Rightarrow> db \<Rightarrow> int option \<times> db" where
  "queue_claim_event (max_attempts, exclude, lease, now) owner d =
     (case next_pending max_attempts exclude lease now owner d of (c, d') \<Rightarrow> (map_option cr_id c, d'))"

datatype queue_finish =
    MarkDone
  | MarkFailed rat string int
  | MarkQuotaFailed rat string rat
  | ReleaseClaim

fun queue_finish_op :: "queue_finish \<Rightarrow> int \<Rightarrow> string \<Rightarrow> db \<Rightarrow> db" where
  "queue_finish_op MarkDone i owner d = snd (mark_done i (Some owner) d)"
| "queue_finish_op (MarkFailed now err m) i owner d = snd (mark_failed now i err m (Some owner) d)"
| "queue_finish_op (MarkQuotaFailed now err nb) i owner d = snd (mark_quota_failed now i err nb (Some owner) d)"
| "queue_finish_op ReleaseClaim i owner d = snd (release_claim i owner d)"

text \<open>Whether the caller still holds the row, and the table afterwards.\<close>

definition queue_finish_event :: "queue_finish \<Rightarrow> int \<Rightarrow> string \<Rightarrow> db \<Rightarrow> bool \<times> db" where
  "queue_finish_event b i owner d = (queue_holds d i owner, queue_finish_op b i owner d)"

datatype queue_call =
    QEnqueue runtime rat string
  | QReviveDead "int list option"
  | QReviveQuota rat
  | QOtherTables db

fun queue_other_event :: "queue_call \<Rightarrow> db \<Rightarrow> db" where
  "queue_other_event (QEnqueue rt now payload) d =
     (case enqueue rt now payload d of Inl e \<Rightarrow> d | Inr (i, d') \<Rightarrow> d')"
| "queue_other_event (QReviveDead ids) d = (case revive_dead ids d of Inl e \<Rightarrow> d | Inr (n, d') \<Rightarrow> d')"
| "queue_other_event (QReviveQuota now) d =
     (case revive_recent_quota_dead now d of Inl e \<Rightarrow> d | Inr (n, d') \<Rightarrow> d')"
| "queue_other_event (QOtherTables d0) d = d0\<lparr>db_queue := db_queue d, db_queue_seq := db_queue_seq d\<rparr>"

section \<open>UTF-8\<close>

lemma utf8_decode_tail_char:
  "utf8_decode_ignore (drop k (utf8_char c) @ bs)
     = (if k = 0 then c # utf8_decode_ignore bs else utf8_decode_ignore bs)"
proof (cases "k = 0")
  case True
  then show ?thesis by (simp add: utf8_decode_char)
next
  case False
  then obtain k' where k: "k = Suc k'" by (cases k) auto
  show ?thesis
  proof (cases c rule: utf8_char_cases)
    case (1 n)
    then show ?thesis by (simp add: k)
  next
    case (2 b b')
    then show ?thesis by (cases k'; cases bs) (auto simp: k)
  qed
qed

text \<open>Decoding a tail of the bytes of a text gives the longest suffix that fits the tail.\<close>

lemma utf8_decode_tail:
  assumes "k \<le> length (utf8_encode s)"
  shows "\<exists>p. s = p @ utf8_decode_ignore (drop k (utf8_encode s))
     \<and> length (utf8_encode (utf8_decode_ignore (drop k (utf8_encode s)))) \<le> length (utf8_encode s) - k
     \<and> (p \<noteq> [] \<longrightarrow> length (utf8_encode s) - k
          < length (utf8_encode (last p # utf8_decode_ignore (drop k (utf8_encode s)))))"
  using assms
proof (induction s arbitrary: k)
  case (Cons c s)
  show ?case
  proof (cases "k < length (utf8_char c)")
    case True
    then have d: "drop k (utf8_encode (c # s)) = drop k (utf8_char c) @ utf8_encode s"
      by (simp add: utf8_encode_Cons)
    show ?thesis
      unfolding d utf8_decode_tail_char utf8_decode_full using True
      by (auto simp: utf8_encode_Cons intro!: exI [of _ "[c]"])
  next
    case False
    let ?k = "k - length (utf8_char c)"
    have d: "drop k (utf8_encode (c # s)) = drop ?k (utf8_encode s)"
      "length (utf8_encode (c # s)) - k = length (utf8_encode s) - ?k"
      using False Cons.prems by (simp_all add: utf8_encode_Cons)
    have "?k \<le> length (utf8_encode s)" using False Cons.prems by (simp add: utf8_encode_Cons)
    then obtain p where p: "s = p @ utf8_decode_ignore (drop ?k (utf8_encode s))"
      "length (utf8_encode (utf8_decode_ignore (drop ?k (utf8_encode s)))) \<le> length (utf8_encode s) - ?k"
      "p \<noteq> [] \<longrightarrow> length (utf8_encode s) - ?k
          < length (utf8_encode (last p # utf8_decode_ignore (drop ?k (utf8_encode s))))"
      using Cons.IH by blast
    show ?thesis
    proof (cases "p = [] \<and> ?k = 0")
      case True
      with False Cons.prems have "k = length (utf8_char c)" "k \<noteq> 0" by (auto simp: utf8_char_def Let_def)
      then show ?thesis
        unfolding d using True by (intro exI [of _ "[c]"]) (auto simp: utf8_decode_full utf8_encode_Cons)
    next
      case ne: False
      have "p \<noteq> []"
      proof
        assume "p = []"
        then have full: "utf8_decode_ignore (drop ?k (utf8_encode s)) = s" using p(1) by simp
        then have "length (utf8_encode s) \<le> length (utf8_encode s) - ?k" using p(2) by simp
        with \<open>?k \<le> length (utf8_encode s)\<close> \<open>p = []\<close> ne show False by auto
      qed
      then show ?thesis unfolding d using p by (intro exI [of _ "c # p"]) auto
    qed
  qed
qed (simp add: utf8_encode_def)

lemma utf8_tail_bytes: "length (utf8_encode (utf8_tail n s)) \<le> n"
  using utf8_decode_tail [of "length (utf8_encode s) - n" s]
  by (cases "n < length (utf8_encode s)") (auto simp: utf8_tail_def Let_def)

text \<open>Cutting a payload to a number of bytes keeps the longest suffix of the text whose
  UTF-8 encoding fits: nothing is garbled, the bound holds, and one more character would break it.\<close>

theorem payload_tail_exact:
  "\<exists>p. s = p @ utf8_tail n s \<and> length (utf8_encode (utf8_tail n s)) \<le> n
     \<and> (p \<noteq> [] \<longrightarrow> n < length (utf8_encode (last p # utf8_tail n s)))"
proof (cases "n < length (utf8_encode s)")
  case True
  then have "length (utf8_encode s) - (length (utf8_encode s) - n) = n" by simp
  with True utf8_decode_tail [of "length (utf8_encode s) - n" s] show ?thesis
    by (simp add: utf8_tail_def Let_def)
next
  case False
  then show ?thesis by (simp add: utf8_tail_def Let_def)
qed

text \<open>Decoding the UTF-8 bytes of a text gives the text back.\<close>

theorem utf8_roundtrip: "utf8_decode_ignore (utf8_encode s) = s"
  by (rule utf8_decode_full)

section \<open>The invariant\<close>

lemma distinct_map_filter_iff:
  assumes "distinct (map k rs)"
  shows "distinct (List.map_filter f rs) \<longleftrightarrow>
     (\<forall>r \<in> set rs. \<forall>s \<in> set rs. \<forall>h. f r = Some h \<and> f s = Some h \<longrightarrow> k r = k s)"
proof -
  have "distinct rs" using assms by (simp add: distinct_map)
  then have "distinct (List.map_filter f rs) \<longleftrightarrow> inj_on (\<lambda>r. the (f r)) {r \<in> set rs. f r \<noteq> None}"
    by (simp add: List.map_filter_def distinct_map comp_def)
  also have "\<dots> \<longleftrightarrow> (\<forall>r \<in> set rs. \<forall>s \<in> set rs. \<forall>h. f r = Some h \<and> f s = Some h \<longrightarrow> k r = k s)"
  proof
    assume inj: "inj_on (\<lambda>r. the (f r)) {r \<in> set rs. f r \<noteq> None}"
    show "\<forall>r \<in> set rs. \<forall>s \<in> set rs. \<forall>h. f r = Some h \<and> f s = Some h \<longrightarrow> k r = k s"
    proof (intro ballI allI impI)
      fix r s h assume "r \<in> set rs" "s \<in> set rs" "f r = Some h \<and> f s = Some h"
      then show "k r = k s" using inj_onD [OF inj, of r s] by simp
    qed
  next
    assume eq: "\<forall>r \<in> set rs. \<forall>s \<in> set rs. \<forall>h. f r = Some h \<and> f s = Some h \<longrightarrow> k r = k s"
    show "inj_on (\<lambda>r. the (f r)) {r \<in> set rs. f r \<noteq> None}"
    proof (rule inj_onI)
      fix r s assume rs: "r \<in> {r \<in> set rs. f r \<noteq> None}" "s \<in> {r \<in> set rs. f r \<noteq> None}" "the (f r) = the (f s)"
      then obtain h where "f r = Some h" "f s = Some h" by auto
      then have "k r = k s" using eq rs(1,2) by blast
      then show "r = s" using distinct_key_inj [OF assms, of s r] rs by simp
    qed
  qed
  finally show ?thesis .
qed

lemma queue_unique_iff:
  "distinct (map q_id rs) \<Longrightarrow> queue_unique rs \<longleftrightarrow>
     (\<forall>r \<in> set rs. \<forall>s \<in> set rs. \<forall>h. active_hash r = Some h \<and> active_hash s = Some h \<longrightarrow> q_id r = q_id s)"
  unfolding queue_unique_def active_hashes_def by (rule distinct_map_filter_iff)

text \<open>An update that makes no row active and changes no id or hash keeps the invariant.\<close>

lemma update_queue_ok:
  assumes ok: "queue_ok d"
    and keep: "\<And>r. P r \<Longrightarrow> q_id (u r) = q_id r \<and> q_payload_hash (u r) = q_payload_hash r"
    and act: "\<And>r. r \<in> set (db_queue d) \<Longrightarrow> P r \<Longrightarrow> queue_active (u r) \<Longrightarrow> queue_active r"
  shows "queue_ok (update_queue P u d)"
proof -
  have ids: "map q_id (update_where P u (db_queue d)) = map q_id (db_queue d)"
    using keep by (intro map_update_where) blast
  have src: "\<exists>q \<in> set (db_queue d). q_id q = q_id r \<and> active_hash q = Some h"
    if r: "r \<in> set (update_where P u (db_queue d))" "active_hash r = Some h" for r h
  proof -
    obtain q where q: "q \<in> set (db_queue d)" "r = (if P q then u q else q)"
      using r(1) by (auto simp: set_update_where)
    show ?thesis
    proof (cases "P q")
      case True
      then have "queue_active (u q)" "q_payload_hash (u q) = Some h"
        using r(2) q(2) by (auto simp: active_hash_def split: if_splits)
      then show ?thesis using True q keep [OF True] act [OF q(1) True] by (auto simp: active_hash_def)
    next
      case False
      then show ?thesis using q r(2) by auto
    qed
  qed
  have old: "q_id r = q_id s" if "r \<in> set (db_queue d)" "s \<in> set (db_queue d)"
      "active_hash r = Some h" "active_hash s = Some h" for r s h
    using ok that queue_unique_iff [of "db_queue d"] unfolding queue_ok_def by blast
  have "queue_unique (update_where P u (db_queue d))"
  proof (subst queue_unique_iff)
    show "distinct (map q_id (update_where P u (db_queue d)))" using ok ids by (simp add: queue_ok_def)
    show "\<forall>r \<in> set (update_where P u (db_queue d)). \<forall>s \<in> set (update_where P u (db_queue d)). \<forall>h.
        active_hash r = Some h \<and> active_hash s = Some h \<longrightarrow> q_id r = q_id s"
    proof (intro ballI allI impI)
      fix r s h assume "r \<in> set (update_where P u (db_queue d))" "s \<in> set (update_where P u (db_queue d))"
        "active_hash r = Some h \<and> active_hash s = Some h"
      then obtain q q' where "q \<in> set (db_queue d)" "q_id q = q_id r" "active_hash q = Some h"
        "q' \<in> set (db_queue d)" "q_id q' = q_id s" "active_hash q' = Some h" using src by meson
      then show "q_id r = q_id s" using old [of q q' h] by simp
    qed
  qed
  moreover have "q_id r \<le> db_queue_seq d" if "r \<in> set (update_where P u (db_queue d))" for r
  proof -
    have "q_id r \<in> set (map q_id (db_queue d))" using that ids by (metis list.set_map imageI)
    then show ?thesis using ok by (auto simp: queue_ok_def)
  qed
  ultimately show ?thesis using ok by (simp add: queue_ok_def update_queue_def ids)
qed

lemma delete_queue_ok:
  assumes "queue_ok d"
  shows "queue_ok (d\<lparr>db_queue := delete_where P (db_queue d)\<rparr>)"
proof -
  have d: "distinct (map q_id (db_queue d))" "distinct (map q_id (delete_where P (db_queue d)))"
    using assms by (simp_all add: queue_ok_def delete_where_def distinct_map_filter)
  have "queue_unique (delete_where P (db_queue d))"
    unfolding queue_unique_iff [OF d(2)]
    using assms unfolding queue_ok_def queue_unique_iff [OF d(1)] by (simp add: delete_where_def)
  with assms d(2) show ?thesis by (auto simp: queue_ok_def delete_where_def)
qed


section \<open>Claims and leases\<close>

lemma queue_holds_iff: "queue_holds d i owner \<longleftrightarrow> (\<exists>r \<in> set (db_queue d). claimed_by i (Some owner) r)"
  by (simp add: queue_holds_def list_ex_iff)

lemma lease_row_sel [simp]:
  "q_id (lease_row w t r) = q_id r" "q_payload_hash (lease_row w t r) = q_payload_hash r"
  "q_status (lease_row w t r) = QProcessing" "q_lease_owner (lease_row w t r) = Some w"
  "q_payload (lease_row w t r) = q_payload r" "q_attempts (lease_row w t r) = q_attempts r"
  by (simp_all add: lease_row_def)

lemma queue_row_by_id_Some:
  assumes "queue_ok d" and "r \<in> set (db_queue d)"
  shows "queue_row_by_id (q_id r) d = Some r"
  using assms unfolding queue_row_by_id_def queue_ok_def by (intro first_row_distinct [where k = q_id]) auto

lemma queue_order_set [simp]: "set (queue_order d) = set (db_queue d)"
  by (simp add: queue_order_def)

lemma queue_order_distinct: "queue_ok d \<Longrightarrow> distinct (map q_id (queue_order d))"
  by (simp add: queue_ok_def queue_order_def distinct_map)

text \<open>A claim on a well formed table: none exactly when nothing is due, else the least due row.\<close>

lemma next_pending_None:
  assumes ok: "queue_ok d" and n: "next_pending m ex l now owner d = (None, d')"
  shows "d' = d \<and> (\<forall>r \<in> set (db_queue d). queue_due m now r \<longrightarrow> q_id r \<in> set ex)"
proof (cases "first_row (\<lambda>r. queue_due m now r \<and> q_id r \<notin> set ex) (queue_order d)")
  case None
  with n show ?thesis by (auto simp: next_pending_def first_row_None_iff)
next
  case (Some r)
  let ?P = "\<lambda>x. q_id x = q_id r \<and> queue_due m now x"
  let ?d = "update_queue ?P (lease_row owner (now + l)) d"
  have r: "r \<in> set (db_queue d)" "?P r" using first_row_Some [OF Some] by auto
  have one: "rowcount ?P (db_queue d) = 1"
    using ok r unfolding queue_ok_def by (intro rowcount_distinct_one [where k = q_id and r = r]) auto
  have "queue_ok ?d"
    by (rule update_queue_ok [OF ok]) (auto simp: queue_active_def queue_due_def)
  moreover have "lease_row owner (now + l) r \<in> set (db_queue ?d)"
    using r by (auto simp: update_queue_def set_update_where)
  ultimately have "queue_row_by_id (q_id r) ?d \<noteq> None"
    using queue_row_by_id_Some [of ?d "lease_row owner (now + l) r"] by simp
  with n one show ?thesis unfolding next_pending_def Some by (auto simp: Let_def split: option.splits)
qed

lemma next_pending_Some:
  assumes ok: "queue_ok d" and n: "next_pending m ex l now owner d = (Some c, d')"
  shows "\<exists>r \<in> set (db_queue d). queue_due m now r \<and> q_id r \<notin> set ex
     \<and> (\<forall>s \<in> set (db_queue d). queue_due m now s \<and> q_id s \<notin> set ex \<longrightarrow> q_id r \<le> q_id s)
     \<and> c = \<lparr>cr_id = q_id r, cr_payload = q_payload r, cr_attempts = q_attempts r,
            cr_lease_owner = owner, cr_lease_until = now + l\<rparr>
     \<and> d' = update_queue (\<lambda>x. q_id x = q_id r) (lease_row owner (now + l)) d"
proof -
  obtain r where r: "first_row (\<lambda>r. queue_due m now r \<and> q_id r \<notin> set ex) (queue_order d) = Some r"
    using n by (auto simp: next_pending_def split: option.splits)
  let ?P = "\<lambda>x. q_id x = q_id r \<and> queue_due m now x"
  let ?d = "update_queue ?P (lease_row owner (now + l)) d"
  have rd: "r \<in> set (db_queue d)" "queue_due m now r" "q_id r \<notin> set ex"
    using first_row_Some [OF r] by auto
  have "q_id s = q_id r \<longleftrightarrow> ?P s" if "s \<in> set (db_queue d)" for s
    using ok rd that distinct_key_inj [of q_id "db_queue d" r s] by (auto simp: queue_ok_def)
  then have "update_where ?P (lease_row owner (now + l)) (db_queue d)
      = update_where (\<lambda>x. q_id x = q_id r) (lease_row owner (now + l)) (db_queue d)"
    by (auto simp: update_where_def)
  then have d: "?d = update_queue (\<lambda>x. q_id x = q_id r) (lease_row owner (now + l)) d"
    by (simp add: update_queue_def)
  have "queue_ok ?d"
    by (rule update_queue_ok [OF ok]) (auto simp: queue_active_def queue_due_def)
  moreover have "lease_row owner (now + l) r \<in> set (db_queue ?d)"
    using rd by (auto simp: update_queue_def set_update_where)
  ultimately have "queue_row_by_id (q_id r) ?d = Some (lease_row owner (now + l) r)"
    using queue_row_by_id_Some [of ?d "lease_row owner (now + l) r"] by simp
  with n have "d' = ?d" "c = \<lparr>cr_id = q_id r, cr_payload = q_payload r, cr_attempts = q_attempts r,
      cr_lease_owner = owner, cr_lease_until = now + l\<rparr>"
    unfolding next_pending_def r by (auto simp: Let_def split: if_splits)
  moreover have "q_id r \<le> q_id s"
    if "s \<in> set (db_queue d)" "queue_due m now s \<and> q_id s \<notin> set ex" for s
  proof -
    obtain ts where "filter (\<lambda>r. queue_due m now r \<and> q_id r \<notin> set ex) (sort_key q_id (db_queue d)) = r # ts"
      using r unfolding first_row_def queue_order_def by (auto split: list.splits)
    from sort_key_filter_min [where P = "\<lambda>r. queue_due m now r \<and> q_id r \<notin> set ex", OF this that]
    show ?thesis .
  qed
  ultimately show ?thesis using rd d by auto
qed

lemma queue_holds_lease:
  "queue_holds (update_queue (\<lambda>x. q_id x = j) (lease_row owner t) d) i v \<longleftrightarrow>
     (if i = j then v = owner \<and> (\<exists>r \<in> set (db_queue d). q_id r = j) else queue_holds d i v)"
proof -
  have "(\<exists>r \<in> set (update_where (\<lambda>x. q_id x = j) (lease_row owner t) rs). claimed_by i (Some v) r) \<longleftrightarrow>
      (if i = j then v = owner \<and> (\<exists>r \<in> set rs. q_id r = j) else \<exists>r \<in> set rs. claimed_by i (Some v) r)" for rs
    by (induction rs) (auto simp: claimed_by_def)
  then show ?thesis by (simp add: queue_holds_iff update_queue_def)
qed

text \<open>An update that ends the lease of every row it touches creates no lease.\<close>

lemma queue_holds_end:
  assumes "\<And>r. P r \<Longrightarrow> q_lease_owner (u r) = None"
  shows "queue_holds (update_queue P u d) i v \<longleftrightarrow>
     (\<exists>r \<in> set (db_queue d). \<not> P r \<and> claimed_by i (Some v) r)"
  using assms by (auto simp: queue_holds_iff update_queue_def set_update_where claimed_by_def)


section \<open>Ends of a claim\<close>

lemma unlease_sel [simp]:
  "q_id (unlease r) = q_id r" "q_payload_hash (unlease r) = q_payload_hash r"
  "q_status (unlease r) = q_status r" "q_lease_owner (unlease r) = None"
  by (simp_all add: unlease_def)

text \<open>
  Each way of ending a claim, when the caller holds the row: it deletes the row, or it updates
  exactly the row and ends its lease.
\<close>

lemma queue_finish_held:
  assumes ok: "queue_ok d" and h: "queue_holds d i owner"
  shows "queue_finish_op b i owner d = d\<lparr>db_queue := delete_where (claimed_by i (Some owner)) (db_queue d)\<rparr>
    \<or> (\<exists>P u. queue_finish_op b i owner d = update_queue P u d
         \<and> (\<forall>r \<in> set (db_queue d). P r \<longleftrightarrow> claimed_by i (Some owner) r)
         \<and> (\<forall>r. q_id (u r) = q_id r \<and> q_payload_hash (u r) = q_payload_hash r \<and> q_lease_owner (u r) = None))"
proof -
  obtain r where r: "r \<in> set (db_queue d)" "claimed_by i (Some owner) r" using h by (auto simp: queue_holds_iff)
  then have lk: "queue_row_by_id i d = Some r" "q_status r = QProcessing" "q_lease_owner r = Some owner"
    using queue_row_by_id_Some [OF ok r(1)] by (auto simp: claimed_by_def)
  have same: "q_id x = i \<longleftrightarrow> claimed_by i (Some owner) x" if "x \<in> set (db_queue d)" for x
    using ok r that distinct_key_inj [of q_id "db_queue d" r x] by (auto simp: queue_ok_def claimed_by_def)
  have upd: "\<exists>P u. update_queue (\<lambda>x. q_id x = i) v d = update_queue P u d
         \<and> (\<forall>r \<in> set (db_queue d). P r \<longleftrightarrow> claimed_by i (Some owner) r)
         \<and> (\<forall>r. q_id (u r) = q_id r \<and> q_payload_hash (u r) = q_payload_hash r \<and> q_lease_owner (u r) = None)"
    if "\<And>r. q_id (v r) = q_id r \<and> q_payload_hash (v r) = q_payload_hash r \<and> q_lease_owner (v r) = None" for v
    using same that by (intro exI [of _ "\<lambda>x. q_id x = i"] exI [of _ v]) blast
  show ?thesis
  proof (cases b)
    case MarkDone
    then show ?thesis by (simp add: mark_done_def)
  next
    case (MarkFailed now err m)
    then show ?thesis
      unfolding MarkFailed queue_finish_op.simps mark_failed_def Let_def lk(1) option.case
      by (intro disjI2) (simp add: lk upd split del: if_split)
  next
    case (MarkQuotaFailed now err nb)
    then show ?thesis
      unfolding MarkQuotaFailed queue_finish_op.simps mark_quota_failed_def Let_def lk(1) option.case
      by (intro disjI2) (simp add: lk upd)
  next
    case ReleaseClaim
    then show ?thesis
      by (intro disjI2 exI [of _ "claimed_by i (Some owner)"] exI [of _ "\<lambda>x. (unlease x)\<lparr>q_status := QPending\<rparr>"])
        (simp add: release_claim_def)
  qed
qed

lemma queue_finish_not_held:
  assumes "\<not> queue_holds d i owner"
  shows "queue_finish_op b i owner d = d"
proof -
  have none: "\<not> claimed_by i (Some owner) r" if "r \<in> set (db_queue d)" for r
    using assms that by (auto simp: queue_holds_iff)
  have row: "q_status r \<noteq> QProcessing \<or> q_lease_owner r \<noteq> Some owner" if "queue_row_by_id i d = Some r" for r
    using none [of r] first_row_Some [OF that [unfolded queue_row_by_id_def]] by (auto simp: claimed_by_def)
  have del: "delete_where (claimed_by i (Some owner)) (db_queue d) = db_queue d"
    using none by (auto simp: delete_where_def intro!: filter_True)
  have upd: "update_where (claimed_by i (Some owner)) u (db_queue d) = db_queue d" for u
    using none by (intro update_where_none) auto
  show ?thesis
  proof (cases b)
    case (MarkFailed now err m)
    then show ?thesis by (auto simp: mark_failed_def dest: row split: option.splits)
  next
    case (MarkQuotaFailed now err nb)
    then show ?thesis by (auto simp: mark_quota_failed_def dest: row split: option.splits)
  qed (simp_all add: mark_done_def release_claim_def update_queue_def del upd)
qed


section \<open>Enqueues and revivals\<close>

lemma new_queue_row_sel [simp]:
  "q_id (new_queue_row now i p h) = i" "q_status (new_queue_row now i p h) = QPending"
  "q_payload_hash (new_queue_row now i p h) = Some h" "q_lease_owner (new_queue_row now i p h) = None"
  "q_payload (new_queue_row now i p h) = p"
  by (simp_all add: new_queue_row_def)

lemma insert_queue_row_ok:
  assumes ok: "queue_ok d" and fresh: "\<forall>r \<in> set (db_queue d). active_hash r \<noteq> Some h"
  shows "insert_queue_row now p h d
      = Inr (db_queue_seq d + 1,
             d\<lparr>db_queue := db_queue d @ [new_queue_row now (db_queue_seq d + 1) p h],
               db_queue_seq := db_queue_seq d + 1\<rparr>)"
    and "queue_ok (d\<lparr>db_queue := db_queue d @ [new_queue_row now (db_queue_seq d + 1) p h],
               db_queue_seq := db_queue_seq d + 1\<rparr>)"
proof -
  let ?r = "new_queue_row now (db_queue_seq d + 1) p h"
  have "h \<notin> set (active_hashes (db_queue d))"
    using fresh by (auto simp: active_hashes_def List.map_filter_def)
  moreover have "active_hash ?r = Some h" by (simp add: active_hash_def queue_active_def)
  ultimately have "queue_unique (db_queue d @ [?r])"
    using ok by (simp add: queue_ok_def queue_unique_def active_hashes_def List.map_filter_def)
  moreover have "db_queue_seq d + 1 \<notin> set (map q_id (db_queue d))" using ok by (force simp: queue_ok_def)
  ultimately show "insert_queue_row now p h d
      = Inr (db_queue_seq d + 1, d\<lparr>db_queue := db_queue d @ [?r], db_queue_seq := db_queue_seq d + 1\<rparr>)"
    and "queue_ok (d\<lparr>db_queue := db_queue d @ [?r], db_queue_seq := db_queue_seq d + 1\<rparr>)"
    using ok by (force simp: insert_queue_row_def store_queue_def queue_ok_def Let_def)+
qed

lemma enqueue_cases:
  assumes ok: "queue_ok d"
  obtains r where "r \<in> set (db_queue d)" "queue_active r" "enqueue rt now p d = Inr (q_id r, d)"
      "q_payload_hash r = Some (rt_sha256 rt (utf8_tail max_payload_bytes p))
       \<or> q_payload_hash r = None \<and> q_payload r = utf8_tail max_payload_bytes p"
  | d' where "d' = d\<lparr>db_queue := db_queue d @
        [new_queue_row now (db_queue_seq d + 1) (utf8_tail max_payload_bytes p)
           (rt_sha256 rt (utf8_tail max_payload_bytes p))], db_queue_seq := db_queue_seq d + 1\<rparr>"
      "enqueue rt now p d = Inr (db_queue_seq d + 1, d')" "queue_ok d'"
proof -
  let ?p = "utf8_tail max_payload_bytes p"
  let ?h = "rt_sha256 rt ?p"
  let ?P = "\<lambda>r. queue_active r \<and> (q_payload_hash r = Some ?h \<or> q_payload_hash r = None \<and> q_payload r = ?p)"
  show thesis
  proof (cases "first_row ?P (queue_order d)")
    case (Some r)
    then show ?thesis using first_row_Some [OF Some] by (intro that(1)) (auto simp: enqueue_def Let_def)
  next
    case None
    then have "\<forall>r \<in> set (db_queue d). active_hash r \<noteq> Some ?h"
      by (auto simp: first_row_None_iff active_hash_def)
    note ins = insert_queue_row_ok [OF ok this, of now ?p]
    show ?thesis
      by (rule that(2) [OF refl _ ins(2)]) (simp add: enqueue_def Let_def None ins(1))
  qed
qed

lemma revive_dead_ok:
  assumes ok: "queue_ok d"
  shows "\<exists>n d'. revive_dead ids d = Inr (n, d') \<and> queue_ok d'
     \<and> (\<forall>i v. queue_holds d' i v \<longrightarrow> queue_holds d i v)"
proof (cases "ids = Some []")
  case True
  then show ?thesis using ok by (simp add: revive_dead_def)
next
  case False
  define u where "u = (\<lambda>r. (unlease r)\<lparr>q_status := QPending, q_attempts := 0, q_not_before := None,
      q_last_error := Some ((case q_last_error r of None \<Rightarrow> [] | Some e \<Rightarrow> e) @ '' (revived)'')\<rparr>)"
  have u: "q_id (u r) = q_id r" "q_payload_hash (u r) = q_payload_hash r" "q_lease_owner (u r) = None"
    for r by (simp_all add: u_def)
  let ?P = "revivable ids d"
  let ?rs = "update_where ?P u (db_queue d)"
  have ids: "map q_id ?rs = map q_id (db_queue d)" by (intro map_update_where) (simp add: u)
  have d: "distinct (map q_id (db_queue d))" "distinct (map q_id ?rs)" using ok ids by (simp_all add: queue_ok_def)
  have old: "q_id r = q_id s" if "r \<in> set (db_queue d)" "s \<in> set (db_queue d)"
      "active_hash r = Some h" "active_hash s = Some h" for r s h
    using ok that unfolding queue_ok_def queue_unique_iff [OF d(1)] by blast
  have dead: "\<not> queue_active r \<and> (\<forall>h. q_payload_hash r = Some h \<longrightarrow>
      (\<forall>p \<in> set (db_queue d). q_status p = QDead \<and> q_payload_hash p = Some h \<longrightarrow> q_id r \<le> q_id p)
      \<and> (\<forall>p \<in> set (db_queue d). q_payload_hash p = Some h \<longrightarrow> \<not> queue_active p)) \<and> q_status r = QDead"
    if "?P r" for r
    using that by (auto simp: revivable_def queue_active_def list_all_iff list_ex_iff)
  have "queue_unique ?rs"
    unfolding queue_unique_iff [OF d(2)]
  proof (intro ballI allI impI)
    fix r s h assume rs: "r \<in> set ?rs" "s \<in> set ?rs" and h: "active_hash r = Some h \<and> active_hash s = Some h"
    obtain q where q: "q \<in> set (db_queue d)" "r = (if ?P q then u q else q)"
      using rs(1) by (auto simp: set_update_where)
    obtain t where t: "t \<in> set (db_queue d)" "s = (if ?P t then u t else t)"
      using rs(2) by (auto simp: set_update_where)
    have hq: "q_payload_hash q = Some h" "q_payload_hash t = Some h"
      using h q(2) t(2) by (auto simp: active_hash_def u split: if_splits)
    have act: "\<not> ?P q \<Longrightarrow> queue_active q" "\<not> ?P t \<Longrightarrow> queue_active t"
      using h q(2) t(2) by (auto simp: active_hash_def split: if_splits)
    have "q_id q = q_id t"
    proof (cases "?P q")
      case Pq: True
      then have Pt: "?P t" using dead [OF Pq] hq t(1) act(2) by blast
      have "q_id q \<le> q_id t" using dead [OF Pq] dead [OF Pt] hq t(1) by blast
      moreover have "q_id t \<le> q_id q" using dead [OF Pq] dead [OF Pt] hq q(1) by blast
      ultimately show ?thesis by simp
    next
      case Pq: False
      then have "\<not> ?P t" using dead [of t] hq q(1) act(1) by blast
      then show ?thesis using old [OF q(1) t(1)] h q(2) t(2) Pq by simp
    qed
    then show "q_id r = q_id s" using q(2) t(2) by (simp add: u)
  qed
  then have eq: "revive_dead ids d = Inr (rowcount ?P (db_queue d), d\<lparr>db_queue := ?rs\<rparr>)"
    using False by (simp add: revive_dead_def store_queue_def u_def)
  have "q_id r \<le> db_queue_seq d" if "r \<in> set ?rs" for r
    using that ok by (auto simp: queue_ok_def set_update_where u)
  with \<open>queue_unique ?rs\<close> d have "queue_ok (d\<lparr>db_queue := ?rs\<rparr>)" by (simp add: queue_ok_def)
  moreover have "queue_holds d i v" if "queue_holds (d\<lparr>db_queue := ?rs\<rparr>) i v" for i v
    using that queue_holds_end [of ?P u d i v] by (auto simp: u update_queue_def queue_holds_iff)
  ultimately show ?thesis using eq by blast
qed

lemma revive_recent_ok:
  "queue_ok d \<Longrightarrow> \<exists>n d'. revive_recent_quota_dead now d = Inr (n, d') \<and> queue_ok d'
     \<and> (\<forall>i v. queue_holds d' i v \<longrightarrow> queue_holds d i v)"
  using revive_dead_ok by (simp add: revive_recent_quota_dead_def Let_def)


section \<open>Interpretation\<close>

lemma queue_claim_Some:
  assumes "queue_ok d" and "queue_claim_event a owner d = (Some j, d')"
  shows "\<exists>t. d' = update_queue (\<lambda>x. q_id x = j) (lease_row owner t) d \<and> (\<exists>r \<in> set (db_queue d). q_id r = j \<and> queue_active r)"
proof -
  obtain m ex l now where a: "a = (m, ex, l, now)" by (cases a) auto
  obtain c where c: "next_pending m ex l now owner d = (Some c, d')" "j = cr_id c"
    using assms(2) by (auto simp: a split: prod.splits)
  from next_pending_Some [OF assms(1) c(1)] c(2) show ?thesis
    by (auto simp: queue_due_def queue_active_def)
qed

lemma queue_claim_None: "queue_ok d \<Longrightarrow> queue_claim_event a owner d = (None, d') \<Longrightarrow> d' = d"
  by (cases a) (auto dest: next_pending_None split: prod.splits)

lemma queue_claim_ok: "queue_ok d \<Longrightarrow> queue_ok (snd (queue_claim_event a owner d))"
proof -
  assume ok: "queue_ok d"
  obtain r d' where e: "queue_claim_event a owner d = (r, d')" by (cases "queue_claim_event a owner d")
  show ?thesis
  proof (cases r)
    case None
    with ok e show ?thesis using queue_claim_None [OF ok, of a owner d'] by simp
  next
    case (Some j)
    obtain t q where d': "d' = update_queue (\<lambda>x. q_id x = j) (lease_row owner t) d"
      and q: "q \<in> set (db_queue d)" "q_id q = j" "queue_active q"
      using queue_claim_Some [OF ok e [unfolded Some]] by blast
    have "queue_active x" if "x \<in> set (db_queue d)" "q_id x = j" for x
      using ok q that distinct_key_inj [of q_id "db_queue d" q x] by (auto simp: queue_ok_def)
    then have "queue_ok d'" unfolding d' by (intro update_queue_ok [OF ok]) auto
    then show ?thesis by (simp add: e)
  qed
qed

lemma queue_finish_ok: "queue_ok d \<Longrightarrow> queue_ok (queue_finish_op b i owner d)"
proof (cases "queue_holds d i owner")
  case True
  assume ok: "queue_ok d"
  from queue_finish_held [OF ok True, of b] show ?thesis
  proof (elim disjE exE conjE)
    fix P u assume e: "queue_finish_op b i owner d = update_queue P u d"
      and P: "\<forall>r \<in> set (db_queue d). P r = claimed_by i (Some owner) r"
      and u: "\<forall>r. q_id (u r) = q_id r \<and> q_payload_hash (u r) = q_payload_hash r \<and> q_lease_owner (u r) = None"
    show ?thesis unfolding e
      by (rule update_queue_ok [OF ok]) (use u P in \<open>auto simp: claimed_by_def queue_active_def\<close>)
  qed (simp add: delete_queue_ok [OF ok])
qed (simp add: queue_finish_not_held)

lemma queue_finish_frame:
  assumes ok: "queue_ok d" and h: "queue_holds (queue_finish_op b i owner d) k v"
  shows "queue_holds d k v \<and> (queue_holds d i owner \<longrightarrow> (k, v) \<noteq> (i, owner))"
proof (cases "queue_holds d i owner")
  case True
  from queue_finish_held [OF ok True, of b] show ?thesis
  proof (elim disjE exE conjE)
    assume "queue_finish_op b i owner d = d\<lparr>db_queue := delete_where (claimed_by i (Some owner)) (db_queue d)\<rparr>"
    with h show ?thesis by (auto simp: queue_holds_iff delete_where_def)
  next
    fix P u assume e: "queue_finish_op b i owner d = update_queue P u d"
      and P: "\<forall>r \<in> set (db_queue d). P r = claimed_by i (Some owner) r"
      and u: "\<forall>r. q_id (u r) = q_id r \<and> q_payload_hash (u r) = q_payload_hash r \<and> q_lease_owner (u r) = None"
    obtain r where "r \<in> set (db_queue d)" "\<not> P r" "claimed_by k (Some v) r"
      using h u unfolding e by (subst (asm) queue_holds_end) auto
    with P show ?thesis by (auto simp: queue_holds_iff)
  qed
next
  case False
  with h show ?thesis by (simp add: queue_finish_not_held)
qed

lemma queue_other_ok:
  assumes ok: "queue_ok d"
  shows "queue_ok (queue_other_event x d)"
    and "queue_holds (queue_other_event x d) k v \<Longrightarrow> queue_holds d k v"
proof -
  have "queue_ok (queue_other_event x d) \<and> (queue_holds (queue_other_event x d) k v \<longrightarrow> queue_holds d k v)"
  proof (cases x)
    case (QEnqueue rt now p)
    show ?thesis
      by (rule enqueue_cases [OF ok, of rt now p])
        (use ok in \<open>auto simp: QEnqueue queue_holds_iff claimed_by_def\<close>)
  next
    case (QReviveDead ids)
    then show ?thesis using revive_dead_ok [OF ok, of ids] by auto
  next
    case (QReviveQuota now)
    then show ?thesis using revive_recent_ok [OF ok, of now] by auto
  next
    case (QOtherTables d0)
    then show ?thesis using ok by (simp add: queue_ok_def queue_holds_iff)
  qed
  then show "queue_ok (queue_other_event x d)"
    and "queue_holds (queue_other_event x d) k v \<Longrightarrow> queue_holds d k v" by blast+
qed

interpretation transcripts: leased_queue queue_ok queue_holds queue_claim_event queue_finish_event queue_other_event
proof unfold_locales
  fix s a t j s' assume "queue_ok s" "queue_claim_event a t s = (Some j, s')"
  then show "queue_holds s' j t" using queue_claim_Some by (fastforce simp: queue_holds_lease)
next
  fix s a t j s' u assume "queue_ok s" "queue_claim_event a t s = (Some j, s')" "queue_holds s' j u"
  then show "u = t" using queue_claim_Some by (fastforce simp: queue_holds_lease)
next
  fix s a t r s' i u assume s: "queue_ok s" "queue_claim_event a t s = (r, s')" "queue_holds s' i u" "u \<noteq> t"
  show "queue_holds s i u"
  proof (cases r)
    case None
    then show ?thesis using s queue_claim_None by blast
  next
    case (Some j)
    then show ?thesis using s queue_claim_Some [of s a t j s'] by (auto simp: queue_holds_lease split: if_splits)
  qed
qed (auto simp: queue_finish_event_def queue_finish_not_held queue_claim_ok queue_finish_ok queue_other_ok(1)
      dest: queue_finish_frame queue_other_ok(2))

abbreviation queue_run ::
  "(int \<times> int list \<times> rat \<times> rat, queue_finish, queue_call, int, string) lease_event list \<Rightarrow> db \<Rightarrow> db" where
  "queue_run \<equiv> lease_run queue_claim_event queue_finish_event queue_other_event"

section \<open>The claims\<close>


text \<open>Once another owner has claimed a transcript, whatever is committed in between, the old
  owner's completion, failure report, quota report and release all report failure and change nothing.\<close>

theorem stale_owner_fenced:
  assumes ok: "queue_ok d" and c: "next_pending m ex l now owner d = (Some c, d1)" and "old \<noteq> owner"
    and es: "\<forall>e \<in> set es. \<not> claims_with old e"
  shows "mark_done (cr_id c) (Some old) (queue_run es d1) = (False, queue_run es d1)
    \<and> mark_failed t (cr_id c) err n (Some old) (queue_run es d1) = (0, queue_run es d1)
    \<and> mark_quota_failed t (cr_id c) err nb (Some old) (queue_run es d1) = (False, queue_run es d1)
    \<and> release_claim (cr_id c) old (queue_run es d1) = (False, queue_run es d1)"
proof -
  let ?d = "queue_run es d1" and ?i = "cr_id c"
  have e: "queue_claim_event (m, ex, l, now) owner d = (Some ?i, d1)" using c by simp
  have nh: "\<not> queue_holds ?d ?i old"
    using transcripts.fenced [OF ok e \<open>old \<noteq> owner\<close> es, of MarkDone] by (simp add: queue_finish_event_def)
  note same = queue_finish_not_held [OF nh]
  have none: "rowcount (claimed_by ?i (Some old)) (db_queue ?d) = 0"
    using nh by (auto simp: rowcount_0_iff queue_holds_iff)
  have row: "q_status r \<noteq> QProcessing \<or> q_lease_owner r \<noteq> Some old" if "queue_row_by_id ?i ?d = Some r" for r
    using nh first_row_Some [OF that [unfolded queue_row_by_id_def]] by (auto simp: queue_holds_iff claimed_by_def)
  show ?thesis
    using same [of MarkDone] same [of ReleaseClaim] none row
    by (auto simp: mark_done_def release_claim_def mark_failed_def mark_quota_failed_def split: option.splits)
qed

text \<open>A claim returns none exactly when no due row is left outside the excluded ids; otherwise
  it returns the due row with the least id, leases it to the caller for the lease period, and
  changes nothing else.\<close>

theorem next_pending_oldest:
  assumes ok: "queue_ok d" and n: "next_pending m ex l now owner d = (res, d')"
  shows "case res of
      None \<Rightarrow> d' = d \<and> (\<forall>r \<in> set (db_queue d). queue_due m now r \<longrightarrow> q_id r \<in> set ex)
    | Some c \<Rightarrow> \<exists>r \<in> set (db_queue d). queue_due m now r \<and> q_id r \<notin> set ex
        \<and> (\<forall>s \<in> set (db_queue d). queue_due m now s \<and> q_id s \<notin> set ex \<longrightarrow> q_id r \<le> q_id s)
        \<and> c = \<lparr>cr_id = q_id r, cr_payload = q_payload r, cr_attempts = q_attempts r,
               cr_lease_owner = owner, cr_lease_until = now + l\<rparr>
        \<and> d' = update_queue (\<lambda>x. q_id x = q_id r) (lease_row owner (now + l)) d"
proof (cases res)
  case None
  with next_pending_None [OF ok] n show ?thesis by auto
next
  case (Some c)
  with next_pending_Some [OF ok] n show ?thesis by auto
qed


lemma enqueue_again:
  assumes ok: "queue_ok d"
  shows "\<exists>i d'. enqueue rt now p d = Inr (i, d') \<and> enqueue rt later p d' = Inr (i, d')
     \<and> (\<exists>r \<in> set (db_queue d'). q_id r = i \<and> queue_active r)"
proof -
  let ?p = "utf8_tail max_payload_bytes p"
  let ?h = "rt_sha256 rt ?p"
  let ?P = "\<lambda>r. queue_active r \<and> (q_payload_hash r = Some ?h \<or> q_payload_hash r = None \<and> q_payload r = ?p)"
  show ?thesis
  proof (cases "first_row ?P (queue_order d)")
    case (Some r)
    then have e: "enqueue rt t p d = Inr (q_id r, d)" for t by (simp add: enqueue_def Let_def)
    show ?thesis
      by (rule exI [of _ "q_id r"], rule exI [of _ d]) (use e first_row_Some [OF Some] in auto)
  next
    case None
    let ?r = "new_queue_row now (db_queue_seq d + 1) ?p ?h"
    let ?d = "d\<lparr>db_queue := db_queue d @ [?r], db_queue_seq := db_queue_seq d + 1\<rparr>"
    have none: "\<not> ?P r" if "r \<in> set (db_queue d)" for r
      using None that by (simp add: first_row_None_iff)
    then have "\<forall>r \<in> set (db_queue d). active_hash r \<noteq> Some ?h" by (auto simp: active_hash_def)
    note ins = insert_queue_row_ok [OF ok this, of now ?p]
    have e: "enqueue rt now p d = Inr (db_queue_seq d + 1, ?d)"
      by (simp add: enqueue_def Let_def None ins(1))
    have act: "queue_active ?r" by (simp add: queue_active_def)
    have dd: "distinct (map q_id (queue_order ?d))" by (rule queue_order_distinct [OF ins(2)])
    have "first_row ?P (queue_order ?d) = Some ?r"
    proof (rule first_row_distinct [OF dd])
      show "?r \<in> set (queue_order ?d)" by simp
      show "?P ?r" using act by simp
      show "q_id s = q_id ?r" if "s \<in> set (queue_order ?d)" "?P s" for s
        using that none [of s] by auto
    qed
    then have "enqueue rt later p ?d = Inr (db_queue_seq d + 1, ?d)" by (simp add: enqueue_def Let_def)
    then show ?thesis using e act by (intro exI [of _ "db_queue_seq d + 1"] exI [of _ ?d]) simp
  qed
qed

text \<open>On a well formed queue an enqueue always succeeds with an active row, and enqueuing
  the same payload again while the row is active returns the same id and changes nothing.\<close>

theorem enqueue_idempotent:
  assumes "queue_ok d"
  shows "\<exists>i d'. enqueue rt now p d = Inr (i, d') \<and> enqueue rt later p d' = Inr (i, d')
     \<and> (\<exists>r \<in> set (db_queue d'). q_id r = i \<and> queue_active r) \<and> queue_ok d'"
proof -
  obtain i d' where e: "enqueue rt now p d = Inr (i, d')" "enqueue rt later p d' = Inr (i, d')"
    "\<exists>r \<in> set (db_queue d'). q_id r = i \<and> queue_active r" using enqueue_again [OF assms] by blast
  have "queue_ok d'"
    by (rule enqueue_cases [OF assms, of rt now p]) (use e(1) assms in auto)
  with e show ?thesis by blast
qed

text \<open>Retrying the durable enqueue of the same transcript, after a crash or not, returns the
  same queue row with the same digest as replayed and stores nothing; the stored payload is within
  the size limit.\<close>

theorem enqueue_after_commit_replay:
  assumes ok: "queue_ok d"
    and e: "enqueue_after_commit rt now False ctx tr src sc md d = Inr (res, d')"
  shows "enqueue_after_commit rt later False ctx tr src sc md d' = Inr (res\<lparr>er_replayed := True\<rparr>, d')
    \<and> queue_ok d'
    \<and> (\<exists>r \<in> set (db_queue d'). q_id r = er_queue_id res \<and> queue_active r
         \<and> q_payload_hash r = Some (er_payload_sha256 res))
    \<and> (er_replayed res \<or> (\<forall>r \<in> set (db_queue d'). q_id r = er_queue_id res
         \<longrightarrow> length (utf8_encode (q_payload r)) \<le> max_payload_bytes))"
proof -
  define transcript source scope where f: "transcript = py_strip tr" "source = py_strip src" "scope = py_strip sc"
  define payload where "payload = json_dumps (rt_float_repr rt) canonical_unicode
      (extraction_envelope ctx transcript source scope md)"
  define digest where "digest = rt_sha256 rt payload"
  let ?P = "\<lambda>r. q_payload_hash r = Some digest \<and> queue_active r"
  have g: "\<not> (transcript = [] \<or> source = [] \<or> scope = [])" "scope \<in> set (cc_access_scopes ctx)"
    "\<not> max_payload_bytes < length (utf8_encode payload)"
    using e unfolding enqueue_after_commit_def f [symmetric] Let_def payload_def [symmetric]
    by (auto split: if_splits)
  have run: "enqueue_after_commit rt t False ctx tr src sc md x = (case first_row ?P (queue_order x) of
      Some r \<Rightarrow> Inr (\<lparr>er_queue_id = q_id r, er_payload_sha256 = digest, er_replayed = True\<rparr>, x)
    | None \<Rightarrow> rbind (insert_queue_row t payload digest x) (\<lambda>(i, y).
        Inr (\<lparr>er_queue_id = i, er_payload_sha256 = digest, er_replayed = False\<rparr>, y)))" for t x
    using g unfolding enqueue_after_commit_def f [symmetric] Let_def payload_def [symmetric]
      digest_def [symmetric] by simp
  show ?thesis
  proof (cases "first_row ?P (queue_order d)")
    case (Some r)
    then have r: "d' = d" "res = \<lparr>er_queue_id = q_id r, er_payload_sha256 = digest, er_replayed = True\<rparr>"
      using e by (simp_all add: run)
    with first_row_Some [OF Some] Some ok show ?thesis by (auto simp: run)
  next
    case None
    let ?r = "new_queue_row now (db_queue_seq d + 1) payload digest"
    have none: "\<forall>r \<in> set (db_queue d). \<not> ?P r" using None by (simp add: first_row_None_iff)
    then have "\<forall>r \<in> set (db_queue d). active_hash r \<noteq> Some digest" by (auto simp: active_hash_def)
    note ins = insert_queue_row_ok [OF ok this, of now payload]
    have r: "d' = d\<lparr>db_queue := db_queue d @ [?r], db_queue_seq := db_queue_seq d + 1\<rparr>"
      "res = \<lparr>er_queue_id = db_queue_seq d + 1, er_payload_sha256 = digest, er_replayed = False\<rparr>"
      using e None ins(1) by (simp_all add: run)
    have ok': "queue_ok d'" unfolding r(1) by (rule ins(2))
    then have dd: "distinct (map q_id (queue_order d'))" by (rule queue_order_distinct)
    have "first_row ?P (queue_order d') = Some ?r"
      by (rule first_row_distinct [OF dd]) (use none in \<open>auto simp: r(1) queue_active_def\<close>)
    then have "enqueue_after_commit rt later False ctx tr src sc md d' = Inr (res\<lparr>er_replayed := True\<rparr>, d')"
      by (simp add: run r(2))
    moreover have "length (utf8_encode (q_payload q)) \<le> max_payload_bytes"
      if q: "q \<in> set (db_queue d')" "q_id q = er_queue_id res" for q
    proof -
      have "q = ?r" using ok q by (auto simp: r queue_ok_def)
      then have "q_payload q = payload" by simp
      with g(3) show ?thesis by simp
    qed
    moreover have "?r \<in> set (db_queue d')" "queue_active ?r" "q_id ?r = er_queue_id res"
      "q_payload_hash ?r = Some (er_payload_sha256 res)" by (simp_all add: r queue_active_def)
    ultimately show ?thesis using ok' by blast
  qed
qed

text \<open>The first index migration: at most one active row per payload has the hash.\<close>

lemma hash_rows_active:
  assumes "\<forall>r \<in> set rs. q_payload_hash r = None"
  shows "distinct (active_hashes (hash_rows rt seen rs))
     \<and> set (active_hashes (hash_rows rt seen rs)) \<inter> set seen = {}
     \<and> (\<forall>r \<in> set rs. queue_active r \<longrightarrow>
          rt_sha256 rt (q_payload r) \<in> set seen \<union> set (active_hashes (hash_rows rt seen rs)))"
  using assms
proof (induction rs arbitrary: seen)
  case (Cons r rs)
  let ?h = "rt_sha256 rt (q_payload r)"
  have act: "queue_active (r\<lparr>q_payload_hash := x\<rparr>) = queue_active r" for x by (simp add: queue_active_def)
  show ?case
  proof (cases "queue_active r \<and> ?h \<notin> set seen")
    case True
    with Cons.IH [of "?h # seen"] Cons.prems show ?thesis
      by (auto simp: active_hashes_def active_hash_def act Let_def)
  next
    case False
    with Cons.IH [of seen] Cons.prems show ?thesis
      by (auto simp: active_hashes_def active_hash_def act Let_def)
  qed
qed (simp add: active_hashes_def)

lemma hash_rows_ids: "map q_id (hash_rows rt seen rs) = map q_id rs"
  by (induction rs arbitrary: seen) (auto simp: Let_def)

text \<open>Provisioning the unique index on a table whose rows have no hash yet never fails,
  gives a well formed queue with the same rows, and leaves no active payload without an active row
  that has its hash.\<close>

theorem payload_index_migration:
  assumes none: "\<forall>r \<in> set (db_queue d). q_payload_hash r = None"
    and ids: "distinct (map q_id (db_queue d))" "\<forall>r \<in> set (db_queue d). q_id r \<le> db_queue_seq d"
  shows "\<exists>d'. ensure_payload_index rt False d = Inr d' \<and> queue_ok d'
     \<and> map q_id (db_queue d') = sort (map q_id (db_queue d))
     \<and> (\<forall>r \<in> set (db_queue d). queue_active r \<longrightarrow>
          (\<exists>s \<in> set (db_queue d'). active_hash s = Some (rt_sha256 rt (q_payload r))))"
proof -
  let ?rs = "hash_rows rt [] (queue_order d)"
  have q: "distinct (active_hashes ?rs)"
    "\<forall>r \<in> set (db_queue d). queue_active r \<longrightarrow> rt_sha256 rt (q_payload r) \<in> set (active_hashes ?rs)"
    using hash_rows_active [of "queue_order d" rt "[]"] none by auto
  have e: "ensure_payload_index rt False d = Inr (d\<lparr>db_queue := ?rs\<rparr>)"
    using q(1) by (simp add: ensure_payload_index_def store_queue_def queue_unique_def)
  have m: "map q_id ?rs = sort (map q_id (db_queue d))"
    unfolding hash_rows_ids queue_order_def
    by (rule properties_for_sort [symmetric]) simp_all
  have "q_id r \<le> db_queue_seq d" if "r \<in> set ?rs" for r
  proof -
    have "q_id r \<in> set (map q_id ?rs)" using that by simp
    then show ?thesis using ids(2) by (auto simp: m)
  qed
  moreover have "distinct (map q_id ?rs)" using ids(1) by (simp add: m)
  ultimately have "queue_ok (d\<lparr>db_queue := ?rs\<rparr>)" using q(1) by (simp add: queue_ok_def queue_unique_def)
  moreover have "\<exists>s \<in> set ?rs. active_hash s = Some (rt_sha256 rt (q_payload r))"
    if "r \<in> set (db_queue d)" "queue_active r" for r
  proof -
    have "rt_sha256 rt (q_payload r) \<in> set (active_hashes ?rs)" using q(2) that by blast
    then show ?thesis by (auto simp: active_hashes_def List.map_filter_def)
  qed
  ultimately show ?thesis using e m by auto
qed

text \<open>A quota error never schedules a retry sooner than the smallest jitter, and one that
  names its window never before the window reopens.\<close>

theorem quota_delay_bounds:
  assumes "60 \<le> jitter" and "jitter \<le> 300"
  shows "60 \<le> quota_retry_delay now jitter err
    \<and> (\<forall>e g. err = Some e \<and> search_reset ''resets_in_seconds'' 1 None e = Some g
         \<longrightarrow> of_nat (digits_value g) < quota_retry_delay now jitter err)
    \<and> (\<forall>e g. err = Some e \<and> search_reset ''resets_in_seconds'' 1 None e = None
           \<and> search_reset ''resets_at'' 9 (Some 12) e = Some g
         \<longrightarrow> of_nat (digits_value g) < now + quota_retry_delay now jitter err)"
  using assms by (auto simp: quota_retry_delay_def Let_def max_def split: option.splits)


section \<open>Witnesses\<close>

text \<open>Two transcripts, the first leased to a worker until second 100, and a dead row.\<close>

definition demo_queue_db :: db where
  "demo_queue_db = empty_db\<lparr>db_queue_seq := 3,
     db_queue := [lease_row ''w1'' 100 (new_queue_row 0 1 ''one'' ''one''),
                  new_queue_row 0 2 ''two'' ''two'',
                  (new_queue_row 0 3 ''two'' ''two'')\<lparr>q_status := QDead\<rparr>]\<rparr>"

lemma demo_queue_ok: "queue_ok demo_queue_db"
  by (simp add: queue_ok_def demo_queue_db_def empty_db_def queue_unique_def active_hashes_def active_hash_def
      queue_active_def List.map_filter_def new_queue_row_def lease_row_def)


theorem stale_owner_fenced_witness:
  "case next_pending 3 [] 60 200 ''w2'' demo_queue_db of
     (Some c, d1) \<Rightarrow> cr_id c = 1 \<and> mark_done 1 (Some ''w1'') (queue_run [EvOther (QReviveDead None)] d1)
        = (False, queue_run [EvOther (QReviveDead None)] d1)
   | _ \<Rightarrow> False"
proof -
  have "case next_pending 3 [] 60 200 ''w2'' demo_queue_db of (Some c, d1) \<Rightarrow> cr_id c = 1 | _ \<Rightarrow> False"
    by code_simp
  then obtain c d1 where c: "next_pending 3 [] 60 200 ''w2'' demo_queue_db = (Some c, d1)" "cr_id c = 1"
    by (auto split: option.splits)
  have "\<forall>e \<in> set [EvOther (QReviveDead None)]. \<not> claims_with ''w1'' e" by simp
  from stale_owner_fenced [OF demo_queue_ok c(1) _ this] c show ?thesis by simp
qed

theorem next_pending_oldest_witness:
  "\<exists>c d'. next_pending 3 [] 60 50 ''w2'' demo_queue_db = (Some c, d') \<and> cr_id c = 2"
proof -
  obtain res d' where n: "next_pending 3 [] 60 50 ''w2'' demo_queue_db = (res, d')" by fastforce
  from next_pending_oldest [OF demo_queue_ok n] n show ?thesis
    by (auto simp: demo_queue_db_def empty_db_def queue_due_def new_queue_row_def lease_row_def
        split: option.splits)
qed

theorem enqueue_idempotent_witness:
  "\<exists>i d'. enqueue demo_runtime 5 ''three'' demo_queue_db = Inr (i, d')
     \<and> enqueue demo_runtime 9 ''three'' d' = Inr (i, d')"
  using enqueue_idempotent [OF demo_queue_ok, of demo_runtime 5 "''three''" 9] by blast

theorem enqueue_after_commit_replay_witness:
  "case enqueue_after_commit demo_runtime 5 False demo_context ''hello'' ''chat'' ''private'' [] demo_queue_db of
     Inr (res, d') \<Rightarrow> enqueue_after_commit demo_runtime 9 False demo_context ''hello'' ''chat'' ''private'' [] d'
        = Inr (res\<lparr>er_replayed := True\<rparr>, d')
   | _ \<Rightarrow> False"
proof -
  have "case enqueue_after_commit demo_runtime 5 False demo_context ''hello'' ''chat'' ''private'' [] demo_queue_db of
      Inr (res, d') \<Rightarrow> True | _ \<Rightarrow> False" by code_simp
  then obtain res d' where e: "enqueue_after_commit demo_runtime 5 False demo_context ''hello'' ''chat'' ''private'' []
      demo_queue_db = Inr (res, d')" by (auto split: sum.splits)
  from enqueue_after_commit_replay [OF demo_queue_ok e, of 9] show ?thesis by (simp add: e)
qed

theorem payload_index_migration_witness:
  "\<exists>d'. ensure_payload_index demo_runtime False
      (empty_db\<lparr>db_queue_seq := 2, db_queue := [(new_queue_row 0 1 ''x'' ''x'')\<lparr>q_payload_hash := None\<rparr>,
        (new_queue_row 0 2 ''x'' ''x'')\<lparr>q_payload_hash := None\<rparr>]\<rparr>) = Inr d' \<and> queue_ok d'"
  using payload_index_migration [of "empty_db\<lparr>db_queue_seq := 2,
      db_queue := [(new_queue_row 0 1 ''x'' ''x'')\<lparr>q_payload_hash := None\<rparr>,
        (new_queue_row 0 2 ''x'' ''x'')\<lparr>q_payload_hash := None\<rparr>]\<rparr>" demo_runtime]
  by (auto simp: empty_db_def)

theorem payload_tail_exact_witness:
  "\<exists>p. ''abcd'' = p @ utf8_tail 2 ''abcd'' \<and> length (utf8_encode (utf8_tail 2 ''abcd'')) \<le> 2"
  using payload_tail_exact [of "''abcd''" 2] by blast

theorem quota_delay_bounds_witness:
  "90 < quota_retry_delay 0 60 (Some ''resets_in_seconds: 90'')"
proof -
  have s: "search_reset ''resets_in_seconds'' 1 None ''resets_in_seconds: 90'' = Some ''90''" by code_simp
  have "digits_value ''90'' = 90" by code_simp
  with quota_delay_bounds [of 60 0 "Some ''resets_in_seconds: 90''"] s show ?thesis by auto
qed

end
