(* ===== verification/Extraction_Leases.thy ===== *)
theory Extraction_Leases
  imports Extraction_Processor Queue_Guarantees
begin

text \<open>
  Claims and leases of extraction processing: which row a claim takes, the interpretation of
  \<open>leased_queue\<close> on the processor's own statements, and that a worker whose lease was taken over can
  no longer change its row.
\<close>

section \<open>Claims\<close>

text \<open>The row after a claim, and a row whose attempts are used up.\<close>

definition taken_row :: "processor \<Rightarrow> rat \<Rightarrow> string \<Rightarrow> queue_row \<Rightarrow> queue_row" where
  "taken_row p now t r = r\<lparr>q_status := QProcessing, q_attempts := q_attempts r + 1,
     q_lease_owner := Some (ep_worker_id p), q_lease_until := Some (now + ep_lease_seconds p),
     q_lease_token := Some t\<rparr>"

definition buried :: "processor \<Rightarrow> rat \<Rightarrow> queue_row \<Rightarrow> queue_row" where
  "buried p now r = (if lease_expired now r \<and> ep_max_attempts p \<le> q_attempts r
     then r\<lparr>q_status := QDead, q_last_error := Some ''attempts_exhausted'', q_lease_owner := None,
            q_lease_until := None, q_lease_token := None\<rparr> else r)"

lemma buried_sel [simp]:
  "q_id (buried p now r) = q_id r" "q_attempts (buried p now r) = q_attempts r"
  "q_payload (buried p now r) = q_payload r" "q_payload_hash (buried p now r) = q_payload_hash r"
  by (simp_all add: buried_def)

lemma taken_row_sel [simp]:
  "q_id (taken_row p now t r) = q_id r" "q_attempts (taken_row p now t r) = q_attempts r + 1"
  "q_status (taken_row p now t r) = QProcessing" "q_lease_token (taken_row p now t r) = Some t"
  "q_lease_owner (taken_row p now t r) = Some (ep_worker_id p)"
  "q_payload_hash (taken_row p now t r) = q_payload_hash r"
  "q_proposal_json (taken_row p now t r) = q_proposal_json r"
  "q_proposal_hash (taken_row p now t r) = q_proposal_hash r"
  by (simp_all add: taken_row_def)

lemma bury_expired_map: "db_queue (bury_expired p now d) = map (buried p now) (db_queue d)"
  by (simp add: bury_expired_def update_queue_def update_where_def buried_def)

lemma bury_expired_ok: "queue_ok d \<Longrightarrow> queue_ok (bury_expired p now d)"
  unfolding bury_expired_def by (rule update_queue_ok) (simp_all add: queue_active_def)

lemma claimable_buried: "claimable p now (buried p now r) \<longleftrightarrow> claimable p now r"
  by (auto simp: claimable_def buried_def lease_expired_def)

lemma claimable_not_buried: "claimable p now r \<Longrightarrow> buried p now r = r"
  by (simp add: claimable_def buried_def)

lemma claim_transcript_None:
  "claim_transcript rt p now t d = (Inr None, d1) \<Longrightarrow>
     d1 = bury_expired p now d \<and> (\<forall>r \<in> set (db_queue d). \<not> claimable p now r)"
  by (auto simp: claim_transcript_def Let_def first_row_None_iff bury_expired_map claimable_buried
      split: option.splits if_splits)

lemma claim_transcript_Some:
  assumes ok: "queue_ok d" and c: "claim_transcript rt p now t d = (Inr (Some ct), d1)"
  obtains r where "r \<in> set (db_queue d)" "claimable p now r"
    "\<And>s. s \<in> set (db_queue d) \<Longrightarrow> claimable p now s \<Longrightarrow> q_id r \<le> q_id s"
    "ct_id ct = q_id r" "ct_payload ct = q_payload r" "ct_attempts ct = q_attempts r + 1" "ct_token ct = t"
    "d1 = d\<lparr>db_queue := map (\<lambda>x. if q_id x = q_id r then taken_row p now t x else buried p now x) (db_queue d)\<rparr>"
proof -
  let ?b = "bury_expired p now d"
  obtain r where f: "first_row (claimable p now) (queue_order ?b) = Some r"
    using c by (auto simp: claim_transcript_def Let_def split: option.splits)
  let ?P = "\<lambda>x. q_id x = q_id r \<and> q_attempts x < ep_max_attempts p"
  let ?u = "\<lambda>x. x\<lparr>q_status := QProcessing, q_attempts := q_attempts r + 1,
      q_lease_owner := Some (ep_worker_id p), q_lease_until := Some (now + ep_lease_seconds p),
      q_lease_token := Some t\<rparr>"
  from first_row_Some [OF f] obtain r0 where r0: "r0 \<in> set (db_queue d)" "r = buried p now r0" "claimable p now r"
    by (auto simp: bury_expired_map)
  then have r: "r \<in> set (db_queue d)" "claimable p now r"
    using claimable_buried claimable_not_buried by force+
  have only: "x = r" if "x \<in> set (db_queue d)" "q_id x = q_id r" for x
    using ok r(1) that distinct_key_inj [of q_id "db_queue d" r x] by (auto simp: queue_ok_def)
  have d1: "d1 = update_queue ?P ?u ?b" "ct_id ct = q_id r" "ct_payload ct = q_payload r"
      "ct_attempts ct = q_attempts r + 1" "ct_token ct = t"
    using c by (auto simp: claim_transcript_def Let_def f split: if_splits)
  have row: "(if ?P (buried p now x) then ?u (buried p now x) else buried p now x)
      = (if q_id x = q_id r then taken_row p now t x else buried p now x)" if "x \<in> set (db_queue d)" for x
  proof (cases "q_id x = q_id r")
    case True
    then have "x = r" using only that by blast
    moreover have "q_attempts r < ep_max_attempts p" using r(2) by (simp add: claimable_def)
    ultimately show ?thesis using claimable_not_buried [OF r(2)] by (simp add: taken_row_def)
  qed simp
  have "d1 = d\<lparr>db_queue := map (\<lambda>x. if q_id x = q_id r then taken_row p now t x else buried p now x) (db_queue d)\<rparr>"
    using row unfolding d1(1) update_queue_def update_where_def bury_expired_map
    by (simp add: bury_expired_def update_queue_def)
  moreover have "q_id r \<le> q_id s" if "s \<in> set (db_queue d)" "claimable p now s" for s
  proof -
    obtain ts where "filter (claimable p now) (sort_key q_id (db_queue ?b)) = r # ts"
      using f unfolding first_row_def queue_order_def by (auto split: list.splits)
    from sort_key_filter_min [OF this, of s] that claimable_not_buried [OF that(2)] show ?thesis
      by (force simp: bury_expired_map)
  qed
  ultimately show thesis using that r d1 by blast
qed

text \<open>A well formed queue always yields a claim where a row is claimable.\<close>

lemma claim_transcript_no_error:
  assumes ok: "queue_ok d"
  shows "claim_transcript rt p now t d \<noteq> (Inl e, d1)"
proof (cases "first_row (claimable p now) (queue_order (bury_expired p now d))")
  case (Some r)
  have "rowcount (\<lambda>x. q_id x = q_id r \<and> q_attempts x < ep_max_attempts p) (db_queue (bury_expired p now d)) = 1"
    using bury_expired_ok [OF ok, of p now] first_row_Some [OF Some]
    by (intro rowcount_distinct_one [where k = q_id and r = r]) (auto simp: queue_ok_def claimable_def)
  then show ?thesis by (simp add: claim_transcript_def Let_def Some)
qed (simp add: claim_transcript_def Let_def)

section \<open>Leases\<close>

definition token_holds :: "db \<Rightarrow> int \<Rightarrow> string \<Rightarrow> bool" where
  "token_holds d i t \<longleftrightarrow> list_ex (\<lambda>r. q_id r = i \<and> q_status r = QProcessing \<and> q_lease_token r = Some t) (db_queue d)"

fun processor_claim :: "runtime \<times> processor \<times> rat \<Rightarrow> string \<Rightarrow> db \<Rightarrow> int option \<times> db" where
  "processor_claim (rt, p, now) t d =
     (case claim_transcript rt p now t d of
        (Inr (Some ct), d') \<Rightarrow> (Some (ct_id ct), d')
      | (_, d') \<Rightarrow> (None, d'))"

datatype processor_finish =
    CompleteTranscript
  | FailTranscript string bool rat

fun processor_settle :: "processor \<times> processor_finish \<Rightarrow> int \<Rightarrow> string \<Rightarrow> db \<Rightarrow> bool \<times> db" where
  "processor_settle (p, CompleteTranscript) i t d =
     (list_ex (fenced p i t) (db_queue d), snd (complete_transcript p i t d))"
| "processor_settle (p, FailTranscript code perm now) i t d =
     (list_ex (fenced p i t) (db_queue d), snd (fail_transcript p i t code perm now d))"

datatype processor_call =
    RenewLease processor int string rat
  | PersistSnapshot processor int string "string \<times> string"
  | QueueCall queue_call

fun processor_other :: "processor_call \<Rightarrow> db \<Rightarrow> db" where
  "processor_other (RenewLease p i t now) d = snd (renew_lease p i t now d)"
| "processor_other (PersistSnapshot p i t s) d = snd (persist_snapshot p i t s d)"
| "processor_other (QueueCall x) d = queue_other_event x d"

lemma token_holds_iff:
  "token_holds d i t \<longleftrightarrow> (\<exists>r \<in> set (db_queue d). q_id r = i \<and> q_status r = QProcessing \<and> q_lease_token r = Some t)"
  by (auto simp: token_holds_def list_ex_iff)

lemma fenced_holds: "r \<in> set (db_queue d) \<Longrightarrow> fenced p i t r \<Longrightarrow> token_holds d i t"
  by (auto simp: token_holds_iff fenced_def)

lemma update_keeps_holds:
  assumes "token_holds (update_queue P u d) i t" and "\<And>r. q_id (u r) = q_id r"
    and "\<And>r. P r \<Longrightarrow> q_status (u r) = QProcessing \<Longrightarrow> q_status r = QProcessing"
    and "\<And>r. P r \<Longrightarrow> q_status (u r) = QProcessing \<Longrightarrow> q_lease_token (u r) = q_lease_token r"
  shows "token_holds d i t"
  using assms(1) unfolding token_holds_iff update_queue_def
  by (auto simp: set_update_where assms(2)) (metis assms(3,4))+

lemma processor_claim_Some:
  assumes "queue_ok d" and "processor_claim (rt, p, now) t d = (Some i, d1)"
  shows "\<exists>r \<in> set (db_queue d). q_id r = i \<and> claimable p now r
    \<and> d1 = d\<lparr>db_queue := map (\<lambda>x. if q_id x = q_id r then taken_row p now t x else buried p now x) (db_queue d)\<rparr>"
proof -
  obtain ct where c: "claim_transcript rt p now t d = (Inr (Some ct), d1)" "i = ct_id ct"
    using assms(2) by (cases "claim_transcript rt p now t d") (auto split: sum.splits option.splits)
  from assms(1) c(1) show ?thesis
    by (rule claim_transcript_Some) (rule bexI, auto simp: c(2))
qed

lemma processor_claim_None:
  assumes "queue_ok d" and "processor_claim (rt, p, now) t d = (None, d1)"
  shows "d1 = bury_expired p now d"
proof -
  obtain x where "claim_transcript rt p now t d = (Inr x, d1)"
    using assms(2) claim_transcript_no_error [OF assms(1), of rt p now t]
    by (cases "claim_transcript rt p now t d") (auto split: sum.splits option.splits)
  then show ?thesis using assms(2) claim_transcript_None [of rt p now t d] by (cases x) auto
qed

lemma buried_holds:
  "token_holds (d\<lparr>db_queue := map (buried p now) (db_queue d)\<rparr>) i t \<Longrightarrow> token_holds d i t"
  by (auto simp: token_holds_iff buried_def split: if_splits)

lemma claim_map_ok:
  assumes "queue_ok d" and "\<And>x. q_id (f x) = q_id x" "\<And>x. q_payload_hash (f x) = q_payload_hash x"
    and "\<And>x. x \<in> set (db_queue d) \<Longrightarrow> queue_active (f x) \<Longrightarrow> queue_active x"
  shows "queue_ok (d\<lparr>db_queue := map f (db_queue d)\<rparr>)"
  using update_queue_ok [OF assms(1), of "\<lambda>_. True" f] assms(2-4) by (simp add: update_queue_def update_where_def)

lemma processor_claim_ok:
  assumes ok: "queue_ok d"
  shows "queue_ok (snd (processor_claim a t d))"
proof -
  obtain rt p now where a: "a = (rt, p, now)" by (rule prod_cases3)
  obtain x d1 where c: "processor_claim (rt, p, now) t d = (x, d1)" by fastforce
  show ?thesis
  proof (cases x)
    case None
    have "d1 = bury_expired p now d" by (rule processor_claim_None [OF ok]) (use c None in simp)
    then show ?thesis using bury_expired_ok [OF ok] c by (simp add: a del: processor_claim.simps)
  next
    case (Some i)
    then obtain r where r: "r \<in> set (db_queue d)" "claimable p now r"
      "d1 = d\<lparr>db_queue := map (\<lambda>x. if q_id x = q_id r then taken_row p now t x else buried p now x) (db_queue d)\<rparr>"
      using processor_claim_Some [OF ok] c by blast
    have "x = r" if "x \<in> set (db_queue d)" "q_id x = q_id r" for x
      using ok r(1) that distinct_key_inj [of q_id "db_queue d" r x] by (auto simp: queue_ok_def)
    then have "queue_ok d1"
      unfolding r(3) using r(2)
      by (intro claim_map_ok [OF ok])
        (auto simp: queue_active_def claimable_def lease_expired_def buried_def split: if_splits)
    then show ?thesis using c by (simp add: a del: processor_claim.simps)
  qed
qed

text \<open>A recorded failure is one update of the fenced row.\<close>

lemma fail_update:
  assumes "first_row (fenced p i t) (db_queue d) = Some row"
  shows "\<exists>u. snd (fail_transcript p i t code perm now d) = update_queue
      (\<lambda>r. q_id r = i \<and> q_lease_owner r = Some (ep_worker_id p) \<and> q_lease_token r = Some t) u d
    \<and> (\<forall>r. q_id (u r) = q_id r \<and> q_payload_hash (u r) = q_payload_hash r \<and> q_status (u r) \<noteq> QProcessing)"
  by (intro exI [of _ "\<lambda>r. r\<lparr>q_attempts := q_attempts row, q_last_error := Some (safe_code (Some code)),
        q_status := (if perm \<or> ep_max_attempts p \<le> q_attempts row then QDead else QPending),
        q_not_before := (if perm \<or> ep_max_attempts p \<le> q_attempts row then None else Some (now + ep_retry_delay p)),
        q_lease_owner := None, q_lease_until := None, q_lease_token := None\<rparr>"])
    (simp add: fail_transcript_def assms Let_def)

lemma settle_none:
  assumes "\<not> list_ex (fenced p i t) (db_queue d)"
  shows "snd (processor_settle (p, b) i t d) = d"
proof -
  have none: "\<not> fenced p i t r" if "r \<in> set (db_queue d)" for r using assms that by (auto simp: list_ex_iff)
  have "first_row (fenced p i t) (db_queue d) = None" using none by (auto simp: first_row_None_iff)
  moreover have "delete_where (fenced p i t) (db_queue d) = db_queue d"
    using none by (auto simp: delete_where_def intro!: filter_True)
  ultimately show ?thesis by (cases b) (simp_all add: complete_transcript_def fail_transcript_def)
qed

lemma settle_ok:
  assumes "queue_ok d"
  shows "queue_ok (snd (processor_settle (p, b) i t d))"
proof (cases b)
  case (FailTranscript code perm now)
  show ?thesis
  proof (cases "first_row (fenced p i t) (db_queue d)")
    case (Some row)
    obtain u where u: "snd (fail_transcript p i t code perm now d) = update_queue
        (\<lambda>r. q_id r = i \<and> q_lease_owner r = Some (ep_worker_id p) \<and> q_lease_token r = Some t) u d"
      "\<And>r. q_id (u r) = q_id r" "\<And>r. q_payload_hash (u r) = q_payload_hash r"
      "\<And>r. q_status (u r) \<noteq> QProcessing"
      using fail_update [OF Some, of code perm now] by blast
    have "r = row" if "r \<in> set (db_queue d)" "q_id r = i" for r
      using assms that first_row_Some [OF Some] distinct_key_inj [of q_id "db_queue d" row r]
      by (auto simp: queue_ok_def fenced_def)
    moreover have "queue_active row" using first_row_Some [OF Some] by (simp add: fenced_def queue_active_def)
    ultimately have act: "queue_active r" if "r \<in> set (db_queue d)" "q_id r = i" for r using that by blast
    show ?thesis
      unfolding FailTranscript processor_settle.simps snd_conv u(1)
      by (rule update_queue_ok [OF assms]) (use u act in auto)
  qed (simp add: FailTranscript fail_transcript_def assms)
qed (simp add: complete_transcript_def delete_queue_ok assms)

lemma settle_frame:
  assumes "token_holds (snd (processor_settle (p, b) i t d)) j u"
  shows "token_holds d j u"
proof (cases b)
  case CompleteTranscript
  then show ?thesis using assms by (auto simp: token_holds_iff complete_transcript_def delete_where_def)
next
  case (FailTranscript code perm now)
  show ?thesis
  proof (cases "first_row (fenced p i t) (db_queue d)")
    case (Some row)
    obtain v where v: "snd (fail_transcript p i t code perm now d) = update_queue
        (\<lambda>r. q_id r = i \<and> q_lease_owner r = Some (ep_worker_id p) \<and> q_lease_token r = Some t) v d"
      "\<And>r. q_id (v r) = q_id r" "\<And>r. q_payload_hash (v r) = q_payload_hash r"
      "\<And>r. q_status (v r) \<noteq> QProcessing"
      using fail_update [OF Some, of code perm now] by blast
    show ?thesis
      using assms unfolding FailTranscript processor_settle.simps snd_conv v(1)
      by (rule update_keeps_holds) (simp_all add: v)
  qed (use assms in \<open>simp add: FailTranscript fail_transcript_def\<close>)
qed

lemma settle_ends:
  assumes ok: "queue_ok d" and f: "list_ex (fenced p i t) (db_queue d)"
  shows "\<not> token_holds (snd (processor_settle (p, b) i t d)) i t"
proof -
  obtain r where r: "r \<in> set (db_queue d)" "fenced p i t r" using f by (auto simp: list_ex_iff)
  have only: "x = r" if "x \<in> set (db_queue d)" "q_id x = i" for x
    using ok r that distinct_key_inj [of q_id "db_queue d" r x] by (auto simp: queue_ok_def fenced_def)
  have fr: "first_row (fenced p i t) (db_queue d) = Some r"
    using ok r by (intro first_row_distinct [where k = q_id]) (auto simp: queue_ok_def fenced_def)
  show ?thesis
  proof (cases b)
    case CompleteTranscript
    then show ?thesis using only r(2) by (auto simp: token_holds_iff complete_transcript_def delete_where_def)
  next
    case (FailTranscript code perm now)
    then show ?thesis
      using only r(2)
      by (auto simp: token_holds_iff fail_transcript_def fr Let_def update_queue_def set_update_where fenced_def)
  qed
qed

lemma processor_other_ok:
  assumes ok: "queue_ok d"
  shows "queue_ok (processor_other x d)"
  using ok
  by (cases x) (auto simp: renew_lease_def persist_snapshot_def Let_def queue_other_ok(1) queue_active_def fenced_def
      intro!: update_queue_ok split: prod.split)

lemma queue_other_frame:
  assumes ok: "queue_ok d" and h: "token_holds (queue_other_event x d) i t"
  shows "token_holds d i t"
proof (cases x)
  case (QEnqueue rt now p)
  from ok show ?thesis
    by (rule enqueue_cases [where rt = rt and now = now and p = p])
      (use h in \<open>auto simp: QEnqueue token_holds_iff\<close>)
next
  case (QReviveDead ids)
  then show ?thesis
    using h by (auto simp: token_holds_iff revive_dead_def store_queue_def set_update_where rbind_eq_Inr
        split: sum.splits if_splits)
next
  case (QReviveQuota now)
  then show ?thesis
    using h by (auto simp: token_holds_iff revive_recent_quota_dead_def revive_dead_def store_queue_def set_update_where
        split: sum.splits if_splits)
next
  case (QOtherTables d0)
  then show ?thesis using h by (simp add: token_holds_def)
qed

lemma processor_other_frame:
  assumes "queue_ok d" and "token_holds (processor_other x d) i t"
  shows "token_holds d i t"
  using assms queue_other_frame
  by (cases x) (auto simp: renew_lease_def persist_snapshot_def Let_def fenced_def
      elim!: update_keeps_holds split: prod.splits if_splits)

interpretation processing: leased_queue queue_ok token_holds processor_claim processor_settle processor_other
proof unfold_locales
  fix s a t j s' assume s: "queue_ok s" "processor_claim a t s = (Some j, s')"
  obtain rt p now where a: "a = (rt, p, now)" by (rule prod_cases3)
  from processor_claim_Some [OF s [unfolded a]] obtain r where "r \<in> set (db_queue s)" "q_id r = j"
    "s' = s\<lparr>db_queue := map (\<lambda>x. if q_id x = q_id r then taken_row p now t x else buried p now x) (db_queue s)\<rparr>"
    by blast
  then show "token_holds s' j t" unfolding token_holds_iff by (intro bexI [of _ "taken_row p now t r"]) auto
next
  fix s a t j s' u assume s: "queue_ok s" "processor_claim a t s = (Some j, s')" "token_holds s' j u"
  obtain rt p now where a: "a = (rt, p, now)" by (rule prod_cases3)
  from processor_claim_Some [OF s(1,2) [unfolded a]] s(3) show "u = t" by (auto simp: token_holds_iff)
next
  fix s a t r s' i u
  assume s: "queue_ok s" "processor_claim a t s = (r, s')" "token_holds s' i u" "u \<noteq> t"
  obtain rt p now where a: "a = (rt, p, now)" by (rule prod_cases3)
  show "token_holds s i u"
  proof (cases r)
    case None
    then have "s' = bury_expired p now s" using s processor_claim_None by (simp add: a)
    then show ?thesis
      using s(3) buried_holds [of p now s i u] bury_expired_map [of p now s] by (simp add: token_holds_def)
  next
    case (Some j)
    from processor_claim_Some [OF s(1) s(2) [unfolded a Some]] obtain q :: queue_row where
      "s' = s\<lparr>db_queue := map (\<lambda>x. if q_id x = q_id q then taken_row p now t x else buried p now x) (db_queue s)\<rparr>"
      by blast
    then show ?thesis using s(3,4) by (auto simp: token_holds_iff buried_def split: if_splits)
  qed
next
  fix s b j t s' assume "processor_settle b j t s = (False, s')"
  then show "s' = s" using settle_none by (cases b; cases "snd b") (metis prod.collapse processor_settle.simps snd_conv prod.inject)+
next
  fix s b j t s' assume "processor_settle b j t s = (True, s')"
  then show "token_holds s j t"
    by (cases b; cases "snd b") (auto simp: list_ex_iff intro: fenced_holds)
next
  fix s b j t s' assume "queue_ok s" "processor_settle b j t s = (True, s')"
  then show "\<not> token_holds s' j t"
    using settle_ends by (cases b; cases "snd b") (metis prod.collapse processor_settle.simps snd_conv prod.inject)+
qed (auto intro: processor_claim_ok processor_other_ok settle_ok settle_frame processor_other_frame)

abbreviation "processing_run \<equiv> lease_run processor_claim processor_settle processor_other"

text \<open>Without the lease every statement of the worker fails and changes nothing.\<close>

lemma unheld_operations:
  assumes "\<not> token_holds d i t"
  shows "complete_transcript p i t d = (Inl (RuntimeError ''extraction lease was lost before completion''), d)"
    and "fail_transcript p i t code perm now d
      = (Inl (RuntimeError ''extraction lease was lost while recording failure''), d)"
    and "renew_lease p i t now d = (Inl (RuntimeError ''extraction lease was lost before renewal''), d)"
    and "persist_snapshot p i t s d
      = (Inl (RuntimeError ''extraction lease was lost before snapshot persistence''), d)"
proof -
  have none: "\<not> fenced p i t r" if "r \<in> set (db_queue d)" for r using assms fenced_holds that by blast
  have "rowcount (\<lambda>r. fenced p i t r \<and> Q r) (db_queue d) = 0" for Q using none by (simp add: rowcount_0_iff)
  moreover have "rowcount (fenced p i t) (db_queue d) = 0" using none by (simp add: rowcount_0_iff)
  moreover have "delete_where (fenced p i t) (db_queue d) = db_queue d"
    using none by (auto simp: delete_where_def intro!: filter_True)
  moreover have "update_queue (\<lambda>r. fenced p i t r \<and> Q r) u d = d" for Q u
    using none by (simp add: update_queue_def update_where_none)
  moreover have "first_row (fenced p i t) (db_queue d) = None" using none by (auto simp: first_row_None_iff)
  ultimately show "complete_transcript p i t d = (Inl (RuntimeError ''extraction lease was lost before completion''), d)"
    and "fail_transcript p i t code perm now d
      = (Inl (RuntimeError ''extraction lease was lost while recording failure''), d)"
    and "renew_lease p i t now d = (Inl (RuntimeError ''extraction lease was lost before renewal''), d)"
    and "persist_snapshot p i t s d
      = (Inl (RuntimeError ''extraction lease was lost before snapshot persistence''), d)"
    by (cases s; simp add: complete_transcript_def fail_transcript_def renew_lease_def persist_snapshot_def Let_def)+
qed

section \<open>A stored snapshot stays\<close>

definition has_snapshot :: "int \<Rightarrow> string \<times> string \<Rightarrow> db \<Rightarrow> bool" where
  "has_snapshot i s d \<longleftrightarrow> i \<le> db_queue_seq d
     \<and> (\<forall>r \<in> set (db_queue d). q_id r = i \<longrightarrow> q_proposal_json r = Some (fst s) \<and> q_proposal_hash r = Some (snd s))"

lemma has_snapshot_map:
  assumes "has_snapshot i s d" and "db_queue d' = map f (db_queue d)" and "db_queue_seq d' = db_queue_seq d"
    and "\<And>r. r \<in> set (db_queue d) \<Longrightarrow> q_id (f r) = i \<Longrightarrow> q_id r = i
      \<and> q_proposal_json (f r) = q_proposal_json r \<and> q_proposal_hash (f r) = q_proposal_hash r"
  shows "has_snapshot i s d'"
  using assms by (force simp: has_snapshot_def)

lemma has_snapshot_update:
  assumes "has_snapshot i s d"
    and "\<And>r. r \<in> set (db_queue d) \<Longrightarrow> P r \<Longrightarrow> q_id (u r) = q_id r
      \<and> (q_id r = i \<longrightarrow> q_proposal_json (u r) = q_proposal_json r \<and> q_proposal_hash (u r) = q_proposal_hash r)"
  shows "has_snapshot i s (update_queue P u d)"
  by (rule has_snapshot_map [OF assms(1), where f = "\<lambda>r. if P r then u r else r"])
    (use assms(2) in \<open>auto simp: update_queue_def update_where_def\<close>)

lemma buried_proposal [simp]:
  "q_proposal_json (buried p now r) = q_proposal_json r" "q_proposal_hash (buried p now r) = q_proposal_hash r"
  by (simp_all add: buried_def)

lemma claim_snapshot:
  assumes ok: "queue_ok d" and h: "has_snapshot i s d"
  shows "has_snapshot i s (snd (processor_claim a t d))"
proof -
  obtain rt p now where a: "a = (rt, p, now)" by (rule prod_cases3)
  obtain x d1 where c: "processor_claim (rt, p, now) t d = (x, d1)" by fastforce
  show ?thesis
  proof (cases x)
    case None
    have "d1 = bury_expired p now d" by (rule processor_claim_None [OF ok]) (use c None in simp)
    moreover have "has_snapshot i s (bury_expired p now d)"
      unfolding bury_expired_def by (rule has_snapshot_update [OF h]) simp
    ultimately show ?thesis using c by (simp add: a del: processor_claim.simps)
  next
    case (Some j)
    then obtain r :: queue_row where
      "d1 = d\<lparr>db_queue := map (\<lambda>x. if q_id x = q_id r then taken_row p now t x else buried p now x) (db_queue d)\<rparr>"
      using processor_claim_Some [OF ok] c by blast
    then have "has_snapshot i s d1"
      by (intro has_snapshot_map [OF h, where f = "\<lambda>x. if q_id x = q_id r then taken_row p now t x else buried p now x"])
        auto
    then show ?thesis using c by (simp add: a del: processor_claim.simps)
  qed
qed

lemma settle_snapshot:
  assumes "has_snapshot i s d"
  shows "has_snapshot i s (snd (processor_settle (p, b) j t d))"
proof (cases b)
  case (FailTranscript code perm now)
  then show ?thesis
    using assms by (simp add: fail_transcript_def Let_def has_snapshot_update split: option.split)
qed (use assms in \<open>simp add: complete_transcript_def has_snapshot_def delete_where_def\<close>)

lemma revive_snapshot: "revive_dead ids d = Inr (n, d') \<Longrightarrow> has_snapshot i s d \<Longrightarrow> has_snapshot i s d'"
  by (auto simp: revive_dead_def store_queue_def has_snapshot_def set_update_where unlease_def rbind_eq_Inr split: if_splits)

lemma other_snapshot:
  assumes ok: "queue_ok d" and h: "has_snapshot i s d"
  shows "has_snapshot i s (processor_other x d)"
proof (cases x)
  case (RenewLease p j t now)
  then show ?thesis using h by (simp add: renew_lease_def Let_def has_snapshot_update)
next
  case (PersistSnapshot p j t s')
  have "has_snapshot i s (update_queue
      (\<lambda>r. fenced p j t r \<and> q_proposal_json r = None \<and> q_proposal_hash r = None) u d)"
    if "\<And>r. q_id (u r) = q_id r" for u
    by (rule has_snapshot_update [OF h]) (use h that in \<open>auto simp: has_snapshot_def\<close>)
  then show ?thesis using h PersistSnapshot by (cases s') (simp add: persist_snapshot_def Let_def)
next
  case (QueueCall y)
  show ?thesis
  proof (cases y)
    case (QEnqueue rt now p)
    from ok show ?thesis
      by (rule enqueue_cases [where rt = rt and now = now and p = p])
        (use h in \<open>auto simp: QueueCall QEnqueue has_snapshot_def\<close>)
  next
    case (QReviveDead ids)
    then show ?thesis using h revive_snapshot by (auto simp: QueueCall split: sum.split)
  next
    case (QReviveQuota now)
    then show ?thesis
      using h revive_snapshot
      by (auto simp: QueueCall revive_recent_quota_dead_def Let_def split: sum.split if_splits)
  next
    case (QOtherTables d0)
    then show ?thesis using h by (simp add: QueueCall has_snapshot_def)
  qed
qed

lemma run_snapshot:
  "queue_ok d \<Longrightarrow> has_snapshot i s d \<Longrightarrow> has_snapshot i s (processing_run es d)"
proof (induction es arbitrary: d)
  case (Cons e es)
  have "has_snapshot i s (lease_step processor_claim processor_settle processor_other e d)"
  proof (cases e)
    case (EvFinish b j t)
    then show ?thesis using settle_snapshot [OF Cons.prems(2)] by (cases b) (metis lease_step.simps(2))
  qed (use Cons.prems claim_snapshot other_snapshot in auto)
  then show ?case using Cons.IH processing.step_inv [OF Cons.prems(1)] by simp
qed simp

lemma persist_has_snapshot:
  assumes ok: "queue_ok d" and p: "persist_snapshot p i t s d = (Inr u, d')"
  shows "has_snapshot i s d' \<and> queue_ok d'"
proof -
  obtain j h where s: "s = (j, h)" by (cases s)
  let ?P = "\<lambda>r. fenced p i t r \<and> q_proposal_json r = None \<and> q_proposal_hash r = None"
  have d': "d' = update_queue ?P (\<lambda>r. r\<lparr>q_proposal_json := Some j, q_proposal_hash := Some h\<rparr>) d"
    and "rowcount ?P (db_queue d) = 1"
    using p by (auto simp: persist_snapshot_def s Let_def split: if_splits)
  then obtain r where r: "r \<in> set (db_queue d)" "?P r" using rowcount_pos_ex [of ?P "db_queue d"] by auto
  have only: "?P x" if "x \<in> set (db_queue d)" "q_id x = i" for x
  proof -
    have "x = r" using ok r that distinct_key_inj [of q_id "db_queue d" r x] by (auto simp: queue_ok_def fenced_def)
    then show ?thesis using r by simp
  qed
  have "q_proposal_json y = Some j \<and> q_proposal_hash y = Some h" if y: "y \<in> set (db_queue d')" "q_id y = i" for y
  proof -
    obtain x where x: "x \<in> set (db_queue d)"
      "y = (if ?P x then x\<lparr>q_proposal_json := Some j, q_proposal_hash := Some h\<rparr> else x)"
      using y(1) by (auto simp: d' update_queue_def update_where_def)
    then have "q_id x = i" using y(2) by (cases "?P x") simp_all
    then show ?thesis using x(2) only [OF x(1)] by simp
  qed
  moreover have "i \<le> db_queue_seq d'" using ok r by (auto simp: d' update_queue_def queue_ok_def fenced_def)
  ultimately have "has_snapshot i s d'" by (simp add: s has_snapshot_def)
  moreover have "queue_ok d'" unfolding d' by (rule update_queue_ok [OF ok]) (simp_all add: queue_active_def fenced_def)
  ultimately show ?thesis by simp
qed

lemma claimed_load:
  assumes ok: "queue_ok d" and c: "claim_transcript rt p now t d = (Inr (Some ct), d1)"
    and h: "has_snapshot (ct_id ct) s d" and q: "db_queue d2 = db_queue d1"
  shows "load_snapshot p (ct_id ct) t d2 = Inr (Some s)"
proof -
  obtain r where r: "r \<in> set (db_queue d)" "ct_id ct = q_id r"
    and d1: "d1 = d\<lparr>db_queue := map (\<lambda>x. if q_id x = q_id r then taken_row p now t x else buried p now x) (db_queue d)\<rparr>"
    using ok c by (rule claim_transcript_Some) (rule that)
  have "map q_id (db_queue d1) = map q_id (db_queue d)" by (simp add: d1)
  then have "distinct (map q_id (db_queue d1))" using ok by (simp add: queue_ok_def)
  moreover have "taken_row p now t r \<in> set (db_queue d1)" using r(1) by (force simp: d1)
  ultimately have "first_row (fenced p (q_id r) t) (db_queue d1) = Some (taken_row p now t r)"
    by (rule first_row_distinct) (auto simp: fenced_def)
  then show ?thesis using h r by (simp add: load_snapshot_def q has_snapshot_def)
qed

section \<open>Properties\<close>

text \<open>C22: once a transcript was claimed under another token, no sequence of claims, settlements and other queue
  statements lets the old worker complete, fail or renew it or store proposals: each call raises its
  lost-lease error and changes nothing.\<close>

theorem stale_processor_fenced:
  assumes "queue_ok d" and "claim_transcript rt p now u d = (Inr (Some ct), d1)" and "t \<noteq> u"
    and "\<forall>e \<in> set es. \<not> claims_with t e" and d2: "d2 = processing_run es d1"
  shows "complete_transcript q (ct_id ct) t d2 = (Inl (RuntimeError ''extraction lease was lost before completion''), d2)
    \<and> fail_transcript q (ct_id ct) t code perm now' d2
        = (Inl (RuntimeError ''extraction lease was lost while recording failure''), d2)
    \<and> renew_lease q (ct_id ct) t now' d2 = (Inl (RuntimeError ''extraction lease was lost before renewal''), d2)
    \<and> persist_snapshot q (ct_id ct) t s d2
        = (Inl (RuntimeError ''extraction lease was lost before snapshot persistence''), d2)"
proof -
  have c: "processor_claim (rt, p, now) u d = (Some (ct_id ct), d1)" using assms(2) by simp
  have "queue_ok d1" using processing.claim_inv [OF assms(1), of "(rt, p, now)" u] by (simp add: c del: processor_claim.simps)
  moreover have "\<not> token_holds d1 (ct_id ct) t" using processing.claim_sole [OF assms(1) c] assms(3) by blast
  ultimately have "\<not> token_holds d2 (ct_id ct) t" using processing.no_new_lease [OF _ assms(4)] d2 by blast
  from unheld_operations [OF this] show ?thesis by blast
qed

section \<open>Witnesses\<close>

definition demo_worker :: "string \<Rightarrow> processor" where
  "demo_worker w = \<lparr>ep_worker_id = w, ep_identity = ''model'', ep_max_attempts = 3, ep_lease_seconds = 60,
     ep_heartbeat_seconds = 20, ep_retry_delay = 1\<rparr>"

definition demo_transcripts :: db where
  "demo_transcripts = empty_db\<lparr>db_queue_seq := 2,
     db_queue := [(new_queue_row 0 1 ''one'' ''one'')\<lparr>q_status := QProcessing, q_attempts := 1,
                     q_lease_owner := Some ''w1'', q_lease_until := Some 100, q_lease_token := Some ''t1''\<rparr>,
                  new_queue_row 0 2 ''two'' ''two'']\<rparr>"

lemma demo_transcripts_ok: "queue_ok demo_transcripts"
  by (simp add: queue_ok_def demo_transcripts_def empty_db_def queue_unique_def active_hashes_def active_hash_def
      queue_active_def List.map_filter_def new_queue_row_def)

theorem stale_processor_fenced_witness:
  "case claim_transcript demo_runtime (demo_worker ''w2'') 200 ''t2'' demo_transcripts of
     (Inr (Some ct), d1) \<Rightarrow> ct_id ct = 1
       \<and> complete_transcript (demo_worker ''w1'') 1 ''t1'' (processing_run [EvOther (QueueCall (QReviveDead None))] d1)
         = (Inl (RuntimeError ''extraction lease was lost before completion''),
            processing_run [EvOther (QueueCall (QReviveDead None))] d1)
   | _ \<Rightarrow> False"
proof -
  have "case claim_transcript demo_runtime (demo_worker ''w2'') 200 ''t2'' demo_transcripts of
      (Inr (Some ct), d1) \<Rightarrow> ct_id ct = 1 | _ \<Rightarrow> False" by code_simp
  then obtain ct d1 where c: "claim_transcript demo_runtime (demo_worker ''w2'') 200 ''t2'' demo_transcripts
      = (Inr (Some ct), d1)" "ct_id ct = 1"
    by (cases "claim_transcript demo_runtime (demo_worker ''w2'') 200 ''t2'' demo_transcripts")
      (auto split: sum.splits option.splits)
  have "\<forall>e \<in> set [EvOther (QueueCall (QReviveDead None))]. \<not> claims_with ''t1'' e" by simp
  from stale_processor_fenced [OF demo_transcripts_ok c(1) _ this refl, of "demo_worker ''w1''"] c show ?thesis by simp
qed

end
