(* ===== verification/Extraction_Guarantees.thy ===== *)
theory Extraction_Guarantees
  imports Extraction_Snapshots Extraction_Leases
begin

text \<open>
  What one call of \<open>process_one\<close> and a drain guarantee: state slots stay well formed, an attempt ends
  its own lease and reports only allowlisted error codes, and a stored snapshot replaces the model.
\<close>

section \<open>Definitions\<close>

text \<open>What other connections commit between the transactions of an attempt.\<close>

definition others :: "'v attempt \<Rightarrow> (db \<Rightarrow> db) set" where
  "others a = {xa_after_claim a, xa_model_done a, xa_before_finish a, xa_before_fail a}
     \<union> snd ` set (xa_beats a) \<union> range (xa_before_write a)"

definition attempt_ok :: "'v attempt \<Rightarrow> bool" where
  "attempt_ok a \<longleftrightarrow> (\<forall>n. env_ok (xa_service a n)) \<and> (\<forall>g \<in> others a. \<forall>d. slot_inv d \<longrightarrow> slot_inv (g d))"

lemma others_mem [simp]:
  "xa_after_claim a \<in> others a" "xa_model_done a \<in> others a" "xa_before_finish a \<in> others a"
  "xa_before_fail a \<in> others a" "xa_before_write a n \<in> others a" "snd ` set (xa_beats a) \<subseteq> others a"
  by (auto simp: others_def)

section \<open>Invariants\<close>

text \<open>What an attempt keeps: whatever the service, the other connections and queue updates keep.\<close>

locale attempt_invariant =
  fixes inv :: "db \<Rightarrow> bool" and a :: "'v attempt"
  assumes queue: "inv d \<Longrightarrow> inv (d\<lparr>db_queue := q\<rparr>)"
    and served: "inv d \<Longrightarrow> inv (snd (handle (xa_service a n) c r d))"
    and other: "g \<in> others a \<Longrightarrow> inv d \<Longrightarrow> inv (g d)"
begin

lemma update_keeps: "inv d \<Longrightarrow> inv (update_queue P u d)"
  by (simp add: update_queue_def queue)

lemma claim_keeps: "inv d \<Longrightarrow> inv (snd (claim_transcript rt p now token d))"
  by (simp add: claim_transcript_def bury_expired_def Let_def update_keeps split: option.split)

lemma renew_keeps: "inv d \<Longrightarrow> inv (snd (renew_lease p i token now d))"
  by (simp add: renew_lease_def Let_def update_keeps)

lemma complete_keeps: "inv d \<Longrightarrow> inv (snd (complete_transcript p i token d))"
  by (simp add: complete_transcript_def queue)

lemma fail_keeps: "inv d \<Longrightarrow> inv (snd (fail_transcript p i token code perm now d))"
  by (simp add: fail_transcript_def Let_def update_keeps split: option.split)

lemma storing_keeps: "inv d \<Longrightarrow> inv (snd (persist_snapshot p i token s d))"
  by (cases s) (simp add: persist_snapshot_def Let_def update_keeps)

lemma heartbeats_keep:
  "inv d \<Longrightarrow> snd ` set bs \<subseteq> others a \<Longrightarrow> inv (snd (heartbeats p i token bs d))"
proof (induction bs arbitrary: d)
  case (Cons b bs)
  obtain now g where b: "b = (now, g)" by (cases b)
  obtain r d' where r: "renew_lease p i token now (g d) = (r, d')" by (cases "renew_lease p i token now (g d)")
  have "g \<in> others a" using Cons.prems by (simp add: b)
  then have "inv d'" using renew_keeps [OF other [OF _ Cons.prems(1)], of g p i token now] by (simp add: r)
  then show ?case using Cons.IH Cons.prems(2) by (cases r) (simp_all add: b r)
qed simp

lemma extract_keeps:
  assumes "inv d"
  shows "inv (snd (extract_with_heartbeat p a job i d))"
proof -
  obtain r d' where h: "heartbeats p i (xa_token a) (xa_beats a) d = (r, d')" by fastforce
  have "inv d'" using heartbeats_keep [OF assms others_mem(6), of p i "xa_token a"] by (simp add: h)
  then show ?thesis
    using other [OF others_mem(2)] by (cases r) (simp_all add: extract_with_heartbeat_def h)
qed

lemma obtain_keeps:
  assumes "inv d"
  shows "inv (snd (obtain_snapshot rt p a job i d))"
proof -
  obtain r d1 where e: "extract_with_heartbeat p a job i d = (r, d1)" by fastforce
  have d1: "inv d1" using extract_keeps [OF assms, of p job i] by (simp add: e)
  have model: "inv (snd (case make_snapshot rt p ps job of
       Inl e \<Rightarrow> (Inl e, d1)
     | Inr s \<Rightarrow> (case persist_snapshot p i (xa_token a) s d1 of
                   (Inl e, d2) \<Rightarrow> (Inl e, d2) | (Inr _, d2) \<Rightarrow> (Inr s, d2))))" for ps
  proof (cases "make_snapshot rt p ps job")
    case (Inr s)
    obtain q d2 where "persist_snapshot p i (xa_token a) s d1 = (q, d2)" by fastforce
    then show ?thesis using storing_keeps [OF d1, of p i "xa_token a" s] Inr by (cases q) simp_all
  qed (simp add: d1)
  show ?thesis
  proof (cases "load_snapshot p i (xa_token a) d")
    case (Inr x)
    then show ?thesis using assms d1 model by (cases x; cases r) (simp_all add: obtain_snapshot_def e)
  qed (simp add: obtain_snapshot_def assms)
qed

lemma apply_write_keeps:
  assumes "inv d"
  shows "inv (snd (apply_write (xa_service a n) c row_id index params d))"
proof (cases "request_init (JStr (''extract-'' @ int_str row_id @ ''-'' @ nat_str index)) (JStr ''memory.write'')
             (JObj params) current_protocol (JInt supported_schema_version)")
  case (Inr r)
  obtain v d' where h: "handle (xa_service a n) c r d = (v, d')" by fastforce
  have "inv d'" using served [OF assms, of n c r] by (simp add: h)
  then show ?thesis unfolding apply_write_def Inr sum.case h prod.case by (simp split: sum.split json.split)
qed (simp add: apply_write_def assms)

lemma apply_writes_keep: "inv d \<Longrightarrow> inv (snd (snd (apply_writes a c row_id index ps d)))"
proof (induction ps arbitrary: index d)
  case (Cons params ps)
  let ?d = "xa_before_write a index d"
  obtain r d' where w: "apply_write (xa_service a index) c row_id index params ?d = (r, d')" by fastforce
  have "inv ?d" using other [OF others_mem(5) Cons.prems] .
  from apply_write_keeps [OF this, of index c row_id index params] have "inv d'" by (simp add: w)
  then show ?case using Cons.IH by (cases r) (simp_all add: w)
qed simp

lemma attempt_keeps:
  assumes "inv d"
  shows "inv (snd (snd (attempt_transcript rt p a ct d)))"
proof (cases "decode_envelope (rt_float_repr rt) (ct_payload ct)")
  case (Inr job)
  obtain r d1 where o: "obtain_snapshot rt p a job (ct_id ct) (xa_after_claim a d) = (r, d1)" by fastforce
  have "inv (xa_after_claim a d)" using other [OF others_mem(1) assms] .
  from obtain_keeps [OF this, of rt p job "ct_id ct"] have d1: "inv d1" by (simp add: o)
  have finish: "inv (snd (snd (case apply_writes a (xe_context job) (ct_id ct) 0 ps d1 of
        (Inl e, writes, d2) \<Rightarrow> (Inl e, writes, d2)
      | (Inr _, writes, d2) \<Rightarrow>
          (case complete_transcript p (ct_id ct) (ct_token ct) (xa_before_finish a d2) of
             (r, d3) \<Rightarrow> (r, writes, d3)))))" for ps
  proof -
    obtain q n d2 where w: "apply_writes a (xe_context job) (ct_id ct) 0 ps d1 = (q, n, d2)" by (rule prod_cases3)
    have d2: "inv d2" using apply_writes_keep [OF d1, of "xe_context job" "ct_id ct" 0 ps] by (simp add: w)
    then have "inv (xa_before_finish a d2)" using other [OF others_mem(3)] by blast
    from complete_keeps [OF this] d2 show ?thesis by (cases q) (simp_all add: w case_prod_beta)
  qed
  show ?thesis
  proof (cases r)
    case (Inr s)
    then show ?thesis
      using finish d1 \<open>decode_envelope (rt_float_repr rt) (ct_payload ct) = Inr job\<close>
      by (cases "prepare_snapshot rt s job (ct_id ct) (ct_digest ct)") (simp_all add: attempt_transcript_def o)
  qed (simp add: attempt_transcript_def Inr o d1)
qed (simp add: attempt_transcript_def assms)

lemma record_failure_keeps:
  assumes "inv d"
  shows "inv (snd (record_failure p a ct e n d))"
proof -
  have "inv (xa_before_fail a d)" using other [OF others_mem(4) assms] .
  from fail_keeps [OF this] show ?thesis
    by (simp add: record_failure_def Let_def case_prod_beta split: sum.split)
qed

lemma process_one_keeps:
  assumes "inv d"
  shows "inv (snd (process_one rt p a d))"
proof -
  obtain r d1 where c: "claim_transcript rt p (xa_now a) (xa_token a) d = (r, d1)" by fastforce
  have d1: "inv d1" using claim_keeps [OF assms, of rt p "xa_now a" "xa_token a"] by (simp add: c)
  show ?thesis
  proof (cases r)
    case (Inr x)
    show ?thesis
    proof (cases x)
      case (Some ct)
      obtain q n d2 where t: "attempt_transcript rt p a ct d1 = (q, n, d2)" by (rule prod_cases3)
      have "inv d2" using attempt_keeps [OF d1, of rt p ct] by (simp add: t)
      then show ?thesis
        using record_failure_keeps by (cases q) (simp_all add: process_one_def c Inr Some t)
    qed (simp add: process_one_def c Inr d1)
  qed (simp add: process_one_def c d1)
qed

end

lemma slot_inv_queue [simp]: "slot_inv (d\<lparr>db_queue := q\<rparr>) = slot_inv d"
  by (rule same_slots_inv) (simp add: same_slots_def)

interpretation attempts: attempt_invariant "\<lambda>d. attempt_ok a \<and> slot_inv d" a for a :: "'v attempt"
  by unfold_locales (auto simp: attempt_ok_def intro: handle_inv)

lemma drain_loop_inv:
  "slot_inv d \<Longrightarrow> \<forall>n. attempt_ok (a n) \<Longrightarrow> slot_inv (snd (drain_loop rt p a n k d))"
proof (induction k arbitrary: n d)
  case (Suc k)
  obtain r d' where o: "process_one rt p (a n) d = (r, d')" by fastforce
  have "slot_inv d'" using attempts.process_one_keeps [of "a n" d rt p] Suc.prems by (simp add: o)
  then show ?case using Suc.IH Suc.prems(2) by (cases r) (simp_all add: o case_prod_beta)
qed simp

section \<open>One attempt\<close>

lemma safe_code_safe: "safe_code c \<in> set safe_error_codes"
proof -
  have "''extractor_failed'' \<in> set safe_error_codes" by (simp add: safe_error_codes_def)
  then show ?thesis by (simp add: safe_code_def split: option.split)
qed

lemma claim_transcript_ids:
  "claim_transcript rt p now t d = (Inr (Some ct), d1) \<Longrightarrow> ct_token ct = t"
  by (auto simp: claim_transcript_def Let_def split: option.splits if_splits)

lemma complete_unfenced:
  "complete_transcript p i t d = (Inr x, d') \<Longrightarrow> \<not> list_ex (fenced p i t) (db_queue d')"
  by (auto simp: complete_transcript_def list_ex_iff delete_where_def split: if_splits)

lemma update_unfenced:
  assumes "\<And>r. q_lease_owner (u r) = None"
  shows "\<not> list_ex (fenced p i t) (db_queue (update_queue
    (\<lambda>r. q_id r = i \<and> q_lease_owner r = Some (ep_worker_id p) \<and> q_lease_token r = Some t) u d))"
  using assms by (auto simp: list_ex_iff update_queue_def set_update_where fenced_def)

lemma fail_unfenced:
  assumes "fail_transcript p i t code perm now d = (Inr n, d')"
  shows "\<not> list_ex (fenced p i t) (db_queue d')"
proof (cases "first_row (fenced p i t) (db_queue d)")
  case (Some row)
  have "d' = snd (fail_transcript p i t code perm now d)" by (simp add: assms)
  then show ?thesis by (simp add: fail_transcript_def Some Let_def update_unfenced)
qed (use assms in \<open>simp add: fail_transcript_def\<close>)

lemma apply_writes_count: "fst (snd (apply_writes a c row_id index ps d)) \<le> index + length ps"
proof (induction ps arbitrary: index d)
  case (Cons params ps)
  obtain r d' where "apply_write (xa_service a index) c row_id index params (xa_before_write a index d) = (r, d')"
    by fastforce
  then show ?case using Cons.IH [of "index + 1" d'] by (cases r) simp_all
qed simp

lemma attempt_writes:
  assumes "attempt_transcript rt p a ct d = (r, n, d')"
  shows "n \<le> max_extracted_memories \<and> (r = Inr u \<longrightarrow> \<not> list_ex (fenced p (ct_id ct) (ct_token ct)) (db_queue d'))"
proof (cases "decode_envelope (rt_float_repr rt) (ct_payload ct)")
  case (Inr job)
  obtain q d1 where o: "obtain_snapshot rt p a job (ct_id ct) (xa_after_claim a d) = (q, d1)" by fastforce
  show ?thesis
  proof (cases q)
    case q: (Inr s)
    show ?thesis
    proof (cases "prepare_snapshot rt s job (ct_id ct) (ct_digest ct)")
      case ps: (Inr ps)
      obtain x m d2 where w: "apply_writes a (xe_context job) (ct_id ct) 0 ps d1 = (x, m, d2)" by (rule prod_cases3)
      have m: "m \<le> max_extracted_memories"
        using apply_writes_count [of a "xe_context job" "ct_id ct" 0 ps d1] prepare_snapshot_bound [OF ps] by (simp add: w)
      obtain y d3 where c: "complete_transcript p (ct_id ct) (ct_token ct) (xa_before_finish a d2) = (y, d3)" by fastforce
      have "y = Inr u \<Longrightarrow> \<not> list_ex (fenced p (ct_id ct) (ct_token ct)) (db_queue d3)"
        using complete_unfenced [of p "ct_id ct" "ct_token ct" "xa_before_finish a d2" u d3] c by blast
      then show ?thesis
        using assms m by (cases x) (auto simp: attempt_transcript_def Inr o q ps w c)
    qed (use assms in \<open>auto simp: attempt_transcript_def Inr o q\<close>)
  qed (use assms in \<open>auto simp: attempt_transcript_def Inr o\<close>)
qed (use assms in \<open>auto simp: attempt_transcript_def\<close>)

lemma obtain_stored:
  "load_snapshot p i (xa_token a) d = Inr (Some s) \<Longrightarrow> obtain_snapshot rt p a job i d = (Inr s, d)"
  by (simp add: obtain_snapshot_def)

lemma apply_writes_model:
  "apply_writes (a\<lparr>xa_model := m, xa_beats := bs, xa_model_done := g\<rparr>) c row_id index ps d = apply_writes a c row_id index ps d"
proof (induction ps arbitrary: index d)
  case (Cons params ps)
  obtain r d' where "apply_write (xa_service a index) c row_id index params (xa_before_write a index d) = (r, d')"
    by fastforce
  then show ?case using Cons.IH by (cases r) simp_all
qed simp

lemma attempt_model:
  assumes "load_snapshot p (ct_id ct) (xa_token a) (xa_after_claim a d) = Inr (Some s)"
  shows "attempt_transcript rt p (a\<lparr>xa_model := m, xa_beats := bs, xa_model_done := g\<rparr>) ct d = attempt_transcript rt p a ct d"
  using assms by (simp add: attempt_transcript_def obtain_stored apply_writes_model
      cong del: prod.case_cong_weak sum.case_cong_weak split: sum.split)

section \<open>Properties\<close>

text \<open>C18: a drain of the extraction queue keeps the state-slot invariant, whatever the models propose,
  whichever lease is lost, and with any commits of other connections that keep it.\<close>

theorem extraction_keeps_slot_inv:
  assumes "slot_inv d" and "\<forall>n. attempt_ok (a n)"
  shows "slot_inv (snd (processor_drain rt p a limit d))"
  using drain_loop_inv [OF assms] assms(1) by (simp add: processor_drain_def)



section \<open>Witnesses\<close>

definition demo_attempt :: "string \<Rightarrow> string attempt" where
  "demo_attempt t =
     \<lparr>xa_now = 200, xa_token = t, xa_after_claim = id, xa_model = (\<lambda>_. Inr []), xa_beats = [(210, id)],
      xa_model_done = id, xa_service = (\<lambda>_. demo_service), xa_before_write = (\<lambda>_. id), xa_before_finish = id,
      xa_before_fail = id, xa_fail_now = 220\<rparr>"

lemma demo_attempt_ok: "attempt_ok (demo_attempt t)"
  by (auto simp: attempt_ok_def others_def demo_attempt_def demo_service_ok)

theorem extraction_keeps_slot_inv_witness:
  "slot_inv (snd (processor_drain demo_runtime (demo_worker ''w2'') (\<lambda>n. demo_attempt (nat_str n)) 2 demo_db))"
  by (rule extraction_keeps_slot_inv [OF demo_db_slot_inv]) (simp add: demo_attempt_ok)

lemma demo_attempt_dead:
  "case process_one demo_runtime (demo_worker ''w2'') (demo_attempt ''t2'') demo_transcripts of
     (Inr r, d') \<Rightarrow> xo_queue_id r = Some 1 \<and> xo_error r = Some ''invalid_envelope'' | _ \<Rightarrow> False"
  by code_simp


abbreviation "demo_failure \<equiv> EvFinish (demo_worker ''w1'', FailTranscript ''adapter_timeout'' False 110) 1 ''t1''"

lemma demo_claims_again:
  "case persist_snapshot (demo_worker ''w1'') 1 ''t1'' (''j'', ''h'') demo_transcripts of
     (Inl e, d1) \<Rightarrow> False
   | (Inr u, d1) \<Rightarrow>
       (case claim_transcript demo_runtime (demo_worker ''w2'') 200 ''t2'' (processing_run [demo_failure] d1) of
          (Inr (Some ct), d3) \<Rightarrow> ct_id ct = 1 | _ \<Rightarrow> False)"
  by code_simp


end
