(* ===== verification/Cluster_Merge.thy ===== *)
theory Cluster_Merge
  imports Near_Dedup "HOL-Library.While_Combinator"
begin

text \<open>
  The offline half of \<open>cluster_merge.py\<close>: clusters of near-duplicate facts by union-find, the survivor
  of a cluster, the merge plan and its guarded execution. Arguments stand for numpy's cosine of two
  stored vectors (whose blobs have the length their dimension says), \<open>os.path.realpath\<close>, whether the backup exists, and SQLite's integrity checks. The
  optional vector index and the WAL checkpoint are not in the model.
\<close>

section \<open>Union-find\<close>

text \<open>
  The dict of parents is a function; ids that are no keys are never looked up. The loops of \<open>find\<close> are
  \<open>while_option\<close>: \<open>None\<close> would be a loop that does not end.
\<close>

definition uf_find :: "(int \<Rightarrow> int) \<Rightarrow> int \<Rightarrow> (int \<times> (int \<Rightarrow> int)) option" where
  "uf_find parent x =
     Option.bind (while_option (\<lambda>r. parent r \<noteq> r) parent x) (\<lambda>rep0.
     map_option (\<lambda>s. (rep0, fst s))
       (while_option (\<lambda>s. fst s (snd s) \<noteq> rep0) (\<lambda>s. ((fst s)(snd s := rep0), fst s (snd s))) (parent, x)))"

definition uf_union :: "(int \<Rightarrow> int) \<Rightarrow> int \<Rightarrow> int \<Rightarrow> (int \<Rightarrow> int) option" where
  "uf_union parent a b =
     Option.bind (uf_find parent a) (\<lambda>(ra, p1).
     Option.bind (uf_find p1 b) (\<lambda>(rb, p2).
     Some (if ra \<noteq> rb then p2(ra := rb) else p2)))"

text \<open>The pairs \<open>(i, j)\<close> with \<open>i < j\<close> whose similarity reaches the threshold, in the order of the loops.\<close>

fun similar_pairs :: "('a \<Rightarrow> 'a \<Rightarrow> bool) \<Rightarrow> 'a list \<Rightarrow> ('a \<times> 'a) list" where
  "similar_pairs sim [] = []"
| "similar_pairs sim (x # xs) = map (Pair x) (filter (sim x) xs) @ similar_pairs sim xs"

fun union_all :: "(int \<Rightarrow> int) \<Rightarrow> (int \<times> int) list \<Rightarrow> (int \<Rightarrow> int) option" where
  "union_all parent [] = Some parent"
| "union_all parent ((a, b) # ps) = Option.bind (uf_union parent a b) (\<lambda>p. union_all p ps)"

text \<open>\<open>groups.setdefault(root, []).append(fid)\<close>\<close>

fun group_append :: "int \<Rightarrow> int \<Rightarrow> (int \<times> int list) list \<Rightarrow> (int \<times> int list) list" where
  "group_append rep0 x [] = [(rep0, [x])]"
| "group_append rep0 x ((r, ms) # gs) =
     (if r = rep0 then (r, ms @ [x]) # gs else (r, ms) # group_append rep0 x gs)"

fun uf_groups :: "(int \<Rightarrow> int) \<Rightarrow> int list \<Rightarrow> (int \<times> int list) list \<Rightarrow> (int \<times> int list) list option" where
  "uf_groups parent [] groups = Some groups"
| "uf_groups parent (x # xs) groups =
     Option.bind (uf_find parent x) (\<lambda>(rep0, p). uf_groups p xs (group_append rep0 x groups))"

section \<open>Clusters\<close>

definition superseded_prefixes :: "string list" where
  "superseded_prefixes = [''superseded'', ''stale/disabled'', ''historical/superseded'']"

definition is_legacy_superseded :: "string \<Rightarrow> bool" where
  "is_legacy_superseded content \<longleftrightarrow>
     list_ex (\<lambda>p. starts_with p (py_lower (py_lstrip content))) superseded_prefixes"

text \<open>\<open>invalid_at\<close> of a row, \<open>NULL\<close> where the table has no such column.\<close>

definition invalid_of :: "db \<Rightarrow> fact \<Rightarrow> string option" where
  "invalid_of d f = (if ''invalid_at'' \<in> set (db_fact_columns d) then f_invalid_at f else None)"

definition merge_active :: "db \<Rightarrow> fact \<Rightarrow> bool" where
  "merge_active d f \<longleftrightarrow> invalid_of d f = None \<and> \<not> is_legacy_superseded (f_content f)"

definition active_fact_ids :: "db \<Rightarrow> int list" where
  "active_fact_ids d = map f_id (filter (merge_active d) (db_facts d))"

text \<open>\<open>identity.replace(":query:", ":document:")\<close>\<close>

fun replace_query :: "string \<Rightarrow> string" where
  "replace_query [] = []"
| "replace_query (c # s) =
     (if starts_with '':query:'' (c # s) then '':document:'' @ replace_query (drop 6 s) else c # replace_query s)"

definition with_identity :: "string option \<Rightarrow> embedding_row \<Rightarrow> bool" where
  "with_identity identity e \<longleftrightarrow> (truthy identity \<longrightarrow> Some (e_identity e) = identity)"

definition embedding_dim :: "string option \<Rightarrow> db \<Rightarrow> int" where
  "embedding_dim identity d =
     (case first_row (with_identity identity) (db_embeddings d) of None \<Rightarrow> 0 | Some e \<Rightarrow> e_dim e)"

text \<open>The rows of the embedding matrix; a stored identity is never \<open>NULL\<close>.\<close>

definition matrix_rows :: "string option \<Rightarrow> db \<Rightarrow> embedding_row list" where
  "matrix_rows identity d =
     filter (\<lambda>e. e_dim e = embedding_dim identity d \<and> with_identity (map_option replace_query identity) e)
       (db_embeddings d)"

definition cluster_rows :: "string option \<Rightarrow> db \<Rightarrow> embedding_row list" where
  "cluster_rows identity d = filter (\<lambda>e. e_fact_id e \<in> set (active_fact_ids d)) (matrix_rows identity d)"

definition build_clusters ::
  "(string \<Rightarrow> string \<Rightarrow> rat) \<Rightarrow> rat \<Rightarrow> string option \<Rightarrow> db \<Rightarrow> int list list option" where
  "build_clusters cosine threshold identity d =
     (let rows = cluster_rows identity d; ids = map e_fact_id rows in
      if length ids < 2 then Some []
      else
        Option.bind (union_all (\<lambda>i. i) (map (map_prod e_fact_id e_fact_id)
            (similar_pairs (\<lambda>e f. threshold \<le> cosine (e_embedding e) (e_embedding f)) rows))) (\<lambda>p.
        map_option (\<lambda>gs. filter (\<lambda>ms. 2 \<le> length ms) (map snd gs)) (uf_groups p ids [])))"

section \<open>Survivors\<close>

definition fact_rows :: "db \<Rightarrow> int list \<Rightarrow> fact list res" where
  "fact_rows d ids =
     map_res (\<lambda>i. case fact_by_id d i of None \<Rightarrow> Inl (KeyError (int_str i)) | Some f \<Rightarrow> Inr f) ids"

definition merge_score :: "fact \<Rightarrow> rat" where
  "merge_score f = f_trust_score f * of_int (f_retrieval_count f)"

definition ranks_before :: "fact \<Rightarrow> fact \<Rightarrow> bool" where
  "ranks_before f g \<longleftrightarrow>
     merge_score g < merge_score f \<or> merge_score f = merge_score g \<and> f_created_at f < f_created_at g"

text \<open>\<open>min(candidates, key=...)\<close>: the first of the least.\<close>

fun first_least :: "fact \<Rightarrow> fact list \<Rightarrow> fact" where
  "first_least f [] = f"
| "first_least f (g # gs) = first_least (if ranks_before g f then g else f) gs"

definition survivor_of :: "db \<Rightarrow> string \<Rightarrow> fact list \<Rightarrow> (int \<times> int list) res" where
  "survivor_of d cutoff rows =
     (let active = filter (merge_active d) rows;
          rows' = (if active \<noteq> [] then active else rows);
          pre_existing = filter (\<lambda>f. f_created_at f < cutoff) rows';
          flood = filter (\<lambda>f. cutoff \<le> f_created_at f) rows';
          candidates = (if pre_existing \<noteq> [] \<and> flood \<noteq> [] then pre_existing else rows') in
      case candidates of
        [] \<Rightarrow> Inl (ValueError ''min() iterable argument is empty'')
      | f # fs \<Rightarrow>
          let survivor = f_id (first_least f fs) in
          Inr (survivor, filter (\<lambda>i. i \<noteq> survivor) (map f_id rows')))"

definition choose_survivor :: "db \<Rightarrow> int list \<Rightarrow> string \<Rightarrow> (int \<times> int list) res" where
  "choose_survivor d ids cutoff = rbind (fact_rows d ids) (survivor_of d cutoff)"

section \<open>The plan\<close>

record cluster_merge =
  cm_survivor_id :: int
  cm_loser_ids :: "int list"
  cm_merged_retrieval_count :: int
  cm_merged_helpful_count :: int
  cm_merged_tags :: string
  cm_suspicious :: bool

record merge_plan =
  mp_clusters :: "cluster_merge list"
  mp_starting_fact_count :: int

definition drop_count :: "merge_plan \<Rightarrow> int" where
  "drop_count plan = sum_list (map (\<lambda>c. int (length (cm_loser_ids c))) (mp_clusters plan))"

definition projected_final_count :: "merge_plan \<Rightarrow> int" where
  "projected_final_count plan = mp_starting_fact_count plan - drop_count plan"

definition merge_tags :: "string list \<Rightarrow> string" where
  "merge_tags tag_strings =
     py_join '','' (dict_fromkeys (filter (\<lambda>t. t \<noteq> []) (map py_strip (concat (map (py_split (CHR '','')) tag_strings)))))"

definition plan_cluster :: "db \<Rightarrow> string \<Rightarrow> int \<Rightarrow> int list \<Rightarrow> cluster_merge res" where
  "plan_cluster d cutoff suspicious_size members =
     rbind (choose_survivor d members cutoff) (\<lambda>(survivor, losers).
     rbind (fact_rows d members) (\<lambda>rows.
     Inr \<lparr>cm_survivor_id = survivor, cm_loser_ids = losers,
          cm_merged_retrieval_count = sum_list (map f_retrieval_count rows),
          cm_merged_helpful_count = sum_list (map f_helpful_count rows),
          cm_merged_tags = merge_tags (map f_tags rows),
          cm_suspicious = suspicious_size < int (length members)\<rparr>))"

definition plan_merge ::
  "(string \<Rightarrow> string \<Rightarrow> rat) \<Rightarrow> rat \<Rightarrow> string \<Rightarrow> string option \<Rightarrow> int \<Rightarrow> db \<Rightarrow> merge_plan res option" where
  "plan_merge cosine threshold cutoff identity suspicious_size d =
     map_option (\<lambda>clusters.
       rbind (map_res (plan_cluster d cutoff suspicious_size) clusters) (\<lambda>cs.
       Inr \<lparr>mp_clusters = cs, mp_starting_fact_count = int (length (db_facts d))\<rparr>))
     (build_clusters cosine threshold identity d)"

section \<open>Execution\<close>

record merge_result =
  mr_dry_run :: bool
  mr_drop_count :: int
  mr_projected_final_count :: int
  mr_final_fact_count :: "int option"
  mr_integrity_ok :: "bool option"
  mr_fts_integrity_ok :: "bool option"

text \<open>\<open>path.replace("\", "/").split("/")\<close>\<close>

definition path_parts :: "string \<Rightarrow> string list" where
  "path_parts path = py_split (CHR ''/'') (map (\<lambda>c. if c = CHR 0x5C then CHR ''/'' else c) path)"

definition refuse_if_live_path :: "(string \<Rightarrow> string) \<Rightarrow> string \<Rightarrow> unit res" where
  "refuse_if_live_path realpath path =
     (if ''.hermes'' \<in> set (path_parts path) \<or> ''.hermes'' \<in> set (path_parts (realpath path))
      then Inl (GuardRailError (''refusing to run against a path under .hermes ('' @ path
             @ ''); this tool only ever runs against a copy''))
      else Inr ())"

definition delete_loser :: "int \<Rightarrow> db \<Rightarrow> db" where
  "delete_loser i d = d\<lparr>db_facts := delete_where (\<lambda>f. f_id f = i) (db_facts d),
     db_embeddings := delete_where (\<lambda>e. e_fact_id e = i) (db_embeddings d),
     db_fact_entities := delete_where (\<lambda>x. fst x = i) (db_fact_entities d)\<rparr>"

definition apply_cluster :: "cluster_merge \<Rightarrow> db \<Rightarrow> db" where
  "apply_cluster c d =
     fold delete_loser (cm_loser_ids c)
       (d\<lparr>db_facts := update_where (\<lambda>f. f_id f = cm_survivor_id c)
            (\<lambda>f. f\<lparr>f_retrieval_count := cm_merged_retrieval_count c,
                   f_helpful_count := cm_merged_helpful_count c, f_tags := cm_merged_tags c\<rparr>) (db_facts d)\<rparr>)"

definition apply_merge :: "merge_plan \<Rightarrow> db \<Rightarrow> db" where
  "apply_merge plan d = fold apply_cluster (mp_clusters plan) d"

record merge_options =
  mo_db_path :: string
  mo_threshold :: rat
  mo_flood_cutoff :: string
  mo_embedding_identity :: "string option"
  mo_backup_path :: string
  mo_expected_drop_min :: int
  mo_expected_drop_max :: int
  mo_dry_run :: bool
  mo_suspicious_cluster_size :: int
  mo_max_drop_fraction :: rat

record merge_host =
  mh_cosine :: "string \<Rightarrow> string \<Rightarrow> rat"
  mh_realpath :: "string \<Rightarrow> string"
  mh_exists :: "string \<Rightarrow> bool"
  mh_percent :: "rat \<Rightarrow> string"
  mh_integrity_ok :: "db \<Rightarrow> bool"
  mh_fts_ok :: "db \<Rightarrow> bool"

definition check_guard_rails :: "merge_host \<Rightarrow> merge_options \<Rightarrow> merge_plan \<Rightarrow> unit res" where
  "check_guard_rails mh opts plan =
     rbind (guard_res (mh_exists mh (mo_backup_path opts))
              (GuardRailError (''refusing to run: backup file does not exist ('' @ mo_backup_path opts @ '')''))) (\<lambda>_.
     rbind (guard_res (mo_expected_drop_min opts \<le> drop_count plan \<and> drop_count plan \<le> mo_expected_drop_max opts)
              (GuardRailError (''refusing to run: drop count '' @ int_str (drop_count plan)
                 @ '' is outside the expected band ['' @ int_str (mo_expected_drop_min opts) @ '', ''
                 @ int_str (mo_expected_drop_max opts) @ '']''))) (\<lambda>_.
     guard_res (\<not> (0 < mp_starting_fact_count plan
                 \<and> mo_max_drop_fraction opts * of_int (mp_starting_fact_count plan) < of_int (drop_count plan)))
       (GuardRailError (''refusing to run: drop count '' @ int_str (drop_count plan) @ '' exceeds the relative cap of ''
          @ mh_percent mh (mo_max_drop_fraction opts) @ '' of the '' @ int_str (mp_starting_fact_count plan)
          @ '' active facts''))))"

definition run_merge :: "merge_host \<Rightarrow> merge_options \<Rightarrow> merge_plan res \<Rightarrow> db \<Rightarrow> merge_result res \<times> db" where
  "run_merge mh opts r d =
     (case r of
        Inl e \<Rightarrow> (Inl e, d)
      | Inr plan \<Rightarrow>
          let result = \<lparr>mr_dry_run = mo_dry_run opts, mr_drop_count = drop_count plan,
                mr_projected_final_count = projected_final_count plan, mr_final_fact_count = None,
                mr_integrity_ok = None, mr_fts_integrity_ok = None\<rparr> in
          if mo_dry_run opts then (Inr result, d)
          else
            (case check_guard_rails mh opts plan of
               Inl e \<Rightarrow> (Inl e, d)
             | Inr _ \<Rightarrow>
                 let d' = apply_merge plan d in
                 (Inr (result\<lparr>mr_final_fact_count := Some (int (length (db_facts d'))),
                     mr_integrity_ok := Some (mh_integrity_ok mh d'), mr_fts_integrity_ok := Some (mh_fts_ok mh d')\<rparr>), d')))"

definition execute_merge :: "merge_host \<Rightarrow> merge_options \<Rightarrow> db \<Rightarrow> (merge_result res \<times> db) option" where
  "execute_merge mh opts d =
     (case refuse_if_live_path (mh_realpath mh) (mo_db_path opts) of
        Inl e \<Rightarrow> Some (Inl e, d)
      | Inr _ \<Rightarrow>
          map_option (\<lambda>r. run_merge mh opts r d)
            (plan_merge (mh_cosine mh) (mo_threshold opts) (mo_flood_cutoff opts) (mo_embedding_identity opts)
               (mo_suspicious_cluster_size opts) d))"

end
