(* ===== verification/Cluster_Components.thy ===== *)
theory Cluster_Components
  imports Cluster_Merge
begin

text \<open>
  The union-find of \<open>Cluster_Merge\<close> against its specification: \<open>find\<close> ends and compresses paths without
  moving a representative, \<open>union\<close> joins two classes, and the clusters are the components of the graph of
  near-duplicate pairs.
\<close>

section \<open>Representatives\<close>

text \<open>\<open>reaches p n x r\<close>: at most \<open>n\<close> parent steps lead from \<open>x\<close> to the representative \<open>r\<close>.\<close>

inductive reaches :: "(int \<Rightarrow> int) \<Rightarrow> nat \<Rightarrow> int \<Rightarrow> int \<Rightarrow> bool" for p where
  reaches_top: "p r = r \<Longrightarrow> reaches p n r r"
| reaches_step: "reaches p n (p x) r \<Longrightarrow> reaches p (Suc n) x r"

inductive_cases reaches_zeroE: "reaches p 0 x r"
inductive_cases reaches_SucE: "reaches p (Suc n) x r"

definition rep_of :: "(int \<Rightarrow> int) \<Rightarrow> int \<Rightarrow> int \<Rightarrow> bool" where
  "rep_of p x r \<longleftrightarrow> (\<exists>n. reaches p n x r)"

definition forest :: "(int \<Rightarrow> int) \<Rightarrow> bool" where
  "forest p \<longleftrightarrow> (\<forall>x. \<exists>r. rep_of p x r)"

lemma reaches_fixed: "reaches p n x r \<Longrightarrow> p r = r"
  by (induction rule: reaches.induct)

lemma reaches_Suc: "reaches p n x r \<Longrightarrow> reaches p (Suc n) x r"
  by (induction rule: reaches.induct) (auto intro: reaches.intros)

lemma reaches_at_top: "reaches p n x r \<Longrightarrow> p x = x \<Longrightarrow> x = r"
  by (induction rule: reaches.induct) auto

lemma reaches_unique: "reaches p n x r \<Longrightarrow> reaches p m x s \<Longrightarrow> r = s"
proof (induction arbitrary: m rule: reaches.induct)
  case (reaches_top r n)
  then show ?case using reaches_at_top by blast
next
  case (reaches_step n x r)
  from reaches_step.prems show ?case
  proof cases
    case reaches_top
    then show ?thesis using reaches_step.hyps reaches_at_top [of p n "p x"] by auto
  next
    case reaches_step
    then show ?thesis using reaches_step.IH by blast
  qed
qed

lemma rep_of_unique: "rep_of p x r \<Longrightarrow> rep_of p x s \<Longrightarrow> r = s"
  unfolding rep_of_def using reaches_unique by blast

lemma rep_of_fixed: "rep_of p x r \<Longrightarrow> p r = r"
  unfolding rep_of_def using reaches_fixed by blast

lemma rep_of_top: "p r = r \<Longrightarrow> rep_of p r r"
  unfolding rep_of_def using reaches_top by blast

lemma rep_of_parent: "rep_of p (p x) r \<Longrightarrow> rep_of p x r"
  unfolding rep_of_def using reaches_step by blast

section \<open>Path compression\<close>

lemma compress_reaches:
  assumes "rep_of p y r" and "y \<noteq> r" and "reaches p n z s"
  shows "reaches (p(y := r)) n z s"
  using assms(3)
proof (induction rule: reaches.induct)
  case (reaches_top s n)
  then have "s \<noteq> y" using rep_of_unique [OF assms(1) rep_of_top] assms(2) by auto
  with reaches_top show ?case by (auto intro: reaches.reaches_top)
next
  case (reaches_step n x s)
  show ?case
  proof (cases "x = y")
    case True
    then have "s = r" using assms(1) reaches_step.hyps rep_of_unique rep_of_parent unfolding rep_of_def by metis
    with True rep_of_fixed [OF assms(1)] assms(2) show ?thesis
      by (auto intro!: reaches.reaches_step reaches.reaches_top)
  next
    case False
    with reaches_step.IH show ?thesis by (auto intro: reaches.reaches_step)
  qed
qed

text \<open>Whatever the first table represents, the second represents by the same member.\<close>

definition same_reps :: "(int \<Rightarrow> int) \<Rightarrow> (int \<Rightarrow> int) \<Rightarrow> bool" where
  "same_reps p q \<longleftrightarrow> (\<forall>z s. rep_of p z s \<longrightarrow> rep_of q z s)"

lemma same_reps_refl [simp]: "same_reps p p"
  by (simp add: same_reps_def)

lemma same_reps_trans: "same_reps p q \<Longrightarrow> same_reps q t \<Longrightarrow> same_reps p t"
  by (simp add: same_reps_def)

lemma compress_same_reps: "rep_of p y r \<Longrightarrow> y \<noteq> r \<Longrightarrow> same_reps p (p(y := r))"
  unfolding same_reps_def using compress_reaches unfolding rep_of_def by blast

lemma forest_same_reps: "forest p \<Longrightarrow> same_reps p q \<Longrightarrow> forest q"
  unfolding forest_def same_reps_def by blast

lemma find_loop:
  assumes "reaches p n x r"
  shows "while_option (\<lambda>r. p r \<noteq> r) p x = Some r"
  using assms
proof (induction rule: reaches.induct)
  case (reaches_top r n)
  then show ?case by (subst while_option_unfold) simp
next
  case (reaches_step n x r)
  show ?case
  proof (cases "p x = x")
    case True
    with reaches_step.IH show ?thesis by simp
  next
    case False
    with reaches_step.IH show ?thesis by (subst while_option_unfold) simp
  qed
qed

lemma compress_loop:
  assumes "reaches q n y r"
  shows "\<exists>q' y'. while_option (\<lambda>s. fst s (snd s) \<noteq> r) (\<lambda>s. ((fst s)(snd s := r), fst s (snd s))) (q, y) = Some (q', y')
    \<and> same_reps q q'"
  using assms
proof (induction n arbitrary: q y)
  case 0
  then have "q y = r" by (auto elim: reaches_zeroE)
  then show ?case by (subst while_option_unfold) simp
next
  case (Suc n)
  show ?case
  proof (cases "q y = r")
    case True
    then show ?thesis by (subst while_option_unfold) simp
  next
    case False
    then have y: "y \<noteq> r" using reaches_fixed [OF Suc.prems] by auto
    have rep: "rep_of q y r" using Suc.prems unfolding rep_of_def by blast
    have "reaches q n (q y) r" using Suc.prems y by (auto elim: reaches_SucE)
    from Suc.IH [OF compress_reaches [OF rep y this]] obtain q' y' where
      "while_option (\<lambda>s. fst s (snd s) \<noteq> r) (\<lambda>s. ((fst s)(snd s := r), fst s (snd s))) (q(y := r), q y) = Some (q', y')"
      "same_reps (q(y := r)) q'" by blast
    moreover have "same_reps q q'"
      using same_reps_trans [OF compress_same_reps [OF rep y]] calculation(2) .
    ultimately show ?thesis using False by (subst while_option_unfold) simp
  qed
qed

lemma uf_find_rep:
  assumes "rep_of p x r"
  shows "\<exists>q. uf_find p x = Some (r, q) \<and> same_reps p q"
proof -
  from assms obtain n where n: "reaches p n x r" unfolding rep_of_def by blast
  from compress_loop [OF n] find_loop [OF n] show ?thesis by (auto simp: uf_find_def)
qed

section \<open>Union\<close>

lemma link_rep:
  assumes "p a = a" and "p b = b" and "a \<noteq> b" and "reaches p n z s"
  shows "rep_of (p(a := b)) z (if s = a then b else s)"
  using assms(4)
proof (induction rule: reaches.induct)
  case (reaches_top s n)
  show ?case
  proof (cases "s = a")
    case True
    have "rep_of (p(a := b)) ((p(a := b)) a) b" using assms(2,3) by (simp add: rep_of_top)
    with True show ?thesis by (simp add: rep_of_parent del: fun_upd_apply)
  next
    case False
    then show ?thesis using reaches_top by (auto intro!: rep_of_top)
  qed
next
  case (reaches_step n x s)
  show ?case
  proof (cases "x = a")
    case True
    with reaches_step.IH assms(1) show ?thesis by simp
  next
    case False
    then have "(p(a := b)) x = p x" by simp
    with reaches_step.IH show ?thesis by (metis rep_of_parent)
  qed
qed

lemma uf_union_reps:
  assumes "rep_of p a ra" and "rep_of p b rb"
  shows "\<exists>q. uf_union p a b = Some q \<and> (\<forall>z s. rep_of p z s \<longrightarrow> rep_of q z (if s = ra then rb else s))"
proof -
  from uf_find_rep [OF assms(1)] obtain p1 where p1: "uf_find p a = Some (ra, p1)" "same_reps p p1" by blast
  then have b: "rep_of p1 b rb" and a: "rep_of p1 a ra" using assms unfolding same_reps_def by blast+
  from uf_find_rep [OF b] obtain p2 where p2: "uf_find p1 b = Some (rb, p2)" "same_reps p1 p2" by blast
  have top: "p2 ra = ra" "p2 rb = rb" using a b p2(2) rep_of_fixed unfolding same_reps_def by blast+
  have keep: "rep_of p z s \<Longrightarrow> rep_of p2 z s" for z s using p1(2) p2(2) unfolding same_reps_def by blast
  show ?thesis
  proof (cases "ra = rb")
    case True
    with p1 p2 keep show ?thesis by (auto simp: uf_union_def)
  next
    case False
    have "rep_of p z s \<Longrightarrow> rep_of (p2(ra := rb)) z (if s = ra then rb else s)" for z s
      using keep [of z s] link_rep [OF top False] unfolding rep_of_def [of p2] by blast
    with False p1 p2 show ?thesis by (auto simp: uf_union_def)
  qed
qed

text \<open>The classes of a table, as a relation.\<close>

definition classes :: "(int \<Rightarrow> int) \<Rightarrow> (int \<times> int) set" where
  "classes p = {(x, y). \<exists>r. rep_of p x r \<and> rep_of p y r}"

lemma classes_sym: "(x, y) \<in> classes p \<Longrightarrow> (y, x) \<in> classes p"
  by (auto simp: classes_def)

lemma classes_rtrancl: "forest p \<Longrightarrow> (classes p)\<^sup>* = classes p"
proof
  assume f: "forest p"
  show "(classes p)\<^sup>* \<subseteq> classes p"
  proof (rule subrelI)
    fix x y assume "(x, y) \<in> (classes p)\<^sup>*"
    then show "(x, y) \<in> classes p"
    proof (induction rule: rtrancl_induct)
      case base
      from f show ?case by (auto simp: classes_def forest_def)
    next
      case (step y z)
      then show ?case using rep_of_unique unfolding classes_def by blast
    qed
  qed
qed auto

lemma uf_union_classes:
  assumes "forest p"
  shows "\<exists>q. uf_union p a b = Some q \<and> forest q \<and> classes q = (classes p \<union> {(a, b), (b, a)})\<^sup>*"
proof -
  from assms obtain ra rb where r: "rep_of p a ra" "rep_of p b rb" unfolding forest_def by blast
  from uf_union_reps [OF this] obtain q where q: "uf_union p a b = Some q"
    and step: "\<And>z s. rep_of p z s \<Longrightarrow> rep_of q z (if s = ra then rb else s)" by blast
  have forest: "forest q" using assms step unfolding forest_def by blast
  let ?S = "classes p \<union> {(a, b), (b, a)}"
  have "classes p \<subseteq> classes q" using step unfolding classes_def by blast
  moreover have "(a, b) \<in> classes q" "(b, a) \<in> classes q"
    using step [OF r(1)] step [OF r(2)] unfolding classes_def by (auto split: if_splits)
  ultimately have "?S\<^sup>* \<subseteq> classes q" using rtrancl_mono [of ?S "classes q"] classes_rtrancl [OF forest] by blast
  moreover have "classes q \<subseteq> ?S\<^sup>*"
  proof (rule subrelI)
    fix x y assume xy: "(x, y) \<in> classes q"
    from assms obtain sx sy where s: "rep_of p x sx" "rep_of p y sy" unfolding forest_def by blast
    from xy have same: "(if sx = ra then rb else sx) = (if sy = ra then rb else sy)"
      using step [OF s(1)] step [OF s(2)] rep_of_unique unfolding classes_def by blast
    have via: "rep_of p u v \<Longrightarrow> rep_of p w v \<Longrightarrow> (u, w) \<in> ?S" for u v w unfolding classes_def by blast
    consider "sx = sy" | "sx = ra" "sy = rb" | "sx = rb" "sy = ra" using same by (auto split: if_splits)
    then show "(x, y) \<in> ?S\<^sup>*"
    proof cases
      case 1
      with s via show ?thesis by blast
    next
      case 2
      with s r via have "(x, a) \<in> ?S" "(b, y) \<in> ?S" by blast+
      then show ?thesis by (meson UnI2 insertI1 r_into_rtrancl rtrancl.rtrancl_into_rtrancl)
    next
      case 3
      with s r via have "(x, b) \<in> ?S" "(a, y) \<in> ?S" by blast+
      then show ?thesis by (meson UnI2 insertI1 insertI2 r_into_rtrancl rtrancl.rtrancl_into_rtrancl)
    qed
  qed
  ultimately show ?thesis using q forest by blast
qed

lemma rtrancl_Un_left: "(R\<^sup>* \<union> S)\<^sup>* = (R \<union> S)\<^sup>*"
  using rtrancl_Un_rtrancl [of "R\<^sup>*" S] rtrancl_Un_rtrancl [of R S] by simp

lemma union_all_classes:
  assumes "forest p"
  shows "\<exists>q. union_all p ps = Some q \<and> forest q \<and> classes q = (classes p \<union> set ps \<union> (set ps)\<inverse>)\<^sup>*"
  using assms
proof (induction ps arbitrary: p)
  case Nil
  then show ?case by (simp add: classes_rtrancl)
next
  case (Cons ab ps)
  obtain a b where ab: "ab = (a, b)" by (cases ab)
  from uf_union_classes [OF Cons.prems, of a b] obtain p1 where p1: "uf_union p a b = Some p1" "forest p1"
    "classes p1 = (classes p \<union> {(a, b), (b, a)})\<^sup>*" by blast
  from Cons.IH [OF p1(2)] obtain q where q: "union_all p1 ps = Some q" "forest q"
    "classes q = (classes p1 \<union> set ps \<union> (set ps)\<inverse>)\<^sup>*" by blast
  have "classes q = ((classes p \<union> {(a, b), (b, a)}) \<union> (set ps \<union> (set ps)\<inverse>))\<^sup>*"
    unfolding q(3) p1(3) by (simp only: Un_assoc [of _ "set ps"] rtrancl_Un_left)
  also have "\<dots> = (classes p \<union> set (ab # ps) \<union> (set (ab # ps))\<inverse>)\<^sup>*"
    by (rule arg_cong [where f = rtrancl]) (auto simp: ab)
  finally show ?case using p1 q ab by simp
qed

section \<open>Groups\<close>

lemma map_of_group_append:
  "map_of (group_append k x gs) = (map_of gs)(k \<mapsto> (case map_of gs k of None \<Rightarrow> [x] | Some ms \<Rightarrow> ms @ [x]))"
  by (induction k x gs rule: group_append.induct) (auto simp: fun_eq_iff)

lemma keys_group_append:
  "map fst (group_append k x gs) = (if k \<in> set (map fst gs) then map fst gs else map fst gs @ [k])"
  by (induction k x gs rule: group_append.induct) auto

text \<open>The groups of the members seen so far, under the key each has.\<close>

definition grouped :: "(int \<Rightarrow> int) \<Rightarrow> int list \<Rightarrow> (int \<times> int list) list \<Rightarrow> bool" where
  "grouped key xs gs \<longleftrightarrow> distinct (map fst gs) \<and>
     (\<forall>k. map_of gs k = (if k \<in> key ` set xs then Some (filter (\<lambda>x. key x = k) xs) else None))"

lemma grouped_append:
  assumes "grouped key xs gs"
  shows "grouped key (xs @ [x]) (group_append (key x) x gs)"
  using assms unfolding grouped_def
  by (auto simp: keys_group_append map_of_group_append filter_empty_conv) (metis imageI)

lemma uf_groups_grouped:
  assumes "\<And>x. rep_of p x (key x)" and "grouped key ys gs"
  shows "\<exists>gs'. uf_groups p xs gs = Some gs' \<and> grouped key (ys @ xs) gs'"
  using assms
proof (induction xs arbitrary: p ys gs)
  case (Cons x xs)
  from uf_find_rep [OF Cons.prems(1)] obtain q where q: "uf_find p x = Some (key x, q)" "same_reps p q" by blast
  then have "rep_of q y (key y)" for y using Cons.prems(1) unfolding same_reps_def by blast
  from Cons.IH [OF this grouped_append [OF Cons.prems(2)]] q(1) show ?case by simp
qed simp

lemma grouped_in_set:
  assumes "grouped key xs gs"
  shows "(k, ms) \<in> set gs \<longleftrightarrow> k \<in> key ` set xs \<and> ms = filter (\<lambda>x. key x = k) xs"
proof -
  have "(k, ms) \<in> set gs \<longleftrightarrow> map_of gs k = Some ms" using assms map_of_eq_Some_iff unfolding grouped_def by metis
  with assms show ?thesis by (auto simp: grouped_def)
qed

lemma grouped_members:
  assumes "grouped key xs gs"
  shows "ms \<in> set (map snd gs) \<longleftrightarrow> (\<exists>x. x \<in> set xs \<and> ms = filter (\<lambda>y. key y = key x) xs)"
proof -
  have "ms \<in> set (map snd gs) \<longleftrightarrow> (\<exists>k. (k, ms) \<in> set gs)" by force
  then show ?thesis unfolding grouped_in_set [OF assms] by auto
qed

lemma grouped_distinct:
  assumes "grouped key xs gs"
  shows "distinct (map snd gs)"
proof -
  have "inj_on snd (set gs)"
  proof (rule inj_onI)
    fix u v assume uv: "u \<in> set gs" "v \<in> set gs" "snd u = snd v"
    have own: "\<exists>x. x \<in> set (snd w) \<and> (\<forall>y. y \<in> set (snd w) \<longrightarrow> key y = fst w)" if "w \<in> set gs" for w
      using that grouped_in_set [OF assms, of "fst w" "snd w"] by auto
    from own [OF uv(1)] own [OF uv(2)] uv(3) show "u = v" by (auto simp: prod_eq_iff)
  qed
  moreover have "distinct gs" using assms by (simp add: grouped_def distinct_map)
  ultimately show ?thesis by (simp add: distinct_map)
qed

section \<open>Clusters\<close>

lemma forest_id: "forest (\<lambda>i. i)" "classes (\<lambda>i. i) = Id"
proof -
  have "rep_of (\<lambda>i. i) x r \<longleftrightarrow> x = r" for x r :: int
    using rep_of_unique [OF rep_of_top [of "\<lambda>i. i" x]] rep_of_top [of "\<lambda>i. i" x] by auto
  then show "forest (\<lambda>i. i)" "classes (\<lambda>i. i) = Id" by (auto simp: forest_def classes_def)
qed

lemma set_similar_pairs:
  "set (similar_pairs sim xs) = {(xs ! i, xs ! j) |i j. i < j \<and> j < length xs \<and> sim (xs ! i) (xs ! j)}"
proof (induction xs)
  case (Cons x xs)
  have "{((x # xs) ! i, (x # xs) ! j) |i j. i < j \<and> j < length (x # xs) \<and> sim ((x # xs) ! i) ((x # xs) ! j)}
    = {(x, xs ! j) |j. j < length xs \<and> sim x (xs ! j)}
      \<union> {(xs ! i, xs ! j) |i j. i < j \<and> j < length xs \<and> sim (xs ! i) (xs ! j)}" (is "?A = ?B \<union> ?C")
  proof (intro equalityI subsetI)
    fix z assume "z \<in> ?A"
    then obtain i j where "z = ((x # xs) ! i, (x # xs) ! j)" "i < j" "j < length (x # xs)" "sim ((x # xs) ! i) ((x # xs) ! j)"
      by blast
    then show "z \<in> ?B \<union> ?C" by (cases i; cases j) auto
  next
    fix z assume "z \<in> ?B \<union> ?C"
    then show "z \<in> ?A"
    proof
      assume "z \<in> ?B"
      then obtain j where "z = (x, xs ! j)" "j < length xs" "sim x (xs ! j)" by blast
      then show ?thesis by (intro CollectI exI [of _ 0] exI [of _ "Suc j"]) simp
    next
      assume "z \<in> ?C"
      then obtain i j where "z = (xs ! i, xs ! j)" "i < j" "j < length xs" "sim (xs ! i) (xs ! j)" by blast
      then show ?thesis by (intro CollectI exI [of _ "Suc i"] exI [of _ "Suc j"]) simp
    qed
  qed
  moreover have "set (map (Pair x) (filter (sim x) xs)) = ?B" by (auto simp: in_set_conv_nth)
  ultimately show ?case using Cons.IH by simp
qed simp

text \<open>The near-duplicate pairs of the stored vectors, and what they connect.\<close>

definition near_pairs :: "(string \<Rightarrow> string \<Rightarrow> rat) \<Rightarrow> rat \<Rightarrow> embedding_row list \<Rightarrow> (int \<times> int) set" where
  "near_pairs cosine threshold rows =
     {(e_fact_id (rows ! i), e_fact_id (rows ! j)) |i j. i < j \<and> j < length rows
        \<and> threshold \<le> cosine (e_embedding (rows ! i)) (e_embedding (rows ! j))}"

definition near_connected :: "(string \<Rightarrow> string \<Rightarrow> rat) \<Rightarrow> rat \<Rightarrow> embedding_row list \<Rightarrow> (int \<times> int) set" where
  "near_connected cosine threshold rows =
     (near_pairs cosine threshold rows \<union> (near_pairs cosine threshold rows)\<inverse>)\<^sup>*"

lemma build_clusters_components:
  "\<exists>cs. build_clusters cosine threshold identity d = Some cs \<and> distinct cs \<and>
     (\<forall>c. c \<in> set cs \<longleftrightarrow> 2 \<le> length c \<and> (\<exists>i. i \<in> set (map e_fact_id (cluster_rows identity d)) \<and>
        c = filter (\<lambda>j. (i, j) \<in> near_connected cosine threshold (cluster_rows identity d))
              (map e_fact_id (cluster_rows identity d))))"
proof (cases "length (map e_fact_id (cluster_rows identity d)) < 2")
  case True
  then have "length (filter P (map e_fact_id (cluster_rows identity d))) < 2" for P
    by (rule le_less_trans [OF length_filter_le])
  with True show ?thesis by (auto simp: build_clusters_def Let_def not_le [symmetric])
next
  case False
  let ?rows = "cluster_rows identity d" and ?ids = "map e_fact_id (cluster_rows identity d)"
  let ?ps = "map (map_prod e_fact_id e_fact_id)
    (similar_pairs (\<lambda>e f. threshold \<le> cosine (e_embedding e) (e_embedding f)) ?rows)"
  have ps: "set ?ps = near_pairs cosine threshold ?rows"
    unfolding near_pairs_def set_map set_similar_pairs by (auto simp: image_iff)
  from union_all_classes [OF forest_id(1), of ?ps] obtain p where p: "union_all (\<lambda>i. i) ?ps = Some p" "forest p"
    "classes p = near_connected cosine threshold ?rows"
    unfolding forest_id(2) ps near_connected_def Un_assoc by (auto simp: Un_commute [of Id] rtrancl_reflcl)
  from p(2) obtain key where key: "\<And>x. rep_of p x (key x)" unfolding forest_def by metis
  have rep: "rep_of p x r \<longleftrightarrow> r = key x" for x r using key rep_of_unique by blast
  have same: "key x = key y \<longleftrightarrow> (y, x) \<in> near_connected cosine threshold ?rows" for x y
    unfolding p(3) [symmetric] classes_def by (auto simp: rep)
  have "grouped key [] []" by (simp add: grouped_def)
  from uf_groups_grouped [OF key this, of ?ids] obtain gs where gs: "uf_groups p ?ids [] = Some gs" "grouped key ?ids gs"
    by auto
  have "build_clusters cosine threshold identity d = Some (filter (\<lambda>ms. 2 \<le> length ms) (map snd gs))"
    using False p(1) gs(1) by (simp add: build_clusters_def Let_def)
  moreover have "distinct (filter (\<lambda>ms. 2 \<le> length ms) (map snd gs))"
    using grouped_distinct [OF gs(2)] by simp
  moreover have "c \<in> set (filter (\<lambda>ms. 2 \<le> length ms) (map snd gs)) \<longleftrightarrow> 2 \<le> length c \<and>
    (\<exists>i. i \<in> set ?ids \<and> c = filter (\<lambda>j. (i, j) \<in> near_connected cosine threshold ?rows) ?ids)" for c
    unfolding set_filter mem_Collect_eq grouped_members [OF gs(2)] same by (rule conj_commute)
  ultimately show ?thesis by (intro exI conjI allI)
qed

text \<open>C36: clustering always returns, and its clusters are exactly the connected components with at least two
  members of the graph whose edges are the pairs of active stored vectors at or above the threshold, each
  listed once with its members in the order of the rows.
\<close>

theorem clusters_are_components:
  "\<exists>cs. build_clusters cosine threshold identity d = Some cs \<and> distinct cs \<and>
     (\<forall>c. c \<in> set cs \<longleftrightarrow> 2 \<le> length c \<and> (\<exists>i. i \<in> set (map e_fact_id (cluster_rows identity d)) \<and>
        c = filter (\<lambda>j. (i, j) \<in> near_connected cosine threshold (cluster_rows identity d))
              (map e_fact_id (cluster_rows identity d))))"
  by (rule build_clusters_components)

lemma near_connected_sym: "(x, y) \<in> near_connected cosine threshold rows \<Longrightarrow> (y, x) \<in> near_connected cosine threshold rows"
  unfolding near_connected_def by (rule symD [OF sym_rtrancl]) (auto intro: symI)

lemma near_connected_trans:
  "(x, y) \<in> near_connected cosine threshold rows \<Longrightarrow> (y, z) \<in> near_connected cosine threshold rows \<Longrightarrow>
   (x, z) \<in> near_connected cosine threshold rows"
  unfolding near_connected_def by (rule rtrancl_trans)

text \<open>What the merge relies on: the clusters share no fact, and their members are active near duplicates.\<close>

lemma clusters_disjoint:
  assumes "build_clusters cosine threshold identity d = Some cs"
    and "distinct (map e_fact_id (cluster_rows identity d))"
  shows "distinct (concat cs)"
    and "\<And>c i j. c \<in> set cs \<Longrightarrow> i \<in> set c \<Longrightarrow> j \<in> set c \<Longrightarrow>
      (i, j) \<in> near_connected cosine threshold (cluster_rows identity d)"
proof -
  let ?C = "near_connected cosine threshold (cluster_rows identity d)" and ?ids = "map e_fact_id (cluster_rows identity d)"
  from build_clusters_components [of cosine threshold identity d] assms(1) have cs: "distinct cs"
    "\<And>c. c \<in> set cs \<Longrightarrow> \<exists>i. i \<in> set ?ids \<and> c = filter (\<lambda>j. (i, j) \<in> ?C) ?ids" by auto
  show conn: "(i, j) \<in> ?C" if "c \<in> set cs" "i \<in> set c" "j \<in> set c" for c i j
  proof -
    from cs(2) [OF that(1)] that(2,3) obtain k where "(k, i) \<in> ?C" "(k, j) \<in> ?C" by auto
    then show ?thesis using near_connected_trans [OF near_connected_sym] by blast
  qed
  show "distinct (concat cs)"
  proof (rule distinct_concat [OF cs(1)])
    show "distinct c" if "c \<in> set cs" for c using cs(2) [OF that] assms(2) by auto
    show "set c \<inter> set c' = {}" if "c \<in> set cs" "c' \<in> set cs" "c \<noteq> c'" for c c'
    proof (rule ccontr)
      assume "set c \<inter> set c' \<noteq> {}"
      then obtain x where x: "x \<in> set c" "x \<in> set c'" by blast
      from cs(2) [OF that(1)] cs(2) [OF that(2)] obtain i i' where
        c: "c = filter (\<lambda>j. (i, j) \<in> ?C) ?ids" "c' = filter (\<lambda>j. (i', j) \<in> ?C) ?ids" by blast
      with x have "(i, x) \<in> ?C" "(i', x) \<in> ?C" by auto
      then have "(i, j) \<in> ?C \<longleftrightarrow> (i', j) \<in> ?C" for j using near_connected_sym near_connected_trans by metis
      with c that(3) show False by simp
    qed
  qed
qed

lemma clusters_active:
  assumes "build_clusters cosine threshold identity d = Some cs" and "c \<in> set cs"
  shows "set c \<subseteq> set (active_fact_ids d)" and "2 \<le> length c"
  using build_clusters_components [of cosine threshold identity d] assms
  by (auto simp: cluster_rows_def)

end
