(* ===== verification/Merge_Guarantees.thy ===== *)
theory Merge_Guarantees
  imports Cluster_Components
begin

text \<open>
  What the offline merge does to the store: the survivor of each cluster, the guards of an execution, and
  what an executed merge conserves.
\<close>

section \<open>Survivors\<close>

lemma first_least_mem: "first_least f fs \<in> set (f # fs)"
  by (induction f fs rule: first_least.induct) auto

lemma not_before_trans:
  assumes "\<not> ranks_before g f" and "\<not> ranks_before h g"
  shows "\<not> ranks_before h f"
  using assms unfolding ranks_before_def by (cases "merge_score f = merge_score g"; cases "merge_score g = merge_score h") auto

lemma ranks_before_asym: "ranks_before f g \<Longrightarrow> \<not> ranks_before g f"
  unfolding ranks_before_def by auto

lemma ranks_before_irrefl [simp]: "\<not> ranks_before f f"
  by (simp add: ranks_before_def)

lemma first_least_least: "g \<in> set (f # fs) \<Longrightarrow> \<not> ranks_before g (first_least f fs)"
proof (induction f fs arbitrary: g rule: first_least.induct)
  case (1 f)
  then show ?case by (simp add: ranks_before_def)
next
  case (2 f h fs)
  let ?x = "if ranks_before h f then h else f"
  have "\<not> ranks_before f ?x" "\<not> ranks_before h ?x"
    using ranks_before_asym [of h f] by (auto split: if_splits)
  moreover have "\<not> ranks_before ?x (first_least ?x fs)" by (rule 2(1)) simp
  ultimately have "\<not> ranks_before f (first_least ?x fs)" "\<not> ranks_before h (first_least ?x fs)"
    by - (erule not_before_trans, assumption)+
  moreover have "\<not> ranks_before g (first_least ?x fs)" if "g \<in> set fs" using 2(1) that by simp
  ultimately show ?case using 2(2) by auto
qed

lemma fact_by_id_present: "i \<in> set (fact_ids d) \<Longrightarrow> \<exists>f. fact_by_id d i = Some f \<and> f_id f = i"
  using fact_by_id_None [of d i] fact_by_id_Some [of d i] by (cases "fact_by_id d i") auto

lemma fact_rows_present:
  "set ids \<subseteq> set (fact_ids d) \<Longrightarrow> fact_rows d ids = Inr (map (\<lambda>i. the (fact_by_id d i)) ids)"
  unfolding fact_rows_def by (induction ids) (auto dest!: fact_by_id_present)

lemma active_fact_ids_subset: "set (active_fact_ids d) \<subseteq> set (fact_ids d)"
  by (auto simp: active_fact_ids_def fact_ids_def)

lemma active_row:
  assumes "distinct (fact_ids d)" and "i \<in> set (active_fact_ids d)"
  shows "merge_active d (the (fact_by_id d i))"
  using assms fact_by_id_in by (fastforce simp: active_fact_ids_def)

text \<open>The rows a survivor is chosen from.\<close>

definition survivor_pool :: "string \<Rightarrow> fact list \<Rightarrow> fact list" where
  "survivor_pool cutoff rows =
     (if (\<exists>f. f \<in> set rows \<and> f_created_at f < cutoff) then filter (\<lambda>f. f_created_at f < cutoff) rows else rows)"

lemma survivor_of_active:
  assumes "\<And>f. f \<in> set rows \<Longrightarrow> merge_active d f" and "rows \<noteq> []"
  shows "\<exists>f. survivor_of d cutoff rows = Inr (f_id f, filter (\<lambda>i. i \<noteq> f_id f) (map f_id rows))
    \<and> f \<in> set (survivor_pool cutoff rows) \<and> (\<forall>g. g \<in> set (survivor_pool cutoff rows) \<longrightarrow> \<not> ranks_before g f)"
proof -
  have active: "filter (merge_active d) rows = rows" using assms(1) by simp
  let ?pre = "filter (\<lambda>f. f_created_at f < cutoff) rows" and ?flood = "filter (\<lambda>f. cutoff \<le> f_created_at f) rows"
  have "?flood = [] \<Longrightarrow> ?pre = rows" by (auto simp: filter_empty_conv filter_id_conv not_le)
  then have pool: "(if ?pre \<noteq> [] \<and> ?flood \<noteq> [] then ?pre else rows) = survivor_pool cutoff rows"
    by (auto simp: survivor_pool_def filter_empty_conv)
  have "survivor_pool cutoff rows \<noteq> []" using assms(2) by (auto simp: survivor_pool_def filter_empty_conv)
  then obtain g gs where gs: "survivor_pool cutoff rows = g # gs" by (cases "survivor_pool cutoff rows") auto
  have "survivor_of d cutoff rows
    = (let survivor = f_id (first_least g gs) in Inr (survivor, filter (\<lambda>i. i \<noteq> survivor) (map f_id rows)))"
    unfolding survivor_of_def active Let_def if_P [OF assms(2)] pool gs by simp
  then show ?thesis using first_least_mem [of g gs] first_least_least [of _ g gs] by (auto simp: gs Let_def)
qed

section \<open>The plan\<close>

text \<open>\<open>planned d c m\<close>: the entry \<open>m\<close> keeps one member of the cluster \<open>c\<close> and adds up the counts of all.\<close>

definition planned :: "db \<Rightarrow> int list \<Rightarrow> cluster_merge \<Rightarrow> bool" where
  "planned d c m \<longleftrightarrow> cm_survivor_id m \<in> set c
     \<and> cm_loser_ids m = filter (\<lambda>i. i \<noteq> cm_survivor_id m) c
     \<and> cm_merged_retrieval_count m = sum_list (map (\<lambda>i. f_retrieval_count (the (fact_by_id d i))) c)
     \<and> cm_merged_helpful_count m = sum_list (map (\<lambda>i. f_helpful_count (the (fact_by_id d i))) c)"

lemma map_f_id_rows: "set c \<subseteq> set (fact_ids d) \<Longrightarrow> map (\<lambda>i. f_id (the (fact_by_id d i))) c = c"
  by (induction c) (auto dest!: fact_by_id_present)

lemma plan_cluster_planned:
  assumes "distinct (fact_ids d)" and "set c \<subseteq> set (active_fact_ids d)" and "c \<noteq> []"
  shows "\<exists>m. plan_cluster d cutoff n c = Inr m \<and> planned d c m"
proof -
  let ?rows = "map (\<lambda>i. the (fact_by_id d i)) c"
  have sub: "set c \<subseteq> set (fact_ids d)" using assms(2) active_fact_ids_subset by blast
  have act: "\<And>f. f \<in> set ?rows \<Longrightarrow> merge_active d f" using assms(1,2) active_row by auto
  have ne: "?rows \<noteq> []" using assms(3) by simp
  from survivor_of_active [OF act ne, of cutoff] obtain f where
    f: "survivor_of d cutoff ?rows = Inr (f_id f, filter (\<lambda>i. i \<noteq> f_id f) (map f_id ?rows))"
    "f \<in> set (survivor_pool cutoff ?rows)" by blast
  have "f \<in> set ?rows" using f(2) by (auto simp: survivor_pool_def split: if_splits)
  then obtain i where "i \<in> set c" "f = the (fact_by_id d i)" by auto
  moreover from this sub have "i \<in> set (fact_ids d)" by blast
  with calculation(2) have "f_id f = i" by (auto dest: fact_by_id_present)
  ultimately have "f_id f \<in> set c" by simp
  with f(1) show ?thesis
    by (simp add: plan_cluster_def choose_survivor_def fact_rows_present [OF sub] planned_def comp_def map_f_id_rows [OF sub])
qed

lemma map_res_related:
  assumes "\<And>x. x \<in> set xs \<Longrightarrow> \<exists>y. f x = Inr y \<and> P x y"
  shows "\<exists>ys. map_res f xs = Inr ys \<and> list_all2 P xs ys"
  using assms
proof (induction xs)
  case (Cons x xs)
  from Cons.prems [of x] obtain y where "f x = Inr y" "P x y" by auto
  moreover from Cons obtain ys where "map_res f xs = Inr ys" "list_all2 P xs ys" by auto
  ultimately show ?case by simp
qed simp

section \<open>Applying the plan\<close>

lemma facts_delete_losers:
  "db_facts (fold delete_loser is d) = filter (\<lambda>f. f_id f \<notin> set is) (db_facts d)"
  by (induction "is" arbitrary: d) (auto simp: delete_loser_def delete_where_def intro: filter_cong)

definition merged_row :: "cluster_merge \<Rightarrow> fact \<Rightarrow> fact" where
  "merged_row m f = f\<lparr>f_retrieval_count := cm_merged_retrieval_count m,
     f_helpful_count := cm_merged_helpful_count m, f_tags := cm_merged_tags m\<rparr>"

lemma merged_row_id [simp]: "f_id (merged_row m f) = f_id f"
  by (simp add: merged_row_def)

lemma facts_apply_cluster:
  "db_facts (apply_cluster m d) = filter (\<lambda>f. f_id f \<notin> set (cm_loser_ids m))
     (update_where (\<lambda>f. f_id f = cm_survivor_id m) (merged_row m) (db_facts d))"
  by (simp add: apply_cluster_def facts_delete_losers merged_row_def [abs_def])

lemma fact_ids_apply_cluster:
  "fact_ids (apply_cluster m d) = filter (\<lambda>i. i \<notin> set (cm_loser_ids m)) (fact_ids d)"
proof -
  have "map f_id (db_facts d) = map f_id (update_where (\<lambda>f. f_id f = cm_survivor_id m) (merged_row m) (db_facts d))"
    by (simp add: map_update_where)
  then show ?thesis by (simp add: fact_ids_def facts_apply_cluster filter_map comp_def)
qed

lemma first_row_filter: "(\<And>r. P r \<Longrightarrow> Q r) \<Longrightarrow> first_row P (filter Q rs) = first_row P rs"
  by (induction rs) auto

lemma first_row_update_other:
  "(\<And>r. P r \<Longrightarrow> \<not> U r) \<Longrightarrow> (\<And>r. P (u r) \<longleftrightarrow> P r) \<Longrightarrow> first_row P (update_where U u rs) = first_row P rs"
  by (induction rs) auto

lemma fact_by_id_apply_cluster:
  assumes "i \<notin> set (cm_loser_ids m)" and "i \<noteq> cm_survivor_id m"
  shows "fact_by_id (apply_cluster m d) i = fact_by_id d i"
  unfolding fact_by_id_def facts_apply_cluster using assms
  by (subst first_row_filter, blast) (rule first_row_update_other, auto)

text \<open>Adding up a column over the facts, by row id.\<close>

lemma sum_rows:
  assumes "distinct (fact_ids d)"
  shows "sum_list (map v (db_facts d)) = (\<Sum>i \<in> set (fact_ids d). v (the (fact_by_id d i)))"
proof -
  have "sum_list (map v (db_facts d)) = sum_list (map (\<lambda>i. v (the (fact_by_id d i))) (fact_ids d))"
    unfolding fact_ids_def map_map comp_def using fact_by_id_in [OF assms] by (intro arg_cong [where f = sum_list] map_cong) auto
  then show ?thesis using assms by (simp add: sum_list_distinct_conv_sum_set)
qed

lemma apply_cluster_sum:
  fixes v :: "fact \<Rightarrow> int"
  assumes "distinct (fact_ids d)" and "planned d c m" and "distinct c" and "set c \<subseteq> set (fact_ids d)"
    and v: "\<And>f. v (merged_row m f) = sum_list (map (\<lambda>i. v (the (fact_by_id d i))) c)"
  shows "sum_list (map v (db_facts (apply_cluster m d))) = sum_list (map v (db_facts d))"
proof -
  let ?d = "apply_cluster m d" and ?s = "cm_survivor_id m" and ?rest = "set (fact_ids d) - set c"
  have c: "set c = insert ?s (set (cm_loser_ids m))" "?s \<notin> set (cm_loser_ids m)" "?s \<in> set c"
    using assms(2) by (auto simp: planned_def)
  have ids: "set (fact_ids ?d) = insert ?s ?rest" using c assms(4) by (auto simp: fact_ids_apply_cluster)
  have "\<exists>f. fact_by_id ?d ?s = Some f \<and> f \<in> set (db_facts ?d) \<and> f_id f = ?s"
    using ids fact_by_id_present [of ?s ?d] fact_by_id_Some by fastforce
  then have "v (the (fact_by_id ?d ?s)) = sum_list (map (\<lambda>i. v (the (fact_by_id d i))) c)"
    using v by (auto simp: facts_apply_cluster sql_simps)
  also have "\<dots> = (\<Sum>i \<in> set c. v (the (fact_by_id d i)))" using assms(3) by (simp add: sum_list_distinct_conv_sum_set)
  finally have s: "v (the (fact_by_id ?d ?s)) = (\<Sum>i \<in> set c. v (the (fact_by_id d i)))" .
  have "distinct (fact_ids ?d)" using assms(1) by (simp add: fact_ids_apply_cluster)
  then have "sum_list (map v (db_facts ?d)) = v (the (fact_by_id ?d ?s)) + (\<Sum>i \<in> ?rest. v (the (fact_by_id ?d i)))"
    using c(3) by (simp add: sum_rows ids)
  also have "(\<Sum>i \<in> ?rest. v (the (fact_by_id ?d i))) = (\<Sum>i \<in> ?rest. v (the (fact_by_id d i)))"
    using c(1) by (intro sum.cong) (auto simp: fact_by_id_apply_cluster)
  finally show ?thesis using s assms(4)
    by (simp add: sum_rows [OF assms(1)] sum.subset_diff [of "set c" "set (fact_ids d)"])
qed

section \<open>The whole plan\<close>

text \<open>The entries of a plan over the clusters \<open>cs\<close>, which share no fact.\<close>

definition all_losers :: "cluster_merge list \<Rightarrow> int list" where
  "all_losers ms = concat (map cm_loser_ids ms)"

lemma planned_cong:
  "planned d c m \<Longrightarrow> (\<And>i. i \<in> set c \<Longrightarrow> fact_by_id d' i = fact_by_id d i) \<Longrightarrow> planned d' c m"
  unfolding planned_def by (simp cong: map_cong)

lemma planned_ids: "planned d c m \<Longrightarrow> insert (cm_survivor_id m) (set (cm_loser_ids m)) = set c"
  by (auto simp: planned_def)

lemma apply_all:
  assumes "list_all2 (planned d) cs ms" and "distinct (fact_ids d)" and "distinct (concat cs)"
    and "set (concat cs) \<subseteq> set (fact_ids d)"
  shows "sum_list (map f_retrieval_count (db_facts (fold apply_cluster ms d))) = sum_list (map f_retrieval_count (db_facts d))
    \<and> sum_list (map f_helpful_count (db_facts (fold apply_cluster ms d))) = sum_list (map f_helpful_count (db_facts d))
    \<and> fact_ids (fold apply_cluster ms d) = filter (\<lambda>i. i \<notin> set (all_losers ms)) (fact_ids d)
    \<and> (\<forall>i. i \<notin> set (concat cs) \<longrightarrow> fact_by_id (fold apply_cluster ms d) i = fact_by_id d i)"
  using assms
proof (induction cs arbitrary: ms d)
  case Nil
  then show ?case by (simp add: all_losers_def)
next
  case (Cons c cs)
  from Cons.prems(1) obtain m ms' where ms: "ms = m # ms'" "planned d c m" "list_all2 (planned d) cs ms'"
    by (auto simp: list_all2_Cons1)
  let ?d = "apply_cluster m d"
  have c: "set c = insert (cm_survivor_id m) (set (cm_loser_ids m))" using planned_ids [OF ms(2)] by simp
  have away: "fact_by_id ?d i = fact_by_id d i" if "i \<notin> set c" for i using that c by (simp add: fact_by_id_apply_cluster)
  have plan: "list_all2 (planned ?d) cs ms'"
  proof (rule list.rel_mono_strong [OF ms(3)])
    fix b n assume b: "b \<in> set cs" "planned d b n"
    show "planned ?d b n"
    proof (rule planned_cong [OF b(2)])
      fix i assume "i \<in> set b"
      with b(1) Cons.prems(3) have "i \<notin> set c" by auto
      then show "fact_by_id ?d i = fact_by_id d i" by (rule away)
    qed
  qed
  have dist: "distinct (fact_ids ?d)" using Cons.prems(2) by (simp add: fact_ids_apply_cluster)
  have cs: "distinct (concat cs)" "distinct c" "set c \<subseteq> set (fact_ids d)" using Cons.prems(3,4) by simp_all
  have sub: "set (concat cs) \<subseteq> set (fact_ids ?d)" using Cons.prems(3,4) c by (auto simp: fact_ids_apply_cluster)
  note IH = Cons.IH [OF plan dist cs(1) sub]
  have sums: "\<And>v. (\<And>f. v (merged_row m f) = sum_list (map (\<lambda>i. v (the (fact_by_id d i))) c)) \<Longrightarrow>
    sum_list (map v (db_facts ?d)) = (sum_list (map v (db_facts d)) :: int)"
    by (rule apply_cluster_sum [OF Cons.prems(2) ms(2) cs(2,3)])
  have "sum_list (map f_retrieval_count (db_facts ?d)) = sum_list (map f_retrieval_count (db_facts d))"
    "sum_list (map f_helpful_count (db_facts ?d)) = sum_list (map f_helpful_count (db_facts d))"
    using ms(2) by (auto intro!: sums simp: merged_row_def planned_def)
  moreover have "fact_ids (fold apply_cluster ms' ?d) = filter (\<lambda>i. i \<notin> set (all_losers ms)) (fact_ids d)"
    using IH by (simp add: ms(1) all_losers_def fact_ids_apply_cluster conj_commute)
  ultimately show ?case using IH away by (simp add: ms(1))
qed

lemma length_filter_notin:
  assumes "distinct xs" and "distinct ys" and "set ys \<subseteq> set xs"
  shows "int (length (filter (\<lambda>x. x \<notin> set ys) xs)) = int (length xs) - int (length ys)"
proof -
  have "set (filter (\<lambda>x. x \<notin> set ys) xs) = set xs - set ys" by auto
  then have "length (filter (\<lambda>x. x \<notin> set ys) xs) = card (set xs - set ys)"
    using assms(1) by (metis distinct_card distinct_filter)
  also have "\<dots> = length xs - length ys"
    using assms by (simp add: card_Diff_subset distinct_card)
  finally show ?thesis using card_mono [OF _ assms(3)] assms(1,2) by (simp add: distinct_card of_nat_diff)
qed

lemma drop_count_losers: "drop_count plan = int (length (all_losers (mp_clusters plan)))"
proof -
  have "sum_list (map (\<lambda>c. int (length (cm_loser_ids c))) ms) = int (length (all_losers ms))" for ms
    by (induction ms) (simp_all add: all_losers_def)
  then show ?thesis by (simp add: drop_count_def)
qed

lemma losers_in_clusters:
  assumes "list_all2 (planned d) cs ms" and "distinct (concat cs)"
  shows "distinct (all_losers ms)" and "set (all_losers ms) \<subseteq> set (concat cs)"
    and "\<And>i. i \<in> set (all_losers ms) \<Longrightarrow> \<exists>c s. c \<in> set cs \<and> i \<in> set c \<and> s \<in> set c \<and> s \<notin> set (all_losers ms)"
proof -
  have *: "distinct (all_losers ms) \<and> set (all_losers ms) \<subseteq> set (concat cs) \<and>
    (\<forall>i \<in> set (all_losers ms). \<exists>c s. c \<in> set cs \<and> i \<in> set c \<and> s \<in> set c \<and> s \<notin> set (all_losers ms))"
    using assms
  proof (induction rule: list_all2_induct)
    case Nil
    then show ?case by (simp add: all_losers_def)
  next
    case (Cons c cs m ms)
    have l: "all_losers (m # ms) = cm_loser_ids m @ all_losers ms" by (simp add: all_losers_def)
    have c: "set (cm_loser_ids m) \<subseteq> set c" "distinct (cm_loser_ids m)" "cm_survivor_id m \<in> set c"
      "cm_survivor_id m \<notin> set (cm_loser_ids m)"
      using Cons.hyps(1) Cons.prems by (auto simp: planned_def)
    have IH: "distinct (all_losers ms)" "set (all_losers ms) \<subseteq> set (concat cs)"
      "\<And>i. i \<in> set (all_losers ms) \<Longrightarrow> \<exists>c s. c \<in> set cs \<and> i \<in> set c \<and> s \<in> set c \<and> s \<notin> set (all_losers ms)"
      using Cons.IH Cons.prems by auto
    have apart: "set c \<inter> set (concat cs) = {}" using Cons.prems by simp
    have "distinct (all_losers (m # ms))" unfolding l using c(1,2) IH(1,2) apart by auto
    moreover have "set (all_losers (m # ms)) \<subseteq> set (concat (c # cs))" unfolding l using c(1) IH(2) by auto
    moreover have "\<exists>b s. b \<in> set (c # cs) \<and> i \<in> set b \<and> s \<in> set b \<and> s \<notin> set (all_losers (m # ms))"
      if "i \<in> set (all_losers (m # ms))" for i
    proof (cases "i \<in> set (all_losers ms)")
      case True
      from IH(3) [OF this] obtain b s where b: "b \<in> set cs" "i \<in> set b" "s \<in> set b" "s \<notin> set (all_losers ms)" by blast
      then have "s \<notin> set (cm_loser_ids m)" using apart c(1) by auto
      with b show ?thesis unfolding l by auto
    next
      case False
      with that have "i \<in> set (cm_loser_ids m)" unfolding l by simp
      moreover have "cm_survivor_id m \<notin> set (all_losers ms)" using c(3) apart IH(2) by blast
      ultimately show ?thesis unfolding l using c
        by (intro exI [of _ c] exI [of _ "cm_survivor_id m"]) auto
    qed
    ultimately show ?case by blast
  qed
  then show "distinct (all_losers ms)" "set (all_losers ms) \<subseteq> set (concat cs)"
    "\<And>i. i \<in> set (all_losers ms) \<Longrightarrow> \<exists>c s. c \<in> set cs \<and> i \<in> set c \<and> s \<in> set c \<and> s \<notin> set (all_losers ms)"
    by blast+
qed

lemma plan_merge_planned:
  assumes "distinct (fact_ids d)" and "build_clusters cosine threshold identity d = Some cs"
  shows "\<exists>ms. plan_merge cosine threshold cutoff identity n d
      = Some (Inr \<lparr>mp_clusters = ms, mp_starting_fact_count = int (length (db_facts d))\<rparr>)
    \<and> list_all2 (planned d) cs ms"
proof -
  have "\<exists>m. plan_cluster d cutoff n c = Inr m \<and> planned d c m" if "c \<in> set cs" for c
    using clusters_active [OF assms(2) that] by (intro plan_cluster_planned [OF assms(1)]) auto
  from map_res_related [of cs "plan_cluster d cutoff n" "planned d", OF this] obtain ms where "map_res (plan_cluster d cutoff n) cs = Inr ms" "list_all2 (planned d) cs ms"
    by blast
  with assms(2) show ?thesis by (simp add: plan_merge_def)
qed

section \<open>Execution\<close>

text \<open>What the guards of an execution leave through.\<close>

definition admitted :: "merge_host \<Rightarrow> merge_options \<Rightarrow> int \<Rightarrow> int \<Rightarrow> bool" where
  "admitted mh opts starting dropped \<longleftrightarrow> mh_exists mh (mo_backup_path opts)
     \<and> mo_expected_drop_min opts \<le> dropped \<and> dropped \<le> mo_expected_drop_max opts
     \<and> (0 < starting \<longrightarrow> of_int dropped \<le> mo_max_drop_fraction opts * of_int starting)"

lemma check_guard_rails_cases:
  "check_guard_rails mh opts plan = Inr () \<and> admitted mh opts (mp_starting_fact_count plan) (drop_count plan)
   \<or> (\<exists>m. check_guard_rails mh opts plan = Inl (GuardRailError m)) \<and> \<not> admitted mh opts (mp_starting_fact_count plan) (drop_count plan)"
  by (auto simp: check_guard_rails_def admitted_def guard_res_def not_less)

lemma survivor_of_total: "rows \<noteq> [] \<Longrightarrow> \<exists>x. survivor_of d cutoff rows = Inr x"
  unfolding survivor_of_def Let_def
  by (cases "filter (merge_active d) rows") (auto split: list.split simp: filter_empty_conv)

lemma plan_merge_total:
  "\<exists>plan. plan_merge cosine threshold cutoff identity n d = Some (Inr plan)
    \<and> mp_starting_fact_count plan = int (length (db_facts d))"
proof -
  from build_clusters_components [of cosine threshold identity d] obtain cs
    where cs: "build_clusters cosine threshold identity d = Some cs" by blast
  have "\<exists>m. plan_cluster d cutoff n c = Inr m \<and> True" if "c \<in> set cs" for c
  proof -
    have sub: "set c \<subseteq> set (fact_ids d)" "c \<noteq> []"
      using clusters_active [OF cs that] active_fact_ids_subset by auto
    have "map (\<lambda>i. the (fact_by_id d i)) c \<noteq> []" using sub(2) by simp
    from survivor_of_total [OF this, of d cutoff] show ?thesis
      by (auto simp: plan_cluster_def choose_survivor_def fact_rows_present [OF sub(1)])
  qed
  from map_res_related [of cs "plan_cluster d cutoff n" "\<lambda>_ _. True", OF this] obtain ms where "map_res (plan_cluster d cutoff n) cs = Inr ms" by blast
  with cs show ?thesis by (simp add: plan_merge_def)
qed

text \<open>C37: a merge run always ends, either with a guard-rail refusal, which changes nothing, or with a result; a
  result means that no part of the path or of its resolved form is \<open>.hermes\<close>, and that either the run was
  dry and changed nothing, or the backup exists and the drop count is inside the expected band and within
  the allowed fraction of all facts.
\<close>

theorem merge_guarded:
  "\<exists>r d'. execute_merge mh opts d = Some (r, d') \<and>
     (case r of
        Inl e \<Rightarrow> d' = d \<and> (\<exists>m. e = GuardRailError m)
      | Inr res \<Rightarrow>
          ''.hermes'' \<notin> set (path_parts (mo_db_path opts))
          \<and> ''.hermes'' \<notin> set (path_parts (mh_realpath mh (mo_db_path opts)))
          \<and> mr_dry_run res = mo_dry_run opts
          \<and> mr_projected_final_count res = int (length (db_facts d)) - mr_drop_count res
          \<and> (if mo_dry_run opts then d' = d
             else mh_exists mh (mo_backup_path opts)
               \<and> mo_expected_drop_min opts \<le> mr_drop_count res \<and> mr_drop_count res \<le> mo_expected_drop_max opts
               \<and> (db_facts d = [] \<or> of_int (mr_drop_count res) \<le> mo_max_drop_fraction opts * of_int (int (length (db_facts d))))))"
proof (cases "refuse_if_live_path (mh_realpath mh) (mo_db_path opts)")
  case (Inl e)
  then show ?thesis by (auto simp: execute_merge_def refuse_if_live_path_def split: if_splits)
next
  case (Inr u)
  obtain plan where plan: "plan_merge (mh_cosine mh) (mo_threshold opts) (mo_flood_cutoff opts) (mo_embedding_identity opts)
      (mo_suspicious_cluster_size opts) d = Some (Inr plan)" "mp_starting_fact_count plan = int (length (db_facts d))"
    using plan_merge_total by blast
  have run: "execute_merge mh opts d = Some (run_merge mh opts (Inr plan) d)"
    using Inr plan(1) by (simp add: execute_merge_def)
  have path: "''.hermes'' \<notin> set (path_parts (mo_db_path opts))"
    "''.hermes'' \<notin> set (path_parts (mh_realpath mh (mo_db_path opts)))"
    using Inr by (auto simp: refuse_if_live_path_def split: if_splits)
  show ?thesis
  proof (cases "mo_dry_run opts")
    case True
    then show ?thesis using run path plan(2) by (simp add: run_merge_def projected_final_count_def)
  next
    case False
    then show ?thesis using run path plan(2) check_guard_rails_cases [of mh opts plan]
      by (auto simp: run_merge_def projected_final_count_def admitted_def Let_def)
  qed
qed

text \<open>C35: an executed merge of a store with one vector per fact conserves the totals of the retrieval and the
  helpful counts, ends with exactly the projected number of facts, removes a fact only when a fact that stays
  is connected to it by near-duplicate pairs, and leaves every fact that has no near duplicate untouched.
\<close>

theorem executed_merge_conserves:
  assumes "distinct (fact_ids d)"
    and "distinct (map e_fact_id (cluster_rows (mo_embedding_identity opts) d))"
    and "execute_merge mh opts d = Some (Inr res, d')" and "\<not> mo_dry_run opts"
  shows "sum_list (map f_retrieval_count (db_facts d')) = sum_list (map f_retrieval_count (db_facts d))
    \<and> sum_list (map f_helpful_count (db_facts d')) = sum_list (map f_helpful_count (db_facts d))
    \<and> mr_final_fact_count res = Some (mr_projected_final_count res)
    \<and> int (length (db_facts d')) = mr_projected_final_count res
    \<and> set (fact_ids d') \<subseteq> set (fact_ids d)
    \<and> (\<forall>i. i \<in> set (fact_ids d) \<and> i \<notin> set (fact_ids d') \<longrightarrow>
        (\<exists>s. s \<in> set (fact_ids d') \<and> s \<noteq> i
           \<and> (i, s) \<in> near_connected (mh_cosine mh) (mo_threshold opts) (cluster_rows (mo_embedding_identity opts) d)))
    \<and> (\<forall>i. (\<forall>s. s \<noteq> i \<longrightarrow> (i, s) \<notin> near_connected (mh_cosine mh) (mo_threshold opts) (cluster_rows (mo_embedding_identity opts) d))
        \<longrightarrow> fact_by_id d' i = fact_by_id d i)"
proof -
  let ?C = "near_connected (mh_cosine mh) (mo_threshold opts) (cluster_rows (mo_embedding_identity opts) d)"
  obtain cs where cs: "build_clusters (mh_cosine mh) (mo_threshold opts) (mo_embedding_identity opts) d = Some cs"
    using build_clusters_components by blast
  from plan_merge_planned [OF assms(1) cs] obtain ms where
    plan: "plan_merge (mh_cosine mh) (mo_threshold opts) (mo_flood_cutoff opts) (mo_embedding_identity opts)
      (mo_suspicious_cluster_size opts) d = Some (Inr \<lparr>mp_clusters = ms, mp_starting_fact_count = int (length (db_facts d))\<rparr>)"
    and ms: "list_all2 (planned d) cs ms" by blast
  note disjoint = clusters_disjoint [OF cs assms(2)]
  have sub: "set (concat cs) \<subseteq> set (fact_ids d)"
    using clusters_active(1) [OF cs] active_fact_ids_subset by fastforce
  note losers = losers_in_clusters [OF ms disjoint(1)]
  have d': "d' = fold apply_cluster ms d"
    and res: "mr_final_fact_count res = Some (int (length (db_facts d')))"
      "mr_projected_final_count res = int (length (db_facts d)) - int (length (all_losers ms))"
    using assms(3,4) plan
    by (auto simp: execute_merge_def run_merge_def Let_def apply_merge_def projected_final_count_def drop_count_losers
        split: sum.splits)
  note all = apply_all [OF ms assms(1) disjoint(1) sub, folded d']
  have ids: "fact_ids d' = filter (\<lambda>i. i \<notin> set (all_losers ms)) (fact_ids d)" using all by blast
  have "int (length (fact_ids d')) = int (length (fact_ids d)) - int (length (all_losers ms))"
    unfolding ids using losers(2) sub by (intro length_filter_notin [OF assms(1) losers(1)]) blast
  then have count: "int (length (db_facts d')) = mr_projected_final_count res" by (simp add: res(2) fact_ids_def)
  have removed: "\<exists>s. s \<in> set (fact_ids d') \<and> s \<noteq> i \<and> (i, s) \<in> ?C"
    if "i \<in> set (fact_ids d) \<and> i \<notin> set (fact_ids d')" for i
  proof -
    from that have i: "i \<in> set (all_losers ms)" unfolding ids by simp
    from losers(3) [OF this] obtain c s where c: "c \<in> set cs" "i \<in> set c" "s \<in> set c" "s \<notin> set (all_losers ms)" by blast
    then have "s \<in> set (fact_ids d')" using sub unfolding ids by auto
    moreover have "s \<noteq> i" using c(4) i by auto
    ultimately show ?thesis using disjoint(2) [OF c(1-3)] by blast
  qed
  have untouched: "fact_by_id d' i = fact_by_id d i" if "\<forall>s. s \<noteq> i \<longrightarrow> (i, s) \<notin> ?C" for i
  proof -
    have "i \<notin> set (concat cs)"
    proof
      assume "i \<in> set (concat cs)"
      then obtain c where c: "c \<in> set cs" "i \<in> set c" by auto
      have "set c \<subseteq> {i}" using disjoint(2) [OF c] that by blast
      moreover have "distinct c" using disjoint(1) c(1) by (simp add: distinct_concat_iff)
      ultimately have "length c \<le> 1" using card_mono [of "{i}" "set c"] distinct_card [of c] by simp
      then show False using clusters_active(2) [OF cs c(1)] by simp
    qed
    with all show ?thesis by blast
  qed
  show ?thesis using all count res(1) removed untouched ids by auto
qed

section \<open>A store with near duplicates\<close>

definition demo_merge_host :: merge_host where
  "demo_merge_host = \<lparr>mh_cosine = (\<lambda>u v. if u = v then 1 else 0), mh_realpath = (\<lambda>s. s), mh_exists = (\<lambda>s. s = ''b''),
     mh_percent = (\<lambda>q. ''50%''), mh_integrity_ok = (\<lambda>d. True), mh_fts_ok = (\<lambda>d. True)\<rparr>"

definition demo_merge_options :: merge_options where
  "demo_merge_options = \<lparr>mo_db_path = ''c/m'', mo_threshold = 9/10, mo_flood_cutoff = ''u'', mo_embedding_identity = None,
     mo_backup_path = ''b'', mo_expected_drop_min = 0, mo_expected_drop_max = 2, mo_dry_run = False,
     mo_suspicious_cluster_size = 25, mo_max_drop_fraction = 1/2\<rparr>"

definition demo_vector :: "int \<Rightarrow> string \<Rightarrow> string \<Rightarrow> embedding_row" where
  "demo_vector i v identity = \<lparr>e_fact_id = i, e_embedding = v, e_dim = 1, e_identity = identity\<rparr>"

definition demo_counted :: "int \<Rightarrow> int \<Rightarrow> fact" where
  "demo_counted i n = (demo_fact i ''likes tea'')\<lparr>f_retrieval_count := n, f_helpful_count := 1\<rparr>"

definition demo_near_db :: db where
  "demo_near_db = empty_db\<lparr>db_fact_seq := 3, db_facts := [demo_counted 1 2, demo_counted 2 5, demo_counted 3 1],
     db_embeddings := [demo_vector 1 ''v'' ''m'', demo_vector 2 ''v'' ''m'', demo_vector 3 ''w'' ''m'']\<rparr>"

definition demo_near_merged :: db where
  "demo_near_merged = empty_db\<lparr>db_fact_seq := 3,
     db_facts := [(demo_counted 2 7)\<lparr>f_helpful_count := 2\<rparr>, demo_counted 3 1],
     db_embeddings := [demo_vector 2 ''v'' ''m'', demo_vector 3 ''w'' ''m'']\<rparr>"

definition demo_near_result :: merge_result where
  "demo_near_result = \<lparr>mr_dry_run = False, mr_drop_count = 1, mr_projected_final_count = 2,
     mr_final_fact_count = Some 2, mr_integrity_ok = Some True, mr_fts_integrity_ok = Some True\<rparr>"

lemma demo_near_executed:
  "execute_merge demo_merge_host demo_merge_options demo_near_db = Some (Inr demo_near_result, demo_near_merged)"
  by code_simp

theorem executed_merge_conserves_witness:
  "distinct (fact_ids demo_near_db)
   \<and> distinct (map e_fact_id (cluster_rows (mo_embedding_identity demo_merge_options) demo_near_db))
   \<and> execute_merge demo_merge_host demo_merge_options demo_near_db = Some (Inr demo_near_result, demo_near_merged)
   \<and> \<not> mo_dry_run demo_merge_options
   \<and> sum_list (map f_retrieval_count (db_facts demo_near_merged)) = sum_list (map f_retrieval_count (db_facts demo_near_db))
   \<and> (\<exists>s. s \<in> set (fact_ids demo_near_merged) \<and> s \<noteq> 1
        \<and> (1, s) \<in> near_connected (mh_cosine demo_merge_host) (mo_threshold demo_merge_options)
             (cluster_rows (mo_embedding_identity demo_merge_options) demo_near_db))"
proof -
  have hyps: "distinct (fact_ids demo_near_db)"
    "distinct (map e_fact_id (cluster_rows (mo_embedding_identity demo_merge_options) demo_near_db))"
    "\<not> mo_dry_run demo_merge_options" by code_simp+
  have "1 \<in> set (fact_ids demo_near_db)" "1 \<notin> set (fact_ids demo_near_merged)" by code_simp+
  then show ?thesis
    using executed_merge_conserves [OF hyps(1,2) demo_near_executed hyps(3)] hyps demo_near_executed by blast
qed

section \<open>What the merge does not look at\<close>

text \<open>
  Without an embedding identity every vector of a fact is a row of its own: a fact embedded under two
  identities is a cluster by itself, loses nothing, and has its counts doubled.
\<close>

definition demo_two_vectors :: db where
  "demo_two_vectors = empty_db\<lparr>db_fact_seq := 1, db_facts := [demo_counted 1 2],
     db_embeddings := [demo_vector 1 ''v'' ''m'', demo_vector 1 ''v'' ''n'']\<rparr>"

theorem merge_doubles_counts:
  "map_option (map_prod (map_sum id mr_drop_count) (map f_retrieval_count \<circ> db_facts))
     (execute_merge demo_merge_host demo_merge_options demo_two_vectors) = Some (Inr 0, [4])
   \<and> map f_retrieval_count (db_facts demo_two_vectors) = [2]"
  by code_simp

text \<open>
  The merge reads no conflict group: it removes a member of an open conflict, whose membership row stays
  behind.
\<close>

definition demo_conflict_vectors :: db where
  "demo_conflict_vectors = demo_db\<lparr>db_embeddings := [demo_vector 1 ''v'' ''m'', demo_vector 2 ''v'' ''m'']\<rparr>"

theorem merge_strands_conflict_member:
  "slot_inv demo_conflict_vectors \<and>
   (case execute_merge demo_merge_host demo_merge_options demo_conflict_vectors of
      Some (Inr res, d') \<Rightarrow> (''c1'', 2) \<in> set (db_conflict_members d') \<and> 2 \<notin> set (fact_ids d')
        \<and> list_ex (\<lambda>k. k_id k = ''c1'' \<and> k_resolved_at k = None) (db_conflicts d')
    | _ \<Rightarrow> False)"
proof
  show "slot_inv demo_conflict_vectors"
    using demo_db_slot_inv by (simp add: demo_conflict_vectors_def slot_inv_defs conflict_ok_def fact_ids_def
        slot_unique_def superseded_fk_def)
qed code_simp

end
