(* ===== verification/Spec2Isabelle.thy ===== *)
theory Spec2Isabelle
  imports Embedding_Guarantees Erasure_Guarantees Extraction_Guarantees Merge_Guarantees
begin

text \<open>
  Enfold is a local memory service for agents: typed and untyped facts in one SQLite store, written
  through a policy-checked, idempotent transaction, read back by scope, embedded and extracted by
  background workers, packed into prompts, and erased on request. This development models the Python
  sources under \<open>src/enfold\<close> as HOL functions and proves what makes them correct.

  \<^bold>\<open>Parts and how they interact.\<close> A connection (\<open>daemon.py\<close>) reads frames (\<open>protocol.py\<close>), negotiates a
  handshake and passes requests to the service (\<open>service.py\<close>), which authorises the connection
  (\<open>policy.py\<close>) and runs one of twelve handlers. A write (\<open>write_service.py\<close>) decides the state slot
  (\<open>state_slots.py\<close>), may merge a near duplicate (\<open>cluster_merge.py\<close>), stores the fact (\<open>core_store.py\<close>),
  records evidence and the idempotency log (\<open>provenance.py\<close>) and enqueues an embedding job in the same
  transaction (\<open>embedding_jobs.py\<close>). Transcripts wait in a second leased queue (\<open>extract_queue.py\<close>,
  \<open>extraction_enqueue.py\<close>); the processor (\<open>extraction_processor.py\<close>) claims them, lets a model propose
  memories and writes those through the same service. Reads are packed for prompts by \<open>context.py\<close> and
  projected by \<open>projections.py\<close>; \<open>temporal.py\<close> keeps supersession and histories; \<open>erasure.py\<close> removes a fact
  and its copies.

  \<^bold>\<open>State.\<close> A table is a list of rows, a row a record (\<open>Store\<close>); the database is the record \<open>db\<close>. An
  SQL statement is a function on it that returns the constraint violation or the new database, and a
  transaction returns the old database on an exception. Errors are values of \<open>exc + 'a\<close> (\<open>Prelude\<close>).
  Library behaviour that the code only compares or stores (SHA-256, float text, date parsing, UUIDs,
  clocks, the embedding model, FTS ranking, binary floating point) is an argument, with its documented
  behaviour as a hypothesis where a theorem needs it. Texts are Latin-1 and floats exact rationals.

  \<^bold>\<open>Theories.\<close>
  \<^item> \<open>Prelude\<close>, \<open>Utf8\<close>, \<open>Json\<close>, \<open>Json_Parse\<close>, \<open>Json_Roundtrip\<close>, \<open>Regex\<close>: Python texts, results, SQL statements,
    \<open>json.dumps\<close> and \<open>json.loads\<close> with their round trip, the fragment of \<open>re\<close> in use.
  \<^item> \<open>Store\<close>, \<open>Provenance\<close>, \<open>Policy\<close>: rows and constraints, value objects with their checks, scope grants and
    credential screens. A context never gains a scope it was not granted; an AWS key never passes.
  \<^item> \<open>State_Slots\<close>, \<open>Slot_Invariant\<close>, \<open>Conflict_Lifecycle\<close>, \<open>Slot_Decision\<close>: the decision of a typed write, conflicts
    and their resolution. The invariant \<open>slot_inv\<close>: a slot is empty, settled on one fact, or in exactly one open
    conflict made of its current facts. Reads are exact on it, every open conflict can be resolved.
  \<^item> \<open>Core_Store\<close>, \<open>Near_Dedup\<close>: reads, history and near-duplicate candidates; reads stay in scope.
  \<^item> \<open>Cluster_Merge\<close>, \<open>Cluster_Components\<close>, \<open>Merge_Guarantees\<close>: the offline merge of near duplicates. Union-find ends
    and its clusters are the components of the near-duplicate graph; runs are guarded; an executed merge
    conserves the counts and drops a fact only for a near duplicate that stays.
  \<^item> \<open>Write_Service\<close> (the whole write transaction, every branch), \<open>Write_Invariant\<close>, \<open>Write_Replay\<close>,
    \<open>Write_Effects\<close>, \<open>Write_Read\<close>: it keeps \<open>slot_inv\<close>, replays are idempotent, refused writes store
    nothing, history is never lost, and what was written is what is read.
  \<^item> \<open>Lease\<close>: the contract of a leased work queue as the locale \<open>leased_queue\<close> (a claim is fenced off once
    another one succeeds). It is interpreted on the embedding outbox (\<open>Embedding_Jobs\<close>, \<open>Embedding_Lease\<close>,
    \<open>Embedding_Guarantees\<close>), on the transcript queue (\<open>Extract_Queue\<close>, \<open>Queue_Guarantees\<close>) and on the
    extraction processor (below); they add claim order, bounded attempts, final dead letters,
    backfill coverage and payload uniqueness.
  \<^item> \<open>Erasure\<close>, \<open>Erasure_Guarantees\<close>: the erasure transaction, that no copy of the text is left in the modelled
    tables, and counterexamples where it strands a conflict, is blocked, or leaves a proposal.
  \<^item> \<open>Context_Pack\<close>, \<open>Context_Guarantees\<close>: packs stay within the token budget, hold only safe facts, one per
    slot; the binary search for a cut equals the linear one; the selection is greedy.
  \<^item> \<open>Temporal\<close>: the schema step, value updates, supersession, and that a history is exactly the facts sharing an
    ancestor with the given one.
  \<^item> \<open>Projections\<close>, \<open>Projection_Guarantees\<close>: changes, timelines, entities and dossiers; their size bound, their
    scopes, which events they scan and what they count.
  \<^item> \<open>Protocol\<close>, \<open>Protocol_Roundtrip\<close>: frames, validation, negotiation and the codec; every well-formed frame
    survives a round trip, every decoded frame is well formed.
  \<^item> \<open>Connection\<close>, \<open>Connection_Guarantees\<close>: one connection of the daemon from bytes to handler calls and replies.
    It refines an abstract session machine, calls need a handshake and its capabilities, and how the
    bytes are cut into chunks does not matter.
  \<^item> \<open>Service\<close>, \<open>Service_Guarantees\<close>: validators, authorisation, the handlers, routing. Replies stay within their
    caps and the client's scopes, failed requests change nothing, resolutions need authority. The locale
    \<open>handler_invariant\<close> carries an invariant of the handlers through the whole connection; its
    interpretation on the service gives \<open>slot_inv\<close> for every byte stream.
  \<^item> \<open>Extraction_Processor\<close>: claims, envelopes, proposal snapshots, the writes and their failures. An attempt is a
    function of the clock readings, the token, the model and what other connections commit between
    its transactions. \<open>Extraction_Leases\<close> interprets \<open>leased_queue\<close> on it and shows that stored snapshots
    stay; \<open>Extraction_Snapshots\<close> bounds what automatic extraction may write and shows that snapshots are read
    back; \<open>Extraction_Guarantees\<close> has the locale \<open>attempt_invariant\<close> (what the service, the others and the
    queue updates keep, an attempt keeps), interpreted on \<open>slot_inv\<close>, and the outcome of an attempt.

  \<^bold>\<open>Bounds and fuel.\<close> The JSON parser recurses on fuel; it starts with one more than the length of the
  text and every call consumes a character, and \<open>loads_dumps\<close> shows this is enough for every
  dumped value. The worker loop runs over the list of events it meets. The loops of union-find are
  \<open>while_option\<close>, and \<open>uf_find_rep\<close> shows that they end. All other loops are structural or have a
  termination proof.

  \<^bold>\<open>Not modelled.\<close> Sockets, processes, threads, file locks and the MCP and host front ends; schema
  migration, backup and operations (file system and DDL); dense retrieval, rerankers and vector indexes
  (floating point and native code); subprocess and HTTP model adapters;
  debugging reports; the evaluation harness. Python's recursion limit is not modelled: a deeply
  nested text that exhausts the interpreter's stack is decoded here.
\<close>

end
